(* ===== verification/Prelude.thy ===== *)
theory Prelude
  imports Main "HOL-Library.Word"
begin

unbundle bit_operations_syntax

text \<open>
  Shared vocabulary of the development: the machine integers of the Rust code, the
  result type in which every panic of the source is a value, Rust's checked arithmetic,
  the bit-field accessors that the \<open>bitfield!\<close> declarations and the \<open>BitField\<close> calls
  of the source expand to, and the generic lemmas on them that the component
  theories use through the collections \<open>bitfield_simps\<close> and \<open>rust_simps\<close>.
\<close>

section \<open>Machine integers\<close>

type_synonym u8 = "8 word"
type_synonym u16 = "16 word"
type_synonym u32 = "32 word"
type_synonym u64 = "64 word"

named_theorems bitfield_simps "reading bit fields after writing them"
named_theorems rust_simps "sequencing of computations that may panic"

section \<open>Panics\<close>

text \<open>
  A Rust computation that can panic returns \<open>Inl p\<close> with the cause \<open>p\<close>, and \<open>Inr v\<close>
  when it completes with the value \<open>v\<close>. A busy wait that does not end is an \<open>Inl\<close> as well, so
  a result \<open>Inr v\<close> always means that the code returns.
\<close>

datatype panic =
    AssertFailed string      \<comment> \<open>\<open>assert!\<close>\<close>
  | UnwrapFailed string      \<comment> \<open>\<open>unwrap\<close> and \<open>expect\<close> on \<open>None\<close> or \<open>Err\<close>\<close>
  | Overflow                 \<comment> \<open>arithmetic overflow with overflow checks on\<close>
  | IndexOutOfBounds         \<comment> \<open>slice indexing\<close>
  | LengthMismatch           \<comment> \<open>\<open>copy_from_slice\<close> on slices of different lengths\<close>
  | ExplicitPanic string     \<comment> \<open>\<open>panic!\<close>\<close>
  | NoReturn                 \<comment> \<open>not a panic: the busy wait goes on\<close>

type_synonym 'a rust = "panic + 'a"

definition and_then :: "'a rust \<Rightarrow> ('a \<Rightarrow> 'b rust) \<Rightarrow> 'b rust" where
  "and_then m f = (case m of Inl p \<Rightarrow> Inl p | Inr x \<Rightarrow> f x)"

definition assert_that :: "bool \<Rightarrow> string \<Rightarrow> unit rust" where
  "assert_that b msg = (if b then Inr () else Inl (AssertFailed msg))"

definition unwrap :: "string \<Rightarrow> 'a option \<Rightarrow> 'a rust" where
  "unwrap msg x = (case x of None \<Rightarrow> Inl (UnwrapFailed msg) | Some v \<Rightarrow> Inr v)"

text \<open>\<open>call_once\<close> of a static \<open>Once\<close>: the first value stays.\<close>

definition call_once :: "'a \<Rightarrow> 'a option \<Rightarrow> 'a option" where
  "call_once v once = (case once of None \<Rightarrow> Some v | Some w \<Rightarrow> Some w)"

text \<open>
  Integer addition of the source. With overflow checks (the \<open>dev\<close> profile) an overflow
  panics; without them (the \<open>release\<close> profile) the sum wraps. The first argument says
  which of the two the build has.
\<close>

definition add_checked :: "bool \<Rightarrow> 'a::len word \<Rightarrow> 'a word \<Rightarrow> 'a word rust" where
  "add_checked overflow_checks a b =
     (if overflow_checks \<and> unat a + unat b \<ge> 2 ^ LENGTH('a) then Inl Overflow else Inr (a + b))"

text \<open>
  \<open>a << n\<close>: a shift by the width or more panics with overflow checks, and without them
  uses the shift amount modulo the width.
\<close>

definition shl_checked :: "bool \<Rightarrow> 'a::len word \<Rightarrow> nat \<Rightarrow> 'a word rust" where
  "shl_checked overflow_checks a n =
     (if n < LENGTH('a) then Inr (push_bit n a)
      else if overflow_checks then Inl Overflow else Inr (push_bit (n mod LENGTH('a)) a))"

section \<open>Bit fields\<close>

text \<open>\<open>get_bit\<close> and \<open>get_bits(lo..=hi)\<close> of the \<open>BitField\<close> trait.\<close>

definition get_bit :: "nat \<Rightarrow> 'a::len word \<Rightarrow> bool" where
  "get_bit n w = bit w n"

definition get_bits :: "nat \<Rightarrow> nat \<Rightarrow> 'a::len word \<Rightarrow> 'a word" where
  "get_bits lo hi w = take_bit (Suc hi - lo) (drop_bit lo w)"

text \<open>
  The setters that \<open>bitfield!\<close> generates: \<open>set_f: n\<close> writes one bit, \<open>set_f: msb, lsb\<close>
  writes the bits \<open>lsb\<close> to \<open>msb\<close> and keeps the others.
\<close>

definition set_flag :: "nat \<Rightarrow> bool \<Rightarrow> 'a::len word \<Rightarrow> 'a word" where
  "set_flag n b w = (if b then set_bit n w else unset_bit n w)"

definition set_field :: "nat \<Rightarrow> nat \<Rightarrow> 'a::len word \<Rightarrow> 'a word \<Rightarrow> 'a word" where
  "set_field msb lsb v w =
     (w AND NOT (push_bit lsb (mask (Suc msb - lsb)))) OR push_bit lsb (take_bit (Suc msb - lsb) v)"

section \<open>Lemmas on panicking computations\<close>

lemma and_then_Inr [simp, rust_simps]: "and_then (Inr x) f = f x"
  by (simp add: and_then_def)

lemma and_then_Inl [simp, rust_simps]: "and_then (Inl p) f = Inl p"
  by (simp add: and_then_def)

lemma and_then_eq_Inr_iff [rust_simps]:
  "and_then m f = Inr y \<longleftrightarrow> (\<exists>x. m = Inr x \<and> f x = Inr y)"
  by (cases m) auto

lemma and_then_Inr_right [simp]: "and_then m Inr = m"
  by (cases m) auto

lemma and_then_assoc: "and_then (and_then m f) g = and_then m (\<lambda>x. and_then (f x) g)"
  by (cases m) auto

lemma assert_that_True [simp]: "assert_that True msg = Inr ()"
  by (simp add: assert_that_def)

lemma assert_that_eq_Inr_iff [rust_simps]: "assert_that b msg = Inr u \<longleftrightarrow> b"
  by (simp add: assert_that_def)

lemma unwrap_Some [simp]: "unwrap msg (Some v) = Inr v"
  by (simp add: unwrap_def)

lemma unwrap_None [simp]: "unwrap msg None = Inl (UnwrapFailed msg)"
  by (simp add: unwrap_def)

lemma unwrap_eq_Inr_iff [rust_simps]: "unwrap msg x = Inr v \<longleftrightarrow> x = Some v"
  by (cases x) auto

lemma add_checked_no_overflow [simp]:
  "unat a + unat b < 2 ^ LENGTH('a) \<Longrightarrow> add_checked oc a b = Inr (a + b)"
  for a b :: "'a::len word"
  by (simp add: add_checked_def)

section \<open>Lemmas on bit fields\<close>

lemma bit_get_bits [bitfield_simps]:
  "bit (get_bits lo hi w) n \<longleftrightarrow> n < Suc hi - lo \<and> bit w (lo + n)"
  by (auto simp: get_bits_def bit_simps)

lemma bit_set_flag [bitfield_simps]:
  "bit (set_flag n b w) m \<longleftrightarrow> (if m = n then b \<and> n < LENGTH('a) else bit w m)"
  for w :: "'a::len word"
  by (auto simp: set_flag_def bit_simps dest: bit_imp_le_length)

lemma bit_set_field [bitfield_simps]:
  "bit (set_field msb lsb v w) n \<longleftrightarrow>
     (if lsb \<le> n \<and> n \<le> msb then n < LENGTH('a) \<and> bit v (n - lsb) else bit w n)"
  for w :: "'a::len word"
  by (auto simp: set_field_def bit_simps dest: bit_imp_le_length)

lemma get_bit_set_flag [bitfield_simps]:
  "get_bit m (set_flag n b w) = (if m = n then b \<and> n < LENGTH('a) else get_bit m w)"
  for w :: "'a::len word"
  by (simp add: get_bit_def bit_set_flag)

lemma get_bit_set_field_other [bitfield_simps]:
  "n < lsb \<or> msb < n \<Longrightarrow> get_bit n (set_field msb lsb v w) = get_bit n w"
  by (auto simp: get_bit_def bit_set_field)

lemma get_bits_set_field_same [bitfield_simps]:
  "msb < LENGTH('a) \<Longrightarrow> get_bits lsb msb (set_field msb lsb v w) = take_bit (Suc msb - lsb) v"
  for w :: "'a::len word"
  by (rule bit_word_eqI) (auto simp: bit_get_bits bit_set_field bit_simps)

lemma get_bits_set_flag_other [bitfield_simps]:
  "n < lo \<or> hi < n \<Longrightarrow> get_bits lo hi (set_flag n b w) = get_bits lo hi w"
  by (rule bit_word_eqI) (auto simp: bit_get_bits bit_set_flag)

lemma get_bits_set_field_other [bitfield_simps]:
  "hi < lsb \<or> msb < lo \<Longrightarrow> get_bits lo hi (set_field msb lsb v w) = get_bits lo hi w"
  by (rule bit_word_eqI) (auto simp: bit_get_bits bit_set_field)

lemma unat_get_bits: "unat (get_bits lo hi w) = (unat w div 2 ^ lo) mod 2 ^ (Suc hi - lo)"
proof -
  have "unat (get_bits lo hi w) = take_bit (Suc hi - lo) (drop_bit lo (unat w))"
    by (simp add: get_bits_def unsigned_take_bit_eq unat_drop_bit_eq)
  then show ?thesis
    by (simp add: take_bit_nat_def drop_bit_nat_def)
qed

lemma unat_get_bits_less: "unat (get_bits lo hi w) < 2 ^ (Suc hi - lo)"
  by (simp add: unat_get_bits)

lemma unat_less_exp:
  assumes "\<And>n. k \<le> n \<Longrightarrow> \<not> bit w n"
  shows "unat w < 2 ^ k"
proof -
  have "take_bit k w = w"
    using assms by (intro bit_word_eqI) (auto simp: bit_simps not_le [symmetric])
  then have "unat w = take_bit k (unat w)" by (metis unsigned_take_bit_eq)
  then show ?thesis by (metis take_bit_nat_less_exp)
qed

lemma unat_lt_exp: "unat w < 2 ^ LENGTH('a)" for w :: "'a::len word"
  by (rule unsigned_less)

lemma unat_ucast_up:
  "LENGTH('a) \<le> LENGTH('b) \<Longrightarrow> unat (ucast w :: 'b::len word) = unat w"
  for w :: "'a::len word"
proof -
  assume "LENGTH('a) \<le> LENGTH('b)"
  then have "unat w < 2 ^ LENGTH('b)"
    by (rule order_less_le_trans [OF unat_lt_exp power_increasing]) simp
  then show ?thesis by (simp add: unsigned_ucast_eq take_bit_nat_eq_self_iff)
qed

lemma less_div_iff: "0 < c \<Longrightarrow> j < n div c \<longleftrightarrow> c * (j + 1) \<le> n" for c :: nat
  by (metis Suc_eq_plus1 Suc_le_eq less_eq_div_iff_mult_less_eq mult.commute)

text \<open>Masks that the code writes as literals.\<close>

lemma and_low_masks:
  fixes w :: "'a::len word"
  shows "w AND 0xf = take_bit 4 w" and "w AND 0xff = take_bit 8 w" and "w AND 0xfff = take_bit 12 w"
    and "w AND 0xffff = take_bit 16 w" and "w AND 0xffffffff = take_bit 32 w"
  by (simp_all add: take_bit_eq_mask mask_eq_exp_minus_1)

lemma bit_less_exp: "unat w < 2 ^ k \<Longrightarrow> bit w n \<Longrightarrow> n < k"
proof (rule ccontr)
  assume w: "unat w < 2 ^ k" and b: "bit w n" and "\<not> n < k"
  then have "unat w < 2 ^ n"
    by (metis not_less order_less_le_trans power_increasing one_le_numeral)
  then have "take_bit n w = w"
    by (metis take_bit_nat_eq_self_iff unsigned_take_bit_eq unsigned_word_eqI)
  with b show False by (metis bit_take_bit_iff order_less_irrefl)
qed

lemma get_bits_set_field_sub [bitfield_simps]:
  "lsb \<le> lo \<Longrightarrow> lo \<le> hi \<Longrightarrow> hi \<le> msb \<Longrightarrow> msb < LENGTH('a) \<Longrightarrow>
     get_bits lo hi (set_field msb lsb v w) = get_bits (lo - lsb) (hi - lsb) v"
  for w :: "'a::len word"
  by (rule bit_word_eqI) (auto simp: bit_get_bits bit_set_field)


lemma mult_add_eq_iff:
  "j < c \<Longrightarrow> j' < c \<Longrightarrow> c * i + j = c * i' + j' \<longleftrightarrow> i = i' \<and> j = j'" for c :: nat
proof
  assume j: "j < c" "j' < c" and eq: "c * i + j = c * i' + j'"
  have "(c * i + j) div c = i" "(c * i' + j') div c = i'" using j by simp_all
  with eq have "i = i'" by simp
  with eq show "i = i' \<and> j = j'" by simp
qed simp

lemma unat_add_le: "unat (a + b) \<le> unat a + unat b"
  by (simp add: unat_word_ariths)


lemma and_not_fff:
  fixes w :: "'a::len word"
  shows "w AND NOT 0xfff = push_bit 12 (drop_bit 12 w)" and "w AND - 4096 = push_bit 12 (drop_bit 12 w)"
proof -
  have m: "(0xfff :: 'a word) = mask 12" by (simp add: mask_eq_exp_minus_1)
  show "w AND NOT 0xfff = push_bit 12 (drop_bit 12 w)"
    unfolding m by (rule bit_word_eqI) (auto simp: bit_simps)
  then show "w AND - 4096 = push_bit 12 (drop_bit 12 w)" by simp
qed

end
