(* ===== verification/Paging.thy ===== *)
theory Paging
  imports Prelude
begin

unbundle bit_operations_syntax

text \<open>
  The identity-mapped paging structures of \<open>hypervisor/paging_structures.rs\<close>, used both
  for the host (\<open>npt = False\<close>) and as AMD nested page tables (\<open>npt = True\<close>). A table is the
  list of its 512 entries; an entry is its 64-bit value with the \<open>bitfield!\<close> accessors.
  Every \<open>for entry in &mut table\<close> loop is a recursion over the list of entries that
  carries the variable \<open>pa\<close>. \<open>ops.pa\<close>, the platform's virtual-to-physical translation, is
  the parameter \<open>pa_of\<close>, and \<open>base\<close> is the address of the \<open>PagingStructuresRaw\<close> value, whose
  \<open>repr(C)\<close> layout gives the addresses of its tables.

  The specification is the page walk of the processor (\<open>walk\<close>) over a memory that holds
  the tables at their physical addresses.
\<close>

section \<open>Definitions\<close>

type_synonym entry = u64
type_synonym table = "entry list"

definition BASE_PAGE_SHIFT :: nat where "BASE_PAGE_SHIFT = 12"
definition BASE_PAGE_SIZE :: u64 where "BASE_PAGE_SIZE = 4096"
definition LARGE_PAGE_SIZE :: u64 where "LARGE_PAGE_SIZE = 0x200000"

definition present :: "entry \<Rightarrow> bool" where "present = get_bit 0"
definition writable :: "entry \<Rightarrow> bool" where "writable = get_bit 1"
definition user :: "entry \<Rightarrow> bool" where "user = get_bit 2"
definition large :: "entry \<Rightarrow> bool" where "large = get_bit 7"
definition pfn :: "entry \<Rightarrow> u64" where "pfn = get_bits 12 51"
definition set_present :: "bool \<Rightarrow> entry \<Rightarrow> entry" where "set_present = set_flag 0"
definition set_writable :: "bool \<Rightarrow> entry \<Rightarrow> entry" where "set_writable = set_flag 1"
definition set_user :: "bool \<Rightarrow> entry \<Rightarrow> entry" where "set_user = set_flag 2"
definition set_large :: "bool \<Rightarrow> entry \<Rightarrow> entry" where "set_large = set_flag 7"
definition set_pfn :: "u64 \<Rightarrow> entry \<Rightarrow> entry" where "set_pfn = set_field 51 12"

record paging_structures =
  pml4 :: table
  pdpt :: table
  pd :: "table list"
  pt :: table
  pt_apic :: table

text \<open>\<open>zeroed_box::<PagingStructuresRaw>()\<close>\<close>

definition PagingStructures_new :: paging_structures where
  "PagingStructures_new =
     \<lparr>pml4 = replicate 512 0, pdpt = replicate 512 0, pd = replicate 512 (replicate 512 0),
      pt = replicate 512 0, pt_apic = replicate 512 0\<rparr>"

text \<open>\<open>addr_of!\<close> of the tables inside the structure at \<open>base\<close>.\<close>

definition addr_pdpt :: "u64 \<Rightarrow> u64" where "addr_pdpt base = base + 0x1000"
definition addr_pd :: "u64 \<Rightarrow> nat \<Rightarrow> u64" where "addr_pd base i = base + 0x2000 + of_nat i * 0x1000"
definition addr_pt :: "u64 \<Rightarrow> u64" where "addr_pt base = base + 0x202000"
definition addr_pt_apic :: "u64 \<Rightarrow> u64" where "addr_pt_apic base = base + 0x203000"

text \<open>The innermost loop (lines 97 to 103): the 4KB entries of the first 2MB.\<close>

fun pte_loop :: "bool \<Rightarrow> u64 \<Rightarrow> table \<Rightarrow> table \<times> u64" where
  "pte_loop usr pa [] = ([], pa)"
| "pte_loop usr pa (pte # ptes) =
     (let pte' = set_pfn (drop_bit BASE_PAGE_SHIFT pa)
                   (set_user usr (set_writable True (set_present True pte)));
          (ptes', pa') = pte_loop usr (pa + BASE_PAGE_SIZE) ptes
      in (pte' # ptes', pa'))"

text \<open>The loop over one page directory (lines 88 to 114); returns the directory, \<open>ps.pt\<close> and \<open>pa\<close>.\<close>

fun pde_loop :: "(u64 \<Rightarrow> u64) \<Rightarrow> u64 \<Rightarrow> bool \<Rightarrow> u64 \<Rightarrow> table \<Rightarrow> table \<Rightarrow> table \<times> table \<times> u64" where
  "pde_loop pa_of base npt pa ptb [] = ([], ptb, pa)"
| "pde_loop pa_of base npt pa ptb (pde # pdes) =
     (if pa = 0 \<and> \<not> npt then
        (let pde' = set_pfn (drop_bit BASE_PAGE_SHIFT (pa_of (addr_pt base)))
                      (set_user npt (set_writable True (set_present True pde)));
             (pt1, pa1) = pte_loop npt pa ptb;
             pt2 = pt1[0 := set_present False (pt1 ! 0)];
             (pdes', pt3, pa3) = pde_loop pa_of base npt pa1 pt2 pdes
         in (pde' # pdes', pt3, pa3))
      else
        (let pde' = set_pfn (drop_bit BASE_PAGE_SHIFT pa)
                      (set_large True (set_user npt (set_writable True (set_present True pde))));
             (pdes', pt3, pa3) = pde_loop pa_of base npt (pa + LARGE_PAGE_SIZE) ptb pdes
         in (pde' # pdes', pt3, pa3)))"

text \<open>The outer loop (lines 83 to 115), at index \<open>i\<close>.\<close>

fun pdpte_loop ::
  "(u64 \<Rightarrow> u64) \<Rightarrow> u64 \<Rightarrow> bool \<Rightarrow> nat \<Rightarrow> u64 \<Rightarrow> table list \<Rightarrow> table \<Rightarrow> table
     \<Rightarrow> table \<times> table list \<times> table" where
  "pdpte_loop pa_of base npt i pa pds ptb [] = ([], pds, ptb)"
| "pdpte_loop pa_of base npt i pa pds ptb (pdpte # pdptes) =
     (let pdpte' = set_pfn (drop_bit BASE_PAGE_SHIFT (pa_of (addr_pd base i)))
                     (set_user npt (set_writable True (set_present True pdpte)));
          (pd', pt', pa') = pde_loop pa_of base npt pa ptb (pds ! i);
          (pdptes', pds', pt'') = pdpte_loop pa_of base npt (i + 1) pa' (pds[i := pd']) pt' pdptes
      in (pdpte' # pdptes', pds', pt''))"

definition build_identity_internal ::
  "(u64 \<Rightarrow> u64) \<Rightarrow> u64 \<Rightarrow> bool \<Rightarrow> paging_structures \<Rightarrow> paging_structures" where
  "build_identity_internal pa_of base npt ps =
     (let pml4' = (pml4 ps)[0 := set_pfn (drop_bit BASE_PAGE_SHIFT (pa_of (addr_pdpt base)))
                     (set_user npt (set_writable True (set_present True (pml4 ps ! 0))))];
          (pdpt', pd', pt') = pdpte_loop pa_of base npt 0 0 (pd ps) (pt ps) (pdpt ps)
      in ps\<lparr>pml4 := pml4', pdpt := pdpt', pd := pd', pt := pt'\<rparr>)"

text \<open>\<open>PagingStructuresRaw::build_identity\<close>, for the host.\<close>

definition build_identity :: "(u64 \<Rightarrow> u64) \<Rightarrow> u64 \<Rightarrow> paging_structures \<Rightarrow> paging_structures" where
  "build_identity pa_of base ps = build_identity_internal pa_of base False ps"

section \<open>The page walk of the processor\<close>

text \<open>
  Four-level translation: \<open>tbl\<close> gives the table in a page frame, \<open>root\<close> is the frame of the
  PML4. The result is the physical address with the accumulated write and user
  permissions; \<open>None\<close> is a page fault. A set bit 7 ends the walk with a 1GB or 2MB page,
  whose frame is in the bits above 30 and 21.
\<close>

definition walk_index :: "nat \<Rightarrow> u64 \<Rightarrow> nat" where
  "walk_index lo va = unat (get_bits lo (lo + 8) va)"

fun walk_from :: "(u64 \<Rightarrow> table option) \<Rightarrow> nat list \<Rightarrow> u64 \<Rightarrow> bool \<Rightarrow> bool \<Rightarrow> u64 \<Rightarrow> (u64 \<times> bool \<times> bool) option" where
  "walk_from tbl [] frame w u va = None"
| "walk_from tbl (lo # los) frame w u va =
     (case tbl frame of None \<Rightarrow> None | Some t \<Rightarrow>
        let e = t ! walk_index lo va; w' = (w \<and> writable e); u' = (u \<and> user e) in
        if \<not> present e then None
        else if los = [] \<or> lo < 39 \<and> large e
        then Some (push_bit lo (get_bits lo 51 e) OR take_bit lo va, w', u')
        else walk_from tbl los (pfn e) w' u' va)"

definition walk :: "(u64 \<Rightarrow> table option) \<Rightarrow> u64 \<Rightarrow> u64 \<Rightarrow> (u64 \<times> bool \<times> bool) option" where
  "walk tbl root va = walk_from tbl [39, 30, 21, 12] root True True va"

text \<open>Memory holds the structures, at the frames the platform says they are in.\<close>

definition holds_structures :: "(u64 \<Rightarrow> table option) \<Rightarrow> (u64 \<Rightarrow> u64) \<Rightarrow> u64 \<Rightarrow> paging_structures \<Rightarrow> bool" where
  "holds_structures tbl pa_of base ps \<longleftrightarrow>
     tbl (drop_bit 12 (pa_of base)) = Some (pml4 ps)
   \<and> tbl (drop_bit 12 (pa_of (addr_pdpt base))) = Some (pdpt ps)
   \<and> (\<forall>i<512. tbl (drop_bit 12 (pa_of (addr_pd base i))) = Some (pd ps ! i))
   \<and> tbl (drop_bit 12 (pa_of (addr_pt base))) = Some (pt ps)"

text \<open>Physical addresses have at most 52 bits.\<close>

definition pa_52bit :: "(u64 \<Rightarrow> u64) \<Rightarrow> bool" where
  "pa_52bit pa_of \<longleftrightarrow> (\<forall>a. unat (pa_of a) < 2 ^ 52)"

section \<open>Closed forms of the loops\<close>

text \<open>The values the loops write, over the previous value \<open>e\<close> of the entry.\<close>

definition small_entry :: "bool \<Rightarrow> u64 \<Rightarrow> entry \<Rightarrow> entry" where
  "small_entry npt a e = set_pfn (drop_bit 12 a) (set_user npt (set_writable True (set_present True e)))"

definition large_entry :: "bool \<Rightarrow> u64 \<Rightarrow> entry \<Rightarrow> entry" where
  "large_entry npt a e =
     set_pfn (drop_bit 12 a) (set_large True (set_user npt (set_writable True (set_present True e))))"

lemmas accessor_defs = present_def writable_def user_def large_def pfn_def
  set_present_def set_writable_def set_user_def set_large_def set_pfn_def

lemma pte_loop_eq:
  "pte_loop usr (of_nat m) ptes =
     (map (\<lambda>k. small_entry usr (of_nat (m + 0x1000 * k)) (ptes ! k)) [0..<length ptes],
      of_nat (m + 0x1000 * length ptes))"
proof (induction ptes arbitrary: m)
  case Nil
  then show ?case by simp
next
  case (Cons e ptes)
  have "(of_nat m + BASE_PAGE_SIZE :: u64) = of_nat (m + 0x1000)" by (simp add: BASE_PAGE_SIZE_def)
  with Cons [of "m + 0x1000"] show ?case
    by (simp add: small_entry_def BASE_PAGE_SHIFT_def map_upt_Suc add.assoc del: upt_Suc of_nat_add)
qed

lemma of_nat_u64_nonzero: "0 < m \<Longrightarrow> m < 2 ^ 64 \<Longrightarrow> (of_nat m :: u64) \<noteq> 0"
  by (simp add: word_of_nat_eq_0_iff nat_dvd_not_less)

lemma pde_loop_large:
  "npt \<or> 0 < m \<Longrightarrow> m + 0x200000 * length pdes < 2 ^ 64 \<Longrightarrow>
     pde_loop pa_of base npt (of_nat m) ptb pdes =
       (map (\<lambda>j. large_entry npt (of_nat (m + 0x200000 * j)) (pdes ! j)) [0..<length pdes],
        ptb, of_nat (m + 0x200000 * length pdes))"
proof (induction pdes arbitrary: m)
  case Nil
  then show ?case by simp
next
  case (Cons e pdes)
  have "(of_nat m + LARGE_PAGE_SIZE :: u64) = of_nat (m + 0x200000)" by (simp add: LARGE_PAGE_SIZE_def)
  moreover have "\<not> ((of_nat m :: u64) = 0 \<and> \<not> npt)"
    using Cons.prems of_nat_u64_nonzero [of m] by auto
  moreover have "pde_loop pa_of base npt (of_nat (m + 0x200000)) ptb pdes =
       (map (\<lambda>j. large_entry npt (of_nat (m + 0x200000 + 0x200000 * j)) (pdes ! j)) [0..<length pdes],
        ptb, of_nat (m + 0x200000 + 0x200000 * length pdes))"
    using Cons.prems by (intro Cons.IH) auto
  ultimately show ?case
    by (simp only: pde_loop.simps if_False)
      (simp add: large_entry_def BASE_PAGE_SHIFT_def map_upt_Suc add.assoc del: upt_Suc of_nat_add)
qed

definition large_pd :: "bool \<Rightarrow> nat \<Rightarrow> table \<Rightarrow> table" where
  "large_pd npt k es =
     map (\<lambda>j. large_entry npt (of_nat ((512 * k + j) * 0x200000)) (es ! j)) [0..<length es]"

lemma pde_loop_row:
  assumes "npt \<or> 0 < i" and "i < 512" and "length es = 512"
  shows "pde_loop pa_of base npt (of_nat (i * 0x40000000)) ptb es
           = (large_pd npt i es, ptb, of_nat ((i + 1) * 0x40000000))"
  using pde_loop_large [of npt "i * 0x40000000" es pa_of base ptb] assms
  by (simp add: large_pd_def algebra_simps del: of_nat_add of_nat_mult)

lemma pdpte_loop_rows:
  "npt \<or> 0 < i \<Longrightarrow> i + length pdptes = 512 \<Longrightarrow> length pds = 512 \<Longrightarrow> \<forall>k<512. length (pds ! k) = 512 \<Longrightarrow>
     pdpte_loop pa_of base npt i (of_nat (i * 0x40000000)) pds ptb pdptes =
       (map (\<lambda>k. small_entry npt (pa_of (addr_pd base (i + k))) (pdptes ! k)) [0..<length pdptes],
        map (\<lambda>k. if k < i then pds ! k else large_pd npt k (pds ! k)) [0..<512], ptb)"
proof (induction pdptes arbitrary: i pds)
  case Nil
  have "map (\<lambda>k. if k < i then pds ! k else large_pd npt k (pds ! k)) [0..<512] = pds"
    using Nil by (intro nth_equalityI) auto
  with Nil show ?case by simp
next
  case (Cons e pdptes)
  let ?pds = "pds[i := large_pd npt i (pds ! i)]"
  have len: "\<forall>k<512. length (?pds ! k) = 512"
    using Cons.prems by (auto simp: nth_list_update large_pd_def)
  have rows: "map (\<lambda>k. if k < i + 1 then ?pds ! k else large_pd npt k (?pds ! k)) [0..<512]
      = map (\<lambda>k. if k < i then pds ! k else large_pd npt k (pds ! k)) [0..<512]"
    using Cons.prems by (intro nth_equalityI) (auto simp: nth_list_update less_Suc_eq)
  have row: "pde_loop pa_of base npt (of_nat (i * 0x40000000)) ptb (pds ! i)
      = (large_pd npt i (pds ! i), ptb, of_nat ((i + 1) * 0x40000000))"
    using Cons.prems by (intro pde_loop_row) auto
  show ?case
    using Cons.IH [of "i + 1" ?pds] Cons.prems len rows row
    by (simp add: small_entry_def BASE_PAGE_SHIFT_def map_upt_Suc del: upt_Suc of_nat_add of_nat_mult)
qed

text \<open>The first page directory of the host: entry 0 refers to the 4KB table, without page 0.\<close>

definition first_pt :: "table \<Rightarrow> table" where
  "first_pt ptb =
     (let t = map (\<lambda>k. small_entry False (of_nat (0x1000 * k)) (ptb ! k)) [0..<length ptb]
      in t[0 := set_present False (t ! 0)])"

lemma pde_loop_first:
  assumes "length ptb = 512" and "length pdes = 511"
  shows "pde_loop pa_of base False 0 ptb (pde # pdes) =
     (small_entry False (pa_of (addr_pt base)) pde
        # map (\<lambda>j. large_entry False (of_nat ((j + 1) * 0x200000)) (pdes ! j)) [0..<511],
      first_pt ptb, of_nat 0x40000000)"
proof -
  have pt: "pte_loop False 0 ptb = (map (\<lambda>k. small_entry False (of_nat (0x1000 * k)) (ptb ! k)) [0..<512], of_nat 0x200000)"
    using pte_loop_eq [of False 0 ptb] assms(1) by simp
  show ?thesis
    using pde_loop_large [of False "0x200000" pdes pa_of base "first_pt ptb"] assms
    by (simp add: pt first_pt_def Let_def small_entry_def BASE_PAGE_SHIFT_def algebra_simps
        del: of_nat_add of_nat_mult of_nat_numeral)
qed

section \<open>The tables that are built\<close>

lemma new_lengths:
  "length (pd PagingStructures_new) = 512" "\<forall>k<512. length (pd PagingStructures_new ! k) = 512"
  "length (pdpt PagingStructures_new) = 512" "length (pt PagingStructures_new) = 512"
  by (simp_all add: PagingStructures_new_def)

lemma pdpte_loop_npt:
  "pdpte_loop pa_of base True 0 0 (pd PagingStructures_new) (pt PagingStructures_new) (pdpt PagingStructures_new) =
     (map (\<lambda>k. small_entry True (pa_of (addr_pd base k)) 0) [0..<512],
      map (\<lambda>k. large_pd True k (replicate 512 0)) [0..<512], replicate 512 0)"
proof -
  have "pdpte_loop pa_of base True 0 (of_nat (0 * 0x40000000)) (pd PagingStructures_new)
          (pt PagingStructures_new) (pdpt PagingStructures_new) =
     (map (\<lambda>k. small_entry True (pa_of (addr_pd base (0 + k))) (pdpt PagingStructures_new ! k))
        [0..<length (pdpt PagingStructures_new)],
      map (\<lambda>k. if k < 0 then pd PagingStructures_new ! k else large_pd True k (pd PagingStructures_new ! k)) [0..<512],
      pt PagingStructures_new)"
    using new_lengths by (intro pdpte_loop_rows) auto
  then show ?thesis
    by (simp add: PagingStructures_new_def cong: map_cong)
qed

lemma pdpte_loop_host:
  "pdpte_loop pa_of base False 0 0 (pd PagingStructures_new) (pt PagingStructures_new) (pdpt PagingStructures_new) =
     (map (\<lambda>k. small_entry False (pa_of (addr_pd base k)) 0) [0..<512],
      map (\<lambda>k. if k = 0 then small_entry False (pa_of (addr_pt base)) 0
                  # map (\<lambda>j. large_entry False (of_nat ((j + 1) * 0x200000)) 0) [0..<511]
               else large_pd False k (replicate 512 0)) [0..<512],
      first_pt (replicate 512 0))"
proof -
  let ?z = "replicate 512 (0::entry)" and ?p0 = "small_entry False (pa_of (addr_pt base)) 0
                  # map (\<lambda>j. large_entry False (of_nat ((j + 1) * 0x200000)) 0) [0..<511]"
  have z: "?z = 0 # replicate 511 0" by (simp add: numeral_eq_Suc)
  have row0: "pde_loop pa_of base False 0 ?z ?z = (?p0, first_pt ?z, of_nat 0x40000000)"
    using pde_loop_first [of ?z "replicate 511 0" pa_of base 0] by (subst (2) z) (simp cong: map_cong)
  let ?pds = "(replicate 512 ?z)[0 := ?p0]"
  have "pdpte_loop pa_of base False 1 (of_nat (1 * 0x40000000)) ?pds (first_pt ?z) (replicate 511 0) =
     (map (\<lambda>k. small_entry False (pa_of (addr_pd base (1 + k))) (replicate 511 0 ! k)) [0..<length (replicate 511 (0::entry))],
      map (\<lambda>k. if k < 1 then ?pds ! k else large_pd False k (?pds ! k)) [0..<512], first_pt ?z)"
    by (rule pdpte_loop_rows) (auto simp: nth_list_update)
  moreover have "map (\<lambda>k. if k < 1 then ?pds ! k else large_pd False k (?pds ! k)) [0..<512]
      = map (\<lambda>k. if k = 0 then ?p0 else large_pd False k ?z) [0..<512]"
    by (rule nth_equalityI) (auto simp: nth_list_update)
  moreover have "map (\<lambda>k. small_entry False (pa_of (addr_pd base k)) 0) [0..<512]
      = small_entry False (pa_of (addr_pd base 0)) 0 #
        map (\<lambda>k. small_entry False (pa_of (addr_pd base (1 + k))) (replicate 511 0 ! k)) [0..<511]"
    by (simp add: map_upt_Suc [of _ 511, simplified] cong: map_cong)
  ultimately have "pdpte_loop pa_of base False 0 0 (replicate 512 ?z) ?z (0 # replicate 511 0) =
     (map (\<lambda>k. small_entry False (pa_of (addr_pd base k)) 0) [0..<512],
      map (\<lambda>k. if k = 0 then ?p0 else large_pd False k ?z) [0..<512], first_pt ?z)"
    using row0
    by (simp only: pdpte_loop.simps)
      (simp add: Let_def small_entry_def BASE_PAGE_SHIFT_def del: replicate.simps of_nat_add of_nat_mult of_nat_numeral)
  then show ?thesis
    by (simp only: PagingStructures_new_def paging_structures.select_convs z [symmetric])
qed


lemma bit_small_entry:
  "bit (small_entry npt a 0) n \<longleftrightarrow>
     (if 12 \<le> n \<and> n \<le> 51 then bit a n else n < 2 \<or> n = 2 \<and> npt)"
  by (auto simp: small_entry_def accessor_defs bitfield_simps bit_simps)

lemma bit_large_entry:
  "bit (large_entry npt a 0) n \<longleftrightarrow>
     (if 12 \<le> n \<and> n \<le> 51 then bit a n else n < 2 \<or> n = 2 \<and> npt \<or> n = 7)"
  by (auto simp: large_entry_def accessor_defs bitfield_simps bit_simps)

lemma small_entry_fields:
  "present (small_entry npt a 0)" "writable (small_entry npt a 0)" "user (small_entry npt a 0) = npt"
  "\<not> large (small_entry npt a 0)"
  by (simp_all add: present_def writable_def user_def large_def get_bit_def bit_small_entry)

lemma large_entry_fields:
  "present (large_entry npt a 0)" "writable (large_entry npt a 0)" "user (large_entry npt a 0) = npt"
  "large (large_entry npt a 0)"
  by (simp_all add: present_def writable_def user_def large_def get_bit_def bit_large_entry)

lemma bit_52: "unat w < 0x10000000000000 \<Longrightarrow> bit w n \<Longrightarrow> n < 52" for w :: u64
  using bit_less_exp [of w 52 n] by simp

lemma pfn_small_entry: "unat a < 2 ^ 52 \<Longrightarrow> pfn (small_entry npt a 0) = drop_bit 12 a"
  by (rule bit_word_eqI) (auto simp: pfn_def bit_get_bits bit_small_entry bit_simps dest: bit_52)

text \<open>A page base is the address without its offset.\<close>

lemma page_base_small:
  "unat va < 2 ^ 52 \<Longrightarrow>
     push_bit 12 (get_bits 12 51 (small_entry npt (push_bit 12 (drop_bit 12 va)) 0)) OR take_bit 12 va = va"
  by (rule bit_word_eqI) (auto simp: bit_get_bits bit_small_entry bit_simps dest: bit_52)

lemma page_base_large:
  "unat va < 2 ^ 52 \<Longrightarrow>
     push_bit 21 (get_bits 21 51 (large_entry npt (push_bit 21 (drop_bit 21 va)) 0)) OR take_bit 21 va = va"
  by (rule bit_word_eqI) (auto simp: bit_get_bits bit_large_entry bit_simps dest: bit_52)

lemma of_nat_push_drop: "of_nat (unat va div 2 ^ k * 2 ^ k) = push_bit k (drop_bit k va)" for va :: u64
proof -
  have "unat (drop_bit k va) = unat va div 2 ^ k" by (simp add: unat_drop_bit_eq drop_bit_nat_def)
  moreover have "of_nat (unat (drop_bit k va)) = drop_bit k va" by simp
  ultimately have "of_nat (unat va div 2 ^ k) = drop_bit k va" by simp
  then show ?thesis by (simp add: push_bit_eq_mult)
qed

lemma walk_index_less: "walk_index lo va < 512"
  using unat_get_bits_less [of lo "lo + 8" va] by (simp add: walk_index_def)

lemma walk_index_eq: "walk_index lo va = unat va div 2 ^ lo mod 512"
  by (simp add: walk_index_def unat_get_bits)

lemma large_index:
  assumes "unat va < 2 ^ 39"
  shows "512 * walk_index 30 va + walk_index 21 va = unat va div 2 ^ 21"
proof -
  have "unat va div 2 ^ 30 = unat va div 2 ^ 21 div 512" by (simp add: div_mult2_eq [symmetric])
  moreover have "unat va div 2 ^ 30 < 512" using assms by (simp add: less_mult_imp_div_less)
  ultimately have "walk_index 30 va = unat va div 2 ^ 21 div 512" by (simp add: walk_index_eq)
  then show ?thesis by (simp add: walk_index_eq)
qed

lemma large_page_of:
  assumes "unat va < 2 ^ 39"
  shows "(of_nat ((512 * walk_index 30 va + walk_index 21 va) * 0x200000) :: u64) = push_bit 21 (drop_bit 21 va)"
  using of_nat_push_drop [of va 21] large_index [OF assms] by simp

lemma small_page_of:
  assumes "unat va < 2 ^ 21"
  shows "(of_nat (0x1000 * walk_index 12 va) :: u64) = push_bit 12 (drop_bit 12 va)"
proof -
  have "walk_index 12 va = unat va div 2 ^ 12"
    using assms by (simp add: walk_index_eq less_mult_imp_div_less)
  then show ?thesis using of_nat_push_drop [of va 12] by (simp add: mult.commute)
qed


section \<open>The built tables translate identically\<close>

definition built :: "(u64 \<Rightarrow> u64) \<Rightarrow> u64 \<Rightarrow> bool \<Rightarrow> paging_structures" where
  "built pa_of base npt = build_identity_internal pa_of base npt PagingStructures_new"

lemma built_pml4:
  "i < 512 \<Longrightarrow> pml4 (built pa_of base npt) ! i =
     (if i = 0 then small_entry npt (pa_of (addr_pdpt base)) 0 else 0)"
  by (cases npt) (simp_all add: built_def build_identity_internal_def Let_def pdpte_loop_npt pdpte_loop_host
      small_entry_def BASE_PAGE_SHIFT_def, simp_all add: PagingStructures_new_def nth_list_update)

lemma built_pdpt:
  "i < 512 \<Longrightarrow> pdpt (built pa_of base npt) ! i = small_entry npt (pa_of (addr_pd base i)) 0"
  by (cases npt) (simp_all add: built_def build_identity_internal_def Let_def pdpte_loop_npt pdpte_loop_host)

lemma built_pd:
  "i < 512 \<Longrightarrow> j < 512 \<Longrightarrow> pd (built pa_of base npt) ! i ! j =
     (if i = 0 \<and> j = 0 \<and> \<not> npt then small_entry npt (pa_of (addr_pt base)) 0
      else large_entry npt (of_nat ((512 * i + j) * 0x200000)) 0)"
  by (cases npt; cases j) (simp_all add: built_def build_identity_internal_def Let_def pdpte_loop_npt
      pdpte_loop_host large_pd_def add_ac del: of_nat_mult of_nat_add)

lemma built_pt:
  "i < 512 \<Longrightarrow> pt (built pa_of base False) ! i =
     (if i = 0 then set_present False (small_entry False 0 0) else small_entry False (of_nat (0x1000 * i)) 0)"
  by (simp add: built_def build_identity_internal_def Let_def pdpte_loop_host first_pt_def nth_list_update
      del: of_nat_mult of_nat_add)

lemma not_present_zero: "\<not> present 0" "\<not> present (set_present False e)"
  by (simp_all add: present_def set_present_def bitfield_simps, simp add: get_bit_def)

text \<open>The walk ends in the page directory for all pages but the first 2MB of the host.\<close>

lemma walk_large:
  assumes "holds_structures tbl pa_of base (built pa_of base npt)" and "pa_52bit pa_of"
    and "unat va < 2 ^ 39" and "npt \<or> 2 ^ 21 \<le> unat va"
  shows "walk tbl (drop_bit 12 (pa_of base)) va = Some (va, True, npt)"
proof -
  have i4: "walk_index 39 va = 0" using assms(3) by (simp add: walk_index_eq)
  have "\<not> (walk_index 30 va = 0 \<and> walk_index 21 va = 0 \<and> \<not> npt)"
  proof
    assume z: "walk_index 30 va = 0 \<and> walk_index 21 va = 0 \<and> \<not> npt"
    with large_index [OF assms(3)] assms(4) show False by (simp add: div_eq_0_iff)
  qed
  then have pd: "pd (built pa_of base npt) ! walk_index 30 va ! walk_index 21 va
      = large_entry npt (push_bit 21 (drop_bit 21 va)) 0"
    using built_pd [OF walk_index_less [of 30 va] walk_index_less [of 21 va], of pa_of base npt]
    unfolding large_page_of [OF assms(3)] by (simp only: if_False)
  have "unat va < 2 ^ 52" using assms(3) by simp
  with pd show ?thesis
    using assms(1,2) i4 walk_index_less [of _ va]
    by (simp add: walk_def holds_structures_def pa_52bit_def built_pml4 built_pdpt small_entry_fields
        large_entry_fields pfn_small_entry page_base_large Let_def)
qed

lemma walk_small:
  assumes "holds_structures tbl pa_of base (built pa_of base False)" and "pa_52bit pa_of"
    and "unat va < 2 ^ 21"
  shows "walk tbl (drop_bit 12 (pa_of base)) va = (if unat va < 4096 then None else Some (va, True, False))"
proof -
  have i: "walk_index 39 va = 0" "walk_index 30 va = 0" "walk_index 21 va = 0"
    using assms(3) by (simp_all add: walk_index_eq)
  have j: "walk_index 12 va = 0 \<longleftrightarrow> unat va < 4096"
    using assms(3) by (simp add: walk_index_eq less_mult_imp_div_less div_eq_0_iff)
  have pd: "pd (built pa_of base False) ! 0 ! 0 = small_entry False (pa_of (addr_pt base)) 0"
    by (simp add: built_pd)
  have pt: "pt (built pa_of base False) ! walk_index 12 va = (if unat va < 4096
      then set_present False (small_entry False 0 0) else small_entry False (push_bit 12 (drop_bit 12 va)) 0)"
    unfolding built_pt [OF walk_index_less] small_page_of [OF assms(3)] j ..
  have "unat va < 2 ^ 52" using assms(3) by simp
  with pd pt show ?thesis
    using assms(1,2) i
    by (simp add: walk_def holds_structures_def pa_52bit_def built_pml4 built_pdpt small_entry_fields
        not_present_zero pfn_small_entry page_base_small Let_def)
qed

lemma walk_outside:
  assumes "holds_structures tbl pa_of base (built pa_of base npt)"
    and "2 ^ 39 \<le> unat va" and "unat va < 2 ^ 48"
  shows "walk tbl (drop_bit 12 (pa_of base)) va = None"
proof -
  have "walk_index 39 va \<noteq> 0" using assms(2,3) by (simp add: walk_index_eq div_eq_0_iff less_mult_imp_div_less)
  then show ?thesis
    using assms(1) walk_index_less [of 39 va]
    by (simp add: walk_def holds_structures_def built_pml4 not_present_zero Let_def)
qed


text \<open>
  C9. The paging structures built for the host translate every virtual address below 512GB
  to itself, writable and for the supervisor only, except that the first page is not
  present (so a null dereference faults); addresses from 512GB on fault. The nested
  variant (\<open>npt\<close>) maps the same range, the first page included, also for the user, as
  the nested walk of SVM requires. It holds wherever the platform places the structures
  in the 52-bit physical address space.
\<close>

theorem build_identity_translates:
  assumes "holds_structures tbl pa_of base (build_identity_internal pa_of base npt PagingStructures_new)"
    and "pa_52bit pa_of" and "unat va < 2 ^ 48"
  shows "walk tbl (drop_bit 12 (pa_of base)) va =
           (if 2 ^ 39 \<le> unat va \<or> \<not> npt \<and> unat va < 4096 then None else Some (va, True, npt))"
proof -
  note h = assms(1) [folded built_def]
  consider (out) "2 ^ 39 \<le> unat va" | (large) "unat va < 2 ^ 39" "npt \<or> 2 ^ 21 \<le> unat va"
    | (small) "unat va < 2 ^ 21" "\<not> npt"
    by linarith
  then show ?thesis
  proof cases
    case out
    then show ?thesis using walk_outside [OF h] assms(3) by simp
  next
    case large
    then show ?thesis using walk_large [OF h assms(2)] by auto
  next
    case small
    then show ?thesis using walk_small [of tbl pa_of base va] h assms(2) by simp
  qed
qed

text \<open>A memory that holds the structures at \<open>base\<close>, for a platform that truncates to 52 bits.\<close>

definition mem_of :: "u64 \<Rightarrow> paging_structures \<Rightarrow> u64 \<Rightarrow> table option" where
  "mem_of base ps f =
     (let k = unat (f - drop_bit 12 base) in
      if k = 0 then Some (pml4 ps) else if k = 1 then Some (pdpt ps)
      else if k < 514 then Some (pd ps ! (k - 2)) else if k = 514 then Some (pt ps) else None)"

lemma addr_pd_frame: "i < 512 \<Longrightarrow> unat (drop_bit 12 (take_bit 52 (addr_pd 0x100000 i))) = 0x102 + i"
proof -
  assume i: "i < 512"
  then have "unat (addr_pd 0x100000 i) = (0x102 + i) * 0x1000"
    by (simp add: addr_pd_def unat_word_ariths unat_of_nat)
  with i show ?thesis
    by (simp add: unat_drop_bit_eq drop_bit_nat_def unsigned_take_bit_eq take_bit_nat_eq_self)
qed

lemma pa_52bit_take_bit: "pa_52bit (take_bit 52)"
  by (simp add: pa_52bit_def unsigned_take_bit_eq take_bit_nat_less_exp [of 52, simplified])

lemma holds_mem_of: "holds_structures (mem_of 0x100000 ps) (take_bit 52) 0x100000 ps"
proof -
  have "drop_bit 12 (take_bit 52 (addr_pd 0x100000 i)) = 0x102 + of_nat i" if "i < 512" for i
    using that addr_pd_frame [OF that] by (simp add: word_unat_eq_iff unat_word_ariths unat_of_nat)
  moreover have "unat (2 + of_nat i :: u64) = i + 2" if "i < 512" for i
    using that by (simp add: unat_word_ariths unat_of_nat)
  ultimately show ?thesis
    by (simp add: holds_structures_def mem_of_def addr_pdpt_def addr_pt_def Let_def)
qed

theorem build_identity_translates_witness:
  "walk (mem_of 0x100000 (build_identity_internal (take_bit 52) 0x100000 False PagingStructures_new)) 0x100 0xfee00000
     = Some (0xfee00000, True, False)"
  using build_identity_translates [OF holds_mem_of pa_52bit_take_bit, of "0xfee00000" False] by simp

end
