(* ===== verification/Segment.thy ===== *)
theory Segment
  imports Prelude
begin

unbundle bit_operations_syntax

text \<open>
  Segment descriptors: \<open>hypervisor/segment.rs\<close> (used to find the base of the TSS) and the
  segment helpers at the end of \<open>hypervisor/amd/guest.rs\<close>. The memory a GDT lies in is a
  function \<open>mem\<close> from addresses to the 64-bit value stored there; \<open>overflow_checks\<close> tells
  the build profile, as in \<open>add_checked\<close>. A selector is its 16-bit value: the index is
  bits 15:3, bit 2 the table indicator. The reference is the descriptor format of the
  processor manuals, \<open>encode_descriptor\<close>, which the code has to decode.
\<close>

section \<open>Definitions\<close>

type_synonym selector = u16

record dtr =
  dtr_base :: u64
  dtr_limit :: u16

datatype segment_error =
    NullDescriptor selector
  | LdtAccess selector
  | OutOfGdtAccess nat
  | InvalidGdtEntry nat u64

record segment_descriptor =
  low64 :: u64
  upper_base :: "u32 option"

definition selector_index :: "selector \<Rightarrow> u16" where
  "selector_index sel = drop_bit 3 sel"

definition selector_ti_ldt :: "selector \<Rightarrow> bool" where
  "selector_ti_ldt sel = bit sel 2"

text \<open>\<open>SystemDescriptorTypes64\<close>: the system descriptor types of 64-bit mode.\<close>

definition LDT :: nat where "LDT = 2"
definition TssAvailable :: nat where "TssAvailable = 9"
definition TssBusy :: nat where "TssBusy = 11"

definition is_16byte :: "u64 \<Rightarrow> bool" where
  "is_16byte raw =
     (let high32 = get_bits 32 63 raw;
          system = get_bit 12 high32;
          ty = unat (get_bits 8 11 high32)
      in \<not> system \<and> (ty = TssAvailable \<or> ty = TssBusy))"

definition raw_base :: "u64 \<Rightarrow> u32 rust" where
  "raw_base raw =
     (let low32 = get_bits 0 31 raw;
          high32 = get_bits 32 63 raw;
          base_high = push_bit 24 (get_bits 24 31 high32);
          base_middle = push_bit 16 (get_bits 0 7 high32);
          base_low = get_bits 16 31 low32;
          v = base_high OR base_middle OR base_low
      in if unat v < 2 ^ 32 then Inr (ucast v) else Inl (UnwrapFailed ''u32::try_from''))"

text \<open>\<open>core::slice::from_raw_parts(base, n)\<close> and \<open>slice.get(i)\<close>.\<close>

definition gdt_slice :: "(u64 \<Rightarrow> u64) \<Rightarrow> u64 \<Rightarrow> nat \<Rightarrow> u64 list" where
  "gdt_slice mem base n = map (\<lambda>i. mem (base + of_nat (8 * i))) [0..<n]"

definition slice_get :: "'a list \<Rightarrow> nat \<Rightarrow> 'a option" where
  "slice_get xs i = (if i < length xs then Some (xs ! i) else None)"

definition try_from_gdtr ::
  "bool \<Rightarrow> (u64 \<Rightarrow> u64) \<Rightarrow> dtr \<Rightarrow> selector \<Rightarrow> (segment_error + segment_descriptor) rust" where
  "try_from_gdtr overflow_checks mem gdtr sel =
     (if selector_ti_ldt sel then Inr (Inl (LdtAccess sel))
      else let index = unat (selector_index sel) in
      if index = 0 then Inr (Inl (NullDescriptor sel))
      else and_then (add_checked overflow_checks (dtr_limit gdtr) 1) (\<lambda>limit1.
        let gdt = gdt_slice mem (dtr_base gdtr) (unat limit1 div 8) in
        case slice_get gdt index of
          None \<Rightarrow> Inr (Inl (OutOfGdtAccess index))
        | Some raw \<Rightarrow>
            if is_16byte raw then
              (case slice_get gdt (index + 1) of
                 None \<Rightarrow> Inr (Inl (OutOfGdtAccess (index + 1)))
               | Some upper \<Rightarrow>
                   if unat upper < 2 ^ 32
                   then Inr (Inr \<lparr>low64 = raw, upper_base = Some (ucast upper)\<rparr>)
                   else Inr (Inl (InvalidGdtEntry (index + 1) upper)))
            else Inr (Inr \<lparr>low64 = raw, upper_base = None\<rparr>)))"

definition descriptor_base :: "segment_descriptor \<Rightarrow> u64 rust" where
  "descriptor_base d =
     (case upper_base d of
        Some upper \<Rightarrow> and_then (raw_base (low64 d)) (\<lambda>b. Inr (ucast b OR push_bit 32 (ucast upper)))
      | None \<Rightarrow> and_then (raw_base (low64 d)) (\<lambda>b. Inr (ucast b)))"

text \<open>
  The helpers of \<open>amd/guest.rs\<close>. \<open>sel.index() * 8\<close> is a 16-bit product; it cannot
  overflow because the index has 13 bits.
\<close>

definition get_segment_descriptor_value :: "(u64 \<Rightarrow> u64) \<Rightarrow> u64 \<Rightarrow> selector \<Rightarrow> u64" where
  "get_segment_descriptor_value mem table_base sel =
     mem (table_base + ucast (selector_index sel * 8))"

definition get_segment_access_right :: "(u64 \<Rightarrow> u64) \<Rightarrow> u64 \<Rightarrow> selector \<Rightarrow> u16" where
  "get_segment_access_right mem table_base sel =
     (let descriptor_value = get_segment_descriptor_value mem table_base sel;
          ar = (ucast (drop_bit 40 descriptor_value) :: u16);
          upper_ar = drop_bit 4 ar AND 0xf00;
          lower_ar = ar AND 0xff
      in lower_ar OR upper_ar)"

definition get_segment_limit :: "(u64 \<Rightarrow> u64) \<Rightarrow> u64 \<Rightarrow> selector \<Rightarrow> u32" where
  "get_segment_limit mem table_base sel =
     (if selector_index sel = 0 \<and> drop_bit 2 sel = 0 then 0
      else let descriptor_value = get_segment_descriptor_value mem table_base sel;
               limit_low = descriptor_value AND 0xffff;
               limit_high = drop_bit (32 + 16) descriptor_value AND 0xf;
               limit = limit_low OR push_bit 16 limit_high;
               limit' = (if drop_bit (32 + 23) descriptor_value AND 1 \<noteq> 0
                         then push_bit 12 (limit + 1) - 1 else limit)
           in ucast limit')"

section \<open>The descriptor format\<close>

text \<open>
  The 8-byte descriptor of the manuals: the limit in bits 15:0 and 51:48, the base in
  bits 39:16 and 63:56, the access byte (type, S, DPL, P) in bits 47:40, the flags (AVL,
  L, D/B, G) in bits 55:52.
\<close>

definition encode_descriptor :: "u32 \<Rightarrow> u32 \<Rightarrow> u8 \<Rightarrow> u8 \<Rightarrow> u64" where
  "encode_descriptor base limit access flags =
     take_bit 16 (ucast limit)
     OR push_bit 16 (take_bit 24 (ucast base))
     OR push_bit 40 (ucast access)
     OR push_bit 48 (take_bit 4 (drop_bit 16 (ucast limit)))
     OR push_bit 52 (take_bit 4 (ucast flags))
     OR push_bit 56 (drop_bit 24 (ucast base))"

text \<open>A 64-bit TSS descriptor occupies two entries; the second one is the upper base.\<close>

definition holds_tss :: "(u64 \<Rightarrow> u64) \<Rightarrow> dtr \<Rightarrow> selector \<Rightarrow> u64 \<Rightarrow> u32 \<Rightarrow> u8 \<Rightarrow> u8 \<Rightarrow> bool" where
  "holds_tss mem gdtr sel base limit access flags \<longleftrightarrow>
     mem (dtr_base gdtr + of_nat (8 * unat (selector_index sel)))
       = encode_descriptor (ucast base) limit access flags
   \<and> mem (dtr_base gdtr + of_nat (8 * (unat (selector_index sel) + 1)))
       = ucast (ucast (drop_bit 32 base) :: u32)
   \<and> \<not> bit access 4 \<and> (unat (take_bit 4 access) = TssAvailable \<or> unat (take_bit 4 access) = TssBusy)"

section \<open>Lemmas\<close>

lemma bit_encode_descriptor:
  "bit (encode_descriptor base limit access flags) n \<longleftrightarrow>
     (if n < 16 then bit limit n
      else if n < 40 then bit base (n - 16)
      else if n < 48 then bit access (n - 40)
      else if n < 52 then bit limit (n - 32)
      else if n < 56 then bit flags (n - 52)
      else n < 64 \<and> bit base (n - 32))"
  by (auto simp: encode_descriptor_def bit_simps dest: bit_imp_le_length)

lemma raw_base_total:
  "\<exists>b. raw_base raw = Inr b \<and> (\<forall>n. bit b n \<longleftrightarrow>
     (if n < 24 then bit raw (16 + n) else n < 32 \<and> bit raw (32 + n)))"
proof -
  let ?v = "push_bit 24 (get_bits 24 31 (get_bits 32 63 raw))
            OR push_bit 16 (get_bits 0 7 (get_bits 32 63 raw)) OR get_bits 16 31 (get_bits 0 31 raw)"
  have bits: "bit ?v n \<longleftrightarrow> (if n < 24 then bit raw (16 + n) else n < 32 \<and> bit raw (32 + n))" for n
    by (auto simp: bit_simps bit_get_bits)
  then have "unat ?v < 2 ^ 32" by (intro unat_less_exp) auto
  moreover have "bit (ucast ?v :: u32) n \<longleftrightarrow> (if n < 24 then bit raw (16 + n) else n < 32 \<and> bit raw (32 + n))" for n
    unfolding bit_unsigned_iff bits by auto
  ultimately show ?thesis
    by (auto simp: raw_base_def Let_def)
qed

lemma raw_base_encode: "raw_base (encode_descriptor base limit access flags) = Inr base"
proof -
  obtain b where b: "raw_base (encode_descriptor base limit access flags) = Inr b"
    and bits: "\<And>n. bit b n \<longleftrightarrow> (if n < 24 then bit (encode_descriptor base limit access flags) (16 + n)
       else n < 32 \<and> bit (encode_descriptor base limit access flags) (32 + n))"
    using raw_base_total [of "encode_descriptor base limit access flags"] by blast
  have "b = base"
    by (rule bit_word_eqI) (auto simp: bits bit_encode_descriptor)
  with b show ?thesis by simp
qed

lemma is_16byte_encode:
  "is_16byte (encode_descriptor base limit access flags) \<longleftrightarrow>
     \<not> bit access 4 \<and> (unat (take_bit 4 access) = TssAvailable \<or> unat (take_bit 4 access) = TssBusy)"
proof -
  let ?r = "encode_descriptor base limit access flags"
  have "get_bits 8 11 (get_bits 32 63 ?r) = ucast (take_bit 4 access)"
    by (rule bit_word_eqI) (auto simp: bit_get_bits bit_encode_descriptor bit_simps)
  moreover have "get_bit 12 (get_bits 32 63 ?r) \<longleftrightarrow> bit access 4"
    by (simp add: get_bit_def bit_get_bits bit_encode_descriptor)
  ultimately show ?thesis
    by (simp add: is_16byte_def Let_def unat_ucast_up)
qed

lemma slice_get_gdt:
  "slice_get (gdt_slice mem base n) i = (if i < n then Some (mem (base + of_nat (8 * i))) else None)"
  by (simp add: slice_get_def gdt_slice_def)

lemma limit_plus_1:
  assumes "dtr_limit g \<noteq> 0xffff"
  shows "add_checked oc (dtr_limit g) 1 = Inr (dtr_limit g + 1)"
    and "unat (dtr_limit g + 1) = unat (dtr_limit g) + 1"
proof -
  have "unat (dtr_limit g) \<noteq> 0xffff"
    using assms word_unat_eq_iff [of "dtr_limit g" "0xffff"] by simp
  then have "unat (dtr_limit g) + 1 < 2 ^ 16"
    using unat_lt_exp [of "dtr_limit g"] by simp
  then show "add_checked oc (dtr_limit g) 1 = Inr (dtr_limit g + 1)"
    and "unat (dtr_limit g + 1) = unat (dtr_limit g) + 1"
    by (simp_all add: unat_word_ariths)
qed

lemma tss_lookup:
  assumes "holds_tss mem gdtr sel base limit access flags"
    and "\<not> selector_ti_ldt sel" and "selector_index sel \<noteq> 0" and "dtr_limit gdtr \<noteq> 0xffff"
    and "8 * (unat (selector_index sel) + 2) \<le> unat (dtr_limit gdtr) + 1"
  shows "\<exists>d. try_from_gdtr oc mem gdtr sel = Inr (Inr d) \<and> descriptor_base d = Inr base"
proof -
  let ?i = "unat (selector_index sel)" and ?n = "unat (dtr_limit gdtr + 1) div 8"
  let ?lo = "encode_descriptor (ucast base) limit access flags"
  let ?up = "ucast (drop_bit 32 base) :: u32"
  from assms(1) have lo: "mem (dtr_base gdtr + of_nat (8 * ?i)) = ?lo"
    and up: "mem (dtr_base gdtr + of_nat (8 * (?i + 1))) = ucast ?up"
    and tss: "is_16byte ?lo" by (simp_all only: holds_tss_def is_16byte_encode simp_thms)
  have "?i + 1 < ?n" using assms(5) by (simp add: limit_plus_1(2) [OF assms(4)] less_div_iff)
  then have g: "slice_get (gdt_slice mem (dtr_base gdtr) ?n) ?i = Some ?lo"
      "slice_get (gdt_slice mem (dtr_base gdtr) ?n) (?i + 1) = Some (ucast ?up)"
    by (simp_all only: slice_get_gdt lo up if_True) simp_all
  have "unat (ucast ?up :: u64) < 2 ^ 32" using unat_lt_exp [of ?up] by (simp add: unat_ucast_up)
  moreover have "?i \<noteq> 0" using assms(3) by (simp add: unat_eq_zero)
  moreover have "(ucast (ucast ?up :: u64) :: u32) = ?up"
    by (rule bit_word_eqI) (simp add: bit_simps)
  ultimately have "try_from_gdtr oc mem gdtr sel = Inr (Inr \<lparr>low64 = ?lo, upper_base = Some ?up\<rparr>)"
    using assms(2) g tss by (simp add: try_from_gdtr_def limit_plus_1 [OF assms(4)] Let_def)
  moreover have "ucast (ucast base :: u32) OR push_bit 32 (ucast ?up) = base"
    by (rule bit_word_eqI) (auto simp: bit_simps)
  ultimately show ?thesis by (simp add: descriptor_base_def raw_base_encode)
qed

section \<open>Properties\<close>

text \<open>The GDT and the selectors of the unit test of \<open>segment.rs\<close>, with the bases that it expects.\<close>

definition test_gdt :: "u64 list" where
  "test_gdt =
     [0x0000000000000000, 0x0000000000000000, 0x00209b0000000000, 0x0040930000000000, 0x00cffb000000ffff,
      0x00cff3000000ffff, 0x0020fb0000000000, 0x0000000000000000, 0x71008be7b0000067, 0x00000000fffff805,
      0x0040f30000003c00, 0x0000000000000000, 0x0000000000000000, 0x0000000000000000]"

definition test_bases :: "(selector \<times> u64) list" where
  "test_bases = [(0x10, 0), (0x18, 0), (0x2b, 0), (0x40, 0xfffff80571e7b000), (0x53, 0)]"

lemma segment_test_passes:
  assumes "gdt_slice mem (dtr_base gdtr) (length test_gdt) = test_gdt" and "dtr_limit gdtr = 0x6f"
    and "(sel, base) \<in> set test_bases"
  shows "\<exists>d. try_from_gdtr oc mem gdtr sel = Inr (Inr d) \<and> descriptor_base d = Inr base"
proof -
  have len: "length test_gdt = 14" by (simp add: test_gdt_def)
  have "unat (dtr_limit gdtr + 1) div 8 = 14" using assms(2) by simp
  then have slice: "gdt_slice mem (dtr_base gdtr) (unat (dtr_limit gdtr + 1) div 8) = test_gdt" using assms(1) len by simp
  have ok: "add_checked oc (dtr_limit gdtr) 1 = Inr (dtr_limit gdtr + 1)" using limit_plus_1(1) [of gdtr oc] assms(2) by simp
  have entries: "slice_get test_gdt 2 = Some 0x00209b0000000000" "slice_get test_gdt 3 = Some 0x0040930000000000"
    "slice_get test_gdt 5 = Some 0x00cff3000000ffff" "slice_get test_gdt 8 = Some 0x71008be7b0000067"
    "slice_get test_gdt 9 = Some 0x00000000fffff805" "slice_get test_gdt 10 = Some 0x0040f30000003c00"
    by (simp_all add: slice_get_def test_gdt_def)
  have encoded: "encode_descriptor 0 0 0x9b 2 = 0x00209b0000000000" "encode_descriptor 0 0 0x93 4 = 0x0040930000000000"
    "encode_descriptor 0 0xfffff 0xf3 0xc = 0x00cff3000000ffff" "encode_descriptor 0x71e7b000 0x67 0x8b 0 = 0x71008be7b0000067"
    "encode_descriptor 0 0x3c00 0xf3 4 = 0x0040f30000003c00"
    by (simp_all add: encode_descriptor_def)
  have kinds: "\<not> is_16byte 0x00209b0000000000" "\<not> is_16byte 0x0040930000000000" "\<not> is_16byte 0x00cff3000000ffff"
    "is_16byte 0x71008be7b0000067" "\<not> is_16byte 0x0040f30000003c00"
    unfolding encoded [symmetric] is_16byte_encode by (simp_all add: TssAvailable_def TssBusy_def)
  note bases = raw_base_encode [of 0 0 "0x9b" 2, unfolded encoded] raw_base_encode [of 0 0 "0x93" 4, unfolded encoded]
    raw_base_encode [of 0 "0xfffff" "0xf3" "0xc", unfolded encoded] raw_base_encode [of "0x71e7b000" "0x67" "0x8b" 0, unfolded encoded]
    raw_base_encode [of 0 "0x3c00" "0xf3" 4, unfolded encoded]
  have selectors: "unat (selector_index 0x10) = 2" "unat (selector_index 0x18) = 3" "unat (selector_index 0x2b) = 5"
    "unat (selector_index 0x40) = 8" "unat (selector_index 0x53) = 10"
    by (simp_all add: selector_index_def)
  from assms(3) consider "sel = 0x10" "base = 0" | "sel = 0x18" "base = 0" | "sel = 0x2b" "base = 0"
    | "sel = 0x40" "base = 0xfffff80571e7b000" | "sel = 0x53" "base = 0"
    by (auto simp: test_bases_def)
  then show ?thesis
    by cases (simp_all add: try_from_gdtr_def ok slice Let_def selector_ti_ldt_def selectors entries kinds descriptor_base_def bases)
qed

text \<open>
  \<open>try_from_gdtr\<close> never panics on a GDT whose limit is not 0xffff, reads only entries
  inside the GDT, and reports every failure as the right error: an LDT selector, a null
  selector, an entry beyond the limit, or an upper half that is not a 32-bit base. The
  base of every descriptor it returns can be computed without a panic.
\<close>

lemma try_from_gdtr_outcomes:
  assumes "dtr_limit gdtr \<noteq> 0xffff"
  shows "\<exists>r. try_from_gdtr oc mem gdtr sel = Inr r \<and>
     (case r of
        Inl (LdtAccess s) \<Rightarrow> s = sel \<and> selector_ti_ldt sel
      | Inl (NullDescriptor s) \<Rightarrow> s = sel \<and> \<not> selector_ti_ldt sel \<and> selector_index sel = 0
      | Inl (OutOfGdtAccess i) \<Rightarrow> unat (dtr_limit gdtr) + 1 < 8 * (i + 1)
          \<and> (i = unat (selector_index sel) \<or> i = unat (selector_index sel) + 1)
      | Inl (InvalidGdtEntry i e) \<Rightarrow> i = unat (selector_index sel) + 1
          \<and> 8 * (i + 1) \<le> unat (dtr_limit gdtr) + 1
          \<and> e = mem (dtr_base gdtr + of_nat (8 * i)) \<and> 2 ^ 32 \<le> unat e
      | Inr d \<Rightarrow> 8 * (unat (selector_index sel) + 1) \<le> unat (dtr_limit gdtr) + 1
          \<and> low64 d = mem (dtr_base gdtr + of_nat (8 * unat (selector_index sel)))
          \<and> (upper_base d = None \<longleftrightarrow> \<not> is_16byte (low64 d))
          \<and> (\<exists>b. descriptor_base d = Inr b))"
proof -
  let ?i = "unat (selector_index sel)" and ?n = "unat (dtr_limit gdtr + 1) div 8"
  have in_range: "j < ?n \<longleftrightarrow> 8 * (j + 1) \<le> unat (dtr_limit gdtr) + 1" for j
    by (simp only: limit_plus_1(2) [OF assms] less_div_iff)
  have base: "\<exists>b. descriptor_base d = Inr b" for d
    using raw_base_total [of "low64 d"] by (auto simp: descriptor_base_def split: option.splits)
  have zero: "?i = 0 \<longleftrightarrow> selector_index sel = 0" by (simp add: unat_eq_zero)
  show ?thesis
    unfolding try_from_gdtr_def limit_plus_1(1) [OF assms] and_then_Inr Let_def slice_get_gdt zero in_range
    using base by (auto simp: not_le not_less)
qed

lemma try_from_gdtr_outcomes_example:
  "\<exists>r. try_from_gdtr True (\<lambda>_. 0) \<lparr>dtr_base = 0x1000, dtr_limit = 0x6f\<rparr> 0x70 = Inr r \<and>
     (r = Inl (OutOfGdtAccess 14) \<or> r = Inl (OutOfGdtAccess 15))"
proof -
  obtain r where r: "try_from_gdtr True (\<lambda>_. 0) \<lparr>dtr_base = 0x1000, dtr_limit = 0x6f\<rparr> 0x70 = Inr r"
    and out: "case r of
        Inl (OutOfGdtAccess i) \<Rightarrow> i = 14 \<or> i = 15
      | _ \<Rightarrow> False"
    using try_from_gdtr_outcomes [of "\<lparr>dtr_base = 0x1000, dtr_limit = 0x6f\<rparr>" True "\<lambda>_. 0" "0x70"]
    by (fastforce simp: selector_index_def selector_ti_ldt_def split: sum.splits segment_error.splits)
  from out have "r = Inl (OutOfGdtAccess 14) \<or> r = Inl (OutOfGdtAccess 15)"
    by (auto split: sum.splits segment_error.splits)
  with r show ?thesis by blast
qed

text \<open>
  A GDT of the maximal size (limit 0xffff) is not handled: \<open>gdtr.limit + 1\<close> overflows
  its 16 bits. With overflow checks every lookup of a GDT selector panics; without them
  the table appears empty and every lookup is out of range.
\<close>

lemma full_gdt_rejected:
  assumes "dtr_limit gdtr = 0xffff" and "\<not> selector_ti_ldt sel" and "selector_index sel \<noteq> 0"
  shows "try_from_gdtr True mem gdtr sel = Inl Overflow
       \<and> try_from_gdtr False mem gdtr sel = Inr (Inl (OutOfGdtAccess (unat (selector_index sel))))"
  using assms by (simp add: try_from_gdtr_def add_checked_def slice_get_gdt unat_eq_zero Let_def)

lemma full_gdt_rejected_example:
  "try_from_gdtr True (\<lambda>_. 0) \<lparr>dtr_base = 0x1000, dtr_limit = 0xffff\<rparr> 0x40 = Inl Overflow
   \<and> try_from_gdtr False (\<lambda>_. 0) \<lparr>dtr_base = 0x1000, dtr_limit = 0xffff\<rparr> 0x40 = Inr (Inl (OutOfGdtAccess 8))"
  using full_gdt_rejected [of "\<lparr>dtr_base = 0x1000, dtr_limit = 0xffff\<rparr>" "0x40" "\<lambda>_. 0"]
  by (simp add: selector_index_def selector_ti_ldt_def)

lemma descriptor_of_selector:
  "get_segment_descriptor_value mem table_base sel =
     mem (table_base + of_nat (8 * unat (selector_index sel)))"
proof -
  have "unat (selector_index sel) < 2 ^ 13"
    by (rule unat_less_exp) (auto simp: selector_index_def bit_simps dest: bit_imp_le_length)
  then have "unat (selector_index sel * 8) = 8 * unat (selector_index sel)"
    by (simp add: unat_word_ariths)
  then have "(ucast (selector_index sel * 8) :: u64) = of_nat (8 * unat (selector_index sel))"
    by (metis of_nat_unat)
  then show ?thesis by (simp add: get_segment_descriptor_value_def)
qed

lemma limit_granularity:
  fixes l :: u64
  assumes "unat l < 2 ^ 20"
  shows "unat (ucast (push_bit 12 (l + 1) - 1) :: u32) = (unat l + 1) * 4096 - 1"
proof -
  have "unat (l + 1) = unat l + 1" using assms by (simp add: unat_word_ariths)
  then have p: "unat (push_bit 12 (l + 1)) = (unat l + 1) * 4096"
    using assms by (simp add: push_bit_eq_mult unat_word_ariths)
  then have "unat (push_bit 12 (l + 1) - 1) = (unat l + 1) * 4096 - 1"
    by (subst unat_sub) (simp_all add: word_le_nat_alt)
  then show ?thesis
    using assms by (simp add: unsigned_ucast_eq take_bit_nat_eq_self_iff)
qed

text \<open>
  The segment attributes given to SVM: for a descriptor in the processor's format,
  \<open>get_segment_access_right\<close> is the 12-bit VMCB form (access byte, then the four flags)
  and \<open>get_segment_limit\<close> is the 20-bit limit, scaled to bytes when the granularity flag
  is set. A null selector has limit 0.
\<close>

lemma svm_segment_decoded:
  assumes "mem (table_base + of_nat (8 * unat (selector_index sel)))
             = encode_descriptor base limit access flags" and "drop_bit 2 sel \<noteq> 0"
  shows "get_segment_access_right mem table_base sel = ucast access OR push_bit 8 (take_bit 4 (ucast flags))
       \<and> unat (get_segment_limit mem table_base sel) =
           (if bit flags 3 then (unat (take_bit 20 limit) + 1) * 4096 - 1 else unat (take_bit 20 limit))"
proof
  let ?d = "encode_descriptor base limit access flags"
  have d: "get_segment_descriptor_value mem table_base sel = ?d"
    using assms(1) by (simp add: descriptor_of_selector)
  have f00: "w AND 0xf00 = push_bit 8 (take_bit 4 (drop_bit 8 w))" for w :: u16
  proof -
    have m: "(0xf00 :: u16) = push_bit 8 (mask 4)" by (simp add: mask_eq_exp_minus_1)
    show ?thesis unfolding m by (intro bit_word_eqI) (auto simp: bit_simps)
  qed
  show "get_segment_access_right mem table_base sel = ucast access OR push_bit 8 (take_bit 4 (ucast flags))"
    unfolding get_segment_access_right_def d Let_def f00 and_low_masks
    by (rule bit_word_eqI) (auto simp: bit_simps bit_encode_descriptor dest: bit_imp_le_length)
  let ?l = "take_bit 16 ?d OR push_bit 16 (take_bit 4 (drop_bit 48 ?d))"
  have "?l = ucast (take_bit 20 limit)"
    by (rule bit_word_eqI) (auto simp: bit_simps bit_encode_descriptor)
  then have ul: "unat ?l = unat (take_bit 20 limit)" by (simp add: unat_ucast_up)
  have lt: "unat (take_bit 20 limit) < 2 ^ 20" by (metis unsigned_take_bit_eq take_bit_nat_less_exp)
  have g: "drop_bit 55 ?d AND 1 \<noteq> 0 \<longleftrightarrow> bit flags 3"
  proof -
    have "drop_bit 55 ?d AND 1 \<noteq> 0 \<longleftrightarrow> bit ?d 55"
      by (simp add: and_one_eq bit_iff_odd_drop_bit odd_iff_mod_2_eq_one)
    then show ?thesis by (simp add: bit_encode_descriptor)
  qed
  have "get_segment_limit mem table_base sel = ucast (if bit flags 3 then push_bit 12 (?l + 1) - 1 else ?l)"
    unfolding get_segment_limit_def d Let_def and_low_masks using g assms(2) by simp
  moreover have "unat (ucast ?l :: u32) = unat ?l"
    using ul lt by (simp add: unsigned_ucast_eq take_bit_nat_eq_self_iff)
  ultimately show "unat (get_segment_limit mem table_base sel) =
           (if bit flags 3 then (unat (take_bit 20 limit) + 1) * 4096 - 1 else unat (take_bit 20 limit))"
    using limit_granularity [of ?l] ul lt by simp
qed

lemma svm_segment_decoded_example:
  "get_segment_access_right (\<lambda>a. 0x00cffb000000ffff) 0x1000 0x23 = 0xcfb
   \<and> unat (get_segment_limit (\<lambda>a. 0x00cffb000000ffff) 0x1000 0x23) = 0xffffffff"
proof -
  have "(0x00cffb000000ffff :: u64) = encode_descriptor 0 0xfffff 0xfb 0xc"
    by (simp add: encode_descriptor_def)
  from svm_segment_decoded [of "\<lambda>a. 0x00cffb000000ffff" "0x1000" "0x23", OF this] show ?thesis
    by simp
qed

end
