(* ===== verification/Machine.thy ===== *)
theory Machine
  imports Segment
begin

unbundle bit_operations_syntax

text \<open>
  The logical processor as the host code sees it: the general purpose registers that are
  captured for the guest (\<open>hypervisor/registers.rs\<close>), and the system registers behind the
  wrappers of \<open>hypervisor/x86_instructions.rs\<close>. A wrapper that only reads is a function of
  the machine, a wrapper that writes returns the updated machine. The two vendor
  specific parts extend the record \<open>machine\<close> with the state their instructions use, so
  everything here is defined on \<open>'a machine_scheme\<close>.

  Faults of the instructions themselves (for example a general protection fault of RDMSR
  on an MSR that does not exist) are not modelled; the results of LSL and LAR, with the
  flags they leave, are fields of the machine.
\<close>

section \<open>Definitions\<close>

record xmm =
  xmm_low :: u64
  xmm_high :: u64

record registers =
  rax :: u64
  rbx :: u64
  rcx :: u64
  rdx :: u64
  rdi :: u64
  rsi :: u64
  rbp :: u64
  r8 :: u64
  r9 :: u64
  r10 :: u64
  r11 :: u64
  r12 :: u64
  r13 :: u64
  r14 :: u64
  r15 :: u64
  rflags :: u64
  rsp :: u64
  rip :: u64
  xmm0 :: xmm
  xmm1 :: xmm
  xmm2 :: xmm
  xmm3 :: xmm
  xmm4 :: xmm
  xmm5 :: xmm

definition Xmm_default :: xmm where
  "Xmm_default = \<lparr>xmm_low = 0, xmm_high = 0\<rparr>"

definition Registers_default :: registers where
  "Registers_default =
     \<lparr>rax = 0, rbx = 0, rcx = 0, rdx = 0, rdi = 0, rsi = 0, rbp = 0, r8 = 0, r9 = 0, r10 = 0,
      r11 = 0, r12 = 0, r13 = 0, r14 = 0, r15 = 0, rflags = 0, rsp = 0, rip = 0,
      xmm0 = Xmm_default, xmm1 = Xmm_default, xmm2 = Xmm_default, xmm3 = Xmm_default,
      xmm4 = Xmm_default, xmm5 = Xmm_default\<rparr>"

text \<open>
  The processor. \<open>lsl_instr\<close> and \<open>lar_instr\<close> give, for a selector, the destination register
  and RFLAGS after the instruction; \<open>mem64\<close> is memory as the descriptor tables are read.
\<close>

record machine =
  cr0_reg :: u64
  cr2_reg :: u64
  cr3_reg :: u64
  cr4_reg :: u64
  xcr0_reg :: u64
  msrs :: "u32 \<Rightarrow> u64"
  gdtr_reg :: dtr
  idtr_reg :: dtr
  es_sel :: selector
  cs_sel :: selector
  ss_sel :: selector
  ds_sel :: selector
  fs_sel :: selector
  gs_sel :: selector
  tr_sel :: selector
  ldtr_sel :: selector
  dr0_reg :: u64
  dr1_reg :: u64
  dr2_reg :: u64
  dr3_reg :: u64
  dr6_reg :: u64
  dr7_reg :: u64
  lsl_instr :: "selector \<Rightarrow> u64 \<times> u64"
  lar_instr :: "selector \<Rightarrow> u64 \<times> u64"
  mem64 :: "u64 \<Rightarrow> u64"

subsection \<open>Architectural numbers\<close>

abbreviation IA32_APIC_BASE :: u32 where "IA32_APIC_BASE \<equiv> 0x1b"
abbreviation IA32_FEATURE_CONTROL :: u32 where "IA32_FEATURE_CONTROL \<equiv> 0x3a"
abbreviation IA32_MTRRCAP :: u32 where "IA32_MTRRCAP \<equiv> 0xfe"
abbreviation IA32_SYSENTER_CS :: u32 where "IA32_SYSENTER_CS \<equiv> 0x174"
abbreviation IA32_SYSENTER_ESP :: u32 where "IA32_SYSENTER_ESP \<equiv> 0x175"
abbreviation IA32_SYSENTER_EIP :: u32 where "IA32_SYSENTER_EIP \<equiv> 0x176"
abbreviation IA32_PAT :: u32 where "IA32_PAT \<equiv> 0x277"
abbreviation IA32_MTRR_DEF_TYPE :: u32 where "IA32_MTRR_DEF_TYPE \<equiv> 0x2ff"
abbreviation IA32_VMX_BASIC :: u32 where "IA32_VMX_BASIC \<equiv> 0x480"
abbreviation IA32_VMX_PINBASED_CTLS :: u32 where "IA32_VMX_PINBASED_CTLS \<equiv> 0x481"
abbreviation IA32_VMX_PROCBASED_CTLS :: u32 where "IA32_VMX_PROCBASED_CTLS \<equiv> 0x482"
abbreviation IA32_VMX_EXIT_CTLS :: u32 where "IA32_VMX_EXIT_CTLS \<equiv> 0x483"
abbreviation IA32_VMX_ENTRY_CTLS :: u32 where "IA32_VMX_ENTRY_CTLS \<equiv> 0x484"
abbreviation IA32_VMX_CR0_FIXED0 :: u32 where "IA32_VMX_CR0_FIXED0 \<equiv> 0x486"
abbreviation IA32_VMX_CR0_FIXED1 :: u32 where "IA32_VMX_CR0_FIXED1 \<equiv> 0x487"
abbreviation IA32_VMX_CR4_FIXED0 :: u32 where "IA32_VMX_CR4_FIXED0 \<equiv> 0x488"
abbreviation IA32_VMX_CR4_FIXED1 :: u32 where "IA32_VMX_CR4_FIXED1 \<equiv> 0x489"
abbreviation IA32_VMX_PROCBASED_CTLS2 :: u32 where "IA32_VMX_PROCBASED_CTLS2 \<equiv> 0x48b"
abbreviation IA32_VMX_TRUE_PINBASED_CTLS :: u32 where "IA32_VMX_TRUE_PINBASED_CTLS \<equiv> 0x48d"
abbreviation IA32_VMX_TRUE_PROCBASED_CTLS :: u32 where "IA32_VMX_TRUE_PROCBASED_CTLS \<equiv> 0x48e"
abbreviation IA32_VMX_TRUE_EXIT_CTLS :: u32 where "IA32_VMX_TRUE_EXIT_CTLS \<equiv> 0x48f"
abbreviation IA32_VMX_TRUE_ENTRY_CTLS :: u32 where "IA32_VMX_TRUE_ENTRY_CTLS \<equiv> 0x490"
abbreviation IA32_VMX_PROCBASED_CTLS3 :: u32 where "IA32_VMX_PROCBASED_CTLS3 \<equiv> 0x492"
abbreviation IA32_EFER :: u32 where "IA32_EFER \<equiv> 0xc0000080"
abbreviation IA32_FS_BASE :: u32 where "IA32_FS_BASE \<equiv> 0xc0000100"
abbreviation IA32_GS_BASE :: u32 where "IA32_GS_BASE \<equiv> 0xc0000101"
abbreviation SVM_MSR_VM_CR :: u32 where "SVM_MSR_VM_CR \<equiv> 0xc0010114"
abbreviation SVM_MSR_VM_HSAVE_PA :: u32 where "SVM_MSR_VM_HSAVE_PA \<equiv> 0xc0010117"

abbreviation (input) FLAGS_CF :: u64 where "FLAGS_CF \<equiv> 1"
abbreviation (input) FLAGS_A1 :: u64 where "FLAGS_A1 \<equiv> 2"
abbreviation (input) FLAGS_ZF :: u64 where "FLAGS_ZF \<equiv> 0x40"
abbreviation (input) CR4_ENABLE_OS_XSAVE :: u64 where "CR4_ENABLE_OS_XSAVE \<equiv> 0x40000"

text \<open>\<open>RFlags::contains\<close>\<close>

definition flags_contain :: "u64 \<Rightarrow> u64 \<Rightarrow> bool" where
  "flags_contain flags f \<longleftrightarrow> flags AND f = f"

subsection \<open>Wrappers of instructions\<close>

definition rdmsr :: "u32 \<Rightarrow> 'a machine_scheme \<Rightarrow> u64" where
  "rdmsr msr m = msrs m msr"

definition wrmsr :: "u32 \<Rightarrow> u64 \<Rightarrow> 'a machine_scheme \<Rightarrow> 'a machine_scheme" where
  "wrmsr msr value m = m\<lparr>msrs := (msrs m)(msr := value)\<rparr>"

definition cr0 :: "'a machine_scheme \<Rightarrow> u64" where "cr0 m = cr0_reg m"
definition cr2 :: "'a machine_scheme \<Rightarrow> u64" where "cr2 m = cr2_reg m"
definition cr3 :: "'a machine_scheme \<Rightarrow> u64" where "cr3 m = cr3_reg m"
definition cr4 :: "'a machine_scheme \<Rightarrow> u64" where "cr4 m = cr4_reg m"

definition cr0_write :: "u64 \<Rightarrow> 'a machine_scheme \<Rightarrow> 'a machine_scheme" where
  "cr0_write val m = m\<lparr>cr0_reg := val\<rparr>"
definition write_cr2 :: "u64 \<Rightarrow> 'a machine_scheme \<Rightarrow> 'a machine_scheme" where
  "write_cr2 val m = m\<lparr>cr2_reg := val\<rparr>"
definition cr3_write :: "u64 \<Rightarrow> 'a machine_scheme \<Rightarrow> 'a machine_scheme" where
  "cr3_write val m = m\<lparr>cr3_reg := val\<rparr>"
definition cr4_write :: "u64 \<Rightarrow> 'a machine_scheme \<Rightarrow> 'a machine_scheme" where
  "cr4_write val m = m\<lparr>cr4_reg := val\<rparr>"

definition lgdt :: "dtr \<Rightarrow> 'a machine_scheme \<Rightarrow> 'a machine_scheme" where
  "lgdt gdtr m = m\<lparr>gdtr_reg := gdtr\<rparr>"
definition lidt :: "dtr \<Rightarrow> 'a machine_scheme \<Rightarrow> 'a machine_scheme" where
  "lidt idtr m = m\<lparr>idtr_reg := idtr\<rparr>"
definition sidt :: "'a machine_scheme \<Rightarrow> dtr" where "sidt m = idtr_reg m"
definition sgdt :: "'a machine_scheme \<Rightarrow> dtr" where "sgdt m = gdtr_reg m"

definition lsl :: "selector \<Rightarrow> 'a machine_scheme \<Rightarrow> u32" where
  "lsl sel m = (case lsl_instr m sel of (limit, flags) \<Rightarrow>
     if flags_contain flags FLAGS_ZF then ucast limit else 0)"

definition lar :: "selector \<Rightarrow> 'a machine_scheme \<Rightarrow> u32" where
  "lar sel m = (case lar_instr m sel of (access_rights, flags) \<Rightarrow>
     if flags_contain flags FLAGS_ZF then ucast access_rights else 0)"

definition xsetbv :: "u32 \<Rightarrow> u64 \<Rightarrow> 'a machine_scheme \<Rightarrow> 'a machine_scheme rust" where
  "xsetbv xcr val m =
     and_then (assert_that (xcr = 0) ''xcr == 0'') (\<lambda>_. Inr (m\<lparr>xcr0_reg := val\<rparr>))"

definition tr :: "'a machine_scheme \<Rightarrow> selector" where "tr m = tr_sel m"
definition ldtr :: "'a machine_scheme \<Rightarrow> selector" where "ldtr m = ldtr_sel m"

section \<open>Reading registers after writing them\<close>

named_theorems machine_simps "unfolding the instruction wrappers"

lemmas wrapper_defs [machine_simps] = rdmsr_def wrmsr_def cr0_def cr2_def cr3_def cr4_def cr0_write_def
  write_cr2_def cr3_write_def cr4_write_def lgdt_def lidt_def sidt_def sgdt_def tr_def ldtr_def

lemma xsetbv_0 [machine_simps]: "xsetbv 0 v m = Inr (m\<lparr>xcr0_reg := v\<rparr>)"
  by (simp add: xsetbv_def)


section \<open>A machine for evaluation\<close>

text \<open>A processor with the given MSRs and memory and all other registers zero; the theorems are applied to it.\<close>

definition blank_machine :: "(u32 \<Rightarrow> u64) \<Rightarrow> (u64 \<Rightarrow> u64) \<Rightarrow> 'a \<Rightarrow> 'a machine_scheme" where
  "blank_machine f g x =
     \<lparr>cr0_reg = 0, cr2_reg = 0, cr3_reg = 0, cr4_reg = 0, xcr0_reg = 0, msrs = f,
      gdtr_reg = \<lparr>dtr_base = 0, dtr_limit = 0\<rparr>, idtr_reg = \<lparr>dtr_base = 0, dtr_limit = 0\<rparr>,
      es_sel = 0, cs_sel = 0, ss_sel = 0, ds_sel = 0, fs_sel = 0, gs_sel = 0, tr_sel = 0, ldtr_sel = 0,
      dr0_reg = 0, dr1_reg = 0, dr2_reg = 0, dr3_reg = 0, dr6_reg = 0, dr7_reg = 0,
      lsl_instr = (\<lambda>_. (0, 0)), lar_instr = (\<lambda>_. (0, 0)), mem64 = g, \<dots> = x\<rparr>"

lemma blank_machine_msrs [simp]: "msrs (blank_machine f g x) = f"
  by (simp add: blank_machine_def)

end
