(* ===== verification/Mtrr.thy ===== *)
theory Mtrr
  imports Machine
begin

unbundle bit_operations_syntax

text \<open>
  The memory type range registers, \<open>hypervisor/intel/mtrr.rs\<close>: reading the raw registers,
  converting them to lists of address ranges, and looking up the memory type of a range.
  A loop of the source is a recursion that stops at the first panic. \<open>overflow_checks\<close> is
  the build profile, and \<open>bsf_undefined\<close> the value BSF leaves in its destination
  when its operand is zero, which the manuals leave undefined.
\<close>

section \<open>Definitions\<close>

datatype MemoryType =
  Uncachable | WriteCombining | WriteThrough | WriteProtected | WriteBack | UncachableMinus

definition MemoryType_from_u8 :: "u8 \<Rightarrow> MemoryType option" where
  "MemoryType_from_u8 b =
     (if b = 0 then Some Uncachable else if b = 1 then Some WriteCombining
      else if b = 4 then Some WriteThrough else if b = 5 then Some WriteProtected
      else if b = 6 then Some WriteBack else if b = 7 then Some UncachableMinus else None)"

text \<open>\<open>memory_type as u64\<close>\<close>

primrec MemoryType_code :: "MemoryType \<Rightarrow> u64" where
  "MemoryType_code Uncachable = 0"
| "MemoryType_code WriteCombining = 1"
| "MemoryType_code WriteThrough = 4"
| "MemoryType_code WriteProtected = 5"
| "MemoryType_code WriteBack = 6"
| "MemoryType_code UncachableMinus = 7"

record MemoryTypeRange =
  memory_type :: MemoryType
  range_start :: u64
  range_end :: u64

record Mtrr =
  default_memory_type :: MemoryType
  fixed :: "MemoryTypeRange list"
  variable :: "MemoryTypeRange list"

record RawVariableMtrr =
  raw_mtrr_base :: u64
  raw_mtrr_mask :: u64

record RawMtrrs =
  raw_default_memory_type :: MemoryType
  raw_fixed :: "u64 list"
  raw_variable :: "RawVariableMtrr list"

definition range_contains :: "MemoryTypeRange \<Rightarrow> u64 \<Rightarrow> bool" where
  "range_contains r a \<longleftrightarrow> range_start r \<le> a \<and> a < range_end r"

text \<open>\<open>find\<close> and its two halves, for the range from \<open>s\<close> to \<open>e\<close>; every caller has \<open>s < e\<close>, so \<open>e - 1\<close> does not wrap.\<close>

definition find_from_fixed :: "Mtrr \<Rightarrow> u64 \<Rightarrow> u64 \<Rightarrow> MemoryType option" where
  "find_from_fixed mt s e =
     map_option memory_type (List.find (\<lambda>r. range_contains r s \<and> range_contains r (e - 1)) (fixed mt))"

fun find_from_variable_loop ::
  "MemoryType option \<Rightarrow> MemoryTypeRange list \<Rightarrow> u64 \<Rightarrow> u64 \<Rightarrow> MemoryType \<Rightarrow> MemoryType option" where
  "find_from_variable_loop ret [] s e dflt =
     (case ret of None \<Rightarrow> Some dflt | Some t \<Rightarrow> Some t)"
| "find_from_variable_loop ret (r # rs) s e dflt =
     (if range_contains r s then
        (if \<not> range_contains r (e - 1) then None
         else if memory_type r = Uncachable then Some (memory_type r)
         else
           let ret' = (case ret of
                 Some t \<Rightarrow> if t = WriteBack \<and> memory_type r = WriteThrough then Some (memory_type r) else ret
               | None \<Rightarrow> Some (memory_type r))
           in find_from_variable_loop ret' rs s e dflt)
      else find_from_variable_loop ret rs s e dflt)"

definition find_from_variable :: "Mtrr \<Rightarrow> u64 \<Rightarrow> u64 \<Rightarrow> MemoryType option" where
  "find_from_variable mt s e = find_from_variable_loop None (variable mt) s e (default_memory_type mt)"

definition mtrr_find :: "Mtrr \<Rightarrow> u64 \<Rightarrow> u64 \<Rightarrow> MemoryType option" where
  "mtrr_find mt s e =
     (if s < 0x100000 then (if e > 0x100000 then None else find_from_fixed mt s e)
      else find_from_variable mt s e)"

definition update_combined_ranges :: "MemoryTypeRange list \<Rightarrow> MemoryTypeRange \<Rightarrow> MemoryTypeRange list" where
  "update_combined_ranges rs r =
     (if rs \<noteq> [] \<and> memory_type (last rs) = memory_type r \<and> range_end (last rs) = range_start r
      then butlast rs @ [(last rs)\<lparr>range_end := range_end r\<rparr>]
      else if rs \<noteq> [] \<and> memory_type (last rs) = memory_type r \<and> range_start (last rs) = range_end r
      then butlast rs @ [(last rs)\<lparr>range_start := range_start r\<rparr>]
      else rs @ [r])"

definition FIXED_MTRR_RANGES :: "(u64 \<times> u64) list" where
  "FIXED_MTRR_RANGES =
     [(0x0, 0x10000), (0x80000, 0x4000), (0xA0000, 0x4000), (0xC0000, 0x1000), (0xC8000, 0x1000),
      (0xD0000, 0x1000), (0xD8000, 0x1000), (0xE0000, 0x1000), (0xE8000, 0x1000), (0xF0000, 0x1000),
      (0xF8000, 0x1000)]"

definition to_be_bytes :: "u64 \<Rightarrow> u8 list" where
  "to_be_bytes v = map (\<lambda>j. ucast (drop_bit (8 * (7 - j)) v)) [0..<8]"

text \<open>The inner loop of \<open>convert_from_raw_fixed\<close>, at byte \<open>j\<close> of a register for \<open>rng\<close>.\<close>

fun fixed_bytes_loop ::
  "u64 \<times> u64 \<Rightarrow> nat \<Rightarrow> u8 list \<Rightarrow> MemoryTypeRange list \<Rightarrow> MemoryTypeRange list rust" where
  "fixed_bytes_loop rng j [] combined = Inr combined"
| "fixed_bytes_loop rng j (byte # bytes) combined =
     and_then (unwrap ''MemoryType::from_u8'' (MemoryType_from_u8 byte)) (\<lambda>mt.
       let base = fst rng + snd rng * of_nat j
       in fixed_bytes_loop rng (j + 1) bytes
            (update_combined_ranges combined \<lparr>memory_type = mt, range_start = base, range_end = base + snd rng\<rparr>))"

fun fixed_loop :: "(u64 \<times> u64) list \<Rightarrow> u64 list \<Rightarrow> MemoryTypeRange list \<Rightarrow> MemoryTypeRange list rust" where
  "fixed_loop (rng # rngs) (raw # raws) combined =
     and_then (fixed_bytes_loop rng 0 (to_be_bytes raw) combined) (fixed_loop rngs raws)"
| "fixed_loop _ _ combined = Inr combined"

definition convert_from_raw_fixed :: "u64 list \<Rightarrow> MemoryTypeRange list rust" where
  "convert_from_raw_fixed raw_fixed_mtrrs =
     and_then (assert_that (length raw_fixed_mtrrs = length FIXED_MTRR_RANGES) ''len'') (\<lambda>_.
     fixed_loop FIXED_MTRR_RANGES raw_fixed_mtrrs [])"

definition bit_scan_forward :: "u64 \<Rightarrow> u64 \<Rightarrow> u64" where
  "bit_scan_forward bsf_undefined value =
     (case List.find (bit value) [0..<64] of None \<Rightarrow> bsf_undefined | Some i \<Rightarrow> of_nat i)"

definition IA32_MTRR_PHYSMASK_VALID_FLAG :: u64 where "IA32_MTRR_PHYSMASK_VALID_FLAG = 0x800"

fun variable_loop ::
  "bool \<Rightarrow> u64 \<Rightarrow> RawVariableMtrr list \<Rightarrow> MemoryTypeRange list \<Rightarrow> MemoryTypeRange list rust" where
  "variable_loop oc bsf_undefined [] combined = Inr combined"
| "variable_loop oc bsf_undefined (raw # raws) combined =
     (if raw_mtrr_mask raw AND IA32_MTRR_PHYSMASK_VALID_FLAG \<noteq> 0 then
        let page_frame = drop_bit 12 (raw_mtrr_mask raw);
            len = bit_scan_forward bsf_undefined page_frame
        in and_then (shl_checked oc 1 (unat len)) (\<lambda>size_in_pages.
           let size_in_bytes = push_bit 12 size_in_pages in
           and_then (unwrap ''MemoryType::from_u8'' (MemoryType_from_u8 (ucast (raw_mtrr_base raw)))) (\<lambda>mt.
           let base = raw_mtrr_base raw AND NOT 0xfff in
           and_then (add_checked oc base size_in_bytes) (\<lambda>end.
           variable_loop oc bsf_undefined raws
             (update_combined_ranges combined \<lparr>memory_type = mt, range_start = base, range_end = end\<rparr>))))
      else variable_loop oc bsf_undefined raws combined)"

definition convert_from_raw_variable :: "bool \<Rightarrow> u64 \<Rightarrow> RawVariableMtrr list \<Rightarrow> MemoryTypeRange list rust" where
  "convert_from_raw_variable oc bsf_undefined raws = variable_loop oc bsf_undefined raws []"

definition FIXED_MTRRS :: "u32 list" where
  "FIXED_MTRRS = [0x250, 0x258, 0x259, 0x268, 0x269, 0x26a, 0x26b, 0x26c, 0x26d, 0x26e, 0x26f]"

definition VARIABLE_MTRRS :: "u32 list" where
  "VARIABLE_MTRRS = map (\<lambda>i. 0x200 + of_nat i) [0..<20]"

text \<open>\<open>for i in (0..VARIABLE_MTRRS.len()).step_by(2)\<close>, with \<open>i = 2 * k\<close>.\<close>

definition read_variable_mtrrs :: "nat \<Rightarrow> 'm machine_scheme \<Rightarrow> RawVariableMtrr list" where
  "read_variable_mtrrs variable_mtrr_count m =
     map (\<lambda>i. \<lparr>raw_mtrr_base = rdmsr (VARIABLE_MTRRS ! i) m, raw_mtrr_mask = rdmsr (VARIABLE_MTRRS ! (i + 1)) m\<rparr>)
       (filter (\<lambda>i. i < variable_mtrr_count * 2) (map (\<lambda>k. 2 * k) [0..<length VARIABLE_MTRRS div 2]))"

definition RawMtrrs_new :: "'m machine_scheme \<Rightarrow> RawMtrrs rust" where
  "RawMtrrs_new m =
     (let default_type = rdmsr IA32_MTRR_DEF_TYPE m in
      and_then (assert_that (default_type AND 0x800 \<noteq> 0) ''MTRRs not enabled'') (\<lambda>_.
      and_then (assert_that (default_type AND 0x400 \<noteq> 0) ''Fixed range MTRRs not enabled'') (\<lambda>_.
      and_then (unwrap ''MemoryType::from_u8'' (MemoryType_from_u8 (ucast default_type))) (\<lambda>dflt.
      let capabilities = rdmsr IA32_MTRRCAP m;
          variable_mtrr_count = unat (capabilities AND 0xff)
      in Inr \<lparr>raw_default_memory_type = dflt,
              raw_fixed = map (\<lambda>msr. rdmsr msr m) FIXED_MTRRS,
              raw_variable = read_variable_mtrrs variable_mtrr_count m\<rparr>))))"

definition Mtrr_new :: "bool \<Rightarrow> u64 \<Rightarrow> 'm machine_scheme \<Rightarrow> Mtrr rust" where
  "Mtrr_new oc bsf_undefined m =
     and_then (RawMtrrs_new m) (\<lambda>raw.
     and_then (convert_from_raw_fixed (raw_fixed raw)) (\<lambda>f.
     and_then (convert_from_raw_variable oc bsf_undefined (raw_variable raw)) (\<lambda>v.
     Inr \<lparr>default_memory_type = raw_default_memory_type raw, fixed = f, variable = v\<rparr>)))"


section \<open>Variable ranges: the memory type of an address\<close>

text \<open>
  The architecture gives an address the type UC when any matching range says so, the
  default type when none matches, the common type when all matching ranges agree, and
  WT when the matching ranges are WT and WB. Any other overlap is undefined (\<open>None\<close>).
\<close>

definition types_at :: "MemoryTypeRange list \<Rightarrow> u64 \<Rightarrow> MemoryType set" where
  "types_at rs a = set (map memory_type (filter (\<lambda>r. range_contains r a) rs))"

definition effective_type :: "MemoryType \<Rightarrow> MemoryType set \<Rightarrow> MemoryType option" where
  "effective_type dflt ts =
     (if Uncachable \<in> ts then Some Uncachable
      else if ts = {} then Some dflt
      else if \<exists>t. ts = {t} then Some (the_elem ts)
      else if ts = {WriteThrough, WriteBack} then Some WriteThrough
      else None)"






lemma word_le_pred: "a < e \<Longrightarrow> a \<le> e - 1" for a e :: u64
proof -
  assume "a < e"
  then have "unat a < unat e" by (simp add: word_less_nat_alt)
  then have "unat (e - 1) = unat e - 1" by (subst unat_sub) (auto simp: word_le_nat_alt)
  with \<open>unat a < unat e\<close> show ?thesis by (simp add: word_le_nat_alt)
qed






text \<open>
  The condition on ranges that begin inside the queried range cannot be dropped: for a
  2MB page whose second half is uncachable, \<open>find\<close> answers with the default type write-back,
  and does not report the conflict.
\<close>

lemma mtrr_find_misses_inner_range:
  "let mt = \<lparr>default_memory_type = WriteBack, fixed = [],
             variable = [\<lparr>memory_type = Uncachable, range_start = 0x10100000, range_end = 0x10200000\<rparr>]\<rparr>
   in mtrr_find mt 0x10000000 0x10200000 = Some WriteBack
    \<and> effective_type (default_memory_type mt) (types_at (variable mt) 0x10100000) = Some Uncachable"
proof -
  have "types_at [\<lparr>memory_type = Uncachable, range_start = 0x10100000, range_end = 0x10200000\<rparr>] 0x10100000
      = {Uncachable}" by (auto simp: types_at_def range_contains_def)
  then show ?thesis
    by (simp add: mtrr_find_def find_from_variable_def range_contains_def effective_type_def)
qed

section \<open>Fixed ranges\<close>

text \<open>What the combined list represents: the ranges \<open>xs\<close> added so far, up to address \<open>b\<close>.\<close>

definition tiled :: "MemoryTypeRange list \<Rightarrow> MemoryTypeRange list \<Rightarrow> u64 \<Rightarrow> bool" where
  "tiled rs xs b \<longleftrightarrow>
     (\<forall>x\<in>set xs. \<exists>r\<in>set rs. range_start r \<le> range_start x \<and> range_end x \<le> range_end r \<and> memory_type r = memory_type x)
   \<and> sorted_wrt (\<lambda>r r'. range_end r \<le> range_start r') rs
   \<and> (\<forall>r\<in>set rs. range_start r < range_end r) \<and> (rs \<noteq> [] \<longrightarrow> range_end (last rs) = b)"

lemma tiled_update:
  assumes "tiled rs xs (range_start x)" and "range_start x < range_end x"
  shows "tiled (update_combined_ranges rs x) (xs @ [x]) (range_end x)"
proof (cases "rs = []")
  case True
  with assms show ?thesis by (simp add: tiled_def update_combined_ranges_def)
next
  case False
  then obtain qs l where rs: "rs = qs @ [l]" by (metis append_butlast_last_id)
  have l: "range_end l = range_start x" "range_start l < range_end l" using assms rs by (auto simp: tiled_def)
  then have "range_start l \<noteq> range_end x" using assms(2) by auto
  show ?thesis
  proof (cases "memory_type l = memory_type x")
    case True
    then have "update_combined_ranges rs x = qs @ [l\<lparr>range_end := range_end x\<rparr>]"
      using rs l by (simp add: update_combined_ranges_def)
    with assms l True rs show ?thesis
      by (auto simp: tiled_def sorted_wrt_append ball_Un bex_Un)
  next
    case False
    then have "update_combined_ranges rs x = rs @ [x]"
      using rs by (simp add: update_combined_ranges_def)
    with assms l rs show ?thesis by (force simp: tiled_def sorted_wrt_append)
  qed
qed


lemma tiled_unique:
  "sorted_wrt (\<lambda>r r'. range_end r \<le> range_start r') rs \<Longrightarrow> r \<in> set rs \<Longrightarrow> r' \<in> set rs \<Longrightarrow>
     range_contains r a \<Longrightarrow> range_contains r' a \<Longrightarrow> r = r'"
  by (induction rs) (fastforce simp: range_contains_def)+

lemma tiled_find:
  assumes "tiled rs xs b" and "x \<in> set xs" and "range_contains x s" and "range_contains x (e - 1)"
  shows "map_option memory_type (List.find (\<lambda>r. range_contains r s \<and> range_contains r (e - 1)) rs) = Some (memory_type x)"
proof -
  let ?P = "\<lambda>r. range_contains r s \<and> range_contains r (e - 1)"
  from assms(1,2) obtain r where r: "r \<in> set rs" "range_start r \<le> range_start x" "range_end x \<le> range_end r"
    "memory_type r = memory_type x" by (auto simp: tiled_def)
  then have P: "?P r" using assms(3,4) by (auto simp: range_contains_def)
  then obtain r' where r': "List.find ?P rs = Some r'"
    using r(1) by (cases "List.find ?P rs") (auto simp: find_None_iff)
  then have "r' \<in> set rs \<and> ?P r'" by (auto simp: find_Some_iff)
  with P r(1) assms(1) have "r' = r" by (auto simp: tiled_def intro: tiled_unique)
  with r' r(4) show ?thesis by simp
qed

text \<open>The sub-ranges of one register, with the byte of \<open>bytes\<close> that gives each its type.\<close>

definition subranges :: "u64 \<times> u64 \<Rightarrow> nat \<Rightarrow> u8 list \<Rightarrow> MemoryTypeRange list" where
  "subranges rng j bytes =
     map (\<lambda>k. \<lparr>memory_type = the (MemoryType_from_u8 (bytes ! k)), range_start = fst rng + snd rng * of_nat (j + k),
              range_end = fst rng + snd rng * of_nat (j + k) + snd rng\<rparr>) [0..<length bytes]"

lemma subranges_Cons:
  "subranges rng j (byte # bytes) =
     \<lparr>memory_type = the (MemoryType_from_u8 byte), range_start = fst rng + snd rng * of_nat j,
      range_end = fst rng + snd rng * of_nat j + snd rng\<rparr> # subranges rng (j + 1) bytes"
  by (simp add: subranges_def map_upt_Suc add_ac del: upt_Suc)

text \<open>A window of \<open>n\<close> sub-ranges of size \<open>sz\<close> from \<open>b\<close> that does not wrap.\<close>

lemma subrange_nonempty:
  fixes b sz :: u64
  assumes "unat b + unat sz * (j + 1) < 2 ^ 64" and "sz \<noteq> 0"
  shows "unat (b + sz * of_nat j) = unat b + unat sz * j" and "b + sz * of_nat j < b + sz * of_nat j + sz"
proof -
  have "0 < unat sz" using assms(2) by (simp add: unat_gt_0)
  then have "j \<le> unat sz * j" by simp
  moreover have m: "unat sz * j < 2 ^ 64" using assms(1) by (simp add: algebra_simps)
  ultimately have j: "j < 2 ^ 64" by linarith
  show u: "unat (b + sz * of_nat j) = unat b + unat sz * j"
  proof -
    have "unat (of_nat j :: u64) = j" using j by (simp add: unat_of_nat)
    then have "unat (sz * of_nat j) = unat sz * j" using m by (simp add: unat_word_ariths(2))
    moreover have "unat b + unat sz * j < 2 ^ 64" using assms(1) by (simp add: algebra_simps)
    ultimately show ?thesis by (simp add: unat_word_ariths(1))
  qed
  then have "unat (b + sz * of_nat j + sz) = unat b + unat sz * j + unat sz"
    using unat_word_ariths(1) [of "b + sz * of_nat j" sz] assms(1) by (simp add: distrib_left)
  with u \<open>0 < unat sz\<close> show "b + sz * of_nat j < b + sz * of_nat j + sz" by (simp add: word_less_nat_alt)
qed

lemma fixed_bytes_tiled:
  "fixed_bytes_loop (b, sz) j bytes rs = Inr rs' \<Longrightarrow> tiled rs xs (b + sz * of_nat j) \<Longrightarrow> sz \<noteq> 0 \<Longrightarrow>
     unat b + unat sz * (j + length bytes) < 2 ^ 64 \<Longrightarrow>
     tiled rs' (xs @ subranges (b, sz) j bytes) (b + sz * of_nat (j + length bytes))
   \<and> (\<forall>k<length bytes. MemoryType_from_u8 (bytes ! k) \<noteq> None)"
proof (induction bytes arbitrary: j rs xs)
  case Nil
  then show ?case by (simp add: subranges_def)
next
  case (Cons byte bytes)
  from Cons.prems(1) obtain t where t: "MemoryType_from_u8 byte = Some t"
    and f: "fixed_bytes_loop (b, sz) (j + 1) bytes
        (update_combined_ranges rs \<lparr>memory_type = t, range_start = b + sz * of_nat j, range_end = b + sz * of_nat j + sz\<rparr>) = Inr rs'"
    by (auto simp: rust_simps Let_def)
  let ?x = "\<lparr>memory_type = t, range_start = b + sz * of_nat j, range_end = b + sz * of_nat j + sz\<rparr>"
  have "unat sz * (j + 1) \<le> unat sz * (j + length (byte # bytes))" by simp
  then have "b + sz * of_nat j < b + sz * of_nat j + sz"
    using Cons.prems(3,4) by (intro subrange_nonempty(2)) linarith+
  then have "tiled (update_combined_ranges rs ?x) (xs @ [?x]) (b + sz * of_nat (j + 1))"
    using tiled_update [of rs xs ?x] Cons.prems(2) by (simp add: algebra_simps)
  from Cons.IH [OF f this] Cons.prems(3,4) t show ?case
    by (auto simp: subranges_Cons add.assoc nth_Cons split: nat.splits)
qed


fun contiguous :: "u64 \<Rightarrow> (u64 \<times> u64) list \<Rightarrow> bool" where
  "contiguous b [] = True"
| "contiguous b ((b', sz) # rngs) \<longleftrightarrow>
     b = b' \<and> sz \<noteq> 0 \<and> unat b + unat sz * 8 < 2 ^ 64 \<and> contiguous (b + sz * 8) rngs"

definition fixed_subranges :: "(u64 \<times> u64) list \<Rightarrow> u64 list \<Rightarrow> MemoryTypeRange list" where
  "fixed_subranges rngs raws = concat (map2 (\<lambda>rng raw. subranges rng 0 (to_be_bytes raw)) rngs raws)"

lemma length_to_be_bytes [simp]: "length (to_be_bytes v) = 8"
  by (simp add: to_be_bytes_def)

lemma fixed_loop_tiled:
  "fixed_loop rngs raws rs = Inr rs' \<Longrightarrow> length raws = length rngs \<Longrightarrow> contiguous b rngs \<Longrightarrow> tiled rs xs b \<Longrightarrow>
     (\<exists>b'. tiled rs' (xs @ fixed_subranges rngs raws) b')
   \<and> (\<forall>i<length raws. \<forall>k<8. MemoryType_from_u8 (to_be_bytes (raws ! i) ! k) \<noteq> None)"
proof (induction rngs raws rs arbitrary: b xs rule: fixed_loop.induct)
  case (1 rng rngs raw raws rs)
  obtain sz where rng: "rng = (b, sz)" and sz: "sz \<noteq> 0" "unat b + unat sz * 8 < 2 ^ 64"
    and c: "contiguous (b + sz * 8) rngs"
    using "1.prems"(3) by (cases rng) auto
  from "1.prems"(1) obtain rs1 where r1: "fixed_bytes_loop (b, sz) 0 (to_be_bytes raw) rs = Inr rs1"
    and r2: "fixed_loop rngs raws rs1 = Inr rs'" by (auto simp: rust_simps rng)
  from fixed_bytes_tiled [OF r1, of xs] "1.prems"(4) sz
  have t: "tiled rs1 (xs @ subranges rng 0 (to_be_bytes raw)) (b + sz * 8)"
    and d: "\<forall>k<8. MemoryType_from_u8 (to_be_bytes raw ! k) \<noteq> None" by (simp_all add: rng)
  from "1.IH" [OF r2 _ c t] "1.prems"(2) d show ?case
    by (auto simp: fixed_subranges_def nth_Cons split: nat.splits)
qed (auto simp: fixed_subranges_def)

lemma length_fixed_ranges: "length FIXED_MTRR_RANGES = 11"
  by (simp add: FIXED_MTRR_RANGES_def)

lemma fixed_ranges_contiguous: "contiguous 0 FIXED_MTRR_RANGES"
  by (simp add: FIXED_MTRR_RANGES_def)

lemma fixed_ranges_below_1MB:
  "(b, sz) \<in> set FIXED_MTRR_RANGES \<Longrightarrow> unat b + unat sz * 8 \<le> 0x100000 \<and> sz \<noteq> 0"
  by (auto simp: FIXED_MTRR_RANGES_def)

lemma nth_to_be_bytes: "j < 8 \<Longrightarrow> to_be_bytes v ! j = ucast (drop_bit (8 * (7 - j)) v)"
  by (simp add: to_be_bytes_def)

lemma convert_fixed_find:
  assumes "convert_from_raw_fixed raws = Inr (fixed mt)" and "i < 11" and "j < 8"
    and "FIXED_MTRR_RANGES ! i = (b, sz)"
    and "range_contains \<lparr>memory_type = t, range_start = b + sz * of_nat j, range_end = b + sz * of_nat j + sz\<rparr> s"
    and "range_contains \<lparr>memory_type = t, range_start = b + sz * of_nat j, range_end = b + sz * of_nat j + sz\<rparr> (e - 1)"
  shows "find_from_fixed mt s e = MemoryType_from_u8 (to_be_bytes (raws ! i) ! j)
       \<and> MemoryType_from_u8 (to_be_bytes (raws ! i) ! j) \<noteq> None"
proof -
  from assms(1) have len: "length raws = length FIXED_MTRR_RANGES"
    and f: "fixed_loop FIXED_MTRR_RANGES raws [] = Inr (fixed mt)"
    by (auto simp: convert_from_raw_fixed_def rust_simps)
  have len11: "length raws = 11" using len by (simp add: FIXED_MTRR_RANGES_def)
  from fixed_loop_tiled [OF f len fixed_ranges_contiguous, of "[]"] obtain b'
    where t: "tiled (fixed mt) (fixed_subranges FIXED_MTRR_RANGES raws) b'"
      and d: "\<forall>i<11. \<forall>k<8. MemoryType_from_u8 (to_be_bytes (raws ! i) ! k) \<noteq> None"
    by (auto simp: tiled_def len11)
  let ?x = "subranges (b, sz) 0 (to_be_bytes (raws ! i)) ! j"
  have "subranges (FIXED_MTRR_RANGES ! i) 0 (to_be_bytes (raws ! i))
      \<in> set (map2 (\<lambda>rng raw. subranges rng 0 (to_be_bytes raw)) FIXED_MTRR_RANGES raws)"
    using assms(2) len len11 by (force simp: set_zip)
  then have "?x \<in> set (fixed_subranges FIXED_MTRR_RANGES raws)"
    using assms(3,4) by (force simp: fixed_subranges_def subranges_def)
  moreover have "range_contains ?x s" "range_contains ?x (e - 1)"
    using assms(3,5,6) by (simp_all add: subranges_def range_contains_def)
  ultimately have "find_from_fixed mt s e = Some (memory_type ?x)"
    unfolding find_from_fixed_def by (rule tiled_find [OF t])
  with assms(2,3) d show ?thesis by (auto simp: subranges_def)
qed


text \<open>
  Every range inside a sub-range of a fixed MTRR (so every 4KB page below 1MB) has a
  memory type: sub-range \<open>j\<close> of register \<open>i\<close> gets the type encoded in byte \<open>7 - j\<close> of the
  register, where byte 0 is the least significant. The manuals assign byte \<open>j\<close> to
  sub-range \<open>j\<close>; the code reads the bytes in the reverse order (\<open>to_be_bytes\<close>).
\<close>

lemma fixed_mtrr_lookup:
  assumes "convert_from_raw_fixed raws = Inr (fixed mt)" and "i < 11" and "j < 8"
    and "FIXED_MTRR_RANGES ! i = (b, sz)"
    and "b + sz * of_nat j \<le> s" and "s < e" and "e \<le> b + sz * of_nat j + sz"
  shows "mtrr_find mt s e = MemoryType_from_u8 (ucast (drop_bit (8 * (7 - j)) (raws ! i)))
       \<and> mtrr_find mt s e \<noteq> None"
proof -
  have "(b, sz) \<in> set FIXED_MTRR_RANGES"
    using assms(2,4) nth_mem [of i FIXED_MTRR_RANGES] by (simp add: length_fixed_ranges)
  note below = fixed_ranges_below_1MB [OF this]
  have le: "unat sz * j + unat sz \<le> unat sz * 8"
    using assms(3) mult_le_mono2 [of "j + 1" 8 "unat sz"] by (simp add: algebra_simps)
  have "unat b + unat sz * (j + 1) \<le> 0x100000" using below le unfolding distrib_left mult_1_right by linarith
  then have lt: "unat b + unat sz * (j + 1) < 2 ^ 64" by simp
  have "unat (b + sz * of_nat j + sz) \<le> unat b + unat sz * j + unat sz"
    using unat_add_le [of "b + sz * of_nat j" sz] subrange_nonempty(1) [OF lt] below by simp
  with below le have "unat (b + sz * of_nat j + sz) \<le> 0x100000" by linarith
  with assms(7) have e: "\<not> e > 0x100000" by (simp add: word_less_nat_alt word_le_nat_alt)
  with assms(6) have s: "s < 0x100000" by simp
  let ?x = "\<lparr>memory_type = WriteBack, range_start = b + sz * of_nat j, range_end = b + sz * of_nat j + sz\<rparr>"
  have "unat (e - 1) = unat e - 1" using assms(6) by (subst unat_sub) (auto simp: word_le_nat_alt word_less_nat_alt)
  then have "e - 1 < e" using assms(6) by (auto simp: word_less_nat_alt)
  then have "range_contains ?x s" "range_contains ?x (e - 1)"
    using assms(5,6,7) word_le_pred [OF assms(6)] by (auto simp: range_contains_def)
  from convert_fixed_find [OF assms(1,2,3,4) this] s e show ?thesis
    by (simp add: mtrr_find_def nth_to_be_bytes [OF assms(3)])
qed

lemma fixed_bytes_total:
  "\<forall>b\<in>set bytes. MemoryType_from_u8 b \<noteq> None \<Longrightarrow> \<exists>rs'. fixed_bytes_loop rng j bytes rs = Inr rs'"
  by (induction bytes arbitrary: j rs) (auto simp: Let_def)

lemma convert_fixed_total:
  assumes "length raws = 11" and "\<forall>raw\<in>set raws. \<forall>b\<in>set (to_be_bytes raw). MemoryType_from_u8 b \<noteq> None"
  shows "\<exists>rs. convert_from_raw_fixed raws = Inr rs"
proof -
  have "\<exists>rs'. fixed_loop rngs raws rs = Inr rs'" for rngs rs
    using assms(2)
  proof (induction rngs raws rs rule: fixed_loop.induct)
    case (1 rng rngs raw raws rs)
    obtain rs1 where "fixed_bytes_loop rng 0 (to_be_bytes raw) rs = Inr rs1"
      using fixed_bytes_total [of "to_be_bytes raw" rng 0 rs] "1.prems" by auto
    with 1 show ?case by simp
  qed auto
  with assms(1) show ?thesis by (simp add: convert_from_raw_fixed_def length_fixed_ranges)
qed

lemma fixed_mtrr_lookup_example:
  "\<exists>rs. convert_from_raw_fixed (0x0606060606060600 # replicate 10 0x0606060606060606) = Inr rs
     \<and> mtrr_find \<lparr>default_memory_type = WriteBack, fixed = rs, variable = []\<rparr> 0x71000 0x72000 = Some Uncachable"
proof -
  let ?raws = "0x0606060606060600 # replicate 10 0x0606060606060606"
  have "\<exists>rs. convert_from_raw_fixed ?raws = Inr rs"
    by (rule convert_fixed_total) (simp_all add: to_be_bytes_def MemoryType_from_u8_def upt_rec [of _ 8])
  then obtain rs where rs: "convert_from_raw_fixed ?raws = Inr rs" ..
  with fixed_mtrr_lookup [of ?raws "\<lparr>default_memory_type = WriteBack, fixed = rs, variable = []\<rparr>" 0 7 0 "0x10000"
      "0x71000" "0x72000"]
  show ?thesis by (simp add: FIXED_MTRR_RANGES_def MemoryType_from_u8_def)
qed


section \<open>Variable ranges: from masks to ranges\<close>

text \<open>
  The architecture's reading of a base and mask pair: an address matches when it agrees
  with the base on the bits of the mask from bit 12 on. \<open>wf_mtrr p raw\<close> is what the manuals
  require of a pair on a processor with \<open>p\<close> physical address bits: a contiguous mask
  that reaches up to bit \<open>p - 1\<close>, a base aligned to the size, and a valid type.
\<close>

definition mtrr_valid :: "RawVariableMtrr \<Rightarrow> bool" where
  "mtrr_valid raw = bit (raw_mtrr_mask raw) 11"

definition mtrr_matches :: "RawVariableMtrr \<Rightarrow> u64 \<Rightarrow> bool" where
  "mtrr_matches raw a \<longleftrightarrow>
     (\<forall>n\<in>{12..<64}. bit (raw_mtrr_mask raw) n \<longrightarrow> bit a n = bit (raw_mtrr_base raw) n)"

definition wf_mtrr :: "nat \<Rightarrow> RawVariableMtrr \<Rightarrow> bool" where
  "wf_mtrr p raw \<longleftrightarrow> (\<exists>k. 12 + k < p \<and> p \<le> 52
     \<and> (\<forall>n\<ge>12. bit (raw_mtrr_mask raw) n \<longleftrightarrow> 12 + k \<le> n \<and> n < p)
     \<and> unat (raw_mtrr_base raw) < 2 ^ p \<and> (\<forall>n. 12 \<le> n \<and> n < 12 + k \<longrightarrow> \<not> bit (raw_mtrr_base raw) n))
   \<and> MemoryType_from_u8 (ucast (raw_mtrr_base raw)) \<noteq> None"

definition arch_types :: "RawVariableMtrr list \<Rightarrow> u64 \<Rightarrow> MemoryType set" where
  "arch_types raws a =
     {the (MemoryType_from_u8 (ucast (raw_mtrr_base raw))) | raw. raw \<in> set raws \<and> mtrr_valid raw \<and> mtrr_matches raw a}"

lemma bit_scan_forward_eq:
  assumes "k < 64" and "bit v k" and "\<forall>n<k. \<not> bit v n"
  shows "bit_scan_forward u v = of_nat k"
proof -
  have "List.find (bit v) [0..<64] = Some k"
    using assms by (simp add: find_Some_iff) (rule exI [of _ k], simp)
  then show ?thesis by (simp add: bit_scan_forward_def)
qed

lemma and_800: "w AND 0x800 \<noteq> 0 \<longleftrightarrow> bit w 11" for w :: u64
  using and_exp_eq_0_iff_not_bit [of w 11] by simp

lemma drop_bit_eq_iff: "drop_bit q a = drop_bit q b \<longleftrightarrow> (\<forall>n\<ge>q. bit a n = bit b n)" for a b :: u64
proof
  assume eq: "drop_bit q a = drop_bit q b"
  show "\<forall>n\<ge>q. bit a n = bit b n"
  proof (intro allI impI)
    fix n assume "q \<le> n"
    then have "bit a n = bit (drop_bit q a) (n - q)" "bit b n = bit (drop_bit q b) (n - q)" by (simp_all add: bit_simps)
    with eq show "bit a n = bit b n" by simp
  qed
qed (auto intro!: bit_word_eqI simp: bit_simps)

text \<open>An aligned power of two block is the set of addresses with the same upper bits.\<close>

lemma unat_push_bit_1: "q < 64 \<Longrightarrow> unat (push_bit q 1 :: u64) = 2 ^ q"
proof -
  assume "q < 64"
  then have "(2 :: nat) ^ q < 2 ^ 64" by (rule power_strict_increasing) simp
  moreover have "(push_bit q 1 :: u64) = of_nat (2 ^ q)" by (simp add: push_bit_eq_mult)
  ultimately show ?thesis by (simp add: unat_of_nat del: of_nat_power)
qed

lemma block_iff:
  fixes a b :: u64
  assumes "q < 64" and "take_bit q b = 0" and "unat b + 2 ^ q < 2 ^ 64"
  shows "b \<le> a \<and> a < b + push_bit q 1 \<longleftrightarrow> drop_bit q a = drop_bit q b"
proof -
  have "unat (push_bit q 1 :: u64) = 2 ^ q" using assms(1) by (rule unat_push_bit_1)
  then have e: "unat (b + push_bit q 1) = unat b + 2 ^ q" using assms(3) by (simp add: unat_word_ariths)
  have "unat (take_bit q b) = 0" using assms(2) by simp
  then have "unat b mod 2 ^ q = 0" by (simp add: unsigned_take_bit_eq take_bit_nat_def)
  then obtain c where c: "unat b = 2 ^ q * c" by (auto simp: mod_eq_0_iff_dvd elim: dvdE)
  have "drop_bit q a = drop_bit q b \<longleftrightarrow> unat a div 2 ^ q = unat b div 2 ^ q"
    by (simp add: word_unat_eq_iff unat_drop_bit_eq drop_bit_nat_def)
  also have "\<dots> \<longleftrightarrow> unat a div 2 ^ q = c" by (simp add: c)
  also have "\<dots> \<longleftrightarrow> 2 ^ q * c \<le> unat a \<and> unat a < 2 ^ q * c + 2 ^ q"
  proof
    assume "unat a div 2 ^ q = c"
    then show "2 ^ q * c \<le> unat a \<and> unat a < 2 ^ q * c + 2 ^ q"
      using dividend_less_times_div [of "2 ^ q" "unat a"] by (auto simp: add.commute)
  next
    assume "2 ^ q * c \<le> unat a \<and> unat a < 2 ^ q * c + 2 ^ q"
    then show "unat a div 2 ^ q = c" by (intro div_nat_eqI) (auto simp: algebra_simps)
  qed
  finally show ?thesis unfolding word_le_nat_alt word_less_nat_alt e c ..
qed


lemma contains_merged:
  "range_start l < range_end l \<Longrightarrow> range_start r < range_end r \<Longrightarrow> range_end l = range_start r \<Longrightarrow>
     range_contains (l\<lparr>range_end := range_end r\<rparr>) a \<longleftrightarrow> range_contains l a \<or> range_contains r a"
  "range_start l < range_end l \<Longrightarrow> range_start r < range_end r \<Longrightarrow> range_start l = range_end r \<Longrightarrow>
     range_contains (l\<lparr>range_start := range_start r\<rparr>) a \<longleftrightarrow> range_contains l a \<or> range_contains r a"
  unfolding range_contains_def by (simp_all, (meson le_less_trans less_imp_le less_le_trans not_less order_trans)+)

lemma types_at_snoc:
  "types_at (rs @ [r]) a = types_at rs a \<union> (if range_contains r a then {memory_type r} else {})"
  by (auto simp: types_at_def)

lemma types_at_update:
  assumes "\<forall>r\<in>set rs. range_start r < range_end r" and "range_start r < range_end r"
  shows "types_at (update_combined_ranges rs r) a =
           types_at rs a \<union> (if range_contains r a then {memory_type r} else {})
       \<and> (\<forall>r'\<in>set (update_combined_ranges rs r). range_start r' < range_end r')"
proof (cases "update_combined_ranges rs r = rs @ [r]")
  case True
  with assms show ?thesis by (simp add: types_at_snoc)
next
  case False
  then have "rs \<noteq> []" by (auto simp: update_combined_ranges_def)
  then obtain qs l where rs: "rs = qs @ [l]" by (metis append_butlast_last_id)
  from False rs consider
      "memory_type l = memory_type r" "range_end l = range_start r"
      "update_combined_ranges rs r = qs @ [l\<lparr>range_end := range_end r\<rparr>]"
    | "memory_type l = memory_type r" "range_start l = range_end r"
      "update_combined_ranges rs r = qs @ [l\<lparr>range_start := range_start r\<rparr>]"
    by (auto simp: update_combined_ranges_def split: if_splits)
  then show ?thesis
  proof cases
    case 1
    moreover have "range_start l < range_end r" using 1(2) assms rs by auto
    ultimately show ?thesis using assms rs contains_merged(1) [of l r a] by (auto simp: types_at_snoc)
  next
    case 2
    moreover have "range_start r < range_end l" using 2(2) assms rs by auto
    ultimately show ?thesis using assms rs contains_merged(2) [of l r a] by (auto simp: types_at_snoc)
  qed
qed

lemma variable_step:
  assumes "wf_mtrr p raw" and "mtrr_valid raw"
  obtains r where "variable_loop oc u (raw # raws) rs = variable_loop oc u raws (update_combined_ranges rs r)"
    and "range_start r < range_end r" and "memory_type r = the (MemoryType_from_u8 (ucast (raw_mtrr_base raw)))"
    and "\<forall>a. unat a < 2 ^ p \<longrightarrow> (range_contains r a \<longleftrightarrow> mtrr_matches raw a)"
proof -
  from assms(1) obtain k t where k: "12 + k < p" "p \<le> 52"
    and mask: "\<forall>n\<ge>12. bit (raw_mtrr_mask raw) n \<longleftrightarrow> 12 + k \<le> n \<and> n < p"
    and base: "unat (raw_mtrr_base raw) < 2 ^ p" "\<forall>n. 12 \<le> n \<and> n < 12 + k \<longrightarrow> \<not> bit (raw_mtrr_base raw) n"
    and t: "MemoryType_from_u8 (ucast (raw_mtrr_base raw)) = Some t"
    unfolding wf_mtrr_def by blast
  let ?b = "raw_mtrr_base raw AND NOT 0xfff" and ?q = "12 + k"
  have bb: "bit ?b n \<longleftrightarrow> 12 \<le> n \<and> bit (raw_mtrr_base raw) n"
    "bit (raw_mtrr_base raw AND - 4096) n \<longleftrightarrow> 12 \<le> n \<and> bit (raw_mtrr_base raw) n" for n
    unfolding and_not_fff by (auto simp: bit_simps dest: bit_imp_le_length)
  have "bit_scan_forward u (drop_bit 12 (raw_mtrr_mask raw)) = of_nat k"
    using k mask by (intro bit_scan_forward_eq) (auto simp: bit_simps)
  moreover have "unat (of_nat k :: u64) = k" using k by (simp add: unat_of_nat)
  ultimately have bsf: "unat (bit_scan_forward u (drop_bit 12 (raw_mtrr_mask raw))) = k" by simp
  have "unat ?b < 2 ^ p"
    by (rule unat_less_exp) (use bit_less_exp [OF base(1)] in \<open>auto simp: bb not_less [symmetric]\<close>)
  moreover have "(2 :: nat) ^ p \<le> 2 ^ 52" "(2 :: nat) ^ ?q \<le> 2 ^ 52" using k by (intro power_increasing; simp)+
  ultimately have no: "unat ?b + 2 ^ ?q < 2 ^ 64" by simp
  have u1: "unat (push_bit ?q 1 :: u64) = 2 ^ ?q" using k by (intro unat_push_bit_1) simp
  have last: "add_checked oc ?b (push_bit ?q 1) = Inr (?b + push_bit ?q 1)"
    using no u1 by (intro add_checked_no_overflow) simp
  let ?r = "\<lparr>memory_type = t, range_start = ?b, range_end = ?b + push_bit ?q 1\<rparr>"
  have step: "variable_loop oc u (raw # raws) rs = variable_loop oc u raws (update_combined_ranges rs ?r)"
    using assms(2) k t last
    by (simp add: mtrr_valid_def IA32_MTRR_PHYSMASK_VALID_FLAG_def and_800 shl_checked_def Let_def bsf
        push_bit_eq_mult power_add mult.commute)
  have ne: "range_start ?r < range_end ?r"
    using no u1 by (simp add: word_less_nat_alt unat_word_ariths(1))
  have "take_bit ?q ?b = 0"
    unfolding and_not_fff using base(2) by (intro bit_word_eqI) (auto simp: bit_simps)
  then have block: "range_contains ?r a \<longleftrightarrow> drop_bit ?q a = drop_bit ?q ?b" for a
    using block_iff [of ?q ?b a] no k by (simp add: range_contains_def)
  have "range_contains ?r a \<longleftrightarrow> mtrr_matches raw a" if a: "unat a < 2 ^ p" for a
  proof -
    have "bit a n = bit ?b n \<longleftrightarrow> (n < p \<longrightarrow> bit a n = bit (raw_mtrr_base raw) n)" if "?q \<le> n" for n
      using that bb(1) [of n] bit_less_exp [OF a, of n] bit_less_exp [OF base(1), of n] by (metis add_leE)
    then have "range_contains ?r a \<longleftrightarrow> (\<forall>n. ?q \<le> n \<longrightarrow> n < p \<longrightarrow> bit a n = bit (raw_mtrr_base raw) n)"
      unfolding block drop_bit_eq_iff by blast
    also have "\<dots> \<longleftrightarrow> mtrr_matches raw a"
      unfolding mtrr_matches_def using mask k by force
    finally show ?thesis .
  qed
  with step ne t show thesis by (intro that [of ?r]) simp_all
qed


lemma arch_types_Cons:
  "arch_types (raw # raws) a =
     (if mtrr_valid raw \<and> mtrr_matches raw a then {the (MemoryType_from_u8 (ucast (raw_mtrr_base raw)))} else {})
     \<union> arch_types raws a"
  by (auto simp: arch_types_def)

lemma variable_loop_types:
  "\<forall>raw\<in>set raws. mtrr_valid raw \<longrightarrow> wf_mtrr p raw \<Longrightarrow> \<forall>r\<in>set rs. range_start r < range_end r \<Longrightarrow>
     \<exists>rs'. variable_loop oc u raws rs = Inr rs'
       \<and> (\<forall>a. unat a < 2 ^ p \<longrightarrow> types_at rs' a = types_at rs a \<union> arch_types raws a)"
proof (induction raws arbitrary: rs)
  case Nil
  then show ?case by (simp add: arch_types_def)
next
  case (Cons raw raws)
  show ?case
  proof (cases "mtrr_valid raw")
    case False
    then show ?thesis
      using Cons by (simp add: mtrr_valid_def IA32_MTRR_PHYSMASK_VALID_FLAG_def and_800 arch_types_Cons)
  next
    case True
    with Cons.prems(1) have "wf_mtrr p raw" by simp
    then obtain r where step: "variable_loop oc u (raw # raws) rs = variable_loop oc u raws (update_combined_ranges rs r)"
      and r: "range_start r < range_end r" "memory_type r = the (MemoryType_from_u8 (ucast (raw_mtrr_base raw)))"
      and m: "\<forall>a. unat a < 2 ^ p \<longrightarrow> (range_contains r a \<longleftrightarrow> mtrr_matches raw a)"
      using variable_step [OF _ True] by metis
    note upd = types_at_update [OF Cons.prems(2) r(1)]
    from Cons.IH [of "update_combined_ranges rs r"] Cons.prems(1) upd
    obtain rs' where "variable_loop oc u raws (update_combined_ranges rs r) = Inr rs'"
      and "\<forall>a. unat a < 2 ^ p \<longrightarrow> types_at rs' a = types_at (update_combined_ranges rs r) a \<union> arch_types raws a"
      by auto
    with upd m step r(2) True show ?thesis by (intro exI [of _ rs']) (auto simp: arch_types_Cons)
  qed
qed

text \<open>
  C25. The conversion of the variable range registers does not panic and is faithful to the
  architecture: for register pairs as the manuals require them, the memory types of the
  ranges that contain an address are exactly the types of the valid pairs whose masked
  base matches it, also after neighbouring ranges were combined.
\<close>

theorem convert_variable_faithful:
  assumes "\<forall>raw\<in>set raws. mtrr_valid raw \<longrightarrow> wf_mtrr p raw"
  shows "\<exists>rs. convert_from_raw_variable oc u raws = Inr rs
           \<and> (\<forall>a. unat a < 2 ^ p \<longrightarrow> types_at rs a = arch_types raws a)"
proof -
  have "types_at [] a = {}" for a by (simp add: types_at_def)
  with variable_loop_types [OF assms, of "[]" oc u] show ?thesis
    by (simp add: convert_from_raw_variable_def)
qed

theorem convert_variable_faithful_witness:
  "\<exists>rs. convert_from_raw_variable True 0 [\<lparr>raw_mtrr_base = 0x80000006, raw_mtrr_mask = 0x7f80000800\<rparr>] = Inr rs
     \<and> WriteBack \<in> types_at rs 0x80000000"
proof -
  let ?raw = "\<lparr>raw_mtrr_base = 0x80000006, raw_mtrr_mask = 0x7f80000800\<rparr>"
  have mask: "(0x7f80000800 :: u64) = push_bit 31 (mask 8) OR 0x800" by (simp add: mask_eq_exp_minus_1)
  have low: "bit (0x800 :: u64) n \<Longrightarrow> n < 12" for n using bit_less_exp [of "0x800 :: u64" 12 n] by simp
  have "wf_mtrr 39 ?raw"
    unfolding wf_mtrr_def
  proof (intro conjI exI [of _ 19])
    show "\<forall>n\<ge>12. bit (raw_mtrr_mask ?raw) n \<longleftrightarrow> 12 + 19 \<le> n \<and> n < 39"
      unfolding RawVariableMtrr.simps mask using low by (fastforce simp: bit_simps)
    have "\<forall>n\<in>set [12..<31]. \<not> bit (0x80000006 :: u64) n" by code_simp
    then have "\<not> bit (0x80000006 :: u64) n" if "12 \<le> n" "n < 31" for n
      using that by (metis atLeastLessThan_iff set_upt)
    then show "\<forall>n. 12 \<le> n \<and> n < 12 + 19 \<longrightarrow> \<not> bit (raw_mtrr_base ?raw) n" by simp
  qed (simp_all add: MemoryType_from_u8_def)
  then obtain rs where rs: "convert_from_raw_variable True 0 [?raw] = Inr rs"
    and t: "types_at rs 0x80000000 = arch_types [?raw] 0x80000000"
    using convert_variable_faithful [of "[?raw]" 39 True 0] by auto
  have "\<forall>n\<in>set [12..<64]. bit (0x80000000 :: u64) n = bit (0x80000006 :: u64) n" by code_simp
  then have "mtrr_matches ?raw 0x80000000"
    unfolding mtrr_matches_def RawVariableMtrr.simps set_upt by blast
  moreover have "mtrr_valid ?raw" by (simp add: mtrr_valid_def)
  ultimately show ?thesis using rs t by (simp add: arch_types_Cons MemoryType_from_u8_def)
qed

end
