(* ===== verification/Epts.thy ===== *)
theory Epts
  imports Paging Mtrr
begin

unbundle bit_operations_syntax

text \<open>
  The extended page tables of Intel, \<open>hypervisor/intel/epts.rs\<close>: an identity mapping of
  the 48-bit guest-physical address space, with the memory types of the MTRRs. The loops
  over the tables are recursions that carry \<open>pa\<close> and stop at the first panic; \<open>pa_of\<close> is the
  platform's translation and \<open>base\<close> the address of the \<open>Epts\<close> value, as in \<open>Paging\<close>. The
  specification is the walk of the processor, \<open>ept_walk\<close>.
\<close>

section \<open>Definitions\<close>

definition HUGE_PAGE_SIZE :: u64 where "HUGE_PAGE_SIZE = 0x40000000"
definition PML4_SLOT_SIZE :: u64 where "PML4_SLOT_SIZE = 0x8000000000"

definition readable :: "entry \<Rightarrow> bool" where "readable = get_bit 0"
definition ept_writable :: "entry \<Rightarrow> bool" where "ept_writable = get_bit 1"
definition executable :: "entry \<Rightarrow> bool" where "executable = get_bit 2"
definition ept_memory_type :: "entry \<Rightarrow> u64" where "ept_memory_type = get_bits 3 5"
definition ept_large :: "entry \<Rightarrow> bool" where "ept_large = get_bit 7"
definition ept_pfn :: "entry \<Rightarrow> u64" where "ept_pfn = get_bits 12 51"
definition set_readable :: "bool \<Rightarrow> entry \<Rightarrow> entry" where "set_readable = set_flag 0"
definition set_ept_writable :: "bool \<Rightarrow> entry \<Rightarrow> entry" where "set_ept_writable = set_flag 1"
definition set_executable :: "bool \<Rightarrow> entry \<Rightarrow> entry" where "set_executable = set_flag 2"
definition set_ept_memory_type :: "u64 \<Rightarrow> entry \<Rightarrow> entry" where "set_ept_memory_type = set_field 5 3"
definition set_ept_large :: "bool \<Rightarrow> entry \<Rightarrow> entry" where "set_ept_large = set_flag 7"
definition set_ept_pfn :: "u64 \<Rightarrow> entry \<Rightarrow> entry" where "set_ept_pfn = set_field 51 12"

record epts =
  ept_pml4 :: table
  ept_pdpt :: "table list"
  ept_pd :: "table list"
  ept_pt :: table

definition Epts_zeroed :: epts where
  "Epts_zeroed =
     \<lparr>ept_pml4 = replicate 512 0, ept_pdpt = replicate 512 (replicate 512 0),
      ept_pd = replicate 512 (replicate 512 0), ept_pt = replicate 512 0\<rparr>"

definition addr_ept_pdpt :: "u64 \<Rightarrow> nat \<Rightarrow> u64" where "addr_ept_pdpt base i = base + 0x1000 + of_nat i * 0x1000"
definition addr_ept_pd :: "u64 \<Rightarrow> nat \<Rightarrow> u64" where "addr_ept_pd base i = base + 0x201000 + of_nat i * 0x1000"
definition addr_ept_pt :: "u64 \<Rightarrow> u64" where "addr_ept_pt base = base + 0x401000"

text \<open>The entry that refers to the table at a virtual address.\<close>

definition set_table_entry :: "(u64 \<Rightarrow> u64) \<Rightarrow> u64 \<Rightarrow> entry \<Rightarrow> entry" where
  "set_table_entry pa_of va e =
     set_ept_pfn (drop_bit BASE_PAGE_SHIFT (pa_of va)) (set_executable True (set_ept_writable True (set_readable True e)))"

text \<open>Lines 55 to 67: the page table of the first 2MB.\<close>

fun ept_pte_loop :: "Mtrr \<Rightarrow> u64 \<Rightarrow> table \<Rightarrow> (table \<times> u64) rust" where
  "ept_pte_loop mtrr pa [] = Inr ([], pa)"
| "ept_pte_loop mtrr pa (pte # ptes) =
     (case mtrr_find mtrr pa (pa + BASE_PAGE_SIZE) of
        None \<Rightarrow> Inl (ExplicitPanic ''Could not resolve a memory type'')
      | Some mt \<Rightarrow>
          let pte' = set_ept_pfn (drop_bit BASE_PAGE_SHIFT pa) (set_ept_memory_type (MemoryType_code mt)
                       (set_executable True (set_ept_writable True (set_readable True pte))))
          in and_then (ept_pte_loop mtrr (pa + BASE_PAGE_SIZE) ptes) (\<lambda>(ptes', pa'). Inr (pte' # ptes', pa')))"

text \<open>Lines 45 to 85: one page directory; the result is the directory, \<open>self.pt\<close> and \<open>pa\<close>.\<close>

fun ept_pde_loop ::
  "(u64 \<Rightarrow> u64) \<Rightarrow> u64 \<Rightarrow> Mtrr \<Rightarrow> u64 \<Rightarrow> table \<Rightarrow> table \<Rightarrow> (table \<times> table \<times> u64) rust" where
  "ept_pde_loop pa_of base mtrr pa ptb [] = Inr ([], ptb, pa)"
| "ept_pde_loop pa_of base mtrr pa ptb (pde # pdes) =
     (if pa = 0 then
        and_then (ept_pte_loop mtrr pa ptb) (\<lambda>(pt1, pa1).
        and_then (ept_pde_loop pa_of base mtrr pa1 pt1 pdes) (\<lambda>(pdes', pt', pa').
        Inr (set_table_entry pa_of (addr_ept_pt base) pde # pdes', pt', pa')))
      else
        let mt = (case mtrr_find mtrr pa (pa + LARGE_PAGE_SIZE) of None \<Rightarrow> Uncachable | Some t \<Rightarrow> t);
            pde' = set_ept_pfn (drop_bit BASE_PAGE_SHIFT pa) (set_ept_large True (set_ept_memory_type (MemoryType_code mt)
                     (set_executable True (set_ept_writable True (set_readable True pde)))))
        in and_then (ept_pde_loop pa_of base mtrr (pa + LARGE_PAGE_SIZE) ptb pdes) (\<lambda>(pdes', pt', pa').
           Inr (pde' # pdes', pt', pa')))"

text \<open>Lines 37 to 86: the first page directory pointer table, from index \<open>i\<close>.\<close>

fun ept_pdpte_loop ::
  "(u64 \<Rightarrow> u64) \<Rightarrow> u64 \<Rightarrow> Mtrr \<Rightarrow> nat \<Rightarrow> u64 \<Rightarrow> table list \<Rightarrow> table \<Rightarrow> table
     \<Rightarrow> (table \<times> table list \<times> table \<times> u64) rust" where
  "ept_pdpte_loop pa_of base mtrr i pa pds ptb [] = Inr ([], pds, ptb, pa)"
| "ept_pdpte_loop pa_of base mtrr i pa pds ptb (pdpte # pdptes) =
     and_then (ept_pde_loop pa_of base mtrr pa ptb (pds ! i)) (\<lambda>(pd', pt1, pa1).
     and_then (ept_pdpte_loop pa_of base mtrr (i + 1) pa1 (pds[i := pd']) pt1 pdptes) (\<lambda>(pdptes', pds', pt', pa').
     Inr (set_table_entry pa_of (addr_ept_pd base i) pdpte # pdptes', pds', pt', pa')))"

text \<open>Lines 99 to 110: a page directory pointer table of 1GB pages.\<close>

fun ept_huge_loop :: "Mtrr \<Rightarrow> u64 \<Rightarrow> table \<Rightarrow> (table \<times> u64) rust" where
  "ept_huge_loop mtrr pa [] = Inr ([], pa)"
| "ept_huge_loop mtrr pa (pdpte # pdptes) =
     (case mtrr_find mtrr pa (pa + PML4_SLOT_SIZE) of
        None \<Rightarrow> Inl (ExplicitPanic ''Could not resolve a memory type'')
      | Some mt \<Rightarrow>
          let pdpte' = set_ept_pfn (drop_bit BASE_PAGE_SHIFT pa) (set_ept_large True (set_ept_memory_type (MemoryType_code mt)
                         (set_executable True (set_ept_writable True (set_readable True pdpte)))))
          in and_then (ept_huge_loop mtrr (pa + HUGE_PAGE_SIZE) pdptes) (\<lambda>(pdptes', pa'). Inr (pdpte' # pdptes', pa')))"

text \<open>Lines 92 to 111: the PML4 entries from \<open>pml4_index\<close> on.\<close>

fun ept_pml4_loop ::
  "(u64 \<Rightarrow> u64) \<Rightarrow> u64 \<Rightarrow> Mtrr \<Rightarrow> nat \<Rightarrow> u64 \<Rightarrow> table list \<Rightarrow> table \<Rightarrow> (table \<times> table list) rust" where
  "ept_pml4_loop pa_of base mtrr i pa pdpts [] = Inr ([], pdpts)"
| "ept_pml4_loop pa_of base mtrr i pa pdpts (pml4e # pml4es) =
     and_then (ept_huge_loop mtrr pa (pdpts ! i)) (\<lambda>(pdpt', pa').
     and_then (ept_pml4_loop pa_of base mtrr (i + 1) pa' (pdpts[i := pdpt']) pml4es) (\<lambda>(pml4es', pdpts').
     Inr (set_table_entry pa_of (addr_ept_pdpt base i) pml4e # pml4es', pdpts')))"

definition ept_build :: "(u64 \<Rightarrow> u64) \<Rightarrow> u64 \<Rightarrow> Mtrr \<Rightarrow> epts \<Rightarrow> epts rust" where
  "ept_build pa_of base mtrr eps =
     (let pml4e0 = set_table_entry pa_of (addr_ept_pdpt base 0) (ept_pml4 eps ! 0) in
      and_then (ept_pdpte_loop pa_of base mtrr 0 0 (ept_pd eps) (ept_pt eps) (ept_pdpt eps ! 0)) (\<lambda>(pdpt0, pds, ptb, pa).
      and_then (assert_that (pa = PML4_SLOT_SIZE) ''pa == PML4_SLOT_SIZE'') (\<lambda>_.
      and_then (ept_pml4_loop pa_of base mtrr 1 pa ((ept_pdpt eps)[0 := pdpt0]) (drop 1 (ept_pml4 eps))) (\<lambda>(pml4es, pdpts).
      Inr \<lparr>ept_pml4 = pml4e0 # pml4es, ept_pdpt = pdpts, ept_pd = pds, ept_pt = ptb\<rparr>))))"

text \<open>\<open>Epts::build_identity\<close>\<close>

definition epts_build_identity ::
  "bool \<Rightarrow> u64 \<Rightarrow> (u64 \<Rightarrow> u64) \<Rightarrow> u64 \<Rightarrow> 'm machine_scheme \<Rightarrow> epts \<Rightarrow> epts rust" where
  "epts_build_identity oc bsf_undefined pa_of base m eps =
     and_then (Mtrr_new oc bsf_undefined m) (\<lambda>mtrr. ept_build pa_of base mtrr eps)"

definition eptp :: "(u64 \<Rightarrow> u64) \<Rightarrow> u64 \<Rightarrow> u64" where
  "eptp pa_of base =
     set_field 5 3 3 (set_field 2 0 (MemoryType_code WriteBack) (set_field 51 12 (drop_bit BASE_PAGE_SHIFT (pa_of base)) 0))"

section \<open>The walk of the processor\<close>

text \<open>
  The guest-physical address is translated through four tables. An entry with no access
  right set is not present. The result is the host-physical address, the accumulated
  access rights and the memory type field of the last entry.
\<close>

fun ept_walk_from ::
  "(u64 \<Rightarrow> table option) \<Rightarrow> nat list \<Rightarrow> u64 \<Rightarrow> bool \<times> bool \<times> bool \<Rightarrow> u64 \<Rightarrow> (u64 \<times> (bool \<times> bool \<times> bool) \<times> u64) option" where
  "ept_walk_from tbl [] frame rwx gpa = None"
| "ept_walk_from tbl (lo # los) frame (r, w, x) gpa =
     (case tbl frame of None \<Rightarrow> None | Some t \<Rightarrow>
        let e = t ! walk_index lo gpa;
            rwx' = (r \<and> readable e, w \<and> ept_writable e, x \<and> executable e) in
        if \<not> (readable e \<or> ept_writable e \<or> executable e) then None
        else if los = [] \<or> lo < 39 \<and> ept_large e
        then Some (push_bit lo (get_bits lo 51 e) OR take_bit lo gpa, rwx', ept_memory_type e)
        else ept_walk_from tbl los (ept_pfn e) rwx' gpa)"

definition ept_walk :: "(u64 \<Rightarrow> table option) \<Rightarrow> u64 \<Rightarrow> u64 \<Rightarrow> (u64 \<times> (bool \<times> bool \<times> bool) \<times> u64) option" where
  "ept_walk tbl ptr gpa = ept_walk_from tbl [39, 30, 21, 12] (get_bits 12 51 ptr) (True, True, True) gpa"

definition holds_epts :: "(u64 \<Rightarrow> table option) \<Rightarrow> (u64 \<Rightarrow> u64) \<Rightarrow> u64 \<Rightarrow> epts \<Rightarrow> bool" where
  "holds_epts tbl pa_of base eps \<longleftrightarrow>
     tbl (drop_bit 12 (pa_of base)) = Some (ept_pml4 eps)
   \<and> (\<forall>i<512. tbl (drop_bit 12 (pa_of (addr_ept_pdpt base i))) = Some (ept_pdpt eps ! i))
   \<and> (\<forall>i<512. tbl (drop_bit 12 (pa_of (addr_ept_pd base i))) = Some (ept_pd eps ! i))
   \<and> tbl (drop_bit 12 (pa_of (addr_ept_pt base))) = Some (ept_pt eps)"

text \<open>The memory type that the lookups of \<open>build_identity\<close> give to an address.\<close>

definition ept_type :: "Mtrr \<Rightarrow> u64 \<Rightarrow> MemoryType option" where
  "ept_type mtrr gpa =
     (if gpa < LARGE_PAGE_SIZE then
        let page = push_bit 12 (drop_bit 12 gpa) in mtrr_find mtrr page (page + BASE_PAGE_SIZE)
      else if gpa < PML4_SLOT_SIZE then
        let page = push_bit 21 (drop_bit 21 gpa) in
        Some (case mtrr_find mtrr page (page + LARGE_PAGE_SIZE) of None \<Rightarrow> Uncachable | Some t \<Rightarrow> t)
      else
        let page = push_bit 30 (drop_bit 30 gpa) in mtrr_find mtrr page (page + PML4_SLOT_SIZE))"


section \<open>Entries\<close>

definition ept_page :: "bool \<Rightarrow> MemoryType \<Rightarrow> u64 \<Rightarrow> entry" where
  "ept_page l t a = set_ept_pfn (drop_bit 12 a) ((if l then set_ept_large True else id) (set_ept_memory_type (MemoryType_code t)
     (set_executable True (set_ept_writable True (set_readable True 0)))))"

lemmas ept_accessor_defs = readable_def ept_writable_def executable_def ept_memory_type_def ept_large_def ept_pfn_def
  set_readable_def set_ept_writable_def set_executable_def set_ept_memory_type_def set_ept_large_def set_ept_pfn_def

lemma bit_ept_table: "bit (set_table_entry pa_of va 0) n \<longleftrightarrow> (if 12 \<le> n \<and> n \<le> 51 then bit (pa_of va) n else n < 3)"
  by (auto simp: set_table_entry_def ept_accessor_defs BASE_PAGE_SHIFT_def bitfield_simps bit_simps)

lemma bit_ept_page:
  "bit (ept_page l t a) n \<longleftrightarrow> (if 12 \<le> n \<and> n \<le> 51 then bit a n
     else n < 3 \<or> 3 \<le> n \<and> n \<le> 5 \<and> bit (MemoryType_code t) (n - 3) \<or> n = 7 \<and> l)"
  by (auto simp: ept_page_def ept_accessor_defs bitfield_simps bit_simps)

lemma ept_table_fields:
  "readable (set_table_entry pa_of va 0)" "ept_writable (set_table_entry pa_of va 0)"
  "executable (set_table_entry pa_of va 0)" "\<not> ept_large (set_table_entry pa_of va 0)"
  by (simp_all add: ept_accessor_defs get_bit_def bit_ept_table)

lemma ept_table_pfn: "unat (pa_of va) < 2 ^ 52 \<Longrightarrow> ept_pfn (set_table_entry pa_of va 0) = drop_bit 12 (pa_of va)"
  by (rule bit_word_eqI) (auto simp: ept_pfn_def bit_get_bits bit_ept_table bit_simps dest: bit_52)

lemma MemoryType_code_less: "unat (MemoryType_code t) < 2 ^ 3"
  by (cases t) simp_all

lemma ept_page_fields:
  "readable (ept_page l t a)" "ept_writable (ept_page l t a)" "executable (ept_page l t a)"
  "ept_large (ept_page l t a) = l" "ept_memory_type (ept_page l t a) = MemoryType_code t"
proof -
  show "ept_memory_type (ept_page l t a) = MemoryType_code t"
    by (rule bit_word_eqI) (auto simp: ept_memory_type_def bit_get_bits bit_ept_page
        dest: bit_less_exp [OF MemoryType_code_less])
qed (simp_all add: ept_accessor_defs get_bit_def bit_ept_page)

lemma ept_page_base:
  "12 \<le> lo \<Longrightarrow> lo \<le> 51 \<Longrightarrow> unat gpa < 2 ^ 52 \<Longrightarrow>
     push_bit lo (get_bits lo 51 (ept_page l t (push_bit lo (drop_bit lo gpa)))) OR take_bit lo gpa = gpa"
  by (rule bit_word_eqI) (auto simp: bit_get_bits bit_ept_page bit_simps dest: bit_52)

section \<open>Closed forms of the loops\<close>

lemma ept_pte_loop_eq:
  "ept_pte_loop mtrr (of_nat m) (replicate n 0) = Inr (ptes', pa') \<Longrightarrow>
     (\<forall>k<n. \<exists>t. mtrr_find mtrr (of_nat (m + 0x1000 * k)) (of_nat (m + 0x1000 * k) + BASE_PAGE_SIZE) = Some t
        \<and> ptes' ! k = ept_page False t (of_nat (m + 0x1000 * k)))
   \<and> length ptes' = n \<and> pa' = of_nat (m + 0x1000 * n)"
proof (induction n arbitrary: m ptes')
  case (Suc n)
  have b: "(of_nat m + BASE_PAGE_SIZE :: u64) = of_nat (m + 0x1000)" by (simp add: BASE_PAGE_SIZE_def)
  from Suc.prems obtain t ptes where t: "mtrr_find mtrr (of_nat m) (of_nat m + BASE_PAGE_SIZE) = Some t"
    and l: "ept_pte_loop mtrr (of_nat (m + 0x1000)) (replicate n 0) = Inr (ptes, pa')"
    and p: "ptes' = ept_page False t (of_nat m) # ptes"
    by (auto simp: rust_simps Let_def b ept_page_def BASE_PAGE_SHIFT_def simp del: of_nat_add split: option.splits)
  from Suc.IH [OF l] t p show ?case
    by (auto simp: less_Suc_eq_0_disj add.assoc del: of_nat_add)
qed simp

lemma ept_huge_loop_eq:
  "ept_huge_loop mtrr (of_nat m) (replicate n 0) = Inr (es', pa') \<Longrightarrow>
     (\<forall>k<n. \<exists>t. mtrr_find mtrr (of_nat (m + 0x40000000 * k)) (of_nat (m + 0x40000000 * k) + PML4_SLOT_SIZE) = Some t
        \<and> es' ! k = ept_page True t (of_nat (m + 0x40000000 * k)))
   \<and> length es' = n \<and> pa' = of_nat (m + 0x40000000 * n)"
proof (induction n arbitrary: m es')
  case (Suc n)
  have b: "(of_nat m + HUGE_PAGE_SIZE :: u64) = of_nat (m + 0x40000000)" by (simp add: HUGE_PAGE_SIZE_def)
  from Suc.prems obtain t es where t: "mtrr_find mtrr (of_nat m) (of_nat m + PML4_SLOT_SIZE) = Some t"
    and l: "ept_huge_loop mtrr (of_nat (m + 0x40000000)) (replicate n 0) = Inr (es, pa')"
    and p: "es' = ept_page True t (of_nat m) # es"
    by (auto simp: rust_simps Let_def b ept_page_def BASE_PAGE_SHIFT_def simp del: of_nat_add split: option.splits)
  from Suc.IH [OF l] t p show ?case
    by (auto simp: less_Suc_eq_0_disj add.assoc del: of_nat_add)
qed simp

definition type_2m :: "Mtrr \<Rightarrow> u64 \<Rightarrow> MemoryType" where
  "type_2m mtrr pa = (case mtrr_find mtrr pa (pa + LARGE_PAGE_SIZE) of None \<Rightarrow> Uncachable | Some t \<Rightarrow> t)"

lemma ept_pde_loop_eq:
  "0 < m \<Longrightarrow> m + 0x200000 * n < 2 ^ 64 \<Longrightarrow>
     ept_pde_loop pa_of base mtrr (of_nat m) ptb (replicate n 0) =
       Inr (map (\<lambda>j. ept_page True (type_2m mtrr (of_nat (m + 0x200000 * j))) (of_nat (m + 0x200000 * j))) [0..<n],
            ptb, of_nat (m + 0x200000 * n))"
proof (induction n arbitrary: m)
  case (Suc n)
  have b: "(of_nat m + LARGE_PAGE_SIZE :: u64) = of_nat (m + 0x200000)" by (simp add: LARGE_PAGE_SIZE_def)
  have nz: "(of_nat m :: u64) \<noteq> 0" using Suc.prems of_nat_u64_nonzero [of m] by simp
  have "ept_pde_loop pa_of base mtrr (of_nat (m + 0x200000)) ptb (replicate n 0) =
       Inr (map (\<lambda>j. ept_page True (type_2m mtrr (of_nat (m + 0x200000 + 0x200000 * j))) (of_nat (m + 0x200000 + 0x200000 * j))) [0..<n],
            ptb, of_nat (m + 0x200000 + 0x200000 * n))"
    using Suc.prems by (intro Suc.IH) auto
  with nz show ?case
    by (simp add: b type_2m_def ept_page_def BASE_PAGE_SHIFT_def Let_def map_upt_Suc add.assoc del: upt_Suc of_nat_add)
qed simp


definition ept_row :: "Mtrr \<Rightarrow> nat \<Rightarrow> table" where
  "ept_row mtrr i = map (\<lambda>j. ept_page True (type_2m mtrr (of_nat ((512 * i + j) * 0x200000)))
                              (of_nat ((512 * i + j) * 0x200000))) [0..<512]"

lemma ept_pde_loop_row:
  "0 < i \<Longrightarrow> i < 512 \<Longrightarrow> ept_pde_loop pa_of base mtrr (of_nat (i * 0x40000000)) ptb (replicate 512 0) =
     Inr (ept_row mtrr i, ptb, of_nat ((i + 1) * 0x40000000))"
proof -
  assume i: "0 < i" "i < 512"
  have e: "i * 0x40000000 + 0x200000 * j = (512 * i + j) * 0x200000" for j by simp
  have "ept_pde_loop pa_of base mtrr (of_nat (i * 0x40000000)) ptb (replicate 512 0) =
     Inr (map (\<lambda>j. ept_page True (type_2m mtrr (of_nat (i * 0x40000000 + 0x200000 * j))) (of_nat (i * 0x40000000 + 0x200000 * j))) [0..<512],
          ptb, of_nat (i * 0x40000000 + 0x200000 * 512))"
    using i by (intro ept_pde_loop_eq) auto
  then show ?thesis unfolding e ept_row_def [symmetric] by (simp add: algebra_simps del: of_nat_add of_nat_mult)
qed

lemma ept_pdpte_rows:
  "0 < i \<Longrightarrow> i + n = 512 \<Longrightarrow> length pds = 512 \<Longrightarrow> \<forall>k<512. i \<le> k \<longrightarrow> pds ! k = replicate 512 0 \<Longrightarrow>
     ept_pdpte_loop pa_of base mtrr i (of_nat (i * 0x40000000)) pds ptb (replicate n 0) =
       Inr (map (\<lambda>k. set_table_entry pa_of (addr_ept_pd base (i + k)) 0) [0..<n],
            map (\<lambda>k. if k < i then pds ! k else ept_row mtrr k) [0..<512], ptb, of_nat 0x8000000000)"
proof (induction n arbitrary: i pds)
  case 0
  then have "map (\<lambda>k. if k < i then pds ! k else ept_row mtrr k) [0..<512] = pds"
    by (intro nth_equalityI) auto
  with 0 show ?case by simp
next
  case (Suc n)
  let ?pds = "pds[i := ept_row mtrr i]"
  have row: "ept_pde_loop pa_of base mtrr (of_nat (i * 0x40000000)) ptb (pds ! i)
      = Inr (ept_row mtrr i, ptb, of_nat ((i + 1) * 0x40000000))"
    using Suc.prems ept_pde_loop_row by simp
  have rows: "map (\<lambda>k. if k < i + 1 then ?pds ! k else ept_row mtrr k) [0..<512]
      = map (\<lambda>k. if k < i then pds ! k else ept_row mtrr k) [0..<512]"
    using Suc.prems by (intro nth_equalityI) (auto simp: nth_list_update less_Suc_eq)
  have "ept_pdpte_loop pa_of base mtrr (i + 1) (of_nat ((i + 1) * 0x40000000)) ?pds ptb (replicate n 0) =
       Inr (map (\<lambda>k. set_table_entry pa_of (addr_ept_pd base (i + 1 + k)) 0) [0..<n],
            map (\<lambda>k. if k < i + 1 then ?pds ! k else ept_row mtrr k) [0..<512], ptb, of_nat 0x8000000000)"
    using Suc.prems by (intro Suc.IH) auto
  with row rows show ?case
    by (simp add: map_upt_Suc del: upt_Suc of_nat_add of_nat_mult of_nat_numeral)
qed

definition ept_first_row :: "(u64 \<Rightarrow> u64) \<Rightarrow> u64 \<Rightarrow> Mtrr \<Rightarrow> table" where
  "ept_first_row pa_of base mtrr = set_table_entry pa_of (addr_ept_pt base) 0 # tl (ept_row mtrr 0)"

lemma tl_ept_row: "tl (ept_row mtrr 0) = map (\<lambda>j. ept_page True (type_2m mtrr (of_nat (0x200000 + 0x200000 * j)))
    (of_nat (0x200000 + 0x200000 * j))) [0..<511]"
  by (rule nth_equalityI) (simp_all add: ept_row_def nth_tl algebra_simps del: of_nat_add of_nat_mult)

lemma ept_pde_loop_first:
  assumes "ept_pte_loop mtrr 0 (replicate 512 0) = Inr (ptb, pa)"
  shows "ept_pde_loop pa_of base mtrr 0 (replicate 512 0) (0 # replicate 511 0) =
           Inr (ept_first_row pa_of base mtrr, ptb, of_nat 0x40000000)"
proof -
  from ept_pte_loop_eq [of mtrr 0 512 ptb pa] assms have pa: "pa = of_nat 0x200000" by simp
  have "ept_pde_loop pa_of base mtrr (of_nat 0x200000) ptb (replicate 511 0) =
       Inr (tl (ept_row mtrr 0), ptb, of_nat (0x200000 + 0x200000 * 511))"
    unfolding tl_ept_row by (rule ept_pde_loop_eq) auto
  with assms show ?thesis
    by (simp add: pa ept_first_row_def del: of_nat_add of_nat_mult of_nat_numeral replicate.simps)
qed

lemma ept_pdpte_loop_eq:
  assumes "ept_pte_loop mtrr 0 (replicate 512 0) = Inr (ptb, pa)"
  shows "ept_pdpte_loop pa_of base mtrr 0 0 (replicate 512 (replicate 512 0)) (replicate 512 0) (0 # replicate 511 0) =
     Inr (map (\<lambda>k. set_table_entry pa_of (addr_ept_pd base k) 0) [0..<512],
          map (\<lambda>k. if k = 0 then ept_first_row pa_of base mtrr else ept_row mtrr k) [0..<512], ptb, of_nat 0x8000000000)"
proof -
  let ?z = "replicate 512 (0::entry)"
  let ?pds = "(replicate 512 ?z)[0 := ept_first_row pa_of base mtrr]"
  have z: "replicate 512 ?z ! 0 = 0 # replicate 511 0"
    by (subst nth_replicate) (simp_all add: numeral_eq_Suc)
  have r: "ept_pdpte_loop pa_of base mtrr 1 (of_nat (1 * 0x40000000)) ?pds ptb (replicate 511 0) =
       Inr (map (\<lambda>k. set_table_entry pa_of (addr_ept_pd base (1 + k)) 0) [0..<511],
            map (\<lambda>k. if k < 1 then ?pds ! k else ept_row mtrr k) [0..<512], ptb, of_nat 0x8000000000)"
    by (rule ept_pdpte_rows) (auto simp: nth_list_update)
  have rows: "map (\<lambda>k. if k < 1 then ?pds ! k else ept_row mtrr k) [0..<512]
      = map (\<lambda>k. if k = 0 then ept_first_row pa_of base mtrr else ept_row mtrr k) [0..<512]"
    by (rule nth_equalityI) auto
  have es: "map (\<lambda>k. set_table_entry pa_of (addr_ept_pd base k) 0) [0..<512]
      = set_table_entry pa_of (addr_ept_pd base 0) 0 # map (\<lambda>k. set_table_entry pa_of (addr_ept_pd base (1 + k)) 0) [0..<511]"
    by (simp add: map_upt_Suc [of _ 511, simplified])
  show ?thesis
    using ept_pde_loop_first [OF assms, of pa_of base] r
    by (simp add: z rows es del: of_nat_add of_nat_mult of_nat_numeral replicate.simps)
qed

lemma ept_pml4_rows:
  "ept_pml4_loop pa_of base mtrr i (of_nat (i * 0x8000000000)) pdpts (replicate n 0) = Inr (es, pdpts') \<Longrightarrow>
     i + n = 512 \<Longrightarrow> length pdpts = 512 \<Longrightarrow> \<forall>k<512. i \<le> k \<longrightarrow> pdpts ! k = replicate 512 0 \<Longrightarrow>
     es = map (\<lambda>k. set_table_entry pa_of (addr_ept_pdpt base (i + k)) 0) [0..<n]
   \<and> length pdpts' = 512 \<and> (\<forall>k<i. pdpts' ! k = pdpts ! k)
   \<and> (\<forall>k<512. i \<le> k \<longrightarrow> (\<forall>j<512. let a = of_nat ((512 * k + j) * 0x40000000) in
        \<exists>t. mtrr_find mtrr a (a + PML4_SLOT_SIZE) = Some t \<and> pdpts' ! k ! j = ept_page True t a))"
proof (induction n arbitrary: i pdpts es)
  case 0
  then show ?case by auto
next
  case (Suc n)
  from Suc.prems obtain row pa' es1 where h: "ept_huge_loop mtrr (of_nat (i * 0x8000000000)) (replicate 512 0) = Inr (row, pa')"
    and l: "ept_pml4_loop pa_of base mtrr (i + 1) pa' (pdpts[i := row]) (replicate n 0) = Inr (es1, pdpts')"
    and es: "es = set_table_entry pa_of (addr_ept_pdpt base i) 0 # es1"
    by (auto simp: rust_simps simp del: of_nat_mult)
  have e: "i * 0x8000000000 + 0x40000000 * j = (512 * i + j) * 0x40000000" for j by simp
  from ept_huge_loop_eq [OF h] have row: "\<forall>j<512. let a = of_nat ((512 * i + j) * 0x40000000) in
        \<exists>t. mtrr_find mtrr a (a + PML4_SLOT_SIZE) = Some t \<and> row ! j = ept_page True t a"
    and pa': "pa' = of_nat ((i + 1) * 0x8000000000)" unfolding e Let_def by simp_all
  from l pa' have "ept_pml4_loop pa_of base mtrr (i + 1) (of_nat ((i + 1) * 0x8000000000)) (pdpts[i := row]) (replicate n 0) = Inr (es1, pdpts')"
    by simp
  from Suc.IH [OF this] Suc.prems(2,3,4) have
    ih: "es1 = map (\<lambda>k. set_table_entry pa_of (addr_ept_pdpt base (i + 1 + k)) 0) [0..<n]" "length pdpts' = 512"
      "\<forall>k<i + 1. pdpts' ! k = pdpts[i := row] ! k"
      "\<forall>k<512. i + 1 \<le> k \<longrightarrow> (\<forall>j<512. let a = of_nat ((512 * k + j) * 0x40000000) in
        \<exists>t. mtrr_find mtrr a (a + PML4_SLOT_SIZE) = Some t \<and> pdpts' ! k ! j = ept_page True t a)"
    by auto
  have i: "pdpts' ! i = row" using ih(3) Suc.prems(2,3) by simp
  show ?case
    using ih es row i
    by (auto simp: map_upt_Suc Let_def le_eq_less_or_eq Suc_le_eq simp del: upt_Suc of_nat_mult of_nat_add)
qed


section \<open>The tables that are built\<close>

lemma ept_pdpte_loop_Inr:
  "ept_pdpte_loop pa_of base mtrr i pa pds ptb es = Inr x \<Longrightarrow> es \<noteq> [] \<Longrightarrow>
     \<exists>y. ept_pde_loop pa_of base mtrr pa ptb (pds ! i) = Inr y"
  by (cases es) (auto simp: rust_simps)

lemma ept_pde_loop_Inr:
  "ept_pde_loop pa_of base mtrr 0 ptb es = Inr x \<Longrightarrow> es \<noteq> [] \<Longrightarrow> \<exists>y. ept_pte_loop mtrr 0 ptb = Inr y"
  by (cases es) (auto simp: rust_simps)

lemma ept_build_tables:
  assumes "ept_build pa_of base mtrr Epts_zeroed = Inr eps"
  shows "\<forall>i<512. ept_pml4 eps ! i = set_table_entry pa_of (addr_ept_pdpt base i) 0"
    and "\<forall>i<512. ept_pdpt eps ! 0 ! i = set_table_entry pa_of (addr_ept_pd base i) 0"
    and "\<forall>i<512. \<forall>j<512. ept_pd eps ! i ! j = (if i = 0 \<and> j = 0 then set_table_entry pa_of (addr_ept_pt base) 0
           else let a = of_nat ((512 * i + j) * 0x200000) in ept_page True (type_2m mtrr a) a)"
    and "\<forall>k<512. let a = of_nat (0x1000 * k) in \<exists>t. mtrr_find mtrr a (a + BASE_PAGE_SIZE) = Some t \<and> ept_pt eps ! k = ept_page False t a"
    and "\<forall>i<512. 1 \<le> i \<longrightarrow> (\<forall>j<512. let a = of_nat ((512 * i + j) * 0x40000000) in
           \<exists>t. mtrr_find mtrr a (a + PML4_SLOT_SIZE) = Some t \<and> ept_pdpt eps ! i ! j = ept_page True t a)"
proof -
  let ?z = "replicate 512 (0::entry)"
  have z: "?z = 0 # replicate 511 0" by (simp add: numeral_eq_Suc)
  have zz: "replicate 512 ?z ! 0 = ?z" by (rule nth_replicate) simp
  have z0: "?z ! 0 = 0" by (rule nth_replicate) simp
  have d: "drop 1 ?z = replicate 511 0" by simp
  from assms obtain pdpt0 pds ptb es pdpts where
      l: "ept_pdpte_loop pa_of base mtrr 0 0 (replicate 512 ?z) ?z ?z = Inr (pdpt0, pds, ptb, PML4_SLOT_SIZE)"
    and h: "ept_pml4_loop pa_of base mtrr 1 PML4_SLOT_SIZE ((replicate 512 ?z)[0 := pdpt0]) (replicate 511 0) = Inr (es, pdpts)"
    and eps: "eps = \<lparr>ept_pml4 = set_table_entry pa_of (addr_ept_pdpt base 0) 0 # es, ept_pdpt = pdpts, ept_pd = pds, ept_pt = ptb\<rparr>"
    unfolding ept_build_def Epts_zeroed_def Let_def epts.simps zz z0 d by (auto simp: rust_simps)
  obtain pt1 pa1 where pt: "ept_pte_loop mtrr 0 ?z = Inr (pt1, pa1)"
  proof -
    have "?z \<noteq> []" by simp
    with ept_pdpte_loop_Inr [OF l this] have "\<exists>x. ept_pte_loop mtrr 0 ?z = Inr x"
      unfolding zz using ept_pde_loop_Inr by blast
    then show thesis using that by (metis surj_pair)
  qed
  from l ept_pdpte_loop_eq [OF pt, of pa_of base] have
      e: "pdpt0 = map (\<lambda>k. set_table_entry pa_of (addr_ept_pd base k) 0) [0..<512]"
         "pds = map (\<lambda>k. if k = 0 then ept_first_row pa_of base mtrr else ept_row mtrr k) [0..<512]" "ptb = pt1"
    unfolding z [symmetric] by simp_all
  have "ept_pml4_loop pa_of base mtrr 1 (of_nat (1 * 0x8000000000)) ((replicate 512 ?z)[0 := pdpt0]) (replicate 511 0) = Inr (es, pdpts)"
    using h by (simp add: PML4_SLOT_SIZE_def)
  from ept_pml4_rows [OF this] have
      r: "es = map (\<lambda>k. set_table_entry pa_of (addr_ept_pdpt base (1 + k)) 0) [0..<511]" "pdpts ! 0 = pdpt0"
         "\<forall>k<512. 1 \<le> k \<longrightarrow> (\<forall>j<512. let a = of_nat ((512 * k + j) * 0x40000000) in
        \<exists>t. mtrr_find mtrr a (a + PML4_SLOT_SIZE) = Some t \<and> pdpts ! k ! j = ept_page True t a)"
    by (auto simp: nth_list_update)
  show "\<forall>i<512. ept_pml4 eps ! i = set_table_entry pa_of (addr_ept_pdpt base i) 0"
    by (auto simp: eps r(1) nth_Cons split: nat.splits)
  show "\<forall>i<512. ept_pdpt eps ! 0 ! i = set_table_entry pa_of (addr_ept_pd base i) 0"
    by (simp add: eps r(2) e(1))
  show "\<forall>i<512. \<forall>j<512. ept_pd eps ! i ! j = (if i = 0 \<and> j = 0 then set_table_entry pa_of (addr_ept_pt base) 0
           else let a = of_nat ((512 * i + j) * 0x200000) in ept_page True (type_2m mtrr a) a)"
  proof (intro allI impI)
    fix i j :: nat assume "i < 512" "j < 512"
    then show "ept_pd eps ! i ! j = (if i = 0 \<and> j = 0 then set_table_entry pa_of (addr_ept_pt base) 0
           else let a = of_nat ((512 * i + j) * 0x200000) in ept_page True (type_2m mtrr a) a)"
      by (cases "i = 0"; cases j)
        (simp_all add: eps e(2) ept_first_row_def ept_row_def nth_tl Let_def add_ac del: of_nat_add of_nat_mult)
  qed
  show "\<forall>k<512. let a = of_nat (0x1000 * k) in \<exists>t. mtrr_find mtrr a (a + BASE_PAGE_SIZE) = Some t \<and> ept_pt eps ! k = ept_page False t a"
    using ept_pte_loop_eq [of mtrr 0 512 pt1 pa1] pt by (simp add: eps e(3) Let_def del: of_nat_mult)
  show "\<forall>i<512. 1 \<le> i \<longrightarrow> (\<forall>j<512. let a = of_nat ((512 * i + j) * 0x40000000) in
           \<exists>t. mtrr_find mtrr a (a + PML4_SLOT_SIZE) = Some t \<and> ept_pdpt eps ! i ! j = ept_page True t a)"
    using r(3) by (simp add: eps)
qed


section \<open>Properties\<close>

lemma huge_page_of:
  assumes "unat gpa < 2 ^ 48"
  shows "(of_nat ((512 * walk_index 39 gpa + walk_index 30 gpa) * 0x40000000) :: u64) = push_bit 30 (drop_bit 30 gpa)"
proof -
  have "unat gpa div 2 ^ 39 = unat gpa div 2 ^ 30 div 512" by (simp add: div_mult2_eq [symmetric])
  moreover have "unat gpa div 2 ^ 39 < 512" using assms by (simp add: less_mult_imp_div_less)
  ultimately have "walk_index 39 gpa = unat gpa div 2 ^ 30 div 512" by (simp add: walk_index_eq)
  then have "512 * walk_index 39 gpa + walk_index 30 gpa = unat gpa div 2 ^ 30" by (simp add: walk_index_eq)
  then show ?thesis using of_nat_push_drop [of gpa 30] by simp
qed

lemma eptp_pfn: "unat (pa_of base) < 2 ^ 52 \<Longrightarrow> get_bits 12 51 (eptp pa_of base) = drop_bit 12 (pa_of base)"
  by (rule bit_word_eqI)
    (auto simp: eptp_def BASE_PAGE_SHIFT_def bit_get_bits bitfield_simps bit_simps dest: bit_52)

text \<open>What the theorem on the translation assumes, and the first step of every walk.\<close>

definition ept_ready :: "(u64 \<Rightarrow> table option) \<Rightarrow> (u64 \<Rightarrow> u64) \<Rightarrow> u64 \<Rightarrow> Mtrr \<Rightarrow> epts \<Rightarrow> bool" where
  "ept_ready tbl pa_of base mtrr eps \<longleftrightarrow>
     ept_build pa_of base mtrr Epts_zeroed = Inr eps \<and> holds_epts tbl pa_of base eps \<and> pa_52bit pa_of"

definition rwx :: "bool \<times> bool \<times> bool" where "rwx = (True, True, True)"

lemma ept_walk_top:
  assumes "ept_ready tbl pa_of base mtrr eps"
  shows "ept_walk tbl (eptp pa_of base) gpa =
      ept_walk_from tbl [30, 21, 12] (drop_bit 12 (pa_of (addr_ept_pdpt base (walk_index 39 gpa)))) rwx gpa"
  using assms ept_build_tables(1) [of pa_of base mtrr eps] walk_index_less [of 39 gpa]
  by (simp add: ept_ready_def pa_52bit_def ept_walk_def eptp_pfn holds_epts_def ept_table_fields ept_table_pfn Let_def rwx_def)

lemma ept_walk_huge:
  assumes "ept_ready tbl pa_of base mtrr eps" and "2 ^ 39 \<le> unat gpa" and "unat gpa < 2 ^ 48"
  shows "\<exists>t. ept_type mtrr gpa = Some t \<and> ept_walk tbl (eptp pa_of base) gpa = Some (gpa, rwx, MemoryType_code t)"
proof -
  let ?a = "push_bit 30 (drop_bit 30 gpa)"
  have i: "1 \<le> walk_index 39 gpa"
    using assms(2,3) by (simp add: walk_index_eq less_mult_imp_div_less div_greater_zero_iff Suc_le_eq)
  have "ept_build pa_of base mtrr Epts_zeroed = Inr eps" using assms(1) by (simp add: ept_ready_def)
  from ept_build_tables(5) [OF this, rule_format, OF walk_index_less i walk_index_less [of 30 gpa]]
  obtain t where t: "mtrr_find mtrr ?a (?a + PML4_SLOT_SIZE) = Some t"
    and e: "ept_pdpt eps ! walk_index 39 gpa ! walk_index 30 gpa = ept_page True t ?a"
    unfolding huge_page_of [OF assms(3)] Let_def by blast
  have "\<not> gpa < LARGE_PAGE_SIZE" "\<not> gpa < PML4_SLOT_SIZE"
    using assms(2) by (simp_all add: word_less_nat_alt LARGE_PAGE_SIZE_def PML4_SLOT_SIZE_def)
  then have "ept_type mtrr gpa = Some t" using t by (simp add: ept_type_def Let_def)
  moreover have "unat gpa < 2 ^ 52" using assms(3) by simp
  ultimately show ?thesis
    using assms(1) e walk_index_less [of 39 gpa]
    by (simp add: ept_walk_top [OF assms(1)] ept_ready_def holds_epts_def ept_page_fields ept_page_base Let_def rwx_def)
qed

lemma ept_walk_pd:
  assumes "ept_ready tbl pa_of base mtrr eps" and "unat gpa < 2 ^ 39"
  shows "ept_walk tbl (eptp pa_of base) gpa =
      ept_walk_from tbl [21, 12] (drop_bit 12 (pa_of (addr_ept_pd base (walk_index 30 gpa)))) rwx gpa"
proof -
  have "walk_index 39 gpa = 0" using assms(2) by (simp add: walk_index_eq)
  then show ?thesis
    using assms(1) ept_build_tables(2) [of pa_of base mtrr eps] walk_index_less [of 30 gpa]
    by (simp add: ept_walk_top [OF assms(1)] ept_ready_def pa_52bit_def holds_epts_def ept_table_fields ept_table_pfn Let_def rwx_def)
qed

lemma ept_walk_large:
  assumes "ept_ready tbl pa_of base mtrr eps" and "2 ^ 21 \<le> unat gpa" and "unat gpa < 2 ^ 39"
  shows "\<exists>t. ept_type mtrr gpa = Some t \<and> ept_walk tbl (eptp pa_of base) gpa = Some (gpa, rwx, MemoryType_code t)"
proof -
  let ?a = "push_bit 21 (drop_bit 21 gpa)"
  have nz: "\<not> (walk_index 30 gpa = 0 \<and> walk_index 21 gpa = 0)"
    using large_index [OF assms(3)] assms(2) by (auto simp: div_eq_0_iff)
  have "ept_build pa_of base mtrr Epts_zeroed = Inr eps" using assms(1) by (simp add: ept_ready_def)
  from ept_build_tables(3) [OF this, rule_format, OF walk_index_less [of 30 gpa] walk_index_less [of 21 gpa]] nz
  have e: "ept_pd eps ! walk_index 30 gpa ! walk_index 21 gpa = ept_page True (type_2m mtrr ?a) ?a"
    unfolding large_page_of [OF assms(3)] Let_def by auto
  have "\<not> gpa < LARGE_PAGE_SIZE" "gpa < PML4_SLOT_SIZE"
    using assms(2,3) by (simp_all add: word_less_nat_alt LARGE_PAGE_SIZE_def PML4_SLOT_SIZE_def)
  then have "ept_type mtrr gpa = Some (type_2m mtrr ?a)" by (simp add: ept_type_def type_2m_def Let_def)
  moreover have "unat gpa < 2 ^ 52" using assms(3) by simp
  ultimately show ?thesis
    using assms(1) e walk_index_less [of 30 gpa]
    by (simp add: ept_walk_pd [OF assms(1,3)] ept_ready_def holds_epts_def ept_page_fields ept_page_base Let_def rwx_def)
qed

lemma ept_walk_small:
  assumes "ept_ready tbl pa_of base mtrr eps" and "unat gpa < 2 ^ 21"
  shows "\<exists>t. ept_type mtrr gpa = Some t \<and> ept_walk tbl (eptp pa_of base) gpa = Some (gpa, rwx, MemoryType_code t)"
proof -
  let ?a = "push_bit 12 (drop_bit 12 gpa)"
  have z: "walk_index 30 gpa = 0" "walk_index 21 gpa = 0" using assms(2) by (simp_all add: walk_index_eq)
  have b: "ept_build pa_of base mtrr Epts_zeroed = Inr eps" using assms(1) by (simp add: ept_ready_def)
  from ept_build_tables(4) [OF b, rule_format, OF walk_index_less [of 12 gpa]]
  obtain t where t: "mtrr_find mtrr ?a (?a + BASE_PAGE_SIZE) = Some t" and e: "ept_pt eps ! walk_index 12 gpa = ept_page False t ?a"
    unfolding small_page_of [OF assms(2)] Let_def by blast
  have "gpa < LARGE_PAGE_SIZE" using assms(2) by (simp add: word_less_nat_alt LARGE_PAGE_SIZE_def)
  then have "ept_type mtrr gpa = Some t" using t by (simp add: ept_type_def Let_def)
  moreover have "unat gpa < 2 ^ 52" "unat gpa < 2 ^ 39" using assms(2) by simp_all
  ultimately show ?thesis
    using assms(1) e z ept_build_tables(3) [OF b]
    by (simp add: ept_walk_pd [OF assms(1)] ept_ready_def pa_52bit_def holds_epts_def ept_table_fields ept_table_pfn
        ept_page_fields ept_page_base Let_def rwx_def)
qed

lemma ept_walk_identity:
  assumes "ept_ready tbl pa_of base mtrr eps" and "unat gpa < 2 ^ 48"
  shows "\<exists>t. ept_type mtrr gpa = Some t \<and> ept_walk tbl (eptp pa_of base) gpa = Some (gpa, (True, True, True), MemoryType_code t)"
proof -
  consider "2 ^ 39 \<le> unat gpa" | "unat gpa < 2 ^ 39" "2 ^ 21 \<le> unat gpa" | "unat gpa < 2 ^ 21"
    by linarith
  then show ?thesis
    by cases (use ept_walk_huge [OF assms(1)] ept_walk_large [OF assms(1)] ept_walk_small [OF assms(1)] assms(2) in \<open>simp_all add: rwx_def\<close>)
qed

text \<open>
  C11. When \<open>build_identity\<close> succeeds, the EPT maps every guest-physical address below 2^48
  to itself, readable, writable and executable, and with the memory type that the MTRR
  lookup gave for its page: 4KB pages below 2MB, 2MB pages below 512GB (uncachable when
  the lookup has no answer), and above 512GB the answer for the 512GB from the page on.
  The EPT pointer built by \<open>eptp\<close> is the root of that walk.
\<close>

theorem ept_translates:
  assumes "ept_build pa_of base mtrr Epts_zeroed = Inr eps" and "holds_epts tbl pa_of base eps"
    and "pa_52bit pa_of" and "unat gpa < 2 ^ 48"
  shows "\<exists>t. ept_type mtrr gpa = Some t
           \<and> ept_walk tbl (eptp pa_of base) gpa = Some (gpa, (True, True, True), MemoryType_code t)"
  using assms by (intro ept_walk_identity) (simp_all add: ept_ready_def)

section \<open>When the construction succeeds\<close>

lemma ept_pte_loop_total:
  "\<forall>k<n. mtrr_find mtrr (of_nat (m + 0x1000 * k)) (of_nat (m + 0x1000 * k) + BASE_PAGE_SIZE) \<noteq> None \<Longrightarrow>
     \<exists>ptes'. ept_pte_loop mtrr (of_nat m) (replicate n 0) = Inr (ptes', of_nat (m + 0x1000 * n))"
proof (induction n arbitrary: m)
  case (Suc n)
  have b: "(of_nat m + BASE_PAGE_SIZE :: u64) = of_nat (m + 0x1000)" by (simp add: BASE_PAGE_SIZE_def)
  from Suc.prems [rule_format, of 0] obtain t where "mtrr_find mtrr (of_nat m) (of_nat (m + 0x1000)) = Some t"
    by (auto simp: b simp del: of_nat_add)
  moreover have "mtrr_find mtrr (of_nat (m + 0x1000 + 0x1000 * k)) (of_nat (m + 0x1000 + 0x1000 * k) + BASE_PAGE_SIZE) \<noteq> None"
    if "k < n" for k
  proof -
    have e: "m + 0x1000 * Suc k = m + 0x1000 + 0x1000 * k" by simp
    show ?thesis using Suc.prems [rule_format, of "Suc k"] that unfolding e by simp
  qed
  then obtain ptes' where "ept_pte_loop mtrr (of_nat (m + 0x1000)) (replicate n 0) = Inr (ptes', of_nat (m + 0x1000 + 0x1000 * n))"
    using Suc.IH [of "m + 0x1000"] by blast
  ultimately show ?case by (simp add: b Let_def add.assoc del: of_nat_add)
qed simp

lemma ept_huge_loop_total:
  "\<forall>k<n. mtrr_find mtrr (of_nat (m + 0x40000000 * k)) (of_nat (m + 0x40000000 * k) + PML4_SLOT_SIZE) \<noteq> None \<Longrightarrow>
     \<exists>es'. ept_huge_loop mtrr (of_nat m) (replicate n 0) = Inr (es', of_nat (m + 0x40000000 * n))"
proof (induction n arbitrary: m)
  case (Suc n)
  have b: "(of_nat m + HUGE_PAGE_SIZE :: u64) = of_nat (m + 0x40000000)" by (simp add: HUGE_PAGE_SIZE_def)
  from Suc.prems [rule_format, of 0] obtain t where "mtrr_find mtrr (of_nat m) (of_nat m + PML4_SLOT_SIZE) = Some t"
    by auto
  moreover have "mtrr_find mtrr (of_nat (m + 0x40000000 + 0x40000000 * k)) (of_nat (m + 0x40000000 + 0x40000000 * k) + PML4_SLOT_SIZE) \<noteq> None"
    if "k < n" for k
  proof -
    have e: "m + 0x40000000 * Suc k = m + 0x40000000 + 0x40000000 * k" by simp
    show ?thesis using Suc.prems [rule_format, of "Suc k"] that unfolding e by simp
  qed
  then obtain es' where "ept_huge_loop mtrr (of_nat (m + 0x40000000)) (replicate n 0) = Inr (es', of_nat (m + 0x40000000 + 0x40000000 * n))"
    using Suc.IH [of "m + 0x40000000"] by blast
  ultimately show ?case by (simp add: b Let_def add.assoc del: of_nat_add)
qed simp

lemma ept_pml4_loop_total:
  "\<forall>k<512. i \<le> k \<longrightarrow> (\<forall>j<512. mtrr_find mtrr (of_nat ((512 * k + j) * 0x40000000)) (of_nat ((512 * k + j) * 0x40000000) + PML4_SLOT_SIZE) \<noteq> None) \<Longrightarrow>
     i + n = 512 \<Longrightarrow> length pdpts = 512 \<Longrightarrow> \<forall>k<512. i \<le> k \<longrightarrow> pdpts ! k = replicate 512 0 \<Longrightarrow>
     \<exists>x. ept_pml4_loop pa_of base mtrr i (of_nat (i * 0x8000000000)) pdpts (replicate n 0) = Inr x"
proof (induction n arbitrary: i pdpts)
  case (Suc n)
  have e: "i * 0x8000000000 + 0x40000000 * j = (512 * i + j) * 0x40000000" for j by simp
  have "\<forall>k<512. mtrr_find mtrr (of_nat (i * 0x8000000000 + 0x40000000 * k)) (of_nat (i * 0x8000000000 + 0x40000000 * k) + PML4_SLOT_SIZE) \<noteq> None"
    using Suc.prems(1,2) unfolding e by simp
  then obtain row where "ept_huge_loop mtrr (of_nat (i * 0x8000000000)) (replicate 512 0) = Inr (row, of_nat (i * 0x8000000000 + 0x40000000 * 512))"
    using ept_huge_loop_total by blast
  moreover have "i * 0x8000000000 + 0x40000000 * 512 = (i + 1) * 0x8000000000" by simp
  moreover have "\<exists>x. ept_pml4_loop pa_of base mtrr (i + 1) (of_nat ((i + 1) * 0x8000000000)) (pdpts[i := row]) (replicate n 0) = Inr x"
    using Suc.prems by (intro Suc.IH) auto
  moreover have "pdpts ! i = replicate 512 0" using Suc.prems by simp
  ultimately show ?case by (auto simp: add.commute simp del: of_nat_add of_nat_mult)
qed simp

text \<open>The lookups that \<open>build_identity\<close> requires to have an answer.\<close>

definition ept_resolvable :: "Mtrr \<Rightarrow> bool" where
  "ept_resolvable mtrr \<longleftrightarrow>
     (\<forall>k<512. let a = of_nat (0x1000 * k) in mtrr_find mtrr a (a + BASE_PAGE_SIZE) \<noteq> None)
   \<and> (\<forall>i<512. 1 \<le> i \<longrightarrow> (\<forall>j<512. let a = of_nat ((512 * i + j) * 0x40000000) in mtrr_find mtrr a (a + PML4_SLOT_SIZE) \<noteq> None))"

lemma ept_build_resolvable:
  assumes "ept_build pa_of base mtrr Epts_zeroed = Inr eps"
  shows "ept_resolvable mtrr"
  unfolding ept_resolvable_def
proof (intro conjI)
  show "\<forall>k<512. let a = of_nat (0x1000 * k) in mtrr_find mtrr a (a + BASE_PAGE_SIZE) \<noteq> None"
    using ept_build_tables(4) [OF assms] by (fastforce simp: Let_def)
  show "\<forall>i<512. 1 \<le> i \<longrightarrow> (\<forall>j<512. let a = of_nat ((512 * i + j) * 0x40000000) in mtrr_find mtrr a (a + PML4_SLOT_SIZE) \<noteq> None)"
    using ept_build_tables(5) [OF assms] by (fastforce simp: Let_def)
qed

lemma ept_build_total:
  assumes "ept_resolvable mtrr"
  shows "\<exists>eps. ept_build pa_of base mtrr Epts_zeroed = Inr eps"
proof -
  let ?z = "replicate 512 (0::entry)"
  have z: "?z = 0 # replicate 511 0" by (simp add: numeral_eq_Suc)
  have zz: "replicate 512 ?z ! 0 = ?z" by (rule nth_replicate) simp
  have d: "drop 1 ?z = replicate 511 0" by simp
  obtain ptb where pt: "ept_pte_loop mtrr 0 ?z = Inr (ptb, of_nat (0 + 0x1000 * 512))"
    using assms ept_pte_loop_total [of 512 mtrr 0] by (auto simp: ept_resolvable_def Let_def)
  let ?pdpt0 = "map (\<lambda>k. set_table_entry pa_of (addr_ept_pd base k) 0) [0..<512]"
  have "\<exists>x. ept_pml4_loop pa_of base mtrr 1 (of_nat (1 * 0x8000000000)) ((replicate 512 ?z)[0 := ?pdpt0]) (replicate 511 0) = Inr x"
    using assms by (intro ept_pml4_loop_total) (auto simp: ept_resolvable_def Let_def nth_list_update)
  then show ?thesis
    unfolding ept_build_def Epts_zeroed_def Let_def epts.simps zz d
    using ept_pdpte_loop_eq [OF pt, of pa_of base] unfolding z [symmetric]
    by (auto simp: PML4_SLOT_SIZE_def simp del: replicate.simps)
qed

text \<open>MTRRs with one fixed type for the first 1MB, no variable range, and the default type write-back.\<close>

definition flat_mtrr :: Mtrr where
  "flat_mtrr = \<lparr>default_memory_type = WriteBack,
      fixed = [\<lparr>memory_type = WriteBack, range_start = 0, range_end = 0x100000\<rparr>], variable = []\<rparr>"

lemma flat_resolvable: "ept_resolvable flat_mtrr"
proof -
  have "mtrr_find flat_mtrr (of_nat (0x1000 * k)) (of_nat (0x1000 * k) + 0x1000) \<noteq> None" if "k < 512" for k
  proof (cases "k < 256")
    case True
    have u: "unat (of_nat (0x1000 * k) :: u64) = 0x1000 * k" using True by (simp add: unat_of_nat del: of_nat_mult)
    have u1: "unat (of_nat (0x1000 * k) + 0x1000 :: u64) = 0x1000 * k + 0x1000"
      using True by (simp add: unat_word_ariths(1) u del: of_nat_mult)
    have u2: "unat (of_nat (0x1000 * k) + 0x1000 - 1 :: u64) = 0x1000 * k + 0xfff"
      by (subst unat_sub) (simp_all add: word_le_nat_alt u1 del: of_nat_mult)
    have l: "(of_nat (0x1000 * k) :: u64) < 0x100000" "\<not> (of_nat (0x1000 * k) + 0x1000 :: u64) > 0x100000"
      "(of_nat (0x1000 * k) + 0x1000 - 1 :: u64) < 0x100000"
      unfolding word_less_nat_alt u u1 u2 using True by simp_all
    then show ?thesis
      unfolding mtrr_find_def find_from_fixed_def flat_mtrr_def
      by (simp add: range_contains_def del: of_nat_mult)
  next
    case False
    have u: "unat (of_nat (0x1000 * k) :: u64) = 0x1000 * k" using that by (simp add: unat_of_nat del: of_nat_mult)
    have "\<not> (of_nat (0x1000 * k) :: u64) < 0x100000" unfolding word_less_nat_alt u using False by simp
    then show ?thesis by (simp add: mtrr_find_def find_from_variable_def flat_mtrr_def del: of_nat_mult)
  qed
  moreover have "mtrr_find flat_mtrr (of_nat ((512 * i + j) * 0x40000000)) e \<noteq> None" if "1 \<le> i" "i < 512" "j < 512" for i j e
  proof -
    have u: "unat (of_nat ((512 * i + j) * 0x40000000) :: u64) = (512 * i + j) * 0x40000000"
      using that by (simp add: unat_of_nat del: of_nat_mult of_nat_add)
    have "\<not> (of_nat ((512 * i + j) * 0x40000000) :: u64) < 0x100000" unfolding word_less_nat_alt u using that by simp
    then show ?thesis by (simp add: mtrr_find_def find_from_variable_def flat_mtrr_def del: of_nat_mult of_nat_add)
  qed
  ultimately show ?thesis by (simp add: ept_resolvable_def Let_def BASE_PAGE_SIZE_def del: of_nat_mult of_nat_add)
qed

text \<open>
  C36. \<open>build_identity\<close> succeeds exactly when the MTRR lookup has an answer for every 4KB page of
  the first 2MB, and for the 512GB that follow every 1GB page above 512GB; in all other
  cases it panics.
\<close>

theorem ept_build_succeeds_iff:
  "(\<exists>eps. ept_build pa_of base mtrr Epts_zeroed = Inr eps) \<longleftrightarrow>
     (\<forall>k<512. let a = of_nat (0x1000 * k) in mtrr_find mtrr a (a + BASE_PAGE_SIZE) \<noteq> None)
   \<and> (\<forall>i<512. 1 \<le> i \<longrightarrow> (\<forall>j<512. let a = of_nat ((512 * i + j) * 0x40000000) in mtrr_find mtrr a (a + PML4_SLOT_SIZE) \<noteq> None))"
  using ept_build_resolvable ept_build_total unfolding ept_resolvable_def by blast

theorem ept_build_succeeds_iff_witness:
  "\<exists>eps. ept_build (take_bit 52) 0x100000 flat_mtrr Epts_zeroed = Inr eps"
  unfolding ept_build_succeeds_iff using flat_resolvable unfolding ept_resolvable_def .

text \<open>
  The lookup for the pages above 512GB asks for 512GB instead of 1GB: with a 1GB uncachable
  range right at 512GB, which the 1GB page granularity can represent and which the lookup
  resolves, \<open>build_identity\<close> still panics.
\<close>

lemma ept_build_spurious_panic:
  "let mtrr = flat_mtrr\<lparr>variable := [\<lparr>memory_type = Uncachable, range_start = 0x8000000000, range_end = 0x8040000000\<rparr>]\<rparr>
   in mtrr_find mtrr 0x8000000000 (0x8000000000 + HUGE_PAGE_SIZE) = Some Uncachable
    \<and> (\<nexists>eps. ept_build pa_of base mtrr Epts_zeroed = Inr eps)"
proof -
  let ?m = "flat_mtrr\<lparr>variable := [\<lparr>memory_type = Uncachable, range_start = 0x8000000000, range_end = 0x8040000000\<rparr>]\<rparr>"
  have "mtrr_find ?m 0x8000000000 (0x8000000000 + PML4_SLOT_SIZE) = None"
    by (simp add: mtrr_find_def find_from_variable_def range_contains_def PML4_SLOT_SIZE_def)
  moreover have "mtrr_find ?m 0x8000000000 (0x8000000000 + PML4_SLOT_SIZE) \<noteq> None" if "ept_resolvable ?m"
  proof -
    have "\<forall>j<512. let a = of_nat ((512 * 1 + j) * 0x40000000) in mtrr_find ?m a (a + PML4_SLOT_SIZE) \<noteq> None"
      using that unfolding ept_resolvable_def by (metis one_less_numeral_iff order_refl semiring_norm(76))
    from this [rule_format, of 0] show ?thesis by (simp add: Let_def)
  qed
  ultimately have "\<nexists>eps. ept_build pa_of base ?m Epts_zeroed = Inr eps" using ept_build_resolvable by blast
  then show ?thesis
    by (simp add: mtrr_find_def find_from_variable_def range_contains_def HUGE_PAGE_SIZE_def)
qed


section \<open>A concrete EPT\<close>

definition ept_mem :: "epts \<Rightarrow> u64 \<Rightarrow> table option" where
  "ept_mem eps f =
     (let k = unat (f - 0x100) in
      if k = 0 then Some (ept_pml4 eps) else if k < 513 then Some (ept_pdpt eps ! (k - 1))
      else if k < 1025 then Some (ept_pd eps ! (k - 513)) else if k = 1025 then Some (ept_pt eps) else None)"

lemma ept_frame:
  assumes "n < 0x1000"
  shows "unat (drop_bit 12 (take_bit 52 (0x100000 + of_nat n * 0x1000 :: u64)) - 0x100) = n"
proof -
  have "unat (0x100000 + of_nat n * 0x1000 :: u64) = (0x100 + n) * 0x1000"
    using assms by (simp add: unat_word_ariths unat_of_nat)
  then have u: "unat (drop_bit 12 (take_bit 52 (0x100000 + of_nat n * 0x1000 :: u64))) = 0x100 + n"
    using assms by (simp add: unat_drop_bit_eq drop_bit_nat_def unsigned_take_bit_eq take_bit_nat_eq_self)
  then show ?thesis by (subst unat_sub) (simp_all add: word_le_nat_alt)
qed

lemma holds_ept_mem: "holds_epts (ept_mem eps) (take_bit 52) 0x100000 eps"
proof -
  have a: "addr_ept_pdpt 0x100000 i = 0x100000 + of_nat (1 + i) * 0x1000"
    "addr_ept_pd 0x100000 i = 0x100000 + of_nat (513 + i) * 0x1000" for i
    by (simp_all add: addr_ept_pdpt_def addr_ept_pd_def algebra_simps)
  have b: "0x100000 = (0x100000 + of_nat 0 * 0x1000 :: u64)" "addr_ept_pt 0x100000 = 0x100000 + of_nat 1025 * 0x1000"
    by (simp_all add: addr_ept_pt_def)
  show ?thesis
    unfolding holds_epts_def
  proof (intro conjI allI impI)
    show "ept_mem eps (drop_bit 12 (take_bit 52 0x100000)) = Some (ept_pml4 eps)"
      by (subst b(1)) (simp only: ept_mem_def Let_def ept_frame, simp)
    show "ept_mem eps (drop_bit 12 (take_bit 52 (addr_ept_pt 0x100000))) = Some (ept_pt eps)"
      unfolding b(2) ept_mem_def Let_def by (subst ept_frame, simp)+ simp
    fix i :: nat assume i: "i < 512"
    show "ept_mem eps (drop_bit 12 (take_bit 52 (addr_ept_pdpt 0x100000 i))) = Some (ept_pdpt eps ! i)"
      using i ept_frame [of "1 + i"] unfolding a ept_mem_def Let_def by simp
    show "ept_mem eps (drop_bit 12 (take_bit 52 (addr_ept_pd 0x100000 i))) = Some (ept_pd eps ! i)"
      using i ept_frame [of "513 + i"] unfolding a ept_mem_def Let_def by simp
  qed
qed

theorem ept_translates_witness:
  "\<exists>eps. ept_build (take_bit 52) 0x100000 flat_mtrr Epts_zeroed = Inr eps
     \<and> ept_walk (ept_mem eps) (eptp (take_bit 52) 0x100000) 0x8000123456 = Some (0x8000123456, (True, True, True), 6)"
proof -
  obtain eps where eps: "ept_build (take_bit 52) 0x100000 flat_mtrr Epts_zeroed = Inr eps"
    using ept_build_total [OF flat_resolvable] by blast
  have "ept_type flat_mtrr 0x8000123456 = Some WriteBack"
    by (simp add: ept_type_def LARGE_PAGE_SIZE_def PML4_SLOT_SIZE_def mtrr_find_def find_from_variable_def flat_mtrr_def)
  with ept_translates [OF eps holds_ept_mem pa_52bit_take_bit, of "0x8000123456"] eps show ?thesis by auto
qed

end
