(* ===== verification/Platform_Ops.thy ===== *)
theory Platform_Ops
  imports Prelude
begin

text \<open>
  The interface between the hypervisor and its platform, \<open>hypervisor/platform_ops.rs\<close>: the trait
  \<open>PlatformOps\<close> and its registration. The contract of \<open>run_on_all_processors\<close> is the locale
  \<open>platform\<close>; its reference definition is \<open>run_on_all_processors\<close>, the callback on the processors
  one by one. The theories \<open>Windows\<close> and \<open>Uefi\<close> show that the two platforms meet the contract.

  A callback has the type \<open>fn()\<close>: it works on the processor that it runs on (\<open>'p\<close>) and on the
  static variables (\<open>'s\<close>), and it may panic.
\<close>

section \<open>Definitions\<close>

type_synonym ('p, 's) callback = "'p \<Rightarrow> 's \<Rightarrow> ('p \<times> 's) rust"

record ('p, 's) platform_ops =
  ops_run :: "('p, 's) callback \<Rightarrow> 'p list \<Rightarrow> 's \<Rightarrow> ('p list \<times> 's) rust"
  ops_pa :: "u64 \<Rightarrow> u64"

text \<open>The static variable \<open>PLATFORM_OPS\<close> is a \<open>Once\<close>: only the first registration counts.\<close>

definition platform_ops_init :: "'ops \<Rightarrow> 'ops option \<Rightarrow> 'ops option" where
  "platform_ops_init ops PLATFORM_OPS = call_once ops PLATFORM_OPS"

definition platform_ops_get :: "'ops option \<Rightarrow> 'ops rust" where
  "platform_ops_get PLATFORM_OPS = unwrap ''PLATFORM_OPS'' PLATFORM_OPS"

fun run_on_all_processors :: "('p, 's) callback \<Rightarrow> 'p list \<Rightarrow> 's \<Rightarrow> ('p list \<times> 's) rust" where
  "run_on_all_processors callback [] s = Inr ([], s)"
| "run_on_all_processors callback (p # ps) s =
     and_then (callback p s) (\<lambda>(p', s1).
     and_then (run_on_all_processors callback ps s1) (\<lambda>(ps', s2). Inr (p' # ps', s2)))"

section \<open>The reference definition\<close>

lemma platform_ops_get_Some [simp]: "platform_ops_get (Some ops) = Inr ops"
  by (simp add: platform_ops_get_def)

lemma platform_ops_get_eq_Inr_iff [rust_simps]: "platform_ops_get PLATFORM_OPS = Inr ops \<longleftrightarrow> PLATFORM_OPS = Some ops"
  by (simp add: platform_ops_get_def rust_simps)

lemma run_on_all_nth:
  "run_on_all_processors f ps s = Inr (ps', s') \<Longrightarrow>
     length ps' = length ps \<and> (\<forall>i<length ps. \<exists>s1 s2. f (ps ! i) s1 = Inr (ps' ! i, s2))"
proof (induction ps arbitrary: s ps')
  case (Cons p ps)
  from Cons.prems obtain p' s1 qs where p': "f p s = Inr (p', s1)" and qs: "run_on_all_processors f ps s1 = Inr (qs, s')"
    and ps': "ps' = p' # qs" by (auto simp: rust_simps)
  have "\<exists>s1 s2. f ((p # ps) ! i) s1 = Inr (ps' ! i, s2)" if "i < length (p # ps)" for i
    using that Cons.IH [OF qs] p' by (cases i) (auto simp: ps')
  with Cons.IH [OF qs] show ?case by (simp add: ps')
qed simp

text \<open>A callback that leaves the static variables alone.\<close>

lemma run_on_all_pointwise:
  assumes "length qs = length ps" and "\<And>i. i < length ps \<Longrightarrow> f (ps ! i) s = Inr (qs ! i, s)"
  shows "run_on_all_processors f ps s = Inr (qs, s)"
  using assms
proof (induction qs ps rule: list_induct2)
  case (Cons q qs p ps)
  have "f p s = Inr (q, s)" using Cons.prems [of 0] by simp
  moreover have "run_on_all_processors f ps s = Inr (qs, s)" using Cons.IH Cons.prems by fastforce
  ultimately show ?case by simp
qed simp

text \<open>
  An invariant of the whole list of processors and the static variables that the callback
  keeps on whichever processor it runs, with the processors before it done and those after
  it still as they were.
\<close>

lemma run_on_all_keeps_from:
  assumes "run_on_all_processors f rest s = Inr (rest', s')" and "P (before @ rest) s"
    and "\<And>before p rest s1 p' s2. \<lbrakk>P (before @ p # rest) s1; f p s1 = Inr (p', s2)\<rbrakk> \<Longrightarrow> P (before @ p' # rest) s2"
  shows "P (before @ rest') s'"
  using assms(1,2)
proof (induction rest arbitrary: before s rest')
  case (Cons p rest)
  then obtain p' s1 qs where "f p s = Inr (p', s1)" and qs: "run_on_all_processors f rest s1 = Inr (qs, s')"
    and rest': "rest' = p' # qs" by (auto simp: rust_simps)
  from assms(3) [OF Cons.prems(2) this(1)] have "P ((before @ [p']) @ rest) s1" by simp
  from Cons.IH [OF qs this] show ?case by (simp add: rest')
qed simp

lemmas run_on_all_keeps = run_on_all_keeps_from [where before = "[]", simplified]

text \<open>An invariant of the static variables holds whenever the callback runs.\<close>

lemma run_on_all_states:
  assumes "run_on_all_processors f ps s = Inr (ps', s')" and "P s"
    and "\<And>p s1 p' s2. \<lbrakk>P s1; f p s1 = Inr (p', s2)\<rbrakk> \<Longrightarrow> P s2"
  shows "P s' \<and> (\<forall>i<length ps. \<exists>s1 s2. P s1 \<and> P s2 \<and> f (ps ! i) s1 = Inr (ps' ! i, s2))"
  using assms(1,2)
proof (induction ps arbitrary: s ps')
  case (Cons p ps)
  then obtain p' s1 qs where p': "f p s = Inr (p', s1)" and qs: "run_on_all_processors f ps s1 = Inr (qs, s')"
    and ps': "ps' = p' # qs" by (auto simp: rust_simps)
  note s1 = assms(3) [OF Cons.prems(2) p']
  show ?case using Cons.IH [OF qs s1] Cons.prems(2) p' s1 by (auto simp: ps' nth_Cons split: nat.splits)
qed simp

text \<open>The first panic of a callback is the panic of the whole run.\<close>

lemma run_on_all_panic:
  assumes "run_on_all_processors f ps s = Inl e" and "P s"
    and "\<And>p s1 p' s2. \<lbrakk>P s1; f p s1 = Inr (p', s2)\<rbrakk> \<Longrightarrow> P s2"
  shows "\<exists>p\<in>set ps. \<exists>s1. P s1 \<and> f p s1 = Inl e"
  using assms(1,2)
proof (induction ps arbitrary: s)
  case (Cons p ps)
  show ?case
  proof (cases "f p s")
    case (Inr r)
    obtain p' s1 where r: "r = (p', s1)" by (cases r)
    with Inr Cons.prems have "run_on_all_processors f ps s1 = Inl e"
      by (cases "run_on_all_processors f ps s1") auto
    from Cons.IH [OF this] assms(3) [OF Cons.prems(2)] Inr r show ?thesis by auto
  qed (use Cons.prems in auto)
qed simp

section \<open>The contract\<close>

text \<open>
  A platform with \<open>n\<close> processors: \<open>run_on_all_processors\<close> is the reference definition on every
  list of its processors.
\<close>

locale platform =
  fixes ops :: "('p, 's) platform_ops" and n :: nat
  assumes run_eq: "length ps = n \<Longrightarrow> ops_run ops callback ps s = run_on_all_processors callback ps s"
begin

lemma run_each:
  assumes "length ps = n" and "ops_run ops f ps s = Inr (ps', s')"
  shows "length ps' = n" and "i < n \<Longrightarrow> \<exists>s1 s2. f (ps ! i) s1 = Inr (ps' ! i, s2)"
  using run_on_all_nth [of f ps s ps' s'] assms run_eq by auto

lemma run_pointwise:
  assumes "length ps = n" and "\<And>i. i < n \<Longrightarrow> \<exists>q. f (ps ! i) s = Inr (q, s) \<and> Q i q"
  shows "\<exists>qs. ops_run ops f ps s = Inr (qs, s) \<and> length qs = n \<and> (\<forall>i<n. Q i (qs ! i))"
proof -
  from assms(2) obtain g where g: "\<And>i. i < n \<Longrightarrow> f (ps ! i) s = Inr (g i, s) \<and> Q i (g i)" by metis
  have "run_on_all_processors f ps s = Inr (map g [0..<n], s)"
    using assms(1) g by (intro run_on_all_pointwise) simp_all
  with g show ?thesis by (intro exI [of _ "map g [0..<n]"]) (simp add: run_eq [OF assms(1)])
qed

lemma run_keeps:
  assumes "length ps = n" and "ops_run ops f ps s = Inr (ps', s')" and "P ps s"
    and "\<And>before p rest s1 p' s2. \<lbrakk>P (before @ p # rest) s1; f p s1 = Inr (p', s2)\<rbrakk> \<Longrightarrow> P (before @ p' # rest) s2"
  shows "P ps' s'"
  using assms run_on_all_keeps [where f = f and rest = ps and s = s and rest' = ps' and s' = s' and P = P] by (simp add: run_eq)

lemma run_panic:
  assumes "length ps = n" and "ops_run ops f ps s = Inl e" and "P s"
    and "\<And>p s1 p' s2. \<lbrakk>P s1; f p s1 = Inr (p', s2)\<rbrakk> \<Longrightarrow> P s2"
  shows "\<exists>p\<in>set ps. \<exists>s1. P s1 \<and> f p s1 = Inl e"
  using assms run_on_all_panic [where f = f and ps = ps and s = s and e = e and P = P] by (simp add: run_eq)

end

end
