(* ===== verification/Apic_Id.thy ===== *)
theory Apic_Id
  imports Platform_Ops
begin

text \<open>
  Processor numbers, \<open>hypervisor/apic_id.rs\<close>: the map from APIC IDs to processor IDs that
  \<open>init\<close> fills by running a closure on every processor through the platform. The closure runs
  under the write lock of the map. \<open>cpuid!(0x1).ebx\<close> is the argument of \<open>apic_id_get\<close>.
\<close>

section \<open>Definitions\<close>

record apic_ids =
  APIC_ID_MAP :: "u8 \<rightharpoonup> nat"
  PROCESSOR_COUNT :: nat

definition apic_ids_static :: apic_ids where
  "apic_ids_static = \<lparr>APIC_ID_MAP = Map.empty, PROCESSOR_COUNT = 0\<rparr>"

definition apic_id_get :: "u32 \<Rightarrow> u8" where
  "apic_id_get cpuid_1_ebx = ucast (drop_bit 24 cpuid_1_ebx)"

text \<open>The closure of \<open>init\<close>, on the processor with the given APIC ID.\<close>

definition apic_register :: "u8 \<Rightarrow> apic_ids \<Rightarrow> apic_ids rust" where
  "apic_register apic_id st =
     (let n = PROCESSOR_COUNT st;
          st' = \<lparr>APIC_ID_MAP = (APIC_ID_MAP st)(apic_id \<mapsto> n), PROCESSOR_COUNT = n + 1\<rparr>
      in and_then (assert_that (APIC_ID_MAP st apic_id = None) ''insert().is_none()'') (\<lambda>_. Inr st'))"

text \<open>
  \<open>init\<close>. The function \<open>get\<close> is \<open>apic_id::get\<close> on a processor; \<open>h\<close> are the static variables that the
  closure does not touch.
\<close>

definition apic_init_closure :: "('p \<Rightarrow> u8) \<Rightarrow> ('p, apic_ids \<times> 'h) callback" where
  "apic_init_closure get p st =
     (case st of (ids, h) \<Rightarrow> and_then (apic_register (get p) ids) (\<lambda>ids'. Inr (p, ids', h)))"

definition apic_id_init ::
  "('p \<Rightarrow> u8) \<Rightarrow> ('p, apic_ids \<times> 'h) platform_ops option \<Rightarrow> 'p list \<Rightarrow> apic_ids \<times> 'h \<Rightarrow> ('p list \<times> apic_ids \<times> 'h) rust" where
  "apic_id_init get PLATFORM_OPS ps st =
     and_then (assert_that (PROCESSOR_COUNT (fst st) = 0) ''PROCESSOR_COUNT == 0'') (\<lambda>_.
     and_then (platform_ops_get PLATFORM_OPS) (\<lambda>ops.
     ops_run ops (apic_init_closure get) ps st))"

definition processor_id_from :: "u8 \<Rightarrow> apic_ids \<Rightarrow> nat option" where
  "processor_id_from apic_id st = APIC_ID_MAP st apic_id"

section \<open>Properties\<close>

text \<open>The processors registered so far, in order.\<close>

definition registered :: "u8 list \<Rightarrow> apic_ids \<Rightarrow> bool" where
  "registered xs st \<longleftrightarrow> distinct xs \<and> PROCESSOR_COUNT st = length xs
     \<and> (\<forall>a n. APIC_ID_MAP st a = Some n \<longleftrightarrow> n < length xs \<and> xs ! n = a)"

lemma registered_dom: "registered xs st \<Longrightarrow> APIC_ID_MAP st a = None \<longleftrightarrow> a \<notin> set xs"
proof -
  assume r: "registered xs st"
  have "a \<in> set xs \<longleftrightarrow> (\<exists>n. APIC_ID_MAP st a = Some n)"
    using r by (auto simp: registered_def in_set_conv_nth)
  then show ?thesis by auto
qed

lemma apic_register_cases:
  assumes "registered xs st"
  shows "if a \<in> set xs then \<exists>p. apic_register a st = Inl p
         else \<exists>st'. apic_register a st = Inr st' \<and> registered (xs @ [a]) st'"
proof (cases "a \<in> set xs")
  case True
  then show ?thesis
    using registered_dom [OF assms, of a] by (auto simp: apic_register_def assert_that_def Let_def)
next
  case False
  let ?st = "\<lparr>APIC_ID_MAP = (APIC_ID_MAP st)(a \<mapsto> length xs), PROCESSOR_COUNT = length xs + 1\<rparr>"
  have "apic_register a st = Inr ?st"
    using False assms registered_dom [OF assms, of a] by (simp add: apic_register_def registered_def Let_def)
  moreover have "registered (xs @ [a]) ?st"
    using assms False by (auto simp: registered_def nth_append less_Suc_eq)
  ultimately show ?thesis using False by simp
qed

text \<open>The registrations in sequence.\<close>

fun apic_register_all :: "u8 list \<Rightarrow> apic_ids \<Rightarrow> apic_ids rust" where
  "apic_register_all [] st = Inr st"
| "apic_register_all (apic_id # rest) st = and_then (apic_register apic_id st) (apic_register_all rest)"

lemma apic_init_run:
  "run_on_all_processors (apic_init_closure get) ps (ids, h) =
     and_then (apic_register_all (map get ps) ids) (\<lambda>ids'. Inr (ps, ids', h))"
  by (induction ps arbitrary: ids) (auto simp: apic_init_closure_def and_then_def split: sum.splits)

lemma apic_register_all_cases:
  "registered xs st \<Longrightarrow> if distinct (xs @ ys) then \<exists>st'. apic_register_all ys st = Inr st' \<and> registered (xs @ ys) st'
     else \<exists>p. apic_register_all ys st = Inl p"
proof (induction ys arbitrary: xs st)
  case Nil
  then show ?case by (auto simp: registered_def)
next
  case (Cons y ys)
  show ?case
  proof (cases "y \<in> set xs")
    case True
    then show ?thesis using apic_register_cases [OF Cons.prems, of y] by auto
  next
    case False
    then obtain st' where st': "apic_register y st = Inr st'" "registered (xs @ [y]) st'"
      using apic_register_cases [OF Cons.prems, of y] by auto
    then show ?thesis using Cons.IH [OF st'(2), unfolded append_assoc append.simps] by auto
  qed
qed

text \<open>
  \<open>apic_id::init\<close> succeeds exactly when the APIC IDs of the processors are distinct, and
  then numbers the processors in the order they ran: \<open>processor_id_from\<close> gives the position
  of an APIC ID and nothing for an unknown one, so it is a bijection onto
  \<open>0 ..< PROCESSOR_COUNT\<close>. Otherwise it panics.
\<close>

lemma registered_static: "registered [] apic_ids_static"
  by (simp add: registered_def apic_ids_static_def)

lemma apic_id_init_cases:
  assumes "platform ops (length ps)" and "registered [] ids"
  shows "if distinct (map get ps)
     then \<exists>ids'. apic_id_init get (Some ops) ps (ids, h) = Inr (ps, ids', h) \<and> registered (map get ps) ids'
     else \<exists>p. apic_id_init get (Some ops) ps (ids, h) = Inl p"
  using apic_register_all_cases [OF assms(2), of "map get ps"] assms(2)
  by (auto simp: apic_id_init_def platform.run_eq [OF assms(1)] apic_init_run registered_def)

lemma registered_nth:
  assumes "registered xs ids" and "i < length xs"
  shows "processor_id_from (xs ! i) ids = Some i"
  using assms by (auto simp: registered_def processor_id_from_def)

lemma registered_single: "registered [a] ids \<longleftrightarrow> ids = \<lparr>APIC_ID_MAP = [a \<mapsto> 0], PROCESSOR_COUNT = 1\<rparr>"
proof
  assume r: "registered [a] ids"
  then have m: "APIC_ID_MAP ids b = Some n \<longleftrightarrow> n = 0 \<and> b = a" for b n
    unfolding registered_def by auto
  have "APIC_ID_MAP ids b = [a \<mapsto> 0] b" for b
    using m [of b 0] m [of b] by (cases "APIC_ID_MAP ids b") auto
  with r show "ids = \<lparr>APIC_ID_MAP = [a \<mapsto> 0], PROCESSOR_COUNT = 1\<rparr>"
    by (cases ids) (auto simp: registered_def)
qed (auto simp: registered_def)

lemma apic_id_init_Inr:
  assumes "apic_id_init get (Some ops) ps (ids, h) = Inr (ps', ids', h')" and "platform ops (length ps)" and "registered [] ids"
  shows "ps' = ps \<and> h' = h \<and> registered (map get ps) ids'"
  using apic_id_init_cases [OF assms(2,3), of get h] assms(1) by (auto split: if_splits)

lemma apic_id_init_same:
  assumes "apic_id_init get (Some ops) ps (ids, h) = Inr (ps', ids', h')" and "platform ops (length ps)"
  shows "ps' = ps \<and> h' = h"
  using assms(1) by (auto simp: apic_id_init_def platform.run_eq [OF assms(2)] apic_init_run rust_simps)

lemma apic_id_init_counted:
  assumes "PROCESSOR_COUNT (fst st) \<noteq> 0"
  shows "apic_id_init get PLATFORM_OPS ps st = Inl (AssertFailed ''PROCESSOR_COUNT == 0'')"
  using assms by (simp add: apic_id_init_def assert_that_def)

lemma apic_register_all_panic:
  "apic_register_all ys st = Inl e \<Longrightarrow> e = AssertFailed ''insert().is_none()''"
proof (induction ys arbitrary: st)
  case (Cons y ys)
  then show ?case
    by (cases "apic_register y st") (auto simp: apic_register_def assert_that_def Let_def split: if_splits)
qed simp

lemma apic_id_init_panic:
  assumes "apic_id_init get (Some ops) ps (ids, h) = Inl e" and "platform ops (length ps)" and "PROCESSOR_COUNT ids = 0"
  shows "e = AssertFailed ''insert().is_none()''"
  using assms(1,3) apic_register_all_panic [of "map get ps" ids e]
  by (cases "apic_register_all (map get ps) ids") (auto simp: apic_id_init_def platform.run_eq [OF assms(2)] apic_init_run)

end
