(* ===== verification/Host.thy ===== *)
theory Host
  imports Machine Apic_Id
begin

unbundle bit_operations_syntax

text \<open>
  The architecture agnostic host, \<open>hypervisor/host.rs\<close> and the hypercall number of
  \<open>hypervisor/hypercall.rs\<close>. The traits \<open>Extension\<close> and \<open>Guest\<close> are the record
  \<open>architecture\<close> of their functions, over the types of the extension, the guest and the
  machine; \<open>Guest::regs\<close>, which returns a mutable reference, is the pair \<open>regs\<close> and \<open>set_regs\<close>.
  What the processor does while the guest runs is not code of the hypervisor: \<open>run\<close> takes
  it as an argument, the \<open>event\<close>, and the endless loop of \<open>virtualize_core\<close> is a recursion
  over the sequence of events. CPUID is the parameter \<open>cpuid\<close>, and \<open>xcr0_all\<close> the set of
  bits that \<open>Xcr0::from_bits\<close> of the \<open>x86\<close> crate knows.
\<close>

section \<open>Definitions\<close>

record cpuid_result =
  eax :: u32
  ebx :: u32
  ecx :: u32
  edx :: u32

type_synonym cpuid_fun = "u32 \<Rightarrow> u32 \<Rightarrow> cpuid_result"

definition HV_CPUID_VENDOR_AND_MAX_FUNCTIONS :: u32 where "HV_CPUID_VENDOR_AND_MAX_FUNCTIONS = 0x40000000"
definition HV_CPUID_INTERFACE :: u32 where "HV_CPUID_INTERFACE = 0x40000001"

text \<open>\<open>u32::from_ne_bytes\<close> on the little-endian x86.\<close>

definition from_ne_bytes :: "u8 list \<Rightarrow> u32" where
  "from_ne_bytes bs = foldr (\<lambda>b acc. ucast b OR push_bit 8 acc) bs 0"

definition byte_string :: "string \<Rightarrow> u8 list" where
  "byte_string s = map of_char s"

definition OUR_HV_VENDOR_NAME_EBX :: u32 where "OUR_HV_VENDOR_NAME_EBX = from_ne_bytes (byte_string ''Bare'')"
definition OUR_HV_VENDOR_NAME_ECX :: u32 where "OUR_HV_VENDOR_NAME_ECX = from_ne_bytes (byte_string ''viso'')"
definition OUR_HV_VENDOR_NAME_EDX :: u32 where "OUR_HV_VENDOR_NAME_EDX = from_ne_bytes (byte_string ''r!  '')"

definition is_our_hypervisor_present :: "cpuid_fun \<Rightarrow> bool" where
  "is_our_hypervisor_present cpuid =
     (let r = cpuid HV_CPUID_VENDOR_AND_MAX_FUNCTIONS 0
      in ebx r = OUR_HV_VENDOR_NAME_EBX \<and> ecx r = OUR_HV_VENDOR_NAME_ECX \<and> edx r = OUR_HV_VENDOR_NAME_EDX)"

definition DEVIRTUALIZE :: u64 where "DEVIRTUALIZE = 0"

record InstructionInfo =
  next_rip :: u64

datatype VmExitReason =
    Cpuid InstructionInfo
  | Rdmsr InstructionInfo
  | Wrmsr InstructionInfo
  | XSetBv InstructionInfo
  | VmCall InstructionInfo
  | InitSignal
  | StartupIpi
  | NestedPageFault

record ('v, 'g, 'ev, 'm) architecture =
  ext_default :: "'m machine_scheme \<Rightarrow> 'v"
  enable :: "'v \<Rightarrow> 'm machine_scheme \<Rightarrow> ('v \<times> 'm machine_scheme) rust"
  disable :: "'v \<Rightarrow> 'm machine_scheme \<Rightarrow> ('v \<times> 'm machine_scheme) rust"
  guest_new :: "nat \<Rightarrow> 'm machine_scheme \<Rightarrow> ('g \<times> 'm machine_scheme) rust"
  activate :: "'g \<Rightarrow> 'm machine_scheme \<Rightarrow> ('g \<times> 'm machine_scheme) rust"
  initialize :: "registers \<Rightarrow> 'g \<Rightarrow> 'm machine_scheme \<Rightarrow> ('g \<times> 'm machine_scheme) rust"
  run :: "'ev \<Rightarrow> 'g \<Rightarrow> 'm machine_scheme \<Rightarrow> (VmExitReason \<times> 'g \<times> 'm machine_scheme) rust"
  deactivate :: "'g \<Rightarrow> 'm machine_scheme \<Rightarrow> ('g \<times> 'm machine_scheme) rust"
  load_guest_cpu_state :: "'g \<Rightarrow> 'm machine_scheme \<Rightarrow> 'm machine_scheme rust"
  regs :: "'g \<Rightarrow> registers"
  set_regs :: "registers \<Rightarrow> 'g \<Rightarrow> 'g"

subsection \<open>Handlers\<close>

text \<open>The handlers change the registers of the guest and the machine.\<close>

definition handle_vmcall :: "InstructionInfo \<Rightarrow> registers \<Rightarrow> registers" where
  "handle_vmcall info r = r\<lparr>rax := - 1, rip := next_rip info\<rparr>"

definition handle_cpuid :: "cpuid_fun \<Rightarrow> InstructionInfo \<Rightarrow> registers \<Rightarrow> registers" where
  "handle_cpuid cpuid info r =
     (let leaf = (ucast (rax r) :: u32);
          sub_leaf = (ucast (rcx r) :: u32);
          c = cpuid leaf sub_leaf;
          c' = (if leaf = 1 then c\<lparr>ecx := ecx c AND NOT (push_bit 5 1)\<rparr>
                else if leaf = HV_CPUID_VENDOR_AND_MAX_FUNCTIONS then
                  c\<lparr>ebx := OUR_HV_VENDOR_NAME_EBX, ecx := OUR_HV_VENDOR_NAME_ECX, edx := OUR_HV_VENDOR_NAME_EDX\<rparr>
                else if leaf = HV_CPUID_INTERFACE then c\<lparr>eax := 0\<rparr>
                else c)
      in r\<lparr>rax := ucast (eax c'), rbx := ucast (ebx c'), rcx := ucast (ecx c'), rdx := ucast (edx c'),
           rip := next_rip info\<rparr>)"

text \<open>The CPUID instruction as the guest sees it.\<close>

definition guest_cpuid :: "cpuid_fun \<Rightarrow> cpuid_fun" where
  "guest_cpuid cpuid leaf sub_leaf =
     (let r = handle_cpuid cpuid \<lparr>next_rip = 0\<rparr> (Registers_default\<lparr>rax := ucast leaf, rcx := ucast sub_leaf\<rparr>)
      in \<lparr>eax = ucast (rax r), ebx = ucast (rbx r), ecx = ucast (rcx r), edx = ucast (rdx r)\<rparr>)"

definition handle_rdmsr :: "InstructionInfo \<Rightarrow> registers \<Rightarrow> 'm machine_scheme \<Rightarrow> registers" where
  "handle_rdmsr info r m =
     (let msr = (ucast (rcx r) :: u32);
          value = rdmsr msr m
      in r\<lparr>rax := value AND 0xffffffff, rdx := drop_bit 32 value, rip := next_rip info\<rparr>)"

text \<open>\<open>(rax & 0xffff_ffff) | ((rdx & 0xffff_ffff) << 32)\<close>\<close>

definition edx_eax :: "registers \<Rightarrow> u64" where
  "edx_eax r = (rax r AND 0xffffffff) OR push_bit 32 (rdx r AND 0xffffffff)"

definition handle_wrmsr ::
  "InstructionInfo \<Rightarrow> registers \<Rightarrow> 'm machine_scheme \<Rightarrow> registers \<times> 'm machine_scheme" where
  "handle_wrmsr info r m =
     (let msr = (ucast (rcx r) :: u32);
          value = edx_eax r
      in (r\<lparr>rip := next_rip info\<rparr>, wrmsr msr value m))"

definition Xcr0_from_bits :: "u64 \<Rightarrow> u64 \<Rightarrow> u64 option" where
  "Xcr0_from_bits xcr0_all value = (if value AND NOT xcr0_all = 0 then Some value else None)"

definition handle_xsetbv ::
  "u64 \<Rightarrow> InstructionInfo \<Rightarrow> registers \<Rightarrow> 'm machine_scheme \<Rightarrow> (registers \<times> 'm machine_scheme) rust" where
  "handle_xsetbv xcr0_all info r m =
     (let xcr = (ucast (rcx r) :: u32) in
      and_then (unwrap ''Xcr0::from_bits'' (Xcr0_from_bits xcr0_all (edx_eax r))) (\<lambda>value.
      let m1 = cr4_write (cr4 m OR CR4_ENABLE_OS_XSAVE) m in
      and_then (xsetbv xcr value m1) (\<lambda>m2.
      Inr (r\<lparr>rip := next_rip info\<rparr>, m2))))"

subsection \<open>The host loop\<close>

text \<open>
  The processor is either still virtualized, or it was given back to the guest with the
  register values that \<open>Registers::restore\<close> loads.
\<close>

datatype ('v, 'g, 'm) host_state =
    Running 'v 'g 'm
  | Devirtualized registers 'm

definition devirtualize_processor ::
  "('v, 'g, 'ev, 'm) architecture \<Rightarrow> InstructionInfo \<Rightarrow> 'v \<Rightarrow> 'g \<Rightarrow> 'm machine_scheme
     \<Rightarrow> ('v, 'g, 'm machine_scheme) host_state rust" where
  "devirtualize_processor arch info vt guest m =
     (let guest1 = set_regs arch ((regs arch guest)\<lparr>rip := next_rip info\<rparr>) guest in
      and_then (load_guest_cpu_state arch guest1 m) (\<lambda>m1.
      and_then (deactivate arch guest1 m1) (\<lambda>(guest2, m2).
      and_then (disable arch vt m2) (\<lambda>(vt', m3).
      Inr (Devirtualized (regs arch guest2) m3)))))"

text \<open>One round of the loop: run the guest, then handle the VM-exit.\<close>

definition host_step ::
  "('v, 'g, 'ev, 'm) architecture \<Rightarrow> cpuid_fun \<Rightarrow> u64 \<Rightarrow> 'ev \<Rightarrow> 'v \<Rightarrow> 'g \<Rightarrow> 'm machine_scheme
     \<Rightarrow> ('v, 'g, 'm machine_scheme) host_state rust" where
  "host_step arch cpuid xcr0_all ev vt guest m =
     and_then (run arch ev guest m) (\<lambda>(reason, g, m1).
     let r = regs arch g in
     case reason of
       Cpuid info \<Rightarrow> Inr (Running vt (set_regs arch (handle_cpuid cpuid info r) g) m1)
     | Rdmsr info \<Rightarrow> Inr (Running vt (set_regs arch (handle_rdmsr info r m1) g) m1)
     | Wrmsr info \<Rightarrow> (case handle_wrmsr info r m1 of (r', m2) \<Rightarrow> Inr (Running vt (set_regs arch r' g) m2))
     | XSetBv info \<Rightarrow> and_then (handle_xsetbv xcr0_all info r m1) (\<lambda>(r', m2). Inr (Running vt (set_regs arch r' g) m2))
     | VmCall info \<Rightarrow>
         if rax r = DEVIRTUALIZE then devirtualize_processor arch info vt g m1
         else Inr (Running vt (set_regs arch (handle_vmcall info r) g) m1)
     | InitSignal \<Rightarrow> Inr (Running vt g m1)
     | StartupIpi \<Rightarrow> Inr (Running vt g m1)
     | NestedPageFault \<Rightarrow> Inr (Running vt g m1))"

fun host_loop ::
  "('v, 'g, 'ev, 'm) architecture \<Rightarrow> cpuid_fun \<Rightarrow> u64 \<Rightarrow> 'ev list
     \<Rightarrow> ('v, 'g, 'm machine_scheme) host_state \<Rightarrow> ('v, 'g, 'm machine_scheme) host_state rust" where
  "host_loop arch cpuid xcr0_all [] st = Inr st"
| "host_loop arch cpuid xcr0_all (ev # evs) (Devirtualized r m) = Inr (Devirtualized r m)"
| "host_loop arch cpuid xcr0_all (ev # evs) (Running vt g m) =
     and_then (host_step arch cpuid xcr0_all ev vt g m) (host_loop arch cpuid xcr0_all evs)"

definition virtualize_core ::
  "('v, 'g, 'ev, 'm) architecture \<Rightarrow> cpuid_fun \<Rightarrow> u64 \<Rightarrow> apic_ids \<Rightarrow> registers \<Rightarrow> 'ev list \<Rightarrow> 'm machine_scheme
     \<Rightarrow> ('v, 'g, 'm machine_scheme) host_state rust" where
  "virtualize_core arch cpuid xcr0_all ids registers evs m =
     and_then (enable arch (ext_default arch m) m) (\<lambda>(vt, m1).
     and_then (unwrap ''processor_id_from'' (processor_id_from (apic_id_get (ebx (cpuid 1 0))) ids)) (\<lambda>id.
     and_then (guest_new arch id m1) (\<lambda>(g, m2).
     and_then (activate arch g m2) (\<lambda>(g1, m3).
     and_then (initialize arch registers g1 m3) (\<lambda>(g2, m4).
     host_loop arch cpuid xcr0_all evs (Running vt g2 m4))))))"

text \<open>
  The presence test works across the VM-exit: in a guest whose CPUID instruction is
  emulated by \<open>handle_cpuid\<close>, \<open>is_our_hypervisor_present\<close> holds, whatever the processor
  reports.
\<close>

lemma guest_cpuid_present [simp]: "is_our_hypervisor_present (guest_cpuid cpuid)"
proof -
  have "(ucast (ucast w :: u64) :: u32) = w" for w :: u32 by (rule bit_word_eqI) (auto simp: bit_simps)
  then show ?thesis
    by (simp add: is_our_hypervisor_present_def guest_cpuid_def handle_cpuid_def Let_def
        HV_CPUID_VENDOR_AND_MAX_FUNCTIONS_def)
qed

section \<open>The contract of an architecture\<close>

text \<open>
  \<open>ready vt g m\<close> says that the processor can run and stop running the guest \<open>g\<close>. The host
  relies on these laws: the registers behave as a field of the guest, running the guest
  and the register and machine updates of the handlers keep the processor ready, and a
  ready processor can leave the virtualization extension.
\<close>

locale host_arch =
  fixes arch :: "('v, 'g, 'ev, 'm) architecture"
    and ready :: "'v \<Rightarrow> 'g \<Rightarrow> 'm machine_scheme \<Rightarrow> bool"
  assumes regs_set_regs [simp]: "regs arch (set_regs arch r g) = r"
    and run_ready: "ready vt g m \<Longrightarrow> run arch ev g m = Inr (reason, g', m') \<Longrightarrow> ready vt g' m'"
    and ready_set_regs: "ready vt g m \<Longrightarrow> ready vt (set_regs arch r g) m"
    and ready_wrmsr: "ready vt g m \<Longrightarrow> ready vt g (wrmsr msr v m)"
    and ready_xsetbv: "ready vt g m \<Longrightarrow> ready vt g (m\<lparr>cr4_reg := a, xcr0_reg := b\<rparr>)"
    and leave: "ready vt g m \<Longrightarrow> \<exists>m1 g2 m2 vt' m3. load_guest_cpu_state arch g m = Inr m1
        \<and> deactivate arch g m1 = Inr (g2, m2) \<and> regs arch g2 = regs arch g \<and> disable arch vt m2 = Inr (vt', m3)"
begin

lemma devirtualize_total:
  assumes "ready vt g m"
  shows "\<exists>m'. devirtualize_processor arch info vt g m = Inr (Devirtualized ((regs arch g)\<lparr>rip := next_rip info\<rparr>) m')"
proof -
  let ?g = "set_regs arch ((regs arch g)\<lparr>rip := next_rip info\<rparr>) g"
  from leave [OF ready_set_regs [OF assms], of "(regs arch g)\<lparr>rip := next_rip info\<rparr>"] obtain m1 g2 m2 vt' m3
    where "load_guest_cpu_state arch ?g m = Inr m1" "deactivate arch ?g m1 = Inr (g2, m2)"
      "regs arch g2 = regs arch ?g" "disable arch vt m2 = Inr (vt', m3)" by blast
  then show ?thesis by (simp add: devirtualize_processor_def Let_def)
qed

lemma xsetbv_ready:
  "ready vt g m \<Longrightarrow> handle_xsetbv xcr0_all info r m = Inr (r', m') \<Longrightarrow> ready vt g m'"
  using ready_xsetbv by (auto simp: handle_xsetbv_def Let_def xsetbv_def rust_simps machine_simps)

lemma step_ready:
  assumes "ready vt g m" and "host_step arch cpuid xcr0_all ev vt g m = Inr (Running vt' g' m')"
  shows "vt' = vt \<and> ready vt g' m'"
proof -
  from assms(2) obtain reason g1 m1 where r: "run arch ev g m = Inr (reason, g1, m1)"
    by (auto simp: host_step_def rust_simps)
  note ok = run_ready [OF assms(1) r]
  have "devirtualize_processor arch info vt g1 m1 \<noteq> Inr (Running vt' g' m')" for info
    by (auto simp: devirtualize_processor_def Let_def rust_simps)
  with assms(2) r ok show ?thesis
    by (cases reason)
      (auto simp: host_step_def Let_def handle_wrmsr_def rust_simps
        intro: ready_set_regs ready_wrmsr xsetbv_ready split: if_splits)
qed

lemma loop_ready:
  "host_loop arch cpuid xcr0_all evs (Running vt g m) = Inr (Running vt' g' m') \<Longrightarrow> ready vt g m \<Longrightarrow>
     vt' = vt \<and> ready vt g' m'"
proof (induction evs arbitrary: g m)
  case (Cons ev evs)
  from Cons.prems(1) obtain st where st: "host_step arch cpuid xcr0_all ev vt g m = Inr st"
    and l: "host_loop arch cpuid xcr0_all evs st = Inr (Running vt' g' m')" by (auto simp: rust_simps)
  show ?case
  proof (cases st)
    case (Running vt1 g1 m1)
    with step_ready [OF Cons.prems(2)] st have "vt1 = vt" "ready vt g1 m1" by auto
    with Cons.IH [of g1 m1] l Running show ?thesis by simp
  next
    case (Devirtualized r mm)
    with l show ?thesis by (cases evs) simp_all
  qed
qed simp

text \<open>The only VM-exit whose handler can panic is the one for XSETBV.\<close>

lemma step_total:
  assumes "ready vt g m" and "run arch ev g m = Inr (reason, g1, m1)" and "\<forall>info. reason \<noteq> XSetBv info"
  shows "\<exists>st. host_step arch cpuid xcr0_all ev vt g m = Inr st"
proof -
  from devirtualize_total [OF run_ready [OF assms(1,2)]]
  have "\<exists>st. devirtualize_processor arch info vt g1 m1 = Inr st" for info by blast
  with assms(2,3) show ?thesis by (cases reason) (auto simp: host_step_def Let_def handle_wrmsr_def)
qed

text \<open>The hypercall: a ready processor is given back.\<close>

lemma devirtualize_call:
  assumes "ready vt g m" and "run arch ev g m = Inr (VmCall info, g1, m1)" and "rax (regs arch g1) = DEVIRTUALIZE"
  shows "\<exists>r m'. host_step arch cpuid xcr0_all ev vt g m = Inr (Devirtualized r m')"
  using devirtualize_total [OF run_ready [OF assms(1,2)], of info] assms(2,3) by (auto simp: host_step_def)

end

section \<open>Properties\<close>

text \<open>
  C21. The CPUID exit is emulated as documented: the four result registers are the
  zero-extended processor's values, except that leaf 1 never shows VMX (bit 5 of ECX),
  the hypervisor leaf shows our vendor name, and the interface leaf shows no interface in
  EAX; RIP moves behind the instruction and no other register changes.
\<close>

theorem handle_cpuid_spec:
  assumes "leaf = ucast (rax r)" and "c = cpuid leaf (ucast (rcx r))" and "r' = handle_cpuid cpuid info r"
  shows "r' = r\<lparr>rax := rax r', rbx := rbx r', rcx := rcx r', rdx := rdx r', rip := next_rip info\<rparr>
       \<and> rax r' = (if leaf = 0x40000001 then 0 else ucast (eax c))
       \<and> (leaf = 0x40000000 \<or> rbx r' = ucast (ebx c) \<and> rdx r' = ucast (edx c)
            \<and> (\<forall>n. bit (rcx r') n \<longleftrightarrow> bit (ecx c) n \<and> \<not> (leaf = 1 \<and> n = 5)))
       \<and> (leaf = 0x40000000 \<longrightarrow> rbx r' = 0x65726142 \<and> rcx r' = 0x6f736976 \<and> rdx r' = 0x20202172)"
proof -
  have names: "OUR_HV_VENDOR_NAME_EBX = 0x65726142" "OUR_HV_VENDOR_NAME_ECX = 0x6f736976" "OUR_HV_VENDOR_NAME_EDX = 0x20202172"
    by (simp_all add: OUR_HV_VENDOR_NAME_EBX_def OUR_HV_VENDOR_NAME_ECX_def OUR_HV_VENDOR_NAME_EDX_def
        from_ne_bytes_def byte_string_def)
  have ucast_bit: "bit (ucast w :: u64) n \<longleftrightarrow> bit w n" for w :: u32 and n
    by (auto simp: bit_simps dest: bit_imp_le_length)
  have clear: "bit (unset_bit 5 w) n \<longleftrightarrow> bit w n \<and> n \<noteq> 5" for w :: u32 and n
    by (auto simp: bit_unset_bit_iff)
  show ?thesis
    unfolding assms handle_cpuid_def Let_def HV_CPUID_VENDOR_AND_MAX_FUNCTIONS_def HV_CPUID_INTERFACE_def names
      unset_bit_eq_and_not [symmetric]
    by (simp add: ucast_bit clear)
qed


theorem handle_cpuid_spec_witness:
  "let r' = handle_cpuid (\<lambda>leaf sub. \<lparr>eax = 0x40000005, ebx = 1, ecx = 2, edx = 3\<rparr>) \<lparr>next_rip = 0x1002\<rparr>
              (Registers_default\<lparr>rax := 0x40000000, rip := 0x1000\<rparr>)
   in rax r' = 0x40000005 \<and> rbx r' = 0x65726142 \<and> rcx r' = 0x6f736976 \<and> rdx r' = 0x20202172"
  using handle_cpuid_spec [OF refl refl refl, where r = "Registers_default\<lparr>rax := 0x40000000, rip := 0x1000\<rparr>"
      and cpuid = "\<lambda>leaf sub. \<lparr>eax = 0x40000005, ebx = 1, ecx = 2, edx = 3\<rparr>" and info = "\<lparr>next_rip = 0x1002\<rparr>"]
  by simp

text \<open>
  WRMSR and RDMSR exits are passed through without loss: a guest that writes a 64-bit
  value as EDX:EAX and then reads the same MSR gets the two halves back in the low words
  of RDX and RAX, and no other MSR changes.
\<close>

lemma msr_roundtrip:
  assumes "handle_wrmsr winfo r m = (r1, m1)" and "ucast (rcx r2) = (ucast (rcx r) :: u32)"
  shows "rax (handle_rdmsr rinfo r2 m1) = take_bit 32 (rax r)
       \<and> rdx (handle_rdmsr rinfo r2 m1) = take_bit 32 (rdx r)
       \<and> (\<forall>k. k \<noteq> ucast (rcx r) \<longrightarrow> rdmsr k m1 = rdmsr k m)
       \<and> r1 = r\<lparr>rip := next_rip winfo\<rparr>"
proof -
  from assms(1) have m1: "m1 = wrmsr (ucast (rcx r)) (edx_eax r) m" and r1: "r1 = r\<lparr>rip := next_rip winfo\<rparr>"
    by (simp_all add: handle_wrmsr_def Let_def)
  have "take_bit 32 (edx_eax r) = take_bit 32 (rax r)" "drop_bit 32 (edx_eax r) = take_bit 32 (rdx r)"
    unfolding edx_eax_def and_low_masks by (rule bit_word_eqI, auto simp: bit_simps)+
  with r1 show ?thesis
    by (simp add: handle_rdmsr_def Let_def m1 assms(2) and_low_masks machine_simps)
qed

lemma msr_roundtrip_example:
  "\<exists>r1 m1. handle_wrmsr \<lparr>next_rip = 2\<rparr> (Registers_default\<lparr>rcx := 0x40000070, rax := 0x1234, rdx := 0x5678\<rparr>)
       (blank_machine (\<lambda>_. 0) (\<lambda>_. 0) ()) = (r1, m1)
     \<and> rax (handle_rdmsr \<lparr>next_rip = 4\<rparr> r1 m1) = 0x1234 \<and> rdx (handle_rdmsr \<lparr>next_rip = 4\<rparr> r1 m1) = 0x5678"
proof -
  let ?r = "Registers_default\<lparr>rcx := 0x40000070, rax := 0x1234, rdx := 0x5678\<rparr>"
  obtain r1 m1 where h: "handle_wrmsr \<lparr>next_rip = 2\<rparr> ?r (blank_machine (\<lambda>_. 0) (\<lambda>_. 0) ()) = (r1, m1)"
    by fastforce
  then have c: "ucast (rcx r1) = (ucast (rcx ?r) :: u32)" by (auto simp: handle_wrmsr_def Let_def)
  from msr_roundtrip [OF h c, of "\<lparr>next_rip = 4\<rparr>"]
  have "rax (handle_rdmsr \<lparr>next_rip = 4\<rparr> r1 m1) = take_bit 32 (rax ?r)
      \<and> rdx (handle_rdmsr \<lparr>next_rip = 4\<rparr> r1 m1) = take_bit 32 (rdx ?r)" by blast
  then have "rax (handle_rdmsr \<lparr>next_rip = 4\<rparr> r1 m1) = 0x1234 \<and> rdx (handle_rdmsr \<lparr>next_rip = 4\<rparr> r1 m1) = 0x5678"
    by simp
  with h show ?thesis by blast
qed

text \<open>
  The XSETBV exit: a write of a value with only known bits to XCR0 sets XCR0 and
  CR4.OSXSAVE of the processor and moves RIP; any other register number or an unknown bit
  panics the host.
\<close>

lemma handle_xsetbv_spec:
  "handle_xsetbv xcr0_all info r m =
     (if edx_eax r AND NOT xcr0_all \<noteq> 0 then Inl (UnwrapFailed ''Xcr0::from_bits'')
      else if (ucast (rcx r) :: u32) \<noteq> 0 then Inl (AssertFailed ''xcr == 0'')
      else Inr (r\<lparr>rip := next_rip info\<rparr>, m\<lparr>cr4_reg := cr4_reg m OR 0x40000, xcr0_reg := edx_eax r\<rparr>))"
  by (simp add: handle_xsetbv_def Xcr0_from_bits_def xsetbv_def assert_that_def Let_def machine_simps)

end
