(* ===== verification/Vmx.thy ===== *)
theory Vmx
  imports Host
begin

unbundle bit_operations_syntax

text \<open>
  Enabling and disabling Intel VMX, \<open>hypervisor/intel/vmx.rs\<close>, with the adjustment of CR0
  and CR4 from \<open>intel/guest.rs\<close>, and the VMX instructions that the wrappers of both files
  execute. The machine is extended with the state of VMX operation: the physical address
  given to VMXON, the current VMCS, and the fields and launch states of the VMCSs by
  physical address. An instruction gives \<open>None\<close> where the manuals let it fail (or fault);
  the wrappers turn that into the panic of their \<open>unwrap\<close>.
\<close>

section \<open>The machine with VMX\<close>

type_synonym vmcs_fields = "u32 \<Rightarrow> u64"

record vmx_machine = machine +
  vmxon_ptr :: "u64 option"
  current_vmcs :: "u64 option"
  vmcs_fields :: "u64 \<Rightarrow> vmcs_fields"
  vmcs_launched :: "u64 \<Rightarrow> bool"

text \<open>A VMXON or VMCS region: the virtual address of the box and the field \<open>revision_id\<close>.\<close>

record vmx_region =
  region_va :: u64
  revision_id :: u32

definition aligned_4k :: "u64 \<Rightarrow> bool" where
  "aligned_4k pa \<longleftrightarrow> take_bit 12 pa = 0"

text \<open>CR0 or CR4 has the bits that the FIXED0 and FIXED1 MSRs ask for.\<close>

definition fixed_ok :: "u64 \<Rightarrow> u64 \<Rightarrow> u64 \<Rightarrow> bool" where
  "fixed_ok fixed0 fixed1 v \<longleftrightarrow> fixed0 AND v = fixed0 \<and> v AND fixed1 = v"

definition revision_ok :: "u32 \<Rightarrow> vmx_machine \<Rightarrow> bool" where
  "revision_ok ident m \<longleftrightarrow> ident = take_bit 31 (ucast (rdmsr IA32_VMX_BASIC m))"

definition vmxon_instr :: "u64 \<Rightarrow> u32 \<Rightarrow> vmx_machine \<Rightarrow> vmx_machine option" where
  "vmxon_instr pa ident m =
     (if vmxon_ptr m = None \<and> bit (cr4 m) 13
         \<and> fixed_ok (rdmsr IA32_VMX_CR0_FIXED0 m) (rdmsr IA32_VMX_CR0_FIXED1 m) (cr0 m)
         \<and> fixed_ok (rdmsr IA32_VMX_CR4_FIXED0 m) (rdmsr IA32_VMX_CR4_FIXED1 m) (cr4 m)
         \<and> bit (rdmsr IA32_FEATURE_CONTROL m) 0 \<and> bit (rdmsr IA32_FEATURE_CONTROL m) 2
         \<and> aligned_4k pa \<and> revision_ok ident m
      then Some (m\<lparr>vmxon_ptr := Some pa, current_vmcs := None\<rparr>) else None)"

definition vmxoff_instr :: "vmx_machine \<Rightarrow> vmx_machine option" where
  "vmxoff_instr m = (if vmxon_ptr m = None then None else Some (m\<lparr>vmxon_ptr := None, current_vmcs := None\<rparr>))"

definition vmclear_instr :: "u64 \<Rightarrow> vmx_machine \<Rightarrow> vmx_machine option" where
  "vmclear_instr pa m =
     (if vmxon_ptr m \<noteq> None \<and> aligned_4k pa \<and> vmxon_ptr m \<noteq> Some pa
      then Some (m\<lparr>vmcs_launched := (vmcs_launched m)(pa := False),
                   current_vmcs := (if current_vmcs m = Some pa then None else current_vmcs m)\<rparr>)
      else None)"

definition vmptrld_instr :: "u64 \<Rightarrow> u32 \<Rightarrow> vmx_machine \<Rightarrow> vmx_machine option" where
  "vmptrld_instr pa ident m =
     (if vmxon_ptr m \<noteq> None \<and> aligned_4k pa \<and> vmxon_ptr m \<noteq> Some pa \<and> revision_ok ident m
      then Some (m\<lparr>current_vmcs := Some pa\<rparr>) else None)"

definition vmread_instr :: "u32 \<Rightarrow> vmx_machine \<Rightarrow> u64 option" where
  "vmread_instr f m =
     (if vmxon_ptr m = None then None else map_option (\<lambda>pa. vmcs_fields m pa f) (current_vmcs m))"

definition vmwrite_instr :: "u32 \<Rightarrow> u64 \<Rightarrow> vmx_machine \<Rightarrow> vmx_machine option" where
  "vmwrite_instr f v m =
     (if vmxon_ptr m = None then None
      else map_option (\<lambda>pa. m\<lparr>vmcs_fields := (vmcs_fields m)(pa := (vmcs_fields m pa)(f := v))\<rparr>) (current_vmcs m))"

section \<open>Definitions\<close>

definition get_adjusted_cr0 :: "u64 \<Rightarrow> 'm machine_scheme \<Rightarrow> u64" where
  "get_adjusted_cr0 c m =
     (let fixed0 = rdmsr IA32_VMX_CR0_FIXED0 m; fixed1 = rdmsr IA32_VMX_CR0_FIXED1 m in (c AND fixed1) OR fixed0)"

definition get_adjusted_cr4 :: "u64 \<Rightarrow> 'm machine_scheme \<Rightarrow> u64" where
  "get_adjusted_cr4 c m =
     (let fixed0 = rdmsr IA32_VMX_CR4_FIXED0 m; fixed1 = rdmsr IA32_VMX_CR4_FIXED1 m in (c AND fixed1) OR fixed0)"

record Vmx =
  vmxon_region :: vmx_region
  vmx_cr4 :: u64

text \<open>\<open>va\<close> is the address of the zeroed box.\<close>

definition Vmxon_default :: "u64 \<Rightarrow> 'm machine_scheme \<Rightarrow> vmx_region" where [simp]:
  "Vmxon_default va m = \<lparr>region_va = va, revision_id = ucast (rdmsr IA32_VMX_BASIC m)\<rparr>"

definition Vmx_default :: "u64 \<Rightarrow> 'm machine_scheme \<Rightarrow> Vmx" where
  "Vmx_default va m = \<lparr>vmxon_region = Vmxon_default va m, vmx_cr4 = 0\<rparr>"

definition update_feature_control_msr :: "'m machine_scheme \<Rightarrow> 'm machine_scheme" where
  "update_feature_control_msr m =
     (let feature_control = rdmsr IA32_FEATURE_CONTROL m in
      if feature_control AND push_bit 0 1 = 0
      then wrmsr IA32_FEATURE_CONTROL (feature_control OR push_bit 2 1 OR push_bit 0 1) m
      else m)"

definition vmxon :: "(u64 \<Rightarrow> u64) \<Rightarrow> vmx_region \<Rightarrow> vmx_machine \<Rightarrow> vmx_machine rust" where
  "vmxon pa_of reg m =
     (let va = region_va reg; pa = pa_of va in unwrap ''vmxon'' (vmxon_instr pa (revision_id reg) m))"

definition vmxoff :: "vmx_machine \<Rightarrow> vmx_machine rust" where
  "vmxoff m = unwrap ''vmxoff'' (vmxoff_instr m)"

definition Vmx_enable :: "(u64 \<Rightarrow> u64) \<Rightarrow> Vmx \<Rightarrow> vmx_machine \<Rightarrow> (Vmx \<times> vmx_machine) rust" where
  "Vmx_enable pa_of vt m =
     (let current_cr0 = cr0 m;
          current_cr4 = cr4 m;
          vt' = vt\<lparr>vmx_cr4 := current_cr4\<rparr>;
          new_cr4 = get_adjusted_cr4 current_cr4 m;
          new_cr0 = get_adjusted_cr0 current_cr0 m;
          m1 = cr0_write new_cr0 m;
          m2 = cr4_write new_cr4 m1;
          m3 = update_feature_control_msr m2
      in and_then (vmxon pa_of (vmxon_region vt') m3) (\<lambda>m4. Inr (vt', m4)))"

definition Vmx_disable :: "Vmx \<Rightarrow> vmx_machine \<Rightarrow> (Vmx \<times> vmx_machine) rust" where
  "Vmx_disable vt m = and_then (vmxoff m) (\<lambda>m1. Inr (vt, m1))"

section \<open>Properties\<close>

lemma adjusted_fixed_ok:
  "f0 AND f1 = f0 \<Longrightarrow> fixed_ok f0 f1 ((c AND f1) OR f0)"
  unfolding fixed_ok_def by (auto simp: bit_eq_iff bit_and_iff bit_or_iff)

lemma adjusted_flexible:
  "\<not> bit f0 n \<Longrightarrow> bit f1 n \<Longrightarrow> bit ((c AND f1) OR f0) n = bit c n"
  by (simp add: bit_simps)

text \<open>
  C38. On a processor whose fixed bits are consistent and include VMXE, \<open>enable\<close> brings the
  processor into VMX operation unless the firmware has locked VMX off: VMXON succeeds
  exactly when the feature control MSR is unlocked or has the VMX bit set. CR0 and CR4
  then satisfy the fixed bits and keep the bits that are flexible, and the feature
  control MSR is locked with VMX allowed.
\<close>

theorem vmx_enable_outcome:
  assumes "rdmsr IA32_VMX_CR0_FIXED0 m AND rdmsr IA32_VMX_CR0_FIXED1 m = rdmsr IA32_VMX_CR0_FIXED0 m"
    and "rdmsr IA32_VMX_CR4_FIXED0 m AND rdmsr IA32_VMX_CR4_FIXED1 m = rdmsr IA32_VMX_CR4_FIXED0 m"
    and "bit (rdmsr IA32_VMX_CR4_FIXED0 m) 13" and "\<not> bit (rdmsr IA32_VMX_BASIC m) 31"
    and "vmxon_ptr m = None" and "aligned_4k (pa_of va)"
  shows "if bit (rdmsr IA32_FEATURE_CONTROL m) 0 \<and> \<not> bit (rdmsr IA32_FEATURE_CONTROL m) 2
         then Vmx_enable pa_of (Vmx_default va m) m = Inl (UnwrapFailed ''vmxon'')
         else \<exists>vt m'. Vmx_enable pa_of (Vmx_default va m) m = Inr (vt, m') \<and> vmxon_ptr m' = Some (pa_of va)
            \<and> fixed_ok (rdmsr IA32_VMX_CR0_FIXED0 m) (rdmsr IA32_VMX_CR0_FIXED1 m) (cr0 m')
            \<and> fixed_ok (rdmsr IA32_VMX_CR4_FIXED0 m) (rdmsr IA32_VMX_CR4_FIXED1 m) (cr4 m')
            \<and> (\<forall>n. \<not> bit (rdmsr IA32_VMX_CR0_FIXED0 m) n \<and> bit (rdmsr IA32_VMX_CR0_FIXED1 m) n \<longrightarrow> bit (cr0 m') n = bit (cr0 m) n)
            \<and> bit (rdmsr IA32_FEATURE_CONTROL m') 0 \<and> bit (rdmsr IA32_FEATURE_CONTROL m') 2"
proof -
  define m3 where "m3 = update_feature_control_msr (cr4_write (get_adjusted_cr4 (cr4 m) m) (cr0_write (get_adjusted_cr0 (cr0 m) m) m))"
  have unlocked: "feature_control AND push_bit 0 1 = 0 \<longleftrightarrow> \<not> bit feature_control 0" for feature_control :: u64
    using and_exp_eq_0_iff_not_bit [of feature_control 0] by simp
  have same: "k \<noteq> IA32_FEATURE_CONTROL \<Longrightarrow> rdmsr k m3 = rdmsr k m" for k
    by (simp add: m3_def update_feature_control_msr_def Let_def machine_simps)
  have fc: "bit (rdmsr IA32_FEATURE_CONTROL m3) 0"
    "bit (rdmsr IA32_FEATURE_CONTROL m3) 2 \<longleftrightarrow> \<not> (bit (rdmsr IA32_FEATURE_CONTROL m) 0 \<and> \<not> bit (rdmsr IA32_FEATURE_CONTROL m) 2)"
    unfolding m3_def update_feature_control_msr_def Let_def unlocked
    by (simp_all add: machine_simps bit_or_iff)
  have cr: "cr0 m3 = get_adjusted_cr0 (cr0 m) m" "cr4 m3 = get_adjusted_cr4 (cr4 m) m" "vmxon_ptr m3 = None"
    using assms(5) by (simp_all add: m3_def update_feature_control_msr_def Let_def machine_simps)
  have ok0: "fixed_ok (rdmsr IA32_VMX_CR0_FIXED0 m) (rdmsr IA32_VMX_CR0_FIXED1 m) (cr0 m3)"
    and ok4: "fixed_ok (rdmsr IA32_VMX_CR4_FIXED0 m) (rdmsr IA32_VMX_CR4_FIXED1 m) (cr4 m3)"
    unfolding cr get_adjusted_cr0_def get_adjusted_cr4_def Let_def
    using assms(1,2) by (simp_all add: adjusted_fixed_ok)
  have vmxe: "bit (cr4 m3) 13" unfolding cr get_adjusted_cr4_def Let_def using assms(3) by (simp add: bit_or_iff)
  have id_ok: "revision_ok (ucast (rdmsr IA32_VMX_BASIC m)) m3"
    unfolding revision_ok_def
  proof (rule bit_word_eqI)
    fix n assume "n < LENGTH(32)"
    then have "n < 31 \<or> n = 31" by auto
    then show "bit (ucast (rdmsr IA32_VMX_BASIC m) :: u32) n = bit (take_bit 31 (ucast (rdmsr IA32_VMX_BASIC m3)) :: u32) n"
      using assms(4) by (auto simp: same bit_simps)
  qed
  have "vmxon pa_of (vmxon_region (Vmx_default va m)) m3 =
      (if bit (rdmsr IA32_FEATURE_CONTROL m) 0 \<and> \<not> bit (rdmsr IA32_FEATURE_CONTROL m) 2 then Inl (UnwrapFailed ''vmxon'')
       else Inr (m3\<lparr>vmxon_ptr := Some (pa_of va), current_vmcs := None\<rparr>))"
    using fc ok0 ok4 vmxe id_ok cr(3) assms(6)
    by (simp add: vmxon_def Vmx_default_def vmxon_instr_def same Let_def)
  moreover have "Vmx_enable pa_of (Vmx_default va m) m =
      and_then (vmxon pa_of (vmxon_region (Vmx_default va m)) m3) (\<lambda>m4. Inr ((Vmx_default va m)\<lparr>vmx_cr4 := cr4 m\<rparr>, m4))"
    by (simp add: Vmx_enable_def m3_def Let_def)
  moreover have "\<not> bit (rdmsr IA32_VMX_CR0_FIXED0 m) n \<Longrightarrow> bit (rdmsr IA32_VMX_CR0_FIXED1 m) n \<Longrightarrow> bit (cr0 m3) n = bit (cr0 m) n" for n
    unfolding cr get_adjusted_cr0_def Let_def by (rule adjusted_flexible)
  moreover have "cr0 (m3\<lparr>vmxon_ptr := a, current_vmcs := b\<rparr>) = cr0 m3" "cr4 (m3\<lparr>vmxon_ptr := a, current_vmcs := b\<rparr>) = cr4 m3"
    "rdmsr k (m3\<lparr>vmxon_ptr := a, current_vmcs := b\<rparr>) = rdmsr k m3" for a b k
    by (simp_all add: machine_simps)
  ultimately show ?thesis using fc ok0 ok4 by simp
qed


text \<open>A processor with the usual fixed bits (PE, NE and PG; VMXE) and an unlocked feature control MSR.\<close>

definition vmx_example :: vmx_machine where
  "vmx_example = blank_machine
     ((\<lambda>_. 0)(IA32_VMX_CR0_FIXED0 := 0x80000021, IA32_VMX_CR0_FIXED1 := 0xffffffff,
              IA32_VMX_CR4_FIXED0 := 0x2000, IA32_VMX_CR4_FIXED1 := 0x3767ff, IA32_VMX_BASIC := 0x12))
     (\<lambda>_. 0) \<lparr>vmxon_ptr = None, current_vmcs = None, vmcs_fields = (\<lambda>_ _. 0), vmcs_launched = (\<lambda>_. False)\<rparr>"

theorem vmx_enable_outcome_witness:
  "\<exists>vt m'. Vmx_enable id (Vmx_default 0x5000 vmx_example) vmx_example = Inr (vt, m') \<and> vmxon_ptr m' = Some 0x5000"
proof -
  have msr: "rdmsr IA32_VMX_CR0_FIXED0 vmx_example = 0x80000021" "rdmsr IA32_VMX_CR0_FIXED1 vmx_example = 0xffffffff"
    "rdmsr IA32_VMX_CR4_FIXED0 vmx_example = 0x2000" "rdmsr IA32_VMX_CR4_FIXED1 vmx_example = 0x3767ff"
    "rdmsr IA32_VMX_BASIC vmx_example = 0x12" "rdmsr IA32_FEATURE_CONTROL vmx_example = 0" "vmxon_ptr vmx_example = None"
    by (simp_all add: vmx_example_def rdmsr_def) (simp add: blank_machine_def)
  from vmx_enable_outcome [of vmx_example id "0x5000"] show ?thesis
    unfolding msr by (simp add: aligned_4k_def) blast
qed

end
