(* ===== verification/Gdt_Tss.thy ===== *)
theory Gdt_Tss
  imports Machine
begin

unbundle bit_operations_syntax

text \<open>
  The GDT and TSS of the host, \<open>hypervisor/gdt_tss.rs\<close>. The type \<open>'tss\<close> stands for the
  \<open>TaskStateSegment\<close> of the \<open>x86\<close> crate, \<open>read_tss\<close> for reading one from memory, and
  \<open>tss_descriptor\<close> for the crate's descriptor builder as \<open>task_segment_descriptor\<close> calls it
  (with the address of the TSS and its limit). The addresses at which the vector \<open>gdt\<close> and
  the field \<open>tss\<close> lie are arguments.
\<close>

section \<open>Definitions\<close>

record 'tss GdtTssRaw =
  gt_gdt :: "u64 list"
  gt_cs :: selector
  gt_tss :: "'tss option"
  gt_tr :: "selector option"

datatype GdtTssError = TssAlreadyInUse

definition new_from_current :: "bool \<Rightarrow> (u64 \<Rightarrow> 'tss) \<Rightarrow> 'm machine_scheme \<Rightarrow> 'tss GdtTssRaw rust" where
  "new_from_current oc read_tss m =
     (let gdtr = sgdt m in
      and_then (add_checked oc (dtr_limit gdtr) 1) (\<lambda>limit1.
      let gdt = gdt_slice (mem64 m) (dtr_base gdtr) (unat limit1 div 8);
          tro = (if tr m = 0 then None else Some (tr m))
      in and_then
           (case tro of
              None \<Rightarrow> Inr None
            | Some t \<Rightarrow>
                and_then (try_from_gdtr oc (mem64 m) gdtr t) (\<lambda>res.
                case res of
                  Inl e \<Rightarrow> Inl (UnwrapFailed ''try_from_gdtr'')
                | Inr sg \<Rightarrow> and_then (descriptor_base sg) (\<lambda>b. Inr (Some (read_tss b)))))
           (\<lambda>tss. Inr \<lparr>gt_gdt = gdt, gt_cs = cs_sel m, gt_tss = tss, gt_tr = tro\<rparr>)))"

text \<open>\<open>SegmentSelector::new(index, Ring0)\<close>, and the limit of the 0x68 byte TSS.\<close>

definition selector_new :: "u16 \<Rightarrow> selector" where
  "selector_new index = push_bit 3 index"

definition TSS_LIMIT :: u64 where "TSS_LIMIT = 0x67"

text \<open>The lower half of the 16-byte descriptor, from the crate's builder \<open>tss_descriptor\<close>.\<close>

definition task_segment_descriptor :: "(u64 \<Rightarrow> u64 \<Rightarrow> u64) \<Rightarrow> u64 \<Rightarrow> u64" where [simp]:
  "task_segment_descriptor tss_descriptor tss_addr = tss_descriptor tss_addr TSS_LIMIT"

definition append_tss :: "(u64 \<Rightarrow> u64 \<Rightarrow> u64) \<Rightarrow> u64 \<Rightarrow> 'tss \<Rightarrow> 'tss GdtTssRaw \<Rightarrow> 'tss GdtTssRaw" where
  "append_tss tss_descriptor tss_addr tss g =
     (if gt_tss g \<noteq> None \<or> gt_tr g \<noteq> None then g
      else let index = (of_nat (length (gt_gdt g)) :: u16)
           in g\<lparr>gt_tr := Some (selector_new index), gt_tss := Some tss,
                gt_gdt := gt_gdt g @ [task_segment_descriptor tss_descriptor tss_addr] @ [0]\<rparr>)"

text \<open>\<open>Gdtr::new_from_slice\<close>\<close>

definition gdtr_of_slice :: "u64 \<Rightarrow> u64 list \<Rightarrow> dtr" where
  "gdtr_of_slice gdt_addr gdt = \<lparr>dtr_base = gdt_addr, dtr_limit = of_nat (8 * length gdt - 1)\<rparr>"

definition gdt_apply :: "u64 \<Rightarrow> 'tss GdtTssRaw \<Rightarrow> 'm machine_scheme \<Rightarrow> GdtTssError + 'm machine_scheme" where
  "gdt_apply gdt_addr g m =
     (if tr m \<noteq> 0 then Inl TssAlreadyInUse
      else let m1 = lgdt (gdtr_of_slice gdt_addr (gt_gdt g)) m
           in case gt_tr g of
                None \<Rightarrow> Inr m1
              | Some t \<Rightarrow> Inr (m1\<lparr>tr_sel := t\<rparr>))"

section \<open>Properties\<close>

lemma of_nat_u16: "n < 2 ^ 16 \<Longrightarrow> unat (of_nat n :: u16) = n"
  by (simp add: unat_of_nat)

lemma selector_new_index:
  assumes "n < 2 ^ 13"
  shows "unat (selector_index (selector_new (of_nat n))) = n" and "\<not> selector_ti_ldt (selector_new (of_nat n))"
proof -
  have u: "unat (of_nat n :: u16) < 2 ^ 13" using assms of_nat_u16 [of n] by simp
  have "selector_index (selector_new (of_nat n)) = (of_nat n :: u16)"
    by (rule bit_word_eqI) (use bit_less_exp [OF u] in \<open>force simp: selector_index_def selector_new_def bit_simps\<close>)
  then show "unat (selector_index (selector_new (of_nat n))) = n" using assms of_nat_u16 [of n] by simp
  show "\<not> selector_ti_ldt (selector_new (of_nat n))" by (simp add: selector_ti_ldt_def selector_new_def bit_simps)
qed

text \<open>
  A TSS that was appended and applied is found again by the host: TR selects the new
  entry, and the lookup gives the low 32 bits of the TSS address. The upper half of the
  16-byte descriptor is pushed as 0, so the base is right exactly when the TSS lies
  below 4GB. The hypothesis on \<open>tss_descriptor\<close> is the crate's documented result, a present
  available TSS with the given base and limit.
\<close>

lemma appended_tss_base:
  assumes "gt_tss g = None" and "gt_tr g = None" and "0 < length (gt_gdt g)" and "length (gt_gdt g) + 2 < 2 ^ 13"
    and "tss_descriptor tss_addr TSS_LIMIT = encode_descriptor (ucast tss_addr) 0x67 0x89 0"
    and "g' = append_tss tss_descriptor tss_addr tss g"
    and "\<forall>i<length (gt_gdt g'). mem64 m (gdt_addr + of_nat (8 * i)) = gt_gdt g' ! i" and "tr m = 0"
  shows "\<exists>m' d. gdt_apply gdt_addr g' m = Inr m' \<and> try_from_gdtr oc (mem64 m') (sgdt m') (tr m') = Inr (Inr d)
           \<and> descriptor_base d = Inr (take_bit 32 tss_addr)"
proof -
  let ?n = "length (gt_gdt g)" and ?d = "encode_descriptor (ucast tss_addr) 0x67 0x89 0"
  let ?sel = "selector_new (of_nat ?n)" and ?gdtr = "gdtr_of_slice gdt_addr (gt_gdt g')"
  have g': "gt_gdt g' = gt_gdt g @ [?d, 0]" "gt_tr g' = Some ?sel"
    using assms(1,2,5,6) by (simp_all add: append_tss_def Let_def)
  have lim: "unat (dtr_limit ?gdtr) = 8 * (?n + 2) - 1" and lim': "dtr_limit ?gdtr \<noteq> 0xffff"
  proof -
    show "unat (dtr_limit ?gdtr) = 8 * (?n + 2) - 1"
      using assms(4) of_nat_u16 [of "8 * (?n + 2) - 1"] by (simp add: gdtr_of_slice_def g')
    with assms(4) show "dtr_limit ?gdtr \<noteq> 0xffff" by auto
  qed
  have idx: "unat (selector_index ?sel) = ?n" "\<not> selector_ti_ldt ?sel"
    using selector_new_index [of ?n] assms(4) by simp_all
  have m: "mem64 m (gdt_addr + of_nat (8 * ?n)) = ?d" "mem64 m (gdt_addr + of_nat (8 * (?n + 1))) = 0"
    using assms(7) [rule_format, of ?n] assms(7) [rule_format, of "?n + 1"] by (simp_all add: g' nth_append del: of_nat_mult of_nat_add)
  have low: "(ucast (take_bit 32 tss_addr) :: u32) = ucast tss_addr" "(ucast (drop_bit 32 (take_bit 32 tss_addr)) :: u32) = 0"
    by (rule bit_word_eqI, auto simp: bit_simps)+
  have "holds_tss (mem64 m) ?gdtr ?sel (take_bit 32 tss_addr) 0x67 0x89 0"
    unfolding holds_tss_def idx low using m
    by (simp add: gdtr_of_slice_def TssAvailable_def del: of_nat_mult of_nat_add)
  moreover have "selector_index ?sel \<noteq> 0" using idx(1) assms(3) by auto
  moreover have "8 * (unat (selector_index ?sel) + 2) \<le> unat (dtr_limit ?gdtr) + 1" using lim idx by simp
  ultimately have "\<exists>d. try_from_gdtr oc (mem64 m) ?gdtr ?sel = Inr (Inr d) \<and> descriptor_base d = Inr (take_bit 32 tss_addr)"
    using idx(2) lim' by (intro tss_lookup)
  then show ?thesis using assms(8) g' by (simp add: gdt_apply_def Let_def machine_simps)
qed


lemma appended_tss_base_example:
  "\<exists>m' d. gdt_apply 0x1000 (append_tss (\<lambda>a l. encode_descriptor (ucast a) 0x67 0x89 0) 0x123456000 ()
        \<lparr>gt_gdt = [0, 0x00209b0000000000], gt_cs = 8, gt_tss = None, gt_tr = None\<rparr>)
        (blank_machine (\<lambda>_. 0) (\<lambda>a. if a = 0x1008 then 0x00209b0000000000
             else if a = 0x1010 then encode_descriptor 0x23456000 0x67 0x89 0 else 0) ()) = Inr m'
     \<and> try_from_gdtr True (mem64 m') (sgdt m') (tr m') = Inr (Inr d) \<and> descriptor_base d = Inr 0x23456000"
proof -
  let ?g = "\<lparr>gt_gdt = [0, 0x00209b0000000000], gt_cs = 8, gt_tss = None, gt_tr = None\<rparr>"
  let ?f = "\<lambda>(a :: u64) (l :: u64). encode_descriptor (ucast a) 0x67 0x89 0"
  let ?m = "blank_machine (\<lambda>_. 0) (\<lambda>a. if a = 0x1008 then 0x00209b0000000000
             else if a = 0x1010 then encode_descriptor 0x23456000 0x67 0x89 0 else 0) ()"
  let ?g' = "append_tss ?f 0x123456000 () ?g"
  have gdt: "gt_gdt ?g' = [0, 0x00209b0000000000, encode_descriptor 0x23456000 0x67 0x89 0, 0]"
  proof -
    have e: "(0x123456000 :: u32) = 0x23456000" by simp
    show ?thesis by (simp add: append_tss_def Let_def, simp only: e)
  qed
  have "\<forall>i<length (gt_gdt ?g'). mem64 ?m (0x1000 + of_nat (8 * i)) = gt_gdt ?g' ! i"
    unfolding gdt by (auto simp: blank_machine_def less_Suc_eq nth_Cons)
  from appended_tss_base [OF _ _ _ _ _ refl this, of True] show ?thesis
    by (simp add: machine_simps) (simp add: blank_machine_def)
qed

end
