(* ===== verification/Interrupts.thy ===== *)
theory Interrupts
  imports Machine
begin

unbundle bit_operations_syntax

text \<open>
  The host IDT, \<open>hypervisor/interrupt_handlers.rs\<close>: 256 interrupt gates to the assembly
  stubs, which lie 16 bytes apart from \<open>asm_interrupt_handler0\<close>, and the host exception
  handler, which only panics. The reference is the gate format of the processor.
\<close>

section \<open>Definitions\<close>

record idt_entry =
  offset_low :: u16
  idt_selector :: u16
  reserved_1 :: u8
  gate_type :: u8
  offset_high :: u16
  offset_upper :: u32
  reserved_2 :: u32

definition idt_entry_new :: "u64 \<Rightarrow> selector \<Rightarrow> idt_entry" where
  "idt_entry_new handler cs =
     \<lparr>offset_low = ucast handler, idt_selector = cs, reserved_1 = 0, gate_type = 0x8E,
      offset_high = ucast (drop_bit 16 handler), offset_upper = ucast (drop_bit 32 handler), reserved_2 = 0\<rparr>"

definition idt_new :: "u64 \<Rightarrow> selector \<Rightarrow> idt_entry list" where
  "idt_new asm_interrupt_handler0 cs =
     map (\<lambda>i. let handler = asm_interrupt_handler0 + 0x10 * of_nat i in idt_entry_new handler cs) [0..<0x100]"

text \<open>\<open>idtr\<close>: the table of 16-byte entries lies at \<open>base\<close>.\<close>

definition idt_idtr :: "u64 \<Rightarrow> idt_entry list \<Rightarrow> dtr rust" where
  "idt_idtr base idt =
     (let size = 16 * length idt - 1 in
      if size < 2 ^ 16 then Inr \<lparr>dtr_base = base, dtr_limit = of_nat size\<rparr> else Inl (UnwrapFailed ''u16::try_from''))"

record host_exception_stack =
  ex_r15 :: u64
  ex_r14 :: u64
  ex_r13 :: u64
  ex_r12 :: u64
  ex_r11 :: u64
  ex_r10 :: u64
  ex_r9 :: u64
  ex_r8 :: u64
  ex_rdi :: u64
  ex_rsi :: u64
  ex_rbp :: u64
  ex_rbx :: u64
  ex_rdx :: u64
  ex_rcx :: u64
  ex_rax :: u64
  exception_number :: u64
  error_code :: u64
  ex_rip :: u64
  ex_cs :: u64
  ex_rflags :: u64
  ex_rsp :: u64
  ex_ss :: u64

text \<open>A null pointer is \<open>None\<close>. The panic message, which prints the stack and CR2, is left out.\<close>

definition handle_host_exception :: "host_exception_stack option \<Rightarrow> unit rust" where
  "handle_host_exception stack =
     and_then (assert_that (stack \<noteq> None) ''!stack.is_null()'') (\<lambda>_.
     Inl (ExplicitPanic ''Exception occurred in host''))"

section \<open>The gate format\<close>

text \<open>A 16-byte gate in memory is two 64-bit values; the processor reads these fields from them.\<close>

definition gate_low :: "idt_entry \<Rightarrow> u64" where
  "gate_low e = ucast (offset_low e) OR push_bit 16 (ucast (idt_selector e)) OR push_bit 32 (ucast (reserved_1 e))
     OR push_bit 40 (ucast (gate_type e)) OR push_bit 48 (ucast (offset_high e))"

definition gate_high :: "idt_entry \<Rightarrow> u64" where
  "gate_high e = ucast (offset_upper e) OR push_bit 32 (ucast (reserved_2 e))"

definition gate_offset :: "idt_entry \<Rightarrow> u64" where
  "gate_offset e = get_bits 0 15 (gate_low e) OR push_bit 16 (get_bits 48 63 (gate_low e))
     OR push_bit 32 (get_bits 0 31 (gate_high e))"

section \<open>Properties\<close>

lemma bit_gate_low:
  "bit (gate_low e) n \<longleftrightarrow>
     (if n < 16 then bit (offset_low e) n else if n < 32 then bit (idt_selector e) (n - 16)
      else if n < 40 then bit (reserved_1 e) (n - 32) else if n < 48 then bit (gate_type e) (n - 40)
      else n < 64 \<and> bit (offset_high e) (n - 48))"
  by (auto simp: gate_low_def bit_simps dest: bit_imp_le_length)

lemma bit_gate_high:
  "bit (gate_high e) n \<longleftrightarrow> (if n < 32 then bit (offset_upper e) n else n < 64 \<and> bit (reserved_2 e) (n - 32))"
  by (auto simp: gate_high_def bit_simps dest: bit_imp_le_length)

lemma bit_gate_offset:
  "bit (gate_offset e) n \<longleftrightarrow> (if n < 16 then bit (offset_low e) n else if n < 32 then bit (offset_high e) (n - 16)
      else n < 64 \<and> bit (offset_upper e) (n - 32))"
  by (auto simp: gate_offset_def bit_simps bit_get_bits bit_gate_low bit_gate_high dest: bit_imp_le_length)

lemma gate_offset_new: "gate_offset (idt_entry_new h cs) = h"
  by (rule bit_word_eqI) (auto simp: bit_gate_offset, auto simp: idt_entry_new_def bit_simps)

lemma idt_entry_new_fields: "idt_selector (idt_entry_new h cs) = cs" "reserved_1 (idt_entry_new h cs) = 0"
  "gate_type (idt_entry_new h cs) = 0x8E"
  by (simp_all add: idt_entry_new_def)

text \<open>
  Every vector of the host IDT leads to its own stub: gate \<open>i\<close> is a present interrupt
  gate of privilege level 0 (type 1110, no interrupt stack table) to the code segment \<open>cs\<close>
  with the offset \<open>asm_interrupt_handler0 + 16 * i\<close>, and the limit in \<open>idtr\<close> covers exactly the
  256 gates.
\<close>

lemma idt_gates:
  assumes "i < 0x100"
  shows "let e = idt_new handler0 cs ! i in
           gate_offset e = handler0 + of_nat (16 * i) \<and> get_bits 16 31 (gate_low e) = ucast cs
         \<and> get_bits 32 39 (gate_low e) = 0 \<and> get_bits 40 43 (gate_low e) = 0xE \<and> \<not> get_bit 44 (gate_low e)
         \<and> get_bits 45 46 (gate_low e) = 0 \<and> get_bit 47 (gate_low e)
         \<and> idt_idtr base (idt_new handler0 cs) = Inr \<lparr>dtr_base = base, dtr_limit = 0xfff\<rparr>"
proof -
  let ?h = "handler0 + 0x10 * of_nat i"
  have e: "idt_new handler0 cs ! i = idt_entry_new ?h cs" using assms by (simp add: idt_new_def Let_def)
  have b: "bit (0x8E :: u8) 0 = False" "bit (0x8E :: u8) 1" "bit (0x8E :: u8) 2" "bit (0x8E :: u8) 3"
    "\<not> bit (0x8E :: u8) 4" "\<not> bit (0x8E :: u8) 5" "\<not> bit (0x8E :: u8) 6" "bit (0x8E :: u8) 7" by simp_all
  have "get_bits 16 31 (gate_low (idt_entry_new ?h cs)) = ucast cs" "get_bits 32 39 (gate_low (idt_entry_new ?h cs)) = 0"
    by (rule bit_word_eqI, auto simp: bit_get_bits bit_gate_low bit_simps idt_entry_new_fields dest: bit_imp_le_length)+
  moreover have "get_bits 40 43 (gate_low (idt_entry_new ?h cs)) = 0xE"
  proof (rule bit_word_eqI)
    fix n :: nat
    have "bit (0xE :: u64) n \<Longrightarrow> n < 4" using bit_less_exp [of "0xE :: u64" 4 n] by simp
    moreover have "n < 4 \<Longrightarrow> n = 0 \<or> n = 1 \<or> n = 2 \<or> n = 3" by auto
    ultimately show "bit (get_bits 40 43 (gate_low (idt_entry_new ?h cs))) n = bit (0xE :: u64) n"
      by (cases "n < 4") (auto simp: bit_get_bits bit_gate_low idt_entry_new_fields)
  qed
  moreover have "get_bits 45 46 (gate_low (idt_entry_new ?h cs)) = 0"
  proof (rule bit_word_eqI)
    fix n :: nat
    show "bit (get_bits 45 46 (gate_low (idt_entry_new ?h cs))) n = bit (0 :: u64) n"
      by (cases n; cases "n - 1") (auto simp: bit_get_bits bit_gate_low idt_entry_new_fields)
  qed
  moreover have "\<not> get_bit 44 (gate_low (idt_entry_new ?h cs))" "get_bit 47 (gate_low (idt_entry_new ?h cs))"
    by (simp_all add: get_bit_def bit_gate_low idt_entry_new_fields)
  ultimately show ?thesis
    by (simp add: e gate_offset_new idt_idtr_def Let_def) (simp add: idt_new_def)
qed

lemma idt_gates_example:
  "gate_offset (idt_new 0x140001000 0x10 ! 14) = 0x1400010e0"
  using idt_gates [of 14 "0x140001000" "0x10"] by (simp add: Let_def)

end
