(* ===== verification/Host_Data.thy ===== *)
theory Host_Data
  imports Gdt_Tss Interrupts
begin

text \<open>
  \<open>SharedHostData\<close> of \<open>hypervisor/mod.rs\<close>: what the platform gives to the host. The boxes
  are represented with their addresses: the paging structures by their address alone, the
  IDT by its address and its gates, each \<open>GdtTss\<close> by its contents and the addresses of its
  GDT vector and of its TSS. The static \<open>SHARED_HOST_DATA\<close> is a \<open>Once\<close>: \<open>call_once\<close> keeps the
  first value, \<open>get\<close> gives \<open>None\<close> before that.
\<close>

record 'tss host_gdt =
  hg_raw :: "'tss GdtTssRaw"
  hg_gdt_addr :: u64
  hg_tss_addr :: u64

record 'tss shared_host_data =
  host_pt :: "u64 option"
  host_idt :: "(u64 \<times> idt_entry list) option"
  host_gdts :: "'tss host_gdt list option"

text \<open>\<open>host_gdt_and_tss[self.id]\<close>\<close>

definition gdt_of :: "nat \<Rightarrow> 'tss host_gdt list \<Rightarrow> 'tss host_gdt rust" where
  "gdt_of n gs = (if n < length gs then Inr (gs ! n) else Inl IndexOutOfBounds)"

end
