(* ===== verification/Vmx_Guest.thy ===== *)
theory Vmx_Guest
  imports Vmx Host_Data
begin

unbundle bit_operations_syntax

text \<open>
  The Intel guest, \<open>hypervisor/intel/guest.rs\<close>. A sequence of VMWRITEs is a list of fields
  and values given to \<open>vmwrite_all\<close>, which stops at the first one that fails. The processor's
  behaviour during VM entry and guest execution is the argument \<open>event\<close> of \<open>run_vmx_guest\<close>;
  on VM exit the processor loads the host state from the VMCS, as the manuals describe.
  The \<open>Debug\<close> implementation of \<open>Vmcs\<close> is in the theory \<open>Vmcs_Debug\<close>.
\<close>

section \<open>VMCS fields\<close>

abbreviation (input) GUEST_ES_SELECTOR :: u32 where "GUEST_ES_SELECTOR \<equiv> 0x800"
abbreviation (input) GUEST_CS_SELECTOR :: u32 where "GUEST_CS_SELECTOR \<equiv> 0x802"
abbreviation (input) GUEST_SS_SELECTOR :: u32 where "GUEST_SS_SELECTOR \<equiv> 0x804"
abbreviation (input) GUEST_DS_SELECTOR :: u32 where "GUEST_DS_SELECTOR \<equiv> 0x806"
abbreviation (input) GUEST_FS_SELECTOR :: u32 where "GUEST_FS_SELECTOR \<equiv> 0x808"
abbreviation (input) GUEST_GS_SELECTOR :: u32 where "GUEST_GS_SELECTOR \<equiv> 0x80a"
abbreviation (input) GUEST_LDTR_SELECTOR :: u32 where "GUEST_LDTR_SELECTOR \<equiv> 0x80c"
abbreviation (input) GUEST_TR_SELECTOR :: u32 where "GUEST_TR_SELECTOR \<equiv> 0x80e"
abbreviation (input) HOST_ES_SELECTOR :: u32 where "HOST_ES_SELECTOR \<equiv> 0xc00"
abbreviation (input) HOST_CS_SELECTOR :: u32 where "HOST_CS_SELECTOR \<equiv> 0xc02"
abbreviation (input) HOST_SS_SELECTOR :: u32 where "HOST_SS_SELECTOR \<equiv> 0xc04"
abbreviation (input) HOST_DS_SELECTOR :: u32 where "HOST_DS_SELECTOR \<equiv> 0xc06"
abbreviation (input) HOST_FS_SELECTOR :: u32 where "HOST_FS_SELECTOR \<equiv> 0xc08"
abbreviation (input) HOST_GS_SELECTOR :: u32 where "HOST_GS_SELECTOR \<equiv> 0xc0a"
abbreviation (input) HOST_TR_SELECTOR :: u32 where "HOST_TR_SELECTOR \<equiv> 0xc0c"
abbreviation (input) MSR_BITMAPS_ADDR_FULL :: u32 where "MSR_BITMAPS_ADDR_FULL \<equiv> 0x2004"
abbreviation (input) EPTP_FULL :: u32 where "EPTP_FULL \<equiv> 0x201a"
abbreviation (input) GUEST_LINK_PTR_FULL :: u32 where "GUEST_LINK_PTR_FULL \<equiv> 0x2800"
abbreviation (input) GUEST_IA32_EFER_FULL :: u32 where "GUEST_IA32_EFER_FULL \<equiv> 0x2806"
abbreviation (input) PINBASED_EXEC_CONTROLS :: u32 where "PINBASED_EXEC_CONTROLS \<equiv> 0x4000"
abbreviation (input) PRIMARY_PROCBASED_EXEC_CONTROLS :: u32 where "PRIMARY_PROCBASED_EXEC_CONTROLS \<equiv> 0x4002"
abbreviation (input) VMEXIT_CONTROLS :: u32 where "VMEXIT_CONTROLS \<equiv> 0x400c"
abbreviation (input) VMENTRY_CONTROLS :: u32 where "VMENTRY_CONTROLS \<equiv> 0x4012"
abbreviation (input) SECONDARY_PROCBASED_EXEC_CONTROLS :: u32 where "SECONDARY_PROCBASED_EXEC_CONTROLS \<equiv> 0x401e"
abbreviation (input) VM_INSTRUCTION_ERROR :: u32 where "VM_INSTRUCTION_ERROR \<equiv> 0x4400"
abbreviation (input) EXIT_REASON :: u32 where "EXIT_REASON \<equiv> 0x4402"
abbreviation (input) VMEXIT_INSTRUCTION_LEN :: u32 where "VMEXIT_INSTRUCTION_LEN \<equiv> 0x440c"
abbreviation (input) GUEST_ES_LIMIT :: u32 where "GUEST_ES_LIMIT \<equiv> 0x4800"
abbreviation (input) GUEST_CS_LIMIT :: u32 where "GUEST_CS_LIMIT \<equiv> 0x4802"
abbreviation (input) GUEST_SS_LIMIT :: u32 where "GUEST_SS_LIMIT \<equiv> 0x4804"
abbreviation (input) GUEST_DS_LIMIT :: u32 where "GUEST_DS_LIMIT \<equiv> 0x4806"
abbreviation (input) GUEST_FS_LIMIT :: u32 where "GUEST_FS_LIMIT \<equiv> 0x4808"
abbreviation (input) GUEST_GS_LIMIT :: u32 where "GUEST_GS_LIMIT \<equiv> 0x480a"
abbreviation (input) GUEST_LDTR_LIMIT :: u32 where "GUEST_LDTR_LIMIT \<equiv> 0x480c"
abbreviation (input) GUEST_TR_LIMIT :: u32 where "GUEST_TR_LIMIT \<equiv> 0x480e"
abbreviation (input) GUEST_GDTR_LIMIT :: u32 where "GUEST_GDTR_LIMIT \<equiv> 0x4810"
abbreviation (input) GUEST_IDTR_LIMIT :: u32 where "GUEST_IDTR_LIMIT \<equiv> 0x4812"
abbreviation (input) GUEST_ES_ACCESS_RIGHTS :: u32 where "GUEST_ES_ACCESS_RIGHTS \<equiv> 0x4814"
abbreviation (input) GUEST_CS_ACCESS_RIGHTS :: u32 where "GUEST_CS_ACCESS_RIGHTS \<equiv> 0x4816"
abbreviation (input) GUEST_SS_ACCESS_RIGHTS :: u32 where "GUEST_SS_ACCESS_RIGHTS \<equiv> 0x4818"
abbreviation (input) GUEST_DS_ACCESS_RIGHTS :: u32 where "GUEST_DS_ACCESS_RIGHTS \<equiv> 0x481a"
abbreviation (input) GUEST_FS_ACCESS_RIGHTS :: u32 where "GUEST_FS_ACCESS_RIGHTS \<equiv> 0x481c"
abbreviation (input) GUEST_GS_ACCESS_RIGHTS :: u32 where "GUEST_GS_ACCESS_RIGHTS \<equiv> 0x481e"
abbreviation (input) GUEST_LDTR_ACCESS_RIGHTS :: u32 where "GUEST_LDTR_ACCESS_RIGHTS \<equiv> 0x4820"
abbreviation (input) GUEST_TR_ACCESS_RIGHTS :: u32 where "GUEST_TR_ACCESS_RIGHTS \<equiv> 0x4822"
abbreviation (input) GUEST_ACTIVITY_STATE :: u32 where "GUEST_ACTIVITY_STATE \<equiv> 0x4826"
abbreviation (input) GUEST_SYSENTER_CS :: u32 where "GUEST_SYSENTER_CS \<equiv> 0x482a"
abbreviation (input) CR0_READ_SHADOW :: u32 where "CR0_READ_SHADOW \<equiv> 0x6004"
abbreviation (input) CR4_READ_SHADOW :: u32 where "CR4_READ_SHADOW \<equiv> 0x6006"
abbreviation (input) EXIT_QUALIFICATION :: u32 where "EXIT_QUALIFICATION \<equiv> 0x6400"
abbreviation (input) GUEST_CR0 :: u32 where "GUEST_CR0 \<equiv> 0x6800"
abbreviation (input) GUEST_CR3 :: u32 where "GUEST_CR3 \<equiv> 0x6802"
abbreviation (input) GUEST_CR4 :: u32 where "GUEST_CR4 \<equiv> 0x6804"
abbreviation (input) GUEST_ES_BASE :: u32 where "GUEST_ES_BASE \<equiv> 0x6806"
abbreviation (input) GUEST_CS_BASE :: u32 where "GUEST_CS_BASE \<equiv> 0x6808"
abbreviation (input) GUEST_SS_BASE :: u32 where "GUEST_SS_BASE \<equiv> 0x680a"
abbreviation (input) GUEST_DS_BASE :: u32 where "GUEST_DS_BASE \<equiv> 0x680c"
abbreviation (input) GUEST_FS_BASE :: u32 where "GUEST_FS_BASE \<equiv> 0x680e"
abbreviation (input) GUEST_GS_BASE :: u32 where "GUEST_GS_BASE \<equiv> 0x6810"
abbreviation (input) GUEST_LDTR_BASE :: u32 where "GUEST_LDTR_BASE \<equiv> 0x6812"
abbreviation (input) GUEST_TR_BASE :: u32 where "GUEST_TR_BASE \<equiv> 0x6814"
abbreviation (input) GUEST_GDTR_BASE :: u32 where "GUEST_GDTR_BASE \<equiv> 0x6816"
abbreviation (input) GUEST_IDTR_BASE :: u32 where "GUEST_IDTR_BASE \<equiv> 0x6818"
abbreviation (input) GUEST_RSP :: u32 where "GUEST_RSP \<equiv> 0x681c"
abbreviation (input) GUEST_RIP :: u32 where "GUEST_RIP \<equiv> 0x681e"
abbreviation (input) GUEST_RFLAGS :: u32 where "GUEST_RFLAGS \<equiv> 0x6820"
abbreviation (input) GUEST_SYSENTER_ESP :: u32 where "GUEST_SYSENTER_ESP \<equiv> 0x6824"
abbreviation (input) GUEST_SYSENTER_EIP :: u32 where "GUEST_SYSENTER_EIP \<equiv> 0x6826"
abbreviation (input) HOST_CR0 :: u32 where "HOST_CR0 \<equiv> 0x6c00"
abbreviation (input) HOST_CR3 :: u32 where "HOST_CR3 \<equiv> 0x6c02"
abbreviation (input) HOST_CR4 :: u32 where "HOST_CR4 \<equiv> 0x6c04"
abbreviation (input) HOST_FS_BASE :: u32 where "HOST_FS_BASE \<equiv> 0x6c06"
abbreviation (input) HOST_GS_BASE :: u32 where "HOST_GS_BASE \<equiv> 0x6c08"
abbreviation (input) HOST_TR_BASE :: u32 where "HOST_TR_BASE \<equiv> 0x6c0a"
abbreviation (input) HOST_GDTR_BASE :: u32 where "HOST_GDTR_BASE \<equiv> 0x6c0c"
abbreviation (input) HOST_IDTR_BASE :: u32 where "HOST_IDTR_BASE \<equiv> 0x6c0e"
abbreviation (input) HOST_SYSENTER_CS :: u32 where "HOST_SYSENTER_CS \<equiv> 0x4c00"
abbreviation (input) HOST_SYSENTER_ESP :: u32 where "HOST_SYSENTER_ESP \<equiv> 0x6c10"
abbreviation (input) HOST_SYSENTER_EIP :: u32 where "HOST_SYSENTER_EIP \<equiv> 0x6c12"
abbreviation (input) HOST_RSP :: u32 where "HOST_RSP \<equiv> 0x6c14"
abbreviation (input) HOST_RIP :: u32 where "HOST_RIP \<equiv> 0x6c16"

section \<open>Wrappers of VMX instructions\<close>

definition vmclear :: "(u64 \<Rightarrow> u64) \<Rightarrow> vmx_region \<Rightarrow> vmx_machine \<Rightarrow> vmx_machine rust" where
  "vmclear pa_of reg m = (let va = region_va reg; pa = pa_of va in unwrap ''vmclear'' (vmclear_instr pa m))"

definition vmptrld :: "(u64 \<Rightarrow> u64) \<Rightarrow> vmx_region \<Rightarrow> vmx_machine \<Rightarrow> vmx_machine rust" where
  "vmptrld pa_of reg m =
     (let va = region_va reg; pa = pa_of va in unwrap ''vmptrld'' (vmptrld_instr pa (revision_id reg) m))"

definition vmread :: "u32 \<Rightarrow> vmx_machine \<Rightarrow> u64 rust" where
  "vmread encoding m = unwrap ''vmread'' (vmread_instr encoding m)"

definition vmwrite :: "u32 \<Rightarrow> u64 \<Rightarrow> vmx_machine \<Rightarrow> vmx_machine rust" where
  "vmwrite encoding v m =
     (case vmwrite_instr encoding v m of
        None \<Rightarrow> Inl (ExplicitPanic ''Could not write'')
      | Some m' \<Rightarrow> Inr m')"

fun vmwrite_all :: "(u32 \<times> u64) list \<Rightarrow> vmx_machine \<Rightarrow> vmx_machine rust" where
  "vmwrite_all [] m = Inr m"
| "vmwrite_all ((f, v) # fvs) m = and_then (vmwrite f v m) (vmwrite_all fvs)"

text \<open>\<open>vmx_succeed\<close>: whether the entry failed, with the kind of failure.\<close>

definition vmx_succeed :: "u64 \<Rightarrow> vmx_machine \<Rightarrow> (string + unit) rust" where
  "vmx_succeed flags m =
     (if flags_contain flags FLAGS_ZF then
        and_then (vmread VM_INSTRUCTION_ERROR m) (\<lambda>n. Inr (Inl ''VmFailValid''))
      else if flags_contain flags FLAGS_CF then Inr (Inl ''VmFailInvalid'')
      else Inr (Inr ()))"

section \<open>The guest\<close>

record VmxGuest =
  vmx_id :: nat
  vmx_registers :: registers
  vmcs :: vmx_region

text \<open>\<open>Vmcs::new\<close>, with the address of the zeroed box.\<close>

definition Vmcs_new :: "(u64 \<Rightarrow> u64) \<Rightarrow> u64 \<Rightarrow> vmx_machine \<Rightarrow> (vmx_region \<times> vmx_machine) rust" where
  "Vmcs_new pa_of va m =
     (let reg = \<lparr>region_va = va, revision_id = ucast (rdmsr IA32_VMX_BASIC m)\<rparr>
      in and_then (vmclear pa_of reg m) (\<lambda>m1. Inr (reg, m1)))"

definition VmxGuest_new :: "(u64 \<Rightarrow> u64) \<Rightarrow> u64 \<Rightarrow> nat \<Rightarrow> vmx_machine \<Rightarrow> (VmxGuest \<times> vmx_machine) rust" where
  "VmxGuest_new pa_of va n m =
     and_then (Vmcs_new pa_of va m) (\<lambda>(reg, m1).
     Inr (\<lparr>vmx_id = n, vmx_registers = Registers_default, vmcs = reg\<rparr>, m1))"

definition VmxGuest_activate :: "(u64 \<Rightarrow> u64) \<Rightarrow> VmxGuest \<Rightarrow> vmx_machine \<Rightarrow> (VmxGuest \<times> vmx_machine) rust" where
  "VmxGuest_activate pa_of g m = and_then (vmptrld pa_of (vmcs g) m) (\<lambda>m1. Inr (g, m1))"

definition VmxGuest_deactivate :: "(u64 \<Rightarrow> u64) \<Rightarrow> VmxGuest \<Rightarrow> vmx_machine \<Rightarrow> (VmxGuest \<times> vmx_machine) rust" where
  "VmxGuest_deactivate pa_of g m = and_then (vmclear pa_of (vmcs g) m) (\<lambda>m1. Inr (g, m1))"

datatype VmxControl = PinBased | ProcessorBased | ProcessorBased2 | ProcessorBased3 | VmExit | VmEntry

definition adjust_vmx_control :: "VmxControl \<Rightarrow> u64 \<Rightarrow> 'm machine_scheme \<Rightarrow> u64 rust" where
  "adjust_vmx_control control requested_value m =
     (let vmx_basic = rdmsr IA32_VMX_BASIC m;
          true_cap_msr_supported = (vmx_basic AND push_bit 55 1 \<noteq> 0) in
      if control = ProcessorBased3 then
        let allowed1 = rdmsr IA32_VMX_PROCBASED_CTLS3 m in Inr (requested_value AND allowed1)
      else
        let cap_msr = (case control of
              PinBased \<Rightarrow> if true_cap_msr_supported then IA32_VMX_TRUE_PINBASED_CTLS else IA32_VMX_PINBASED_CTLS
            | ProcessorBased \<Rightarrow> if true_cap_msr_supported then IA32_VMX_TRUE_PROCBASED_CTLS else IA32_VMX_PROCBASED_CTLS
            | VmExit \<Rightarrow> if true_cap_msr_supported then IA32_VMX_TRUE_EXIT_CTLS else IA32_VMX_EXIT_CTLS
            | VmEntry \<Rightarrow> if true_cap_msr_supported then IA32_VMX_TRUE_ENTRY_CTLS else IA32_VMX_ENTRY_CTLS
            | _ \<Rightarrow> IA32_VMX_PROCBASED_CTLS2);
            capabilities = rdmsr cap_msr m;
            allowed0 = (ucast capabilities :: u32);
            allowed1 = (ucast (drop_bit 32 capabilities) :: u32)
        in if unat requested_value < 2 ^ 32
           then let requested = (ucast requested_value :: u32)
                in Inr (ucast ((requested OR allowed0) AND allowed1))
           else Inl (UnwrapFailed ''u32::try_from''))"

definition access_rights :: "u32 \<Rightarrow> u32" where
  "access_rights ar = (if ar = 0 then push_bit 16 1 else drop_bit 8 ar AND 0xf0ff)"

text \<open>The control bits that are requested, by their positions in the manuals.\<close>

abbreviation (input) HOST_ADDRESS_SPACE_SIZE :: u64 where "HOST_ADDRESS_SPACE_SIZE \<equiv> 0x200"
abbreviation (input) IA32E_MODE_GUEST :: u64 where "IA32E_MODE_GUEST \<equiv> 0x200"
abbreviation (input) USE_MSR_BITMAPS :: u64 where "USE_MSR_BITMAPS \<equiv> 0x10000000"
abbreviation (input) SECONDARY_CONTROLS :: u64 where "SECONDARY_CONTROLS \<equiv> 0x80000000"
abbreviation (input) UNRESTRICTED_GUEST :: u32 where "UNRESTRICTED_GUEST \<equiv> 0x80"
abbreviation (input) CR0_PROTECTED_MODE :: u64 where "CR0_PROTECTED_MODE \<equiv> 0x1"
abbreviation (input) CR0_EXTENSION_TYPE :: u64 where "CR0_EXTENSION_TYPE \<equiv> 0x10"
abbreviation (input) CR0_ENABLE_PAGING :: u64 where "CR0_ENABLE_PAGING \<equiv> 0x80000000"

text \<open>ENABLE_EPT, UNRESTRICTED_GUEST, ENABLE_RDTSCP, ENABLE_INVPCID, ENABLE_XSAVES_XRSTORS, ENABLE_USER_WAIT_PAUSE\<close>

definition secondary_requested :: u64 where
  "secondary_requested =
     push_bit 1 1 OR push_bit 7 1 OR push_bit 3 1 OR push_bit 12 1 OR push_bit 20 1 OR push_bit 26 1"

text \<open>\<open>msr_bitmaps_va\<close> and \<open>eptp\<close> come from \<open>SHARED_GUEST_DATA\<close>.\<close>

definition vmx_initialize_control :: "(u64 \<Rightarrow> u64) \<Rightarrow> u64 \<Rightarrow> u64 \<Rightarrow> vmx_machine \<Rightarrow> vmx_machine rust" where
  "vmx_initialize_control pa_of msr_bitmaps_va eptp m =
     and_then (adjust_vmx_control VmExit HOST_ADDRESS_SPACE_SIZE m) (\<lambda>exit_ctl.
     and_then (adjust_vmx_control VmEntry IA32E_MODE_GUEST m) (\<lambda>entry_ctl.
     and_then (adjust_vmx_control PinBased 0 m) (\<lambda>pin_ctl.
     and_then (adjust_vmx_control ProcessorBased (USE_MSR_BITMAPS OR SECONDARY_CONTROLS OR push_bit 18 1) m) (\<lambda>proc_ctl.
     and_then (adjust_vmx_control ProcessorBased2 secondary_requested m) (\<lambda>proc2_ctl.
     vmwrite_all
       [(VMEXIT_CONTROLS, exit_ctl), (VMENTRY_CONTROLS, entry_ctl), (PINBASED_EXEC_CONTROLS, pin_ctl),
        (PRIMARY_PROCBASED_EXEC_CONTROLS, proc_ctl), (SECONDARY_PROCBASED_EXEC_CONTROLS, proc2_ctl),
        (MSR_BITMAPS_ADDR_FULL, pa_of msr_bitmaps_va), (EPTP_FULL, eptp)] m)))))"

text \<open>\<open>SegmentDescriptor::try_from_gdtr(&gdtr, tr).unwrap().base()\<close>\<close>

definition tss_base_of :: "bool \<Rightarrow> dtr \<Rightarrow> selector \<Rightarrow> 'm machine_scheme \<Rightarrow> u64 rust" where
  "tss_base_of oc gdtr sel m =
     and_then (try_from_gdtr oc (mem64 m) gdtr sel) (\<lambda>res.
     case res of Inl e \<Rightarrow> Inl (UnwrapFailed ''try_from_gdtr'') | Inr d \<Rightarrow> descriptor_base d)"

definition vmx_initialize_guest :: "bool \<Rightarrow> VmxGuest \<Rightarrow> vmx_machine \<Rightarrow> vmx_machine rust" where
  "vmx_initialize_guest oc g m =
     (let idtr = sidt m; gdtr = sgdt m; r = vmx_registers g in
      and_then (vmwrite_all
       [(GUEST_ES_SELECTOR, ucast (es_sel m)), (GUEST_CS_SELECTOR, ucast (cs_sel m)),
        (GUEST_SS_SELECTOR, ucast (ss_sel m)), (GUEST_DS_SELECTOR, ucast (ds_sel m)),
        (GUEST_FS_SELECTOR, ucast (fs_sel m)), (GUEST_GS_SELECTOR, ucast (gs_sel m)),
        (GUEST_TR_SELECTOR, ucast (tr m)), (GUEST_LDTR_SELECTOR, ucast (ldtr m)),
        (GUEST_ES_LIMIT, ucast (lsl (es_sel m) m)), (GUEST_CS_LIMIT, ucast (lsl (cs_sel m) m)),
        (GUEST_SS_LIMIT, ucast (lsl (ss_sel m) m)), (GUEST_DS_LIMIT, ucast (lsl (ds_sel m) m)),
        (GUEST_FS_LIMIT, ucast (lsl (fs_sel m) m)), (GUEST_GS_LIMIT, ucast (lsl (gs_sel m) m)),
        (GUEST_TR_LIMIT, ucast (lsl (tr m) m)),
        (GUEST_ES_ACCESS_RIGHTS, ucast (access_rights (lar (es_sel m) m))),
        (GUEST_CS_ACCESS_RIGHTS, ucast (access_rights (lar (cs_sel m) m))),
        (GUEST_SS_ACCESS_RIGHTS, ucast (access_rights (lar (ss_sel m) m))),
        (GUEST_DS_ACCESS_RIGHTS, ucast (access_rights (lar (ds_sel m) m))),
        (GUEST_FS_ACCESS_RIGHTS, ucast (access_rights (lar (fs_sel m) m))),
        (GUEST_GS_ACCESS_RIGHTS, ucast (access_rights (lar (gs_sel m) m))),
        (GUEST_TR_ACCESS_RIGHTS, ucast (access_rights (lar (tr m) m))),
        (GUEST_LDTR_ACCESS_RIGHTS, ucast (access_rights 0)),
        (GUEST_FS_BASE, rdmsr IA32_FS_BASE m), (GUEST_GS_BASE, rdmsr IA32_GS_BASE m)] m) (\<lambda>m1.
      and_then (tss_base_of oc gdtr (tr m) m) (\<lambda>tss_base.
      vmwrite_all
       [(GUEST_TR_BASE, tss_base),
        (GUEST_GDTR_BASE, dtr_base gdtr), (GUEST_GDTR_LIMIT, ucast (dtr_limit gdtr)),
        (GUEST_IDTR_BASE, dtr_base idtr), (GUEST_IDTR_LIMIT, ucast (dtr_limit idtr)),
        (GUEST_SYSENTER_CS, rdmsr IA32_SYSENTER_CS m), (GUEST_SYSENTER_EIP, rdmsr IA32_SYSENTER_EIP m),
        (GUEST_SYSENTER_ESP, rdmsr IA32_SYSENTER_ESP m), (GUEST_LINK_PTR_FULL, - 1),
        (GUEST_CR0, cr0 m), (GUEST_CR3, cr3 m), (GUEST_CR4, cr4 m),
        (GUEST_RSP, rsp r), (GUEST_RIP, rip r), (GUEST_RFLAGS, rflags r)] m1)))"

text \<open>The fields of the host-state area with their values. The low three bits of a selector are cleared.\<close>

definition vmx_host_fields :: "'m machine_scheme \<Rightarrow> u64 \<Rightarrow> u64 \<Rightarrow> selector \<Rightarrow> u64 \<Rightarrow> u64 \<Rightarrow> (u32 \<times> u64) list" where
  "vmx_host_fields m host_cr3 gdt_base trs tss_base idt_base =
       [(HOST_ES_SELECTOR, ucast (es_sel m AND NOT 7)), (HOST_CS_SELECTOR, ucast (cs_sel m AND NOT 7)),
        (HOST_SS_SELECTOR, ucast (ss_sel m AND NOT 7)), (HOST_DS_SELECTOR, ucast (ds_sel m AND NOT 7)),
        (HOST_FS_SELECTOR, ucast (fs_sel m AND NOT 7)), (HOST_GS_SELECTOR, ucast (gs_sel m AND NOT 7)),
        (HOST_TR_SELECTOR, ucast (trs AND NOT 7)),
        (HOST_CR0, cr0 m), (HOST_CR3, host_cr3), (HOST_CR4, cr4 m),
        (HOST_FS_BASE, rdmsr IA32_FS_BASE m), (HOST_GS_BASE, rdmsr IA32_GS_BASE m),
        (HOST_TR_BASE, tss_base), (HOST_GDTR_BASE, gdt_base), (HOST_IDTR_BASE, idt_base)]"

definition vmx_initialize_host ::
  "bool \<Rightarrow> 'tss shared_host_data option \<Rightarrow> VmxGuest \<Rightarrow> vmx_machine \<Rightarrow> vmx_machine rust" where
  "vmx_initialize_host oc SHARED_HOST_DATA g m =
     and_then (unwrap ''SHARED_HOST_DATA'' SHARED_HOST_DATA) (\<lambda>shared_host.
     let host_cr3 = (case host_pt shared_host of Some a \<Rightarrow> a | None \<Rightarrow> cr3 m) in
     and_then
       (case host_gdts shared_host of
          Some gdts \<Rightarrow>
            and_then (gdt_of (vmx_id g) gdts) (\<lambda>hg.
            and_then (if gt_gdt (hg_raw hg) = [] then Inl IndexOutOfBounds else Inr ()) (\<lambda>_.
            and_then (unwrap ''tr'' (gt_tr (hg_raw hg))) (\<lambda>t.
            and_then (unwrap ''tss'' (gt_tss (hg_raw hg))) (\<lambda>_.
            Inr (hg_gdt_addr hg, t, hg_tss_addr hg)))))
        | None \<Rightarrow>
            and_then (tss_base_of oc (sgdt m) (tr m) m) (\<lambda>b. Inr (dtr_base (sgdt m), tr m, b)))
       (\<lambda>(gdt_base, trs, tss_base).
     and_then
       (case host_idt shared_host of
          Some (base, idt) \<Rightarrow> and_then (idt_idtr base idt) (\<lambda>d. Inr (dtr_base d))
        | None \<Rightarrow> Inr (dtr_base (sidt m)))
       (\<lambda>idt_base.
     vmwrite_all (vmx_host_fields m host_cr3 gdt_base trs tss_base idt_base) m)))"

definition VmxGuest_initialize ::
  "bool \<Rightarrow> (u64 \<Rightarrow> u64) \<Rightarrow> u64 \<Rightarrow> u64 \<Rightarrow> 'tss shared_host_data option \<Rightarrow> registers \<Rightarrow> VmxGuest \<Rightarrow> vmx_machine
     \<Rightarrow> (VmxGuest \<times> vmx_machine) rust" where
  "VmxGuest_initialize oc pa_of msr_bitmaps_va eptp SHARED_HOST_DATA r g m =
     (let g1 = g\<lparr>vmx_registers := r\<rparr> in
      and_then (vmx_initialize_control pa_of msr_bitmaps_va eptp m) (\<lambda>m1.
      and_then (vmx_initialize_guest oc g1 m1) (\<lambda>m2.
      and_then (vmx_initialize_host oc SHARED_HOST_DATA g1 m2) (\<lambda>m3.
      Inr (g1, m3)))))"

section \<open>Signals\<close>

definition get_adjusted_guest_cr0 :: "u64 \<Rightarrow> vmx_machine \<Rightarrow> u64 rust" where
  "get_adjusted_guest_cr0 c m =
     (let new_cr0 = get_adjusted_cr0 c m in
      and_then (vmread SECONDARY_PROCBASED_EXEC_CONTROLS m) (\<lambda>secondary_proc_based_ctls2.
      let unrestricted_guest = (ucast secondary_proc_based_ctls2 AND UNRESTRICTED_GUEST \<noteq> 0) in
      if unrestricted_guest
      then Inr ((new_cr0 AND NOT (CR0_PROTECTED_MODE OR CR0_ENABLE_PAGING))
                 OR (c AND (CR0_PROTECTED_MODE OR CR0_ENABLE_PAGING)))
      else Inr new_cr0))"

definition get_adjusted_guest_cr4 :: "u64 \<Rightarrow> 'm machine_scheme \<Rightarrow> u64" where
  "get_adjusted_guest_cr4 c m = get_adjusted_cr4 c m"

text \<open>The setters of \<open>VmxSegmentAccessRights\<close> that are used.\<close>

definition set_segment_type :: "u32 \<Rightarrow> u32 \<Rightarrow> u32" where
  "set_segment_type v w = set_field 3 0 v w"
definition set_descriptor_type :: "bool \<Rightarrow> u32 \<Rightarrow> u32" where
  "set_descriptor_type b w = set_flag 4 b w"
definition set_segment_present :: "bool \<Rightarrow> u32 \<Rightarrow> u32" where
  "set_segment_present b w = set_flag 7 b w"

text \<open>\<open>CpuId::get_feature_info\<close>, which exists when leaf 1 does, and \<open>extended_model_id\<close>.\<close>

definition get_feature_info :: "cpuid_fun \<Rightarrow> cpuid_result option" where
  "get_feature_info cpuid = (if 1 \<le> eax (cpuid 0 0) then Some (cpuid 1 0) else None)"

definition extended_model_id :: "cpuid_result \<Rightarrow> u8" where
  "extended_model_id c = ucast (get_bits 16 19 (eax c))"

definition reset_debug_registers :: "'m machine_scheme \<Rightarrow> 'm machine_scheme" where
  "reset_debug_registers m =
     m\<lparr>dr0_reg := 0, dr1_reg := 0, dr2_reg := 0, dr3_reg := 0, dr6_reg := 0xffff0ff0, dr7_reg := 0x400\<rparr>"

text \<open>One data segment after INIT: selector, base, limit and access rights.\<close>

definition init_segment :: "u32 \<Rightarrow> u32 \<Rightarrow> u32 \<Rightarrow> u32 \<Rightarrow> u32 \<Rightarrow> (u32 \<times> u64) list" where
  "init_segment sel base limit rights ar = [(sel, 0), (base, 0), (limit, 0xffff), (rights, ucast ar)]"

datatype GuestActivityState = Active | Hlt | Shutdown | WaitForSipi

fun activity_code :: "GuestActivityState \<Rightarrow> u32" where
  "activity_code Active = 0"
| "activity_code Hlt = 1"
| "activity_code Shutdown = 2"
| "activity_code WaitForSipi = 3"

definition vmx_handle_init_signal :: "cpuid_fun \<Rightarrow> VmxGuest \<Rightarrow> vmx_machine \<Rightarrow> (VmxGuest \<times> vmx_machine) rust" where
  "vmx_handle_init_signal cpuid g m =
     (let r = (vmx_registers g)\<lparr>rflags := FLAGS_A1, rip := 0xfff0\<rparr> in
      and_then (vmwrite_all [(GUEST_RFLAGS, rflags r), (GUEST_RIP, rip r)] m) (\<lambda>m1.
      let m2 = write_cr2 0 m1 in
      and_then (vmwrite_all [(GUEST_CR3, 0), (CR0_READ_SHADOW, 0), (CR4_READ_SHADOW, 0)] m2) (\<lambda>m3.
      and_then (get_adjusted_guest_cr0 CR0_EXTENSION_TYPE m3) (\<lambda>new_cr0.
      let code_rights = set_segment_present True (set_descriptor_type True (set_segment_type 0xb 0));
          data_rights = set_segment_type 0x3 code_rights;
          ldt_rights = set_descriptor_type False (set_segment_type 0x2 data_rights);
          tss_rights = set_segment_type 0xb ldt_rights in
      and_then (vmwrite_all
        ([(GUEST_CR0, new_cr0), (GUEST_CR4, get_adjusted_guest_cr4 0 m3),
          (GUEST_CS_SELECTOR, 0xf000), (GUEST_CS_BASE, 0xffff0000), (GUEST_CS_LIMIT, 0xffff),
          (GUEST_CS_ACCESS_RIGHTS, ucast code_rights)]
         @ init_segment GUEST_SS_SELECTOR GUEST_SS_BASE GUEST_SS_LIMIT GUEST_SS_ACCESS_RIGHTS data_rights
         @ init_segment GUEST_DS_SELECTOR GUEST_DS_BASE GUEST_DS_LIMIT GUEST_DS_ACCESS_RIGHTS data_rights
         @ init_segment GUEST_ES_SELECTOR GUEST_ES_BASE GUEST_ES_LIMIT GUEST_ES_ACCESS_RIGHTS data_rights
         @ init_segment GUEST_FS_SELECTOR GUEST_FS_BASE GUEST_FS_LIMIT GUEST_FS_ACCESS_RIGHTS data_rights
         @ init_segment GUEST_GS_SELECTOR GUEST_GS_BASE GUEST_GS_LIMIT GUEST_GS_ACCESS_RIGHTS data_rights) m3) (\<lambda>m4.
      and_then (unwrap ''get_feature_info'' (get_feature_info cpuid)) (\<lambda>info.
      let r1 = r\<lparr>rdx := 0x600 OR push_bit 16 (ucast (extended_model_id info)),
                 rax := 0, rbx := 0, rcx := 0, rsi := 0, rdi := 0, rbp := 0, rsp := 0\<rparr> in
      and_then (vmwrite_all
        ([(GUEST_RSP, rsp r1),
          (GUEST_GDTR_BASE, 0), (GUEST_GDTR_LIMIT, 0xffff), (GUEST_IDTR_BASE, 0), (GUEST_IDTR_LIMIT, 0xffff)]
         @ init_segment GUEST_LDTR_SELECTOR GUEST_LDTR_BASE GUEST_LDTR_LIMIT GUEST_LDTR_ACCESS_RIGHTS ldt_rights
         @ init_segment GUEST_TR_SELECTOR GUEST_TR_BASE GUEST_TR_LIMIT GUEST_TR_ACCESS_RIGHTS tss_rights) m4) (\<lambda>m5.
      let m6 = reset_debug_registers m5;
          r2 = r1\<lparr>r8 := 0, r9 := 0, r10 := 0, r11 := 0, r12 := 0, r13 := 0, r14 := 0, r15 := 0\<rparr> in
      and_then (vmwrite_all [(GUEST_IA32_EFER_FULL, 0), (GUEST_FS_BASE, 0), (GUEST_GS_BASE, 0)] m6) (\<lambda>m7.
      and_then (vmread VMENTRY_CONTROLS m7) (\<lambda>vmentry_controls.
      and_then (vmwrite_all
        [(VMENTRY_CONTROLS, vmentry_controls AND NOT IA32E_MODE_GUEST),
         (GUEST_ACTIVITY_STATE, ucast (activity_code WaitForSipi))] m7) (\<lambda>m8.
      Inr (g\<lparr>vmx_registers := r2\<rparr>, m8)))))))))))"

definition vmx_handle_sipi_signal :: "VmxGuest \<Rightarrow> vmx_machine \<Rightarrow> (VmxGuest \<times> vmx_machine) rust" where
  "vmx_handle_sipi_signal g m =
     and_then (vmread EXIT_QUALIFICATION m) (\<lambda>vector.
     let r = (vmx_registers g)\<lparr>rip := 0\<rparr> in
     and_then (vmwrite_all
       [(GUEST_CS_SELECTOR, push_bit 8 vector), (GUEST_CS_BASE, push_bit 12 vector), (GUEST_RIP, rip r),
        (GUEST_ACTIVITY_STATE, ucast (activity_code Active))] m) (\<lambda>m1.
     Inr (g\<lparr>vmx_registers := r\<rparr>, m1)))"

section \<open>Running the guest\<close>

text \<open>
  What happens between VM entry and VM exit is given by the environment: either the entry
  fails with flags and an error number, or the guest runs and exits. In the second case
  \<open>ex_cpu\<close> is the processor as the guest leaves it, \<open>ex_gprs\<close> the general purpose and XMM
  registers, \<open>ex_fields\<close> the values that the VM exit saves into guest-state and exit
  information fields (types 2 and 1 of an encoding), and \<open>ex_long_mode\<close> the value of
  EFER.LMA, which the exit of an unrestricted guest stores into the VM-entry control.
\<close>

record vmx_exit =
  ex_cpu :: machine
  ex_gprs :: registers
  ex_fields :: vmcs_fields
  ex_long_mode :: bool

datatype vmx_event =
    EntryFailure u64 u64
  | GuestExit vmx_exit

definition saved_on_exit :: "u32 \<Rightarrow> bool" where
  "saved_on_exit f \<longleftrightarrow> get_bits 10 11 f = 1 \<or> get_bits 10 11 f = 2"

definition fields_after_exit :: "vmx_exit \<Rightarrow> vmcs_fields \<Rightarrow> vmcs_fields" where
  "fields_after_exit ex fs =
     (\<lambda>f. if saved_on_exit f then ex_fields ex f
          else if f = VMENTRY_CONTROLS \<and> bit (fs SECONDARY_PROCBASED_EXEC_CONTROLS) 7
               then set_flag 9 (ex_long_mode ex) (fs f)
          else fs f)"

text \<open>Host state is loaded from the host-state fields.\<close>

definition load_host_state :: "vmcs_fields \<Rightarrow> 'm machine_scheme \<Rightarrow> 'm machine_scheme" where
  "load_host_state fs m =
     m\<lparr>cr0_reg := fs HOST_CR0, cr3_reg := fs HOST_CR3, cr4_reg := fs HOST_CR4,
       msrs := (msrs m)(IA32_FS_BASE := fs HOST_FS_BASE, IA32_GS_BASE := fs HOST_GS_BASE,
         IA32_SYSENTER_CS := fs HOST_SYSENTER_CS, IA32_SYSENTER_ESP := fs HOST_SYSENTER_ESP,
         IA32_SYSENTER_EIP := fs HOST_SYSENTER_EIP),
       gdtr_reg := \<lparr>dtr_base = fs HOST_GDTR_BASE, dtr_limit = 0xffff\<rparr>,
       idtr_reg := \<lparr>dtr_base = fs HOST_IDTR_BASE, dtr_limit = 0xffff\<rparr>,
       es_sel := ucast (fs HOST_ES_SELECTOR), cs_sel := ucast (fs HOST_CS_SELECTOR),
       ss_sel := ucast (fs HOST_SS_SELECTOR), ds_sel := ucast (fs HOST_DS_SELECTOR),
       fs_sel := ucast (fs HOST_FS_SELECTOR), gs_sel := ucast (fs HOST_GS_SELECTOR),
       tr_sel := ucast (fs HOST_TR_SELECTOR), ldtr_sel := 0, dr7_reg := 0x400\<rparr>"

text \<open>
  VMLAUNCH or VMRESUME on the current VMCS, \<open>pa\<close>, up to the label \<open>.Exit\<close> of \<open>run_guest.S\<close>,
  with the flags that the function returns. RFLAGS is 2 after a VM exit.
\<close>

definition enter_guest :: "vmx_event \<Rightarrow> u64 \<Rightarrow> registers \<Rightarrow> vmx_machine \<Rightarrow> u64 \<times> registers \<times> vmx_machine" where
  "enter_guest ev pa r m =
     (case ev of
        EntryFailure flags n \<Rightarrow>
          (flags, r, m\<lparr>vmcs_fields := (vmcs_fields m)(pa := (vmcs_fields m pa)(VM_INSTRUCTION_ERROR := n))\<rparr>)
      | GuestExit ex \<Rightarrow>
          let fs = fields_after_exit ex (vmcs_fields m pa);
              r1 = (ex_gprs ex)\<lparr>rip := rip r, rsp := rsp r, rflags := rflags r\<rparr>
          in (2, r1, load_host_state fs (machine.extend (ex_cpu ex)
                (vmx_machine.fields (vmxon_ptr m) (current_vmcs m) ((vmcs_fields m)(pa := fs)) ((vmcs_launched m)(pa := True))))))"

text \<open>
  \<open>run_vmx_guest\<close>: VMRESUME first; when it fails because the VMCS was never launched (error
  5), host RSP and RIP are written and VMLAUNCH is executed. Without a current VMCS the
  entry fails with CF.
\<close>

definition run_vmx_guest ::
  "u64 \<times> u64 \<Rightarrow> vmx_event \<Rightarrow> registers \<Rightarrow> vmx_machine \<Rightarrow> u64 \<times> registers \<times> vmx_machine" where
  "run_vmx_guest rsp_rip ev r m =
     (case (vmxon_ptr m, current_vmcs m) of
        (Some _, Some pa) \<Rightarrow>
          if vmcs_launched m pa then enter_guest ev pa r m
          else
            let fs = (vmcs_fields m pa)(VM_INSTRUCTION_ERROR := 5, HOST_RSP := fst rsp_rip, HOST_RIP := snd rsp_rip)
            in enter_guest ev pa r (m\<lparr>vmcs_fields := (vmcs_fields m)(pa := fs)\<rparr>)
      | _ \<Rightarrow> (FLAGS_CF, r, m))"

definition instruction_info :: "bool \<Rightarrow> registers \<Rightarrow> vmx_machine \<Rightarrow> InstructionInfo rust" where
  "instruction_info oc r m =
     and_then (vmread VMEXIT_INSTRUCTION_LEN m) (\<lambda>len.
     and_then (add_checked oc (rip r) len) (\<lambda>n. Inr \<lparr>next_rip = n\<rparr>))"

text \<open>The match on the exit reason.\<close>

definition vmx_exit_reason ::
  "bool \<Rightarrow> cpuid_fun \<Rightarrow> VmxGuest \<Rightarrow> vmx_machine \<Rightarrow> (VmExitReason \<times> VmxGuest \<times> vmx_machine) rust" where
  "vmx_exit_reason oc cpuid g m =
     (let with_info = (\<lambda>reason. and_then (instruction_info oc (vmx_registers g) m) (\<lambda>info. Inr (reason info, g, m))) in
      and_then (vmread EXIT_REASON m) (\<lambda>exit_reason.
      let why = (ucast exit_reason :: u16) in
      if why = 3 then and_then (vmx_handle_init_signal cpuid g m) (\<lambda>(g1, m1). Inr (InitSignal, g1, m1))
      else if why = 4 then and_then (vmx_handle_sipi_signal g m) (\<lambda>(g1, m1). Inr (StartupIpi, g1, m1))
      else if why = 10 then with_info Cpuid
      else if why = 31 then with_info Rdmsr
      else if why = 32 then with_info Wrmsr
      else if why = 55 then with_info XSetBv
      else if why = 18 then with_info VmCall
      else Inl (ExplicitPanic ''Unhandled VM-exit reason'')))"

definition VmxGuest_run ::
  "bool \<Rightarrow> cpuid_fun \<Rightarrow> u64 \<times> u64 \<Rightarrow> vmx_event \<Rightarrow> VmxGuest \<Rightarrow> vmx_machine \<Rightarrow> (VmExitReason \<times> VmxGuest \<times> vmx_machine) rust" where
  "VmxGuest_run oc cpuid rsp_rip ev g m =
     (let r = vmx_registers g in
      and_then (vmwrite_all [(GUEST_RIP, rip r), (GUEST_RSP, rsp r), (GUEST_RFLAGS, rflags r)] m) (\<lambda>m1.
      case run_vmx_guest rsp_rip ev r m1 of (flags, r1, m2) \<Rightarrow>
      and_then (vmx_succeed flags m2) (\<lambda>res.
      case res of Inl err \<Rightarrow> Inl (ExplicitPanic err) | Inr _ \<Rightarrow>
      and_then (vmread GUEST_RIP m2) (\<lambda>a.
      and_then (vmread GUEST_RSP m2) (\<lambda>b.
      and_then (vmread GUEST_RFLAGS m2) (\<lambda>c.
      vmx_exit_reason oc cpuid (g\<lparr>vmx_registers := r1\<lparr>rip := a, rsp := b, rflags := c\<rparr>\<rparr>) m2))))))"

definition VmxGuest_load_guest_cpu_state :: "VmxGuest \<Rightarrow> vmx_machine \<Rightarrow> vmx_machine rust" where
  "VmxGuest_load_guest_cpu_state g m =
     and_then (vmread GUEST_CR3 m) (\<lambda>v. let m1 = cr3_write v m in
     and_then (vmread GUEST_CR0 m1) (\<lambda>v. let m2 = cr0_write v m1 in
     and_then (vmread GUEST_CR4 m2) (\<lambda>v. let m3 = cr4_write v m2 in
     and_then (vmread GUEST_FS_BASE m3) (\<lambda>v. let m4 = wrmsr IA32_FS_BASE v m3 in
     and_then (vmread GUEST_GS_BASE m4) (\<lambda>v. let m5 = wrmsr IA32_GS_BASE v m4 in
     and_then (vmread GUEST_GDTR_BASE m5) (\<lambda>base.
     and_then (vmread GUEST_GDTR_LIMIT m5) (\<lambda>limit. let m6 = lgdt \<lparr>dtr_base = base, dtr_limit = ucast limit\<rparr> m5 in
     and_then (vmread GUEST_IDTR_BASE m6) (\<lambda>base.
     and_then (vmread GUEST_IDTR_LIMIT m6) (\<lambda>limit.
     Inr (lidt \<lparr>dtr_base = base, dtr_limit = ucast limit\<rparr> m6))))))))))"

text \<open>The implementation of the traits \<open>Extension\<close> and \<open>Guest\<close> for Intel processors.\<close>

record 'tss vmx_env =
  env_oc :: bool
  env_pa :: "u64 \<Rightarrow> u64"
  env_cpuid :: cpuid_fun
  env_vmxon_va :: u64
  env_vmcs_va :: u64
  env_msr_bitmaps_va :: u64
  env_eptp :: u64
  env_host_data :: "'tss shared_host_data option"
  env_rsp_rip :: "u64 \<times> u64"

definition vmx_arch ::
  "'tss vmx_env \<Rightarrow> (Vmx, VmxGuest, vmx_event, \<lparr>vmxon_ptr :: u64 option, current_vmcs :: u64 option,
     vmcs_fields :: u64 \<Rightarrow> vmcs_fields, vmcs_launched :: u64 \<Rightarrow> bool\<rparr>) architecture" where
  "vmx_arch e =
     \<lparr>ext_default = Vmx_default (env_vmxon_va e),
      enable = Vmx_enable (env_pa e),
      disable = Vmx_disable,
      guest_new = VmxGuest_new (env_pa e) (env_vmcs_va e),
      activate = VmxGuest_activate (env_pa e),
      initialize = VmxGuest_initialize (env_oc e) (env_pa e) (env_msr_bitmaps_va e) (env_eptp e) (env_host_data e),
      run = VmxGuest_run (env_oc e) (env_cpuid e) (env_rsp_rip e),
      deactivate = VmxGuest_deactivate (env_pa e),
      load_guest_cpu_state = VmxGuest_load_guest_cpu_state,
      regs = vmx_registers,
      set_regs = (\<lambda>r g. g\<lparr>vmx_registers := r\<rparr>)\<rparr>"

section \<open>Sequences of VMWRITEs\<close>

definition put_all :: "(u32 \<times> u64) list \<Rightarrow> vmcs_fields \<Rightarrow> vmcs_fields" where
  "put_all ws fs = fold (\<lambda>(k, v) f. f(k := v)) ws fs"

lemma put_all_simps [simp]:
  "put_all [] fs = fs"
  "put_all ((k, v) # ws) fs = put_all ws (fs(k := v))"
  by (simp_all add: put_all_def)

text \<open>The processor is in VMX operation with the current VMCS \<open>pa\<close>.\<close>

definition vmx_current :: "u64 \<Rightarrow> vmx_machine \<Rightarrow> bool" where
  "vmx_current pa m \<longleftrightarrow> vmxon_ptr m \<noteq> None \<and> vmxon_ptr m \<noteq> Some pa \<and> current_vmcs m = Some pa"

named_theorems vmcs_simps "accesses to the current VMCS"

lemma vmread_current [vmcs_simps]: "vmx_current pa m \<Longrightarrow> vmread f m = Inr (vmcs_fields m pa f)"
  by (auto simp: vmx_current_def vmread_def vmread_instr_def)

lemma vmx_current_vmcs_fields [simp]: "vmx_current pa (m\<lparr>vmcs_fields := f\<rparr>) = vmx_current pa m"
  by (simp add: vmx_current_def)

lemma vmwrite_all_current [vmcs_simps]:
  "vmx_current pa m \<Longrightarrow>
     vmwrite_all ws m = Inr (m\<lparr>vmcs_fields := (vmcs_fields m)(pa := put_all ws (vmcs_fields m pa))\<rparr>)"
proof (induction ws arbitrary: m)
  case Nil
  then show ?case by simp
next
  case (Cons w ws)
  obtain f v where w: "w = (f, v)" by force
  define m1 where "m1 = m\<lparr>vmcs_fields := (vmcs_fields m)(pa := (vmcs_fields m pa)(f := v))\<rparr>"
  from Cons.prems have "vmwrite f v m = Inr m1"
    by (auto simp: vmwrite_def vmwrite_instr_def vmx_current_def m1_def)
  moreover from Cons.prems have "vmx_current pa m1" by (simp add: m1_def)
  moreover have "m1\<lparr>vmcs_fields := (vmcs_fields m1)(pa := put_all ws (vmcs_fields m1 pa))\<rparr>
      = m\<lparr>vmcs_fields := (vmcs_fields m)(pa := put_all (w # ws) (vmcs_fields m pa))\<rparr>"
    by (simp add: m1_def w)
  ultimately show ?case using Cons.IH [of m1] unfolding w by (simp only: vmwrite_all.simps and_then_Inr)
qed

declare vmwrite_all.simps [simp del] put_all_simps [simp del]

lemma load_host_state_vmx [simp]:
  "vmxon_ptr (load_host_state fs m) = vmxon_ptr m" "current_vmcs (load_host_state fs m) = current_vmcs m"
  "vmcs_fields (load_host_state fs m) = vmcs_fields m" "vmcs_launched (load_host_state fs m) = vmcs_launched m"
  unfolding load_host_state_def by (rule vmx_machine.cases_scheme [of m], simp)+

lemma vmx_current_wrappers [simp]:
  "vmx_current pa (write_cr2 v m) = vmx_current pa m" "vmx_current pa (cr0_write v m) = vmx_current pa m"
  "vmx_current pa (cr3_write v m) = vmx_current pa m" "vmx_current pa (cr4_write v m) = vmx_current pa m"
  "vmx_current pa (wrmsr msr v m) = vmx_current pa m" "vmx_current pa (lgdt d m) = vmx_current pa m"
  "vmx_current pa (lidt d m) = vmx_current pa m" "vmx_current pa (reset_debug_registers m) = vmx_current pa m"
  "vmx_current pa (m\<lparr>cr4_reg := a, xcr0_reg := b\<rparr>) = vmx_current pa m"
  "vmx_current pa (load_host_state fs m) = vmx_current pa m"
  by (simp_all add: vmx_current_def machine_simps reset_debug_registers_def)

lemma vmcs_fields_wrappers [simp]:
  "vmcs_fields (write_cr2 v m) = vmcs_fields m" "vmcs_fields (cr0_write v m) = vmcs_fields m"
  "vmcs_fields (cr3_write v m) = vmcs_fields m" "vmcs_fields (cr4_write v m) = vmcs_fields m"
  "vmcs_fields (wrmsr msr v m) = vmcs_fields m" "vmcs_fields (lgdt d m) = vmcs_fields m"
  "vmcs_fields (lidt d m) = vmcs_fields m" "vmcs_fields (reset_debug_registers m) = vmcs_fields m"
  by (simp_all add: machine_simps reset_debug_registers_def)

lemma adjusted_guest_cr0_current [vmcs_simps]:
  "vmx_current pa m \<Longrightarrow> get_adjusted_guest_cr0 c m =
     Inr (let new_cr0 = get_adjusted_cr0 c m in
          if ucast (vmcs_fields m pa SECONDARY_PROCBASED_EXEC_CONTROLS) AND UNRESTRICTED_GUEST \<noteq> 0
          then (new_cr0 AND NOT (CR0_PROTECTED_MODE OR CR0_ENABLE_PAGING)) OR (c AND (CR0_PROTECTED_MODE OR CR0_ENABLE_PAGING))
          else new_cr0)"
  by (simp add: get_adjusted_guest_cr0_def vmcs_simps Let_def)

lemma init_signal_total:
  assumes "vmx_current pa m" and "1 \<le> eax (cpuid 0 0)"
  shows "\<exists>g' m'. vmx_handle_init_signal cpuid g m = Inr (g', m')"
  using assms by (simp add: vmx_handle_init_signal_def vmcs_simps Let_def get_feature_info_def)

lemma init_signal_current:
  "vmx_current pa m \<Longrightarrow> vmx_handle_init_signal cpuid g m = Inr (g', m') \<Longrightarrow> vmx_current pa m' \<and> vmcs g' = vmcs g"
  by (auto simp: vmx_handle_init_signal_def vmcs_simps Let_def rust_simps)

text \<open>The captured registers after INIT.\<close>

definition init_registers :: "cpuid_fun \<Rightarrow> registers \<Rightarrow> registers" where
  "init_registers cpuid r =
     Registers_default\<lparr>rflags := 2, rip := 0xfff0, rdx := 0x600 OR push_bit 16 (ucast (extended_model_id (cpuid 1 0))),
       xmm0 := xmm0 r, xmm1 := xmm1 r, xmm2 := xmm2 r, xmm3 := xmm3 r, xmm4 := xmm4 r, xmm5 := xmm5 r\<rparr>"

lemma init_registers:
  "r\<lparr>rflags := 2, rip := 0xfff0, rdx := 0x600 OR push_bit 16 (ucast (extended_model_id (cpuid 1 0))),
     rax := 0, rbx := 0, rcx := 0, rsi := 0, rdi := 0, rbp := 0, rsp := 0,
     r8 := 0, r9 := 0, r10 := 0, r11 := 0, r12 := 0, r13 := 0, r14 := 0, r15 := 0\<rparr> = init_registers cpuid r"
  by (cases r) (simp add: init_registers_def Registers_default_def)

lemma init_rights:
  "ucast (set_segment_present True (set_descriptor_type True (set_segment_type 0xb 0))) = (0x9b :: u64)"
  "ucast (set_segment_type 0x3 (set_segment_present True (set_descriptor_type True (set_segment_type 0xb 0)))) = (0x93 :: u64)"
  "ucast (set_descriptor_type False (set_segment_type 0x2 (set_segment_type 0x3
     (set_segment_present True (set_descriptor_type True (set_segment_type 0xb 0)))))) = (0x82 :: u64)"
  "ucast (set_segment_type 0xb (set_descriptor_type False (set_segment_type 0x2 (set_segment_type 0x3
     (set_segment_present True (set_descriptor_type True (set_segment_type 0xb 0))))))) = (0x8b :: u64)"
  by (simp_all add: set_segment_present_def set_descriptor_type_def set_segment_type_def set_flag_def set_field_def mask_eq_exp_minus_1)

lemma adjusted_cr_vmcs [simp]:
  "get_adjusted_cr0 c (m\<lparr>vmcs_fields := f\<rparr>) = get_adjusted_cr0 c m" "get_adjusted_cr0 c (write_cr2 v m) = get_adjusted_cr0 c m"
  by (simp_all add: get_adjusted_cr0_def machine_simps)

text \<open>
  The state after INIT by the manual (table 10-1 of volume 3): the VMCS fields with a fixed
  value. CR0 and CR4 depend on the bits that VMX operation fixes and are treated apart.
\<close>

definition init_state :: "(u32 \<times> u64) list" where
  "init_state =
     [(GUEST_RIP, 0xfff0), (GUEST_RSP, 0), (GUEST_RFLAGS, 2),
      (GUEST_CR3, 0), (CR0_READ_SHADOW, 0), (CR4_READ_SHADOW, 0), (GUEST_IA32_EFER_FULL, 0),
      (GUEST_CS_SELECTOR, 0xf000), (GUEST_CS_BASE, 0xffff0000), (GUEST_CS_LIMIT, 0xffff), (GUEST_CS_ACCESS_RIGHTS, 0x9b),
      (GUEST_SS_SELECTOR, 0), (GUEST_SS_BASE, 0), (GUEST_SS_LIMIT, 0xffff), (GUEST_SS_ACCESS_RIGHTS, 0x93),
      (GUEST_DS_SELECTOR, 0), (GUEST_DS_BASE, 0), (GUEST_DS_LIMIT, 0xffff), (GUEST_DS_ACCESS_RIGHTS, 0x93),
      (GUEST_ES_SELECTOR, 0), (GUEST_ES_BASE, 0), (GUEST_ES_LIMIT, 0xffff), (GUEST_ES_ACCESS_RIGHTS, 0x93),
      (GUEST_FS_SELECTOR, 0), (GUEST_FS_BASE, 0), (GUEST_FS_LIMIT, 0xffff), (GUEST_FS_ACCESS_RIGHTS, 0x93),
      (GUEST_GS_SELECTOR, 0), (GUEST_GS_BASE, 0), (GUEST_GS_LIMIT, 0xffff), (GUEST_GS_ACCESS_RIGHTS, 0x93),
      (GUEST_LDTR_SELECTOR, 0), (GUEST_LDTR_BASE, 0), (GUEST_LDTR_LIMIT, 0xffff), (GUEST_LDTR_ACCESS_RIGHTS, 0x82),
      (GUEST_TR_SELECTOR, 0), (GUEST_TR_BASE, 0), (GUEST_TR_LIMIT, 0xffff), (GUEST_TR_ACCESS_RIGHTS, 0x8b),
      (GUEST_GDTR_BASE, 0), (GUEST_GDTR_LIMIT, 0xffff), (GUEST_IDTR_BASE, 0), (GUEST_IDTR_LIMIT, 0xffff),
      (GUEST_ACTIVITY_STATE, 3)]"

lemma init_wrappers:
  "cr2_reg (reset_debug_registers m) = cr2_reg m" "cr2_reg (write_cr2 v m) = v"
  "msrs (reset_debug_registers m) = msrs m" "msrs (write_cr2 v m) = msrs m"
  "dr0_reg (reset_debug_registers m) = 0" "dr1_reg (reset_debug_registers m) = 0"
  "dr2_reg (reset_debug_registers m) = 0" "dr3_reg (reset_debug_registers m) = 0"
  "dr6_reg (reset_debug_registers m) = 0xffff0ff0" "dr7_reg (reset_debug_registers m) = 0x400"
  by (simp_all add: reset_debug_registers_def write_cr2_def)

lemma init_signal_fields:
  assumes "vmx_current pa m" and "1 \<le> eax (cpuid 0 0)"
  shows "\<exists>g' m'. vmx_handle_init_signal cpuid g m = Inr (g', m') \<and> vmx_registers g' = init_registers cpuid (vmx_registers g)
    \<and> list_all (\<lambda>(f, v). vmcs_fields m' pa f = v) init_state
    \<and> (\<forall>f. f \<notin> fst ` set init_state \<longrightarrow> f \<notin> {GUEST_CR0, GUEST_CR4, VMENTRY_CONTROLS} \<longrightarrow> vmcs_fields m' pa f = vmcs_fields m pa f)
    \<and> vmcs_fields m' pa VMENTRY_CONTROLS = vmcs_fields m pa VMENTRY_CONTROLS AND NOT 0x200
    \<and> get_adjusted_guest_cr0 CR0_EXTENSION_TYPE m = Inr (vmcs_fields m' pa GUEST_CR0)
    \<and> vmcs_fields m' pa GUEST_CR4 = rdmsr IA32_VMX_CR4_FIXED0 m
    \<and> cr2_reg m' = 0 \<and> dr0_reg m' = 0 \<and> dr1_reg m' = 0 \<and> dr2_reg m' = 0 \<and> dr3_reg m' = 0
    \<and> dr6_reg m' = 0xffff0ff0 \<and> dr7_reg m' = 0x400 \<and> msrs m' = msrs m"
  using assms
  by (simp add: vmx_handle_init_signal_def vmcs_simps Let_def get_feature_info_def put_all_simps init_registers
      init_rights init_segment_def init_state_def get_adjusted_guest_cr4_def get_adjusted_cr4_def rdmsr_def init_wrappers)

lemma sipi_signal_current:
  "vmx_current pa m \<Longrightarrow> vmx_handle_sipi_signal g m =
     Inr (g\<lparr>vmx_registers := (vmx_registers g)\<lparr>rip := 0\<rparr>\<rparr>,
          m\<lparr>vmcs_fields := (vmcs_fields m)(pa := put_all
             [(GUEST_CS_SELECTOR, push_bit 8 (vmcs_fields m pa EXIT_QUALIFICATION)),
              (GUEST_CS_BASE, push_bit 12 (vmcs_fields m pa EXIT_QUALIFICATION)), (GUEST_RIP, 0),
              (GUEST_ACTIVITY_STATE, 0)] (vmcs_fields m pa))\<rparr>)"
  by (simp add: vmx_handle_sipi_signal_def vmcs_simps Let_def)

lemma instruction_info_current [vmcs_simps]:
  "vmx_current pa m \<Longrightarrow> instruction_info oc r m =
     and_then (add_checked oc (rip r) (vmcs_fields m pa VMEXIT_INSTRUCTION_LEN)) (\<lambda>n. Inr \<lparr>next_rip = n\<rparr>)"
  by (simp add: instruction_info_def vmcs_simps)

lemma enter_guest_current:
  assumes "vmx_current pa m" and "enter_guest ev pa r m = (flags, r', m')"
  shows "vmx_current pa m'"
proof (cases ev)
  case (GuestExit ex)
  with assms show ?thesis
    by (auto simp: enter_guest_def Let_def vmx_current_def vmx_machine.defs machine.defs)
qed (use assms in \<open>auto simp: enter_guest_def\<close>)

lemma run_vmx_guest_cases:
  assumes "vmx_current pa m"
  obtains m1 where "vmx_current pa m1" and "run_vmx_guest rsp_rip ev r m = enter_guest ev pa r m1"
    and "\<And>f. f \<noteq> VM_INSTRUCTION_ERROR \<Longrightarrow> f \<noteq> HOST_RSP \<Longrightarrow> f \<noteq> HOST_RIP \<Longrightarrow> vmcs_fields m1 pa f = vmcs_fields m pa f"
proof -
  from assms obtain p where p: "vmxon_ptr m = Some p" "current_vmcs m = Some pa"
    by (auto simp: vmx_current_def)
  show ?thesis
  proof (cases "vmcs_launched m pa")
    case True
    with p assms show ?thesis by (intro that [of m]) (simp_all add: run_vmx_guest_def)
  next
    case False
    define fs where "fs = (vmcs_fields m pa)(VM_INSTRUCTION_ERROR := 5, HOST_RSP := fst rsp_rip, HOST_RIP := snd rsp_rip)"
    from False p assms show ?thesis
      by (intro that [of "m\<lparr>vmcs_fields := (vmcs_fields m)(pa := fs)\<rparr>"]) (simp_all add: run_vmx_guest_def fs_def Let_def)
  qed
qed

lemma exit_reason_current:
  assumes c: "vmx_current pa m" and "vmx_exit_reason oc cpuid g m = Inr (reason, g', m')"
  shows "vmx_current pa m' \<and> vmcs g' = vmcs g"
  using assms(2) c init_signal_current [OF c]
  by (auto simp: vmx_exit_reason_def vmread_current [OF c] Let_def rust_simps sipi_signal_current [OF c] split: if_splits)

lemma VmxGuest_run_unfold:
  assumes c: "vmx_current pa m"
  obtains m1 flags r1 m2 where "vmx_current pa m1" and "enter_guest ev pa (vmx_registers g) m1 = (flags, r1, m2)"
    and "vmx_current pa m2"
    and "\<And>f. f \<notin> {VM_INSTRUCTION_ERROR, HOST_RSP, HOST_RIP, GUEST_RIP, GUEST_RSP, GUEST_RFLAGS} \<Longrightarrow> vmcs_fields m1 pa f = vmcs_fields m pa f"
    and "VmxGuest_run oc cpuid rsp_rip ev g m =
      and_then (vmx_succeed flags m2) (\<lambda>res. case res of Inl err \<Rightarrow> Inl (ExplicitPanic err) | Inr _ \<Rightarrow>
        vmx_exit_reason oc cpuid (g\<lparr>vmx_registers := r1\<lparr>rip := vmcs_fields m2 pa GUEST_RIP,
           rsp := vmcs_fields m2 pa GUEST_RSP, rflags := vmcs_fields m2 pa GUEST_RFLAGS\<rparr>\<rparr>) m2)"
proof -
  define m0 where "m0 = m\<lparr>vmcs_fields := (vmcs_fields m)(pa := put_all
     [(GUEST_RIP, rip (vmx_registers g)), (GUEST_RSP, rsp (vmx_registers g)), (GUEST_RFLAGS, rflags (vmx_registers g))]
     (vmcs_fields m pa))\<rparr>"
  have c0: "vmx_current pa m0" using c by (simp add: m0_def)
  obtain m1 where c1: "vmx_current pa m1" and e: "run_vmx_guest rsp_rip ev (vmx_registers g) m0 = enter_guest ev pa (vmx_registers g) m1"
    and f: "\<And>f. f \<noteq> VM_INSTRUCTION_ERROR \<Longrightarrow> f \<noteq> HOST_RSP \<Longrightarrow> f \<noteq> HOST_RIP \<Longrightarrow> vmcs_fields m1 pa f = vmcs_fields m0 pa f"
    using run_vmx_guest_cases [OF c0, of rsp_rip ev "vmx_registers g"] by blast
  obtain flags r1 m2 where r: "enter_guest ev pa (vmx_registers g) m1 = (flags, r1, m2)" by (metis prod_cases3)
  note c2 = enter_guest_current [OF c1 r]
  show ?thesis
  proof (rule that [OF c1 r c2])
    fix f assume "f \<notin> {VM_INSTRUCTION_ERROR, HOST_RSP, HOST_RIP, GUEST_RIP, GUEST_RSP, GUEST_RFLAGS}"
    with f [of f] show "vmcs_fields m1 pa f = vmcs_fields m pa f" by (simp add: m0_def put_all_simps)
  next
    show "VmxGuest_run oc cpuid rsp_rip ev g m =
      and_then (vmx_succeed flags m2) (\<lambda>res. case res of Inl err \<Rightarrow> Inl (ExplicitPanic err) | Inr _ \<Rightarrow>
        vmx_exit_reason oc cpuid (g\<lparr>vmx_registers := r1\<lparr>rip := vmcs_fields m2 pa GUEST_RIP,
           rsp := vmcs_fields m2 pa GUEST_RSP, rflags := vmcs_fields m2 pa GUEST_RFLAGS\<rparr>\<rparr>) m2)"
      by (simp add: VmxGuest_run_def Let_def vmwrite_all_current [OF c] m0_def [symmetric] e r vmread_current [OF c2])
  qed
qed

lemma VmxGuest_run_current:
  assumes c: "vmx_current pa m" and run: "VmxGuest_run oc cpuid rsp_rip ev g m = Inr (reason, g', m')"
  shows "vmx_current pa m' \<and> vmcs g' = vmcs g"
proof (rule VmxGuest_run_unfold [OF c, where ev = ev and g = g and oc = oc and cpuid = cpuid and rsp_rip = rsp_rip])
  fix flags r1 m2
  assume c2: "vmx_current pa m2" and "VmxGuest_run oc cpuid rsp_rip ev g m =
      and_then (vmx_succeed flags m2) (\<lambda>res. case res of Inl err \<Rightarrow> Inl (ExplicitPanic err) | Inr _ \<Rightarrow>
        vmx_exit_reason oc cpuid (g\<lparr>vmx_registers := r1\<lparr>rip := vmcs_fields m2 pa GUEST_RIP,
           rsp := vmcs_fields m2 pa GUEST_RSP, rflags := vmcs_fields m2 pa GUEST_RFLAGS\<rparr>\<rparr>) m2)"
  moreover from this run obtain res where "vmx_succeed flags m2 = Inr res" by (cases "vmx_succeed flags m2") auto
  ultimately have "vmx_exit_reason oc cpuid (g\<lparr>vmx_registers := r1\<lparr>rip := vmcs_fields m2 pa GUEST_RIP,
      rsp := vmcs_fields m2 pa GUEST_RSP, rflags := vmcs_fields m2 pa GUEST_RFLAGS\<rparr>\<rparr>) m2 = Inr (reason, g', m')"
    using run by (cases res) simp_all
  from exit_reason_current [OF c2 this] show ?thesis by simp
qed

text \<open>A successful VM entry: the registers and the fields after the exit are those of the event.\<close>

lemma VmxGuest_run_exit:
  assumes c: "vmx_current pa m"
  obtains m2 where "vmx_current pa m2" and "\<And>f. saved_on_exit f \<Longrightarrow> vmcs_fields m2 pa f = ex_fields ex f"
    and "\<And>f. \<not> saved_on_exit f \<Longrightarrow> f \<notin> {HOST_RSP, HOST_RIP, VMENTRY_CONTROLS} \<Longrightarrow> vmcs_fields m2 pa f = vmcs_fields m pa f"
    and "\<exists>m0. m2 = load_host_state (vmcs_fields m2 pa) m0 \<and> machine.truncate m0 = ex_cpu ex"
    and "VmxGuest_run oc cpuid rsp_rip (GuestExit ex) g m =
        vmx_exit_reason oc cpuid (g\<lparr>vmx_registers := (ex_gprs ex)\<lparr>rip := ex_fields ex GUEST_RIP,
           rsp := ex_fields ex GUEST_RSP, rflags := ex_fields ex GUEST_RFLAGS\<rparr>\<rparr>) m2"
proof (rule VmxGuest_run_unfold [OF c, where ev = "GuestExit ex" and g = g and oc = oc and cpuid = cpuid and rsp_rip = rsp_rip])
  fix m1 flags r1 m2
  assume r: "enter_guest (GuestExit ex) pa (vmx_registers g) m1 = (flags, r1, m2)" and c2: "vmx_current pa m2"
    and f: "\<And>f. f \<notin> {VM_INSTRUCTION_ERROR, HOST_RSP, HOST_RIP, GUEST_RIP, GUEST_RSP, GUEST_RFLAGS} \<Longrightarrow> vmcs_fields m1 pa f = vmcs_fields m pa f"
    and run: "VmxGuest_run oc cpuid rsp_rip (GuestExit ex) g m =
      and_then (vmx_succeed flags m2) (\<lambda>res. case res of Inl err \<Rightarrow> Inl (ExplicitPanic err) | Inr _ \<Rightarrow>
        vmx_exit_reason oc cpuid (g\<lparr>vmx_registers := r1\<lparr>rip := vmcs_fields m2 pa GUEST_RIP,
           rsp := vmcs_fields m2 pa GUEST_RSP, rflags := vmcs_fields m2 pa GUEST_RFLAGS\<rparr>\<rparr>) m2)"
  have saved: "saved_on_exit GUEST_RIP" "saved_on_exit GUEST_RSP" "saved_on_exit GUEST_RFLAGS" "saved_on_exit VM_INSTRUCTION_ERROR"
    by (simp_all add: saved_on_exit_def get_bits_def)
  define fs where "fs = fields_after_exit ex (vmcs_fields m1 pa)"
  from r have fl: "flags = 2" and r1: "r1 = (ex_gprs ex)\<lparr>rip := rip (vmx_registers g), rsp := rsp (vmx_registers g), rflags := rflags (vmx_registers g)\<rparr>"
    and fs: "vmcs_fields m2 pa = fs"
    by (auto simp: enter_guest_def Let_def fs_def vmx_machine.defs machine.defs)
  from r have host: "\<exists>m0. m2 = load_host_state fs m0 \<and> machine.truncate m0 = ex_cpu ex"
    by (auto simp: enter_guest_def Let_def fs_def vmx_machine.defs machine.defs)
  show thesis
  proof (rule that [OF c2])
    show "saved_on_exit f \<Longrightarrow> vmcs_fields m2 pa f = ex_fields ex f" for f
      unfolding fs fs_def fields_after_exit_def by simp
    fix f assume "\<not> saved_on_exit f" "f \<notin> {HOST_RSP, HOST_RIP, VMENTRY_CONTROLS}"
    with f [of f] saved show "vmcs_fields m2 pa f = vmcs_fields m pa f"
      unfolding fs fs_def fields_after_exit_def by auto
  next
    show "\<exists>m0. m2 = load_host_state (vmcs_fields m2 pa) m0 \<and> machine.truncate m0 = ex_cpu ex" using host fs by simp
    show "VmxGuest_run oc cpuid rsp_rip (GuestExit ex) g m =
        vmx_exit_reason oc cpuid (g\<lparr>vmx_registers := (ex_gprs ex)\<lparr>rip := ex_fields ex GUEST_RIP,
           rsp := ex_fields ex GUEST_RSP, rflags := ex_fields ex GUEST_RFLAGS\<rparr>\<rparr>) m2"
      using saved by (simp add: run fl vmx_succeed_def flags_contain_def r1 fs) (simp add: fs_def fields_after_exit_def)
  qed
qed

section \<open>The contract of the host\<close>

definition vmx_ready :: "'tss vmx_env \<Rightarrow> Vmx \<Rightarrow> VmxGuest \<Rightarrow> vmx_machine \<Rightarrow> bool" where
  "vmx_ready e vt g m \<longleftrightarrow>
     aligned_4k (env_pa e (region_va (vmcs g))) \<and> vmx_current (env_pa e (region_va (vmcs g))) m"

text \<open>The processor after \<open>load_guest_cpu_state\<close>.\<close>

definition restored :: "vmcs_fields \<Rightarrow> vmx_machine \<Rightarrow> vmx_machine" where
  "restored fs m =
     m\<lparr>cr0_reg := fs GUEST_CR0, cr3_reg := fs GUEST_CR3, cr4_reg := fs GUEST_CR4,
       msrs := (msrs m)(IA32_FS_BASE := fs GUEST_FS_BASE, IA32_GS_BASE := fs GUEST_GS_BASE),
       gdtr_reg := \<lparr>dtr_base = fs GUEST_GDTR_BASE, dtr_limit = ucast (fs GUEST_GDTR_LIMIT)\<rparr>,
       idtr_reg := \<lparr>dtr_base = fs GUEST_IDTR_BASE, dtr_limit = ucast (fs GUEST_IDTR_LIMIT)\<rparr>\<rparr>"

lemma load_guest_cpu_state_current:
  "vmx_current pa m \<Longrightarrow> VmxGuest_load_guest_cpu_state g m = Inr (restored (vmcs_fields m pa) m)"
  by (simp add: VmxGuest_load_guest_cpu_state_def vmcs_simps Let_def) (simp add: restored_def machine_simps)

lemma vmx_current_restored [simp]: "vmx_current pa (restored fs m) = vmx_current pa m"
  by (simp add: restored_def vmx_current_def)

lemma deactivate_current:
  assumes "vmx_current (pa_of (region_va (vmcs g))) m" and "aligned_4k (pa_of (region_va (vmcs g)))"
  shows "VmxGuest_deactivate pa_of g m = Inr (g, m\<lparr>vmcs_launched := (vmcs_launched m)(pa_of (region_va (vmcs g)) := False),
           current_vmcs := None\<rparr>)"
  using assms by (auto simp: VmxGuest_deactivate_def vmclear_def vmclear_instr_def vmx_current_def Let_def)

lemma vmx_leave:
  assumes "vmx_ready e vt g m"
  defines "pa \<equiv> env_pa e (region_va (vmcs g))"
  shows "\<exists>m2. VmxGuest_load_guest_cpu_state g m = Inr (restored (vmcs_fields m pa) m)
     \<and> VmxGuest_deactivate (env_pa e) g (restored (vmcs_fields m pa) m) = Inr (g, m2)
     \<and> Vmx_disable vt m2 = Inr (vt, (restored (vmcs_fields m pa) m)\<lparr>vmxon_ptr := None, current_vmcs := None,
          vmcs_launched := (vmcs_launched m)(pa := False)\<rparr>)"
proof -
  from assms have c: "vmx_current pa m" "aligned_4k pa" by (simp_all add: vmx_ready_def)
  then have on: "vmxon_ptr m \<noteq> None" by (simp add: vmx_current_def)
  have "vmcs_launched (restored fs m) = vmcs_launched m" "vmxon_ptr (restored fs m) = vmxon_ptr m" for fs
    by (simp_all add: restored_def)
  with on show ?thesis
    using load_guest_cpu_state_current [OF c(1)]
      deactivate_current [of "env_pa e" g "restored (vmcs_fields m pa) m"] c unfolding pa_def
    by (simp add: Vmx_disable_def vmxoff_def vmxoff_instr_def)
qed

interpretation vmx: host_arch "vmx_arch e" "vmx_ready e" for e :: "'tss vmx_env"
proof
  fix vt g g' m m' ev reason
  assume "vmx_ready e vt g m" and "run (vmx_arch e) ev g m = Inr (reason, g', m')"
  then show "vmx_ready e vt g' m'"
    by (auto simp: vmx_ready_def vmx_arch_def dest: VmxGuest_run_current)
next
  fix vt g m
  assume "vmx_ready e vt g m"
  from vmx_leave [OF this] show "\<exists>m1 g2 m2 vt' m3. load_guest_cpu_state (vmx_arch e) g m = Inr m1
      \<and> deactivate (vmx_arch e) g m1 = Inr (g2, m2) \<and> regs (vmx_arch e) g2 = regs (vmx_arch e) g
      \<and> disable (vmx_arch e) vt m2 = Inr (vt', m3)"
    by (auto simp: vmx_arch_def)
qed (simp_all add: vmx_arch_def vmx_ready_def)

lemma virtualization_keeps_current:
  assumes "vmx_current pa m" and "VmxGuest_initialize oc pa_of va eptp shd r g m = Inr (g', m')"
  shows "vmx_current pa m' \<and> g' = g\<lparr>vmx_registers := r\<rparr>"
proof -
  from assms(2) obtain m1 m2 where c: "vmx_initialize_control pa_of va eptp m = Inr m1"
    and g: "vmx_initialize_guest oc (g\<lparr>vmx_registers := r\<rparr>) m1 = Inr m2"
    and h: "vmx_initialize_host oc shd (g\<lparr>vmx_registers := r\<rparr>) m2 = Inr m'" and g': "g' = g\<lparr>vmx_registers := r\<rparr>"
    by (auto simp: VmxGuest_initialize_def Let_def rust_simps)
  have keeps: "vmx_current pa n \<Longrightarrow> vmwrite_all ws n = Inr n' \<Longrightarrow> vmx_current pa n'" for n n' ws
    using vmwrite_all_current [of pa n ws] by auto
  have c1: "vmx_current pa m1" using c by (auto simp: vmx_initialize_control_def rust_simps intro: keeps [OF assms(1)])
  have "vmx_current pa m2"
    using g by (auto simp: vmx_initialize_guest_def Let_def rust_simps intro: keeps keeps [OF c1])
  then have "vmx_current pa m'"
    using h by (auto simp: vmx_initialize_host_def Let_def rust_simps intro: keeps split: option.splits)
  with g' show ?thesis by simp
qed

lemma virtualize_core_ready:
  assumes "aligned_4k (env_pa e (env_vmcs_va e))" and "env_pa e (env_vmcs_va e) \<noteq> env_pa e (env_vmxon_va e)"
    and "virtualize_core (vmx_arch e) cpuid xcr0_all ids r evs m = Inr (Running vt g m')"
  shows "vmx_ready e vt g m'"
proof -
  let ?pa = "env_pa e (env_vmcs_va e)"
  from assms(3) obtain vt0 m1 n g0 m2 g1 m3 g2 m4 where
    on: "Vmx_enable (env_pa e) (Vmx_default (env_vmxon_va e) m) m = Inr (vt0, m1)"
    and new: "VmxGuest_new (env_pa e) (env_vmcs_va e) n m1 = Inr (g0, m2)"
    and act: "VmxGuest_activate (env_pa e) g0 m2 = Inr (g1, m3)"
    and init: "VmxGuest_initialize (env_oc e) (env_pa e) (env_msr_bitmaps_va e) (env_eptp e) (env_host_data e) r g1 m3 = Inr (g2, m4)"
    and loop: "host_loop (vmx_arch e) cpuid xcr0_all evs (Running vt0 g2 m4) = Inr (Running vt g m')"
    by (auto simp: virtualize_core_def vmx_arch_def rust_simps)
  from on have "vmxon_ptr m1 = Some (env_pa e (env_vmxon_va e))"
    by (auto simp: Vmx_enable_def Vmx_default_def vmxon_def vmxon_instr_def Let_def rust_simps split: if_splits)
  with new have "vmxon_ptr m2 = Some (env_pa e (env_vmxon_va e))" and g0: "region_va (vmcs g0) = env_vmcs_va e"
    by (auto simp: VmxGuest_new_def Vmcs_new_def vmclear_def vmclear_instr_def Let_def rust_simps split: if_splits)
  with act assms(2) have c3: "vmx_current ?pa m3" and g1: "g1 = g0"
    by (auto simp: VmxGuest_activate_def vmptrld_def vmptrld_instr_def vmx_current_def Let_def rust_simps split: if_splits)
  from virtualization_keeps_current [OF c3 init] g0 g1 assms(1) have "vmx_ready e vt0 g2 m4"
    by (simp add: vmx_ready_def)
  with vmx.loop_ready [OF loop] show ?thesis by simp
qed

end
