(* ===== verification/Vmx_Properties.thy ===== *)
theory Vmx_Properties
  imports Vmx_Guest
begin

unbundle bit_operations_syntax

text \<open>
  What the Intel implementation guarantees: the control fields respect the capabilities of
  the processor, the guest goes on in the state it was virtualized in, the INIT and
  start-up signals have their architectural effect, and devirtualization gives the
  processor back.
\<close>

section \<open>Initialization\<close>

lemma put_all_append: "put_all (ws @ ws') fs = put_all ws' (put_all ws fs)"
  by (simp add: put_all_def)

lemma put_all_notin: "f \<notin> fst ` set ws \<Longrightarrow> put_all ws fs f = fs f"
  by (induction ws arbitrary: fs) (auto simp: put_all_simps)

lemma read_vmcs_fields [simp]:
  "cr0 (m\<lparr>vmcs_fields := f\<rparr>) = cr0 m" "cr3 (m\<lparr>vmcs_fields := f\<rparr>) = cr3 m" "cr4 (m\<lparr>vmcs_fields := f\<rparr>) = cr4 m"
  "rdmsr k (m\<lparr>vmcs_fields := f\<rparr>) = rdmsr k m" "sgdt (m\<lparr>vmcs_fields := f\<rparr>) = sgdt m" "sidt (m\<lparr>vmcs_fields := f\<rparr>) = sidt m"
  "tr (m\<lparr>vmcs_fields := f\<rparr>) = tr m" "ldtr (m\<lparr>vmcs_fields := f\<rparr>) = ldtr m"
  "lsl sel (m\<lparr>vmcs_fields := f\<rparr>) = lsl sel m" "lar sel (m\<lparr>vmcs_fields := f\<rparr>) = lar sel m"
  "tss_base_of oc d sel (m\<lparr>vmcs_fields := f\<rparr>) = tss_base_of oc d sel m"
  by (simp_all add: machine_simps lsl_def lar_def tss_base_of_def)

lemma adjust_total: "control \<noteq> ProcessorBased3 \<Longrightarrow> unat v < 2 ^ 32 \<Longrightarrow> \<exists>w. adjust_vmx_control control v m = Inr w"
  by (cases control) (simp_all add: adjust_vmx_control_def Let_def)

lemma initialize_control_total:
  assumes "vmx_current pa m"
  shows "\<exists>ws. vmx_initialize_control pa_of va eptp m =
      Inr (m\<lparr>vmcs_fields := (vmcs_fields m)(pa := put_all (ws @ [(MSR_BITMAPS_ADDR_FULL, pa_of va), (EPTP_FULL, eptp)]) (vmcs_fields m pa))\<rparr>)"
proof -
  have small: "unat secondary_requested < 2 ^ 32" "unat (USE_MSR_BITMAPS OR SECONDARY_CONTROLS OR push_bit 18 1 :: u64) < 2 ^ 32"
    by (simp_all add: secondary_requested_def)
  obtain a where a: "adjust_vmx_control VmExit HOST_ADDRESS_SPACE_SIZE m = Inr a"
    using adjust_total [of VmExit HOST_ADDRESS_SPACE_SIZE m] by auto
  obtain b where b: "adjust_vmx_control VmEntry IA32E_MODE_GUEST m = Inr b"
    using adjust_total [of VmEntry IA32E_MODE_GUEST m] by auto
  obtain c where c: "adjust_vmx_control PinBased 0 m = Inr c" using adjust_total [of PinBased 0 m] by auto
  obtain d where d: "adjust_vmx_control ProcessorBased (USE_MSR_BITMAPS OR SECONDARY_CONTROLS OR push_bit 18 1) m = Inr d"
    using adjust_total [OF _ small(2), of ProcessorBased m] by blast
  obtain f where f: "adjust_vmx_control ProcessorBased2 secondary_requested m = Inr f"
    using adjust_total [OF _ small(1), of ProcessorBased2 m] by blast
  show ?thesis
    unfolding vmx_initialize_control_def a b c d f and_then_Inr vmwrite_all_current [OF assms]
    by (intro exI [of _ "[(VMEXIT_CONTROLS, a), (VMENTRY_CONTROLS, b), (PINBASED_EXEC_CONTROLS, c),
        (PRIMARY_PROCBASED_EXEC_CONTROLS, d), (SECONDARY_PROCBASED_EXEC_CONTROLS, f)]"]) simp
qed

text \<open>Without data from the platform the host state is that of the processor.\<close>

lemma initialize_total:
  assumes "vmx_current pa m" and "tss_base_of oc (sgdt m) (tr m) m = Inr b"
    and "shd = Some \<lparr>host_pt = None, host_idt = None, host_gdts = None\<rparr>"
  shows "\<exists>m'. VmxGuest_initialize oc pa_of va eptp shd r g m = Inr (g\<lparr>vmx_registers := r\<rparr>, m')"
proof -
  obtain m1 where m1: "vmx_initialize_control pa_of va eptp m = Inr m1" and "vmx_current pa m1"
    and "\<exists>f. m1 = m\<lparr>vmcs_fields := f\<rparr>" using initialize_control_total [OF assms(1)] assms(1) by fastforce
  then obtain f where c1: "vmx_current pa m1" and f: "m1 = m\<lparr>vmcs_fields := f\<rparr>" by blast
  from assms(1) show ?thesis
    by (simp add: VmxGuest_initialize_def m1 vmx_initialize_guest_def vmx_initialize_host_def assms(2,3)
        vmwrite_all_current f Let_def)
qed

lemma host_selector_aligned: "take_bit 3 (ucast (s AND NOT 7) :: u64) = 0" for s :: u16
proof -
  have m: "(7 :: u16) = mask 3" by (simp add: mask_eq_exp_minus_1)
  show ?thesis unfolding m by (rule bit_word_eqI) (auto simp: bit_simps)
qed

section \<open>Processors for evaluation\<close>

text \<open>The MSRs of \<open>vmx_example\<close> and a GDT with a busy TSS in entry 8.\<close>

definition tss_machine :: vmx_machine where
  "tss_machine = (blank_machine (msrs vmx_example)
       (\<lambda>a. if a = 0x1040 then 0x71008be7b0000067 else if a = 0x1048 then 0xfffff805 else 0)
       \<lparr>vmxon_ptr = None, current_vmcs = None, vmcs_fields = (\<lambda>_ _. 0), vmcs_launched = (\<lambda>_. False)\<rparr>)
     \<lparr>gdtr_reg := \<lparr>dtr_base = 0x1000, dtr_limit = 0x6f\<rparr>, tr_sel := 0x40, cs_sel := 0x13\<rparr>"

definition vmx_running :: vmx_machine where
  "vmx_running = tss_machine\<lparr>vmxon_ptr := Some 0x5000, current_vmcs := Some 0x6000\<rparr>"

definition example_env :: "unit vmx_env" where
  "example_env = \<lparr>env_oc = True, env_pa = id, env_cpuid = (\<lambda>_ _. \<lparr>eax = 1, ebx = 0, ecx = 0, edx = 0\<rparr>),
     env_vmxon_va = 0x5000, env_vmcs_va = 0x6000, env_msr_bitmaps_va = 0x7000, env_eptp = 0x801e,
     env_host_data = Some \<lparr>host_pt = None, host_idt = None, host_gdts = None\<rparr>, env_rsp_rip = (0x9000, 0xa000)\<rparr>"

definition example_exit :: "u64 \<Rightarrow> u64 \<Rightarrow> vmx_exit" where
  "example_exit reason qualification =
     \<lparr>ex_cpu = blank_machine (\<lambda>_. 0) (\<lambda>_. 0) (), ex_gprs = Registers_default,
      ex_fields = (\<lambda>_. 0)(EXIT_REASON := reason, EXIT_QUALIFICATION := qualification, GUEST_CR3 := 0x1ad000,
        GUEST_RIP := 0x1000, VMEXIT_INSTRUCTION_LEN := 3), ex_long_mode = False\<rparr>"

definition example_guest :: VmxGuest where
  "example_guest = \<lparr>vmx_id = 0, vmx_registers = Registers_default, vmcs = \<lparr>region_va = 0x6000, revision_id = 0x12\<rparr>\<rparr>"

lemma vmx_running_current: "vmx_current 0x6000 vmx_running"
  by (simp add: vmx_current_def vmx_running_def)

lemma tss_machine_base: "tss_base_of oc (sgdt m) (tr m) m = Inr 0xfffff80571e7b000"
  if "mem64 m = mem64 tss_machine" "gdtr_reg m = gdtr_reg tss_machine" "tr_sel m = 0x40"
proof -
  have m: "mem64 m = (\<lambda>a. if a = 0x1040 then 0x71008be7b0000067 else if a = 0x1048 then 0xfffff805 else 0)"
    "gdtr_reg m = \<lparr>dtr_base = 0x1000, dtr_limit = 0x6f\<rparr>"
    using that by (simp_all add: tss_machine_def blank_machine_def)
  have "\<exists>d. try_from_gdtr oc (mem64 m) (sgdt m) (tr m) = Inr (Inr d) \<and> descriptor_base d = Inr 0xfffff80571e7b000"
    by (rule tss_lookup [where limit = "0x67" and access = "0x8b" and flags = 0])
      (simp_all add: machine_simps m that(3) holds_tss_def selector_index_def selector_ti_ldt_def encode_descriptor_def
        TssAvailable_def TssBusy_def)
  then show ?thesis by (auto simp: tss_base_of_def)
qed

lemma example_enabled:
  "\<exists>vt. Vmx_enable id (Vmx_default 0x5000 tss_machine) tss_machine =
     Inr (vt, tss_machine\<lparr>cr0_reg := 0x80000021, cr4_reg := 0x2000,
        msrs := (msrs tss_machine)(IA32_FEATURE_CONTROL := 5), vmxon_ptr := Some 0x5000, current_vmcs := None\<rparr>)"
  by (simp add: Vmx_enable_def Vmx_default_def vmxon_def vmxon_instr_def update_feature_control_msr_def get_adjusted_cr0_def
      get_adjusted_cr4_def machine_simps Let_def fixed_ok_def aligned_4k_def revision_ok_def tss_machine_def vmx_example_def)
    (simp add: blank_machine_def)

lemma example_virtualized:
  "\<exists>vt g m1. virtualize_core (vmx_arch example_env) (env_cpuid example_env) 7
      \<lparr>APIC_ID_MAP = [0 \<mapsto> 0], PROCESSOR_COUNT = 1\<rparr> Registers_default [] tss_machine = Inr (Running vt g m1)"
proof -
  define m1 where "m1 = tss_machine\<lparr>cr0_reg := 0x80000021, cr4_reg := 0x2000,
        msrs := (msrs tss_machine)(IA32_FEATURE_CONTROL := 5), vmxon_ptr := Some 0x5000, current_vmcs := None\<rparr>"
  obtain vt where on: "Vmx_enable id (Vmx_default 0x5000 tss_machine) tss_machine = Inr (vt, m1)"
    using example_enabled unfolding m1_def by blast
  have basic: "rdmsr IA32_VMX_BASIC m1 = 0x12" by (simp add: m1_def tss_machine_def vmx_example_def rdmsr_def)
  define m2 where "m2 = m1\<lparr>vmcs_launched := (vmcs_launched m1)(0x6000 := False)\<rparr>"
  have new: "VmxGuest_new id 0x6000 0 m1 = Inr (example_guest, m2)"
    by (simp add: VmxGuest_new_def Vmcs_new_def vmclear_def vmclear_instr_def aligned_4k_def basic example_guest_def m2_def Let_def)
      (simp add: m1_def)
  define m3 where "m3 = m2\<lparr>current_vmcs := Some 0x6000\<rparr>"
  have "rdmsr IA32_VMX_BASIC m2 = 0x12" using basic by (simp add: m2_def rdmsr_def)
  then have act: "VmxGuest_activate id example_guest m2 = Inr (example_guest, m3)"
    by (simp add: VmxGuest_activate_def vmptrld_def vmptrld_instr_def aligned_4k_def revision_ok_def example_guest_def m3_def Let_def)
      (simp add: m2_def m1_def)
  have "vmx_current 0x6000 m3" by (simp add: vmx_current_def m3_def m2_def m1_def)
  moreover have "tss_base_of True (sgdt m3) (tr m3) m3 = Inr 0xfffff80571e7b000"
    by (rule tss_machine_base) (simp_all add: m3_def m2_def m1_def tss_machine_def)
  ultimately obtain m4 where "VmxGuest_initialize True id 0x7000 0x801e (env_host_data example_env) Registers_default example_guest m3
      = Inr (example_guest\<lparr>vmx_registers := Registers_default\<rparr>, m4)"
    using initialize_total [of "0x6000" m3 True "0xfffff80571e7b000" "env_host_data example_env"]
    by (force simp: example_env_def)
  with on new act show ?thesis
    by (simp add: virtualize_core_def vmx_arch_def example_env_def apic_id_get_def processor_id_from_def)
qed

section \<open>Properties\<close>

lemma unrestricted_bit: "(ucast v :: u32) AND 0x80 \<noteq> 0 \<longleftrightarrow> bit v 7" for v :: u64
  using and_exp_eq_0_iff_not_bit [of "ucast v :: u32" 7] by (simp add: bit_simps)

lemma load_host_state_regs:
  "ds_sel (load_host_state fs m) = ucast (fs HOST_DS_SELECTOR)"
  "msrs (load_host_state fs m) IA32_SYSENTER_EIP = fs HOST_SYSENTER_EIP"
  by (simp_all add: load_host_state_def)

text \<open>The MSR that is consulted for a control, and the bits of the adjusted value.\<close>

definition capability_msr :: "VmxControl \<Rightarrow> 'm machine_scheme \<Rightarrow> u32" where
  "capability_msr control m =
     (if control = ProcessorBased2 then 0x48b
      else (if bit (rdmsr IA32_VMX_BASIC m) 55 then 0x48d else 0x481)
        + (case control of PinBased \<Rightarrow> 0 | ProcessorBased \<Rightarrow> 1 | VmExit \<Rightarrow> 2 | VmEntry \<Rightarrow> 3 | _ \<Rightarrow> 0))"

lemma adjusted_bits:
  assumes "control \<noteq> ProcessorBased3" and "unat requested < 2 ^ 32" and "cap = rdmsr (capability_msr control m) m"
  shows "\<exists>v. adjust_vmx_control control requested m = Inr v
    \<and> (\<forall>n. bit v n \<longleftrightarrow> n < 32 \<and> bit cap (32 + n) \<and> (bit cap n \<or> bit requested n))"
proof -
  have basic: "rdmsr IA32_VMX_BASIC m AND push_bit 55 1 \<noteq> 0 \<longleftrightarrow> bit (rdmsr IA32_VMX_BASIC m) 55"
    using and_exp_eq_0_iff_not_bit [of "rdmsr IA32_VMX_BASIC m" 55] by simp
  have "adjust_vmx_control control requested m =
      Inr (ucast ((ucast requested OR (ucast cap :: u32)) AND ucast (drop_bit 32 cap)))"
    unfolding adjust_vmx_control_def Let_def basic using assms(1,2)
    by (cases control) (auto simp: assms(3) capability_msr_def)
  moreover have "bit (ucast ((ucast requested OR (ucast cap :: u32)) AND ucast (drop_bit 32 cap)) :: u64) n
      \<longleftrightarrow> n < 32 \<and> bit cap (32 + n) \<and> (bit cap n \<or> bit requested n)" for n
    by (auto simp: bit_simps)
  ultimately show ?thesis by auto
qed

text \<open>
  C37. Control fields respect the capability MSRs. When the MSR that is consulted for a
  control (the TRUE variant if IA32_VMX_BASIC says so) allows some value for every bit,
  the adjusted value has every bit that must be one and none that must be zero, and each
  flexible bit is as requested. The upper half of the field is zero. A bit set in the lower
  half of the MSR must be one, as the manual has it; the table in the comment of
  \<open>adjust_vmx_control\<close> gives a set bit of the lower half the opposite meaning.
\<close>

theorem adjusted_control_allowed:
  assumes "control \<noteq> ProcessorBased3" and "unat requested < 2 ^ 32"
    and "cap = rdmsr (if control = ProcessorBased2 then 0x48b
           else (if bit (rdmsr IA32_VMX_BASIC m) 55 then 0x48d else 0x481)
             + (case control of PinBased \<Rightarrow> 0 | ProcessorBased \<Rightarrow> 1 | VmExit \<Rightarrow> 2 | VmEntry \<Rightarrow> 3 | _ \<Rightarrow> 0)) m"
    and "\<And>n. n < 32 \<Longrightarrow> bit cap n \<Longrightarrow> bit cap (32 + n)"
  shows "\<exists>v. adjust_vmx_control control requested m = Inr v
    \<and> (\<forall>n. bit v n \<longleftrightarrow> n < 32 \<and> bit cap (32 + n) \<and> (bit cap n \<or> bit requested n))
    \<and> (\<forall>n<32. bit cap n \<longrightarrow> bit v n)"
  using adjusted_bits [OF assms(1,2), of cap m] assms(3,4) by (auto simp: capability_msr_def)

theorem adjusted_control_allowed_witness:
  "\<exists>v. adjust_vmx_control VmEntry 0x200 (blank_machine ((\<lambda>_. 0)(0x484 := 0xffffffff000011ff)) (\<lambda>_. 0) ()) = Inr v
     \<and> bit v 9 \<and> bit v 0 \<and> \<not> bit v 20"
proof -
  let ?m = "blank_machine ((\<lambda>_. 0)(0x484 := 0xffffffff000011ff)) (\<lambda>_. 0) ()"
  have "drop_bit 32 (0xffffffff000011ff :: u64) = mask 32" by (simp add: mask_eq_exp_minus_1)
  then have "bit (drop_bit 32 (0xffffffff000011ff :: u64)) n \<longleftrightarrow> n < 32" for n
    by (simp only: bit_mask_iff) (auto simp: possible_bit_word)
  then have cap: "n < 32 \<Longrightarrow> bit (0xffffffff000011ff :: u64) (32 + n)" for n by (simp only: bit_drop_bit_eq comp_def)
  have "(0xffffffff000011ff :: u64) = rdmsr (if VmEntry = ProcessorBased2 then 0x48b
           else (if bit (rdmsr IA32_VMX_BASIC ?m) 55 then 0x48d else 0x481)
             + (case VmEntry of PinBased \<Rightarrow> 0 | ProcessorBased \<Rightarrow> 1 | VmExit \<Rightarrow> 2 | VmEntry \<Rightarrow> 3 | _ \<Rightarrow> 0)) ?m"
    by (simp add: rdmsr_def)
  from adjusted_control_allowed [OF _ _ this, of "0x200"] cap obtain v where "adjust_vmx_control VmEntry 0x200 ?m = Inr v"
    and "\<And>n. bit v n \<longleftrightarrow> n < 32 \<and> bit (0xffffffff000011ff :: u64) (32 + n) \<and> (bit (0xffffffff000011ff :: u64) n \<or> bit (0x200 :: u64) n)"
    by auto
  then show ?thesis by (intro exI [of _ v]) simp
qed

text \<open>
  A segment register in the VMCS is that of the processor: the selector, the limit that LSL
  gives and the access rights in the format of the VMCS, which are bits 8 to 15 and 20 to 23
  of the result of LAR without bits 16 to 19, or only \<open>unusable\<close> where LAR fails.
\<close>

definition segment_carried :: "vmcs_fields \<Rightarrow> u32 \<Rightarrow> u32 \<Rightarrow> u32 \<Rightarrow> selector \<Rightarrow> 'm machine_scheme \<Rightarrow> bool" where
  "segment_carried fs sel_f limit_f rights_f sel m \<longleftrightarrow>
     fs sel_f = ucast sel \<and> fs limit_f = ucast (lsl sel m)
     \<and> (if lar sel m = 0 then fs rights_f = 0x10000
        else \<forall>n. bit (fs rights_f) n \<longleftrightarrow> n < 16 \<and> n \<notin> {8..11} \<and> bit (lar sel m) (8 + n))"

lemma segment_carried_vmcs_fields [simp]:
  "segment_carried fs sel_f limit_f rights_f sel (m\<lparr>vmcs_fields := f\<rparr>) = segment_carried fs sel_f limit_f rights_f sel m"
  by (simp add: segment_carried_def)

lemma segment_carried_frame:
  "fs sel_f = gs sel_f \<Longrightarrow> fs limit_f = gs limit_f \<Longrightarrow> fs rights_f = gs rights_f
   \<Longrightarrow> segment_carried fs sel_f limit_f rights_f sel m = segment_carried gs sel_f limit_f rights_f sel m"
  by (simp add: segment_carried_def)

lemma access_rights_bits:
  "if ar = 0 then ucast (access_rights ar) = (0x10000 :: u64)
   else \<forall>n. bit (ucast (access_rights ar) :: u64) n \<longleftrightarrow> n < 16 \<and> n \<notin> {8..11} \<and> bit ar (8 + n)"
proof -
  have m: "(0xf0ff :: u32) = push_bit 12 (mask 4) OR mask 8" by (simp add: mask_eq_exp_minus_1)
  have "bit (ucast (drop_bit 8 ar AND 0xf0ff) :: u64) n \<longleftrightarrow> n < 16 \<and> n \<notin> {8..11} \<and> bit ar (8 + n)" for n
    unfolding m by (auto simp: bit_simps)
  then show ?thesis by (simp add: access_rights_def)
qed

lemma segment_carriedI:
  "fs sel_f = ucast sel \<Longrightarrow> fs limit_f = ucast (lsl sel m) \<Longrightarrow> fs rights_f = ucast (access_rights (lar sel m))
   \<Longrightarrow> segment_carried fs sel_f limit_f rights_f sel m"
  unfolding segment_carried_def using access_rights_bits [of "lar sel m"] by (cases "lar sel m = 0") simp_all

text \<open>The fields of the guest-state area that the code leaves as they are in the fresh VMCS: the
  bases of ES, CS, SS and DS, which 64-bit mode ignores, base and limit of the unusable LDTR,
  EFER, the activity state, DR7, IA32_DEBUGCTL, IA32_PAT, the interruptibility state and the
  pending debug exceptions.
\<close>

definition fields_not_initialized :: "u32 set" where
  "fields_not_initialized =
     {GUEST_ES_BASE, GUEST_CS_BASE, GUEST_SS_BASE, GUEST_DS_BASE, GUEST_LDTR_BASE, GUEST_LDTR_LIMIT,
      GUEST_IA32_EFER_FULL, GUEST_ACTIVITY_STATE, 0x681a, 0x2802, 0x2804, 0x4824, 0x6822}"

lemma control_fields:
  assumes "vmx_current pa m" and "vmx_initialize_control pa_of va eptp m = Inr m'"
  obtains fs where "m' = m\<lparr>vmcs_fields := (vmcs_fields m)(pa := fs)\<rparr>"
    and "fs MSR_BITMAPS_ADDR_FULL = pa_of va" and "fs EPTP_FULL = eptp"
    and "adjust_vmx_control ProcessorBased 0x90040000 m = Inr (fs PRIMARY_PROCBASED_EXEC_CONTROLS)"
    and "adjust_vmx_control ProcessorBased2 0x410108a m = Inr (fs SECONDARY_PROCBASED_EXEC_CONTROLS)"
    and "\<forall>f \<in> fields_not_initialized. fs f = vmcs_fields m pa f"
proof -
  have req: "(USE_MSR_BITMAPS OR SECONDARY_CONTROLS OR push_bit 18 1 :: u64) = 0x90040000" "secondary_requested = 0x410108a"
    by (simp_all add: secondary_requested_def)
  from assms(2) obtain a b c d e where
    "adjust_vmx_control ProcessorBased 0x90040000 m = Inr d" "adjust_vmx_control ProcessorBased2 0x410108a m = Inr e"
    "vmwrite_all [(VMEXIT_CONTROLS, a), (VMENTRY_CONTROLS, b), (PINBASED_EXEC_CONTROLS, c),
      (PRIMARY_PROCBASED_EXEC_CONTROLS, d), (SECONDARY_PROCBASED_EXEC_CONTROLS, e),
      (MSR_BITMAPS_ADDR_FULL, pa_of va), (EPTP_FULL, eptp)] m = Inr m'"
    unfolding vmx_initialize_control_def and_then_eq_Inr_iff req by blast
  then show thesis unfolding vmwrite_all_current [OF assms(1)]
    by (intro that [of "vmcs_fields m' pa"]) (auto simp: put_all_simps fields_not_initialized_def)
qed

lemma guest_fields:
  assumes "vmx_current pa m" and "vmx_initialize_guest oc g m = Inr m'" and "r = vmx_registers g"
  obtains gs where "m' = m\<lparr>vmcs_fields := (vmcs_fields m)(pa := gs)\<rparr>"
    and "gs GUEST_CR0 = cr0 m"
    and "gs GUEST_CR3 = cr3 m"
    and "gs GUEST_CR4 = cr4 m"
    and "gs GUEST_GDTR_BASE = dtr_base (sgdt m)"
    and "gs GUEST_GDTR_LIMIT = ucast (dtr_limit (sgdt m))"
    and "gs GUEST_IDTR_BASE = dtr_base (sidt m)"
    and "gs GUEST_IDTR_LIMIT = ucast (dtr_limit (sidt m))"
    and "segment_carried gs GUEST_ES_SELECTOR GUEST_ES_LIMIT GUEST_ES_ACCESS_RIGHTS (es_sel m) m"
    and "segment_carried gs GUEST_CS_SELECTOR GUEST_CS_LIMIT GUEST_CS_ACCESS_RIGHTS (cs_sel m) m"
    and "segment_carried gs GUEST_SS_SELECTOR GUEST_SS_LIMIT GUEST_SS_ACCESS_RIGHTS (ss_sel m) m"
    and "segment_carried gs GUEST_DS_SELECTOR GUEST_DS_LIMIT GUEST_DS_ACCESS_RIGHTS (ds_sel m) m"
    and "segment_carried gs GUEST_FS_SELECTOR GUEST_FS_LIMIT GUEST_FS_ACCESS_RIGHTS (fs_sel m) m"
    and "segment_carried gs GUEST_GS_SELECTOR GUEST_GS_LIMIT GUEST_GS_ACCESS_RIGHTS (gs_sel m) m"
    and "segment_carried gs GUEST_TR_SELECTOR GUEST_TR_LIMIT GUEST_TR_ACCESS_RIGHTS (tr m) m"
    and "gs GUEST_FS_BASE = rdmsr IA32_FS_BASE m"
    and "gs GUEST_GS_BASE = rdmsr IA32_GS_BASE m"
    and "tss_base_of oc (sgdt m) (tr m) m = Inr (gs GUEST_TR_BASE)"
    and "gs GUEST_LDTR_SELECTOR = ucast (ldtr m)"
    and "gs GUEST_LDTR_ACCESS_RIGHTS = 0x10000"
    and "gs GUEST_SYSENTER_CS = rdmsr IA32_SYSENTER_CS m"
    and "gs GUEST_SYSENTER_EIP = rdmsr IA32_SYSENTER_EIP m"
    and "gs GUEST_SYSENTER_ESP = rdmsr IA32_SYSENTER_ESP m"
    and "gs GUEST_LINK_PTR_FULL = - 1"
    and "gs GUEST_RIP = rip r"
    and "gs GUEST_RSP = rsp r"
    and "gs GUEST_RFLAGS = rflags r"
    and "\<forall>f \<in> fields_not_initialized. gs f = vmcs_fields m pa f"
    and "gs EPTP_FULL = vmcs_fields m pa EPTP_FULL" and "gs MSR_BITMAPS_ADDR_FULL = vmcs_fields m pa MSR_BITMAPS_ADDR_FULL"
    and "gs PRIMARY_PROCBASED_EXEC_CONTROLS = vmcs_fields m pa PRIMARY_PROCBASED_EXEC_CONTROLS"
    and "gs SECONDARY_PROCBASED_EXEC_CONTROLS = vmcs_fields m pa SECONDARY_PROCBASED_EXEC_CONTROLS"
proof -
  obtain b where tss: "tss_base_of oc (sgdt m) (tr m) m = Inr b"
    using assms(2) by (auto simp: vmx_initialize_guest_def Let_def rust_simps)
  have m': "m' = m\<lparr>vmcs_fields := (vmcs_fields m)(pa := vmcs_fields m' pa)\<rparr>"
    using assms by (auto simp: vmx_initialize_guest_def vmwrite_all_current Let_def tss)
  show thesis
    by (rule that [OF m'])
      (use assms in \<open>auto intro!: segment_carriedI simp: vmx_initialize_guest_def vmwrite_all_current Let_def tss put_all_simps
        fields_not_initialized_def access_rights_def\<close>)
qed

lemma initialize_fields:
  assumes "vmx_current pa m" and "VmxGuest_initialize oc pa_of va eptp shd r g m = Inr (g', m')"
  shows "vmx_current pa m' \<and> g' = g\<lparr>vmx_registers := r\<rparr>
    \<and> vmcs_fields m' pa GUEST_CR0 = cr0 m \<and> vmcs_fields m' pa GUEST_CR3 = cr3 m \<and> vmcs_fields m' pa GUEST_CR4 = cr4 m
    \<and> vmcs_fields m' pa GUEST_GDTR_BASE = dtr_base (sgdt m) \<and> vmcs_fields m' pa GUEST_GDTR_LIMIT = ucast (dtr_limit (sgdt m))
    \<and> vmcs_fields m' pa GUEST_IDTR_BASE = dtr_base (sidt m) \<and> vmcs_fields m' pa GUEST_IDTR_LIMIT = ucast (dtr_limit (sidt m))
    \<and> segment_carried (vmcs_fields m' pa) GUEST_ES_SELECTOR GUEST_ES_LIMIT GUEST_ES_ACCESS_RIGHTS (es_sel m) m
    \<and> segment_carried (vmcs_fields m' pa) GUEST_CS_SELECTOR GUEST_CS_LIMIT GUEST_CS_ACCESS_RIGHTS (cs_sel m) m
    \<and> segment_carried (vmcs_fields m' pa) GUEST_SS_SELECTOR GUEST_SS_LIMIT GUEST_SS_ACCESS_RIGHTS (ss_sel m) m
    \<and> segment_carried (vmcs_fields m' pa) GUEST_DS_SELECTOR GUEST_DS_LIMIT GUEST_DS_ACCESS_RIGHTS (ds_sel m) m
    \<and> segment_carried (vmcs_fields m' pa) GUEST_FS_SELECTOR GUEST_FS_LIMIT GUEST_FS_ACCESS_RIGHTS (fs_sel m) m
    \<and> segment_carried (vmcs_fields m' pa) GUEST_GS_SELECTOR GUEST_GS_LIMIT GUEST_GS_ACCESS_RIGHTS (gs_sel m) m
    \<and> segment_carried (vmcs_fields m' pa) GUEST_TR_SELECTOR GUEST_TR_LIMIT GUEST_TR_ACCESS_RIGHTS (tr m) m
    \<and> vmcs_fields m' pa GUEST_FS_BASE = rdmsr IA32_FS_BASE m \<and> vmcs_fields m' pa GUEST_GS_BASE = rdmsr IA32_GS_BASE m
    \<and> tss_base_of oc (sgdt m) (tr m) m = Inr (vmcs_fields m' pa GUEST_TR_BASE)
    \<and> vmcs_fields m' pa GUEST_LDTR_SELECTOR = ucast (ldtr m) \<and> vmcs_fields m' pa GUEST_LDTR_ACCESS_RIGHTS = 0x10000
    \<and> vmcs_fields m' pa GUEST_SYSENTER_CS = rdmsr IA32_SYSENTER_CS m
    \<and> vmcs_fields m' pa GUEST_SYSENTER_EIP = rdmsr IA32_SYSENTER_EIP m
    \<and> vmcs_fields m' pa GUEST_SYSENTER_ESP = rdmsr IA32_SYSENTER_ESP m \<and> vmcs_fields m' pa GUEST_LINK_PTR_FULL = - 1
    \<and> vmcs_fields m' pa GUEST_RIP = rip r \<and> vmcs_fields m' pa GUEST_RSP = rsp r \<and> vmcs_fields m' pa GUEST_RFLAGS = rflags r
    \<and> (\<forall>f \<in> fields_not_initialized. vmcs_fields m' pa f = vmcs_fields m pa f)
    \<and> vmcs_fields m' pa EPTP_FULL = eptp \<and> vmcs_fields m' pa MSR_BITMAPS_ADDR_FULL = pa_of va
    \<and> adjust_vmx_control ProcessorBased 0x90040000 m = Inr (vmcs_fields m' pa PRIMARY_PROCBASED_EXEC_CONTROLS)
    \<and> adjust_vmx_control ProcessorBased2 0x410108a m = Inr (vmcs_fields m' pa SECONDARY_PROCBASED_EXEC_CONTROLS)
    \<and> vmcs_fields m' pa HOST_CR0 = cr0 m \<and> vmcs_fields m' pa HOST_CR4 = cr4 m
    \<and> (\<forall>f \<in> {HOST_ES_SELECTOR, HOST_CS_SELECTOR, HOST_SS_SELECTOR, HOST_DS_SELECTOR, HOST_FS_SELECTOR,
          HOST_GS_SELECTOR, HOST_TR_SELECTOR}. take_bit 3 (vmcs_fields m' pa f) = 0)"
proof -
  let ?g = "g\<lparr>vmx_registers := r\<rparr>"
  from assms(2) obtain m1 m2 where c: "vmx_initialize_control pa_of va eptp m = Inr m1"
    and g: "vmx_initialize_guest oc ?g m1 = Inr m2" and h: "vmx_initialize_host oc shd ?g m2 = Inr m'" and g': "g' = ?g"
    by (auto simp: VmxGuest_initialize_def Let_def and_then_eq_Inr_iff)
  obtain fs where m1: "m1 = m\<lparr>vmcs_fields := (vmcs_fields m)(pa := fs)\<rparr>"
    and fs: "fs MSR_BITMAPS_ADDR_FULL = pa_of va" "fs EPTP_FULL = eptp"
      "adjust_vmx_control ProcessorBased 0x90040000 m = Inr (fs PRIMARY_PROCBASED_EXEC_CONTROLS)"
      "adjust_vmx_control ProcessorBased2 0x410108a m = Inr (fs SECONDARY_PROCBASED_EXEC_CONTROLS)"
    and keep: "\<forall>f \<in> fields_not_initialized. fs f = vmcs_fields m pa f"
    by (rule control_fields [OF assms(1) c])
  have c1: "vmx_current pa m1" using assms(1) by (simp add: m1)
  show ?thesis
  proof (rule guest_fields [OF c1 g refl])
    fix gs
    assume m2: "m2 = m1\<lparr>vmcs_fields := (vmcs_fields m1)(pa := gs)\<rparr>" and gs:
      "gs GUEST_CR0 = cr0 m1"
      "gs GUEST_CR3 = cr3 m1"
      "gs GUEST_CR4 = cr4 m1"
      "gs GUEST_GDTR_BASE = dtr_base (sgdt m1)"
      "gs GUEST_GDTR_LIMIT = ucast (dtr_limit (sgdt m1))"
      "gs GUEST_IDTR_BASE = dtr_base (sidt m1)"
      "gs GUEST_IDTR_LIMIT = ucast (dtr_limit (sidt m1))"
      "segment_carried gs GUEST_ES_SELECTOR GUEST_ES_LIMIT GUEST_ES_ACCESS_RIGHTS (es_sel m1) m1"
      "segment_carried gs GUEST_CS_SELECTOR GUEST_CS_LIMIT GUEST_CS_ACCESS_RIGHTS (cs_sel m1) m1"
      "segment_carried gs GUEST_SS_SELECTOR GUEST_SS_LIMIT GUEST_SS_ACCESS_RIGHTS (ss_sel m1) m1"
      "segment_carried gs GUEST_DS_SELECTOR GUEST_DS_LIMIT GUEST_DS_ACCESS_RIGHTS (ds_sel m1) m1"
      "segment_carried gs GUEST_FS_SELECTOR GUEST_FS_LIMIT GUEST_FS_ACCESS_RIGHTS (fs_sel m1) m1"
      "segment_carried gs GUEST_GS_SELECTOR GUEST_GS_LIMIT GUEST_GS_ACCESS_RIGHTS (gs_sel m1) m1"
      "segment_carried gs GUEST_TR_SELECTOR GUEST_TR_LIMIT GUEST_TR_ACCESS_RIGHTS (tr m1) m1"
      "gs GUEST_FS_BASE = rdmsr IA32_FS_BASE m1"
      "gs GUEST_GS_BASE = rdmsr IA32_GS_BASE m1"
      "tss_base_of oc (sgdt m1) (tr m1) m1 = Inr (gs GUEST_TR_BASE)"
      "gs GUEST_LDTR_SELECTOR = ucast (ldtr m1)"
      "gs GUEST_LDTR_ACCESS_RIGHTS = 0x10000"
      "gs GUEST_SYSENTER_CS = rdmsr IA32_SYSENTER_CS m1"
      "gs GUEST_SYSENTER_EIP = rdmsr IA32_SYSENTER_EIP m1"
      "gs GUEST_SYSENTER_ESP = rdmsr IA32_SYSENTER_ESP m1"
      "gs GUEST_LINK_PTR_FULL = - 1"
      "gs GUEST_RIP = rip (vmx_registers ?g)"
      "gs GUEST_RSP = rsp (vmx_registers ?g)"
      "gs GUEST_RFLAGS = rflags (vmx_registers ?g)"
      "\<forall>f \<in> fields_not_initialized. gs f = vmcs_fields m1 pa f"
      "gs EPTP_FULL = vmcs_fields m1 pa EPTP_FULL" "gs MSR_BITMAPS_ADDR_FULL = vmcs_fields m1 pa MSR_BITMAPS_ADDR_FULL"
      "gs PRIMARY_PROCBASED_EXEC_CONTROLS = vmcs_fields m1 pa PRIMARY_PROCBASED_EXEC_CONTROLS"
      "gs SECONDARY_PROCBASED_EXEC_CONTROLS = vmcs_fields m1 pa SECONDARY_PROCBASED_EXEC_CONTROLS"
    have c2: "vmx_current pa m2" using c1 by (simp add: m2)
    from h obtain x z trs y w where "vmwrite_all (vmx_host_fields m2 x z trs y w) m2 = Inr m'"
      unfolding vmx_initialize_host_def Let_def and_then_eq_Inr_iff by (auto simp: and_then_eq_Inr_iff)
    then have m': "vmcs_fields m' pa = put_all (vmx_host_fields m2 x z trs y w) gs"
      unfolding vmwrite_all_current [OF c2] by (auto simp: m2)
    have same: "vmcs_fields m' pa f = gs f"
      if "f \<notin> {HOST_ES_SELECTOR, HOST_CS_SELECTOR, HOST_SS_SELECTOR, HOST_DS_SELECTOR, HOST_FS_SELECTOR, HOST_GS_SELECTOR,
        HOST_TR_SELECTOR, HOST_CR0, HOST_CR3, HOST_CR4, HOST_FS_BASE, HOST_GS_BASE, HOST_TR_BASE, HOST_GDTR_BASE, HOST_IDTR_BASE}" for f
      unfolding m' using that by (intro put_all_notin) (auto simp: vmx_host_fields_def)
    have keep': "\<forall>f \<in> fields_not_initialized. vmcs_fields m' pa f = vmcs_fields m pa f"
      using keep gs(27) by (simp add: fields_not_initialized_def same m1)
    have "vmcs_fields m' pa HOST_CR0 = cr0 m" "vmcs_fields m' pa HOST_CR4 = cr4 m"
      "\<forall>f \<in> {HOST_ES_SELECTOR, HOST_CS_SELECTOR, HOST_SS_SELECTOR, HOST_DS_SELECTOR, HOST_FS_SELECTOR,
          HOST_GS_SELECTOR, HOST_TR_SELECTOR}. take_bit 3 (vmcs_fields m' pa f) = 0"
      using host_selector_aligned by (simp_all add: m' vmx_host_fields_def m1 m2 put_all_simps)
    moreover have "segment_carried (vmcs_fields m' pa) a b c x m = segment_carried gs a b c x m"
      if "18432 \<le> b" "b \<le> 18466" "18432 \<le> c" "c \<le> 18466" "2048 \<le> a" "a \<le> 2062" for a b c x
      by (rule segment_carried_frame) (use that in \<open>auto intro!: same\<close>)
    ultimately show ?thesis
      using virtualization_keeps_current [OF assms] gs fs keep' by (simp add: same m1 g')
  qed
qed

text \<open>
  C15. Initialization of the VMCS: the guest continues where the processor was virtualized.
  Control registers, GDTR, IDTR, selector, limit and access rights of ES, CS, SS, DS, FS, GS
  and TR, the bases of FS, GS and TR, the LDTR selector and the SYSENTER MSRs are those of
  the processor, RIP, RSP and RFLAGS are the captured ones and the EPT pointer is the shared
  one. The LDTR is marked unusable whatever the processor has, the link pointer is void, and
  the fields the code never writes (\<open>fields_not_initialized\<close>) keep what the fresh VMCS holds.
  The host-state area keeps CR0 and CR4, and every host selector has RPL and TI zero, as VM
  entry requires.
\<close>

theorem vmx_guest_continues:
  assumes "vmx_current pa m" and "VmxGuest_initialize oc pa_of va eptp shd r g m = Inr (g', m')"
  shows "vmx_current pa m' \<and> g' = g\<lparr>vmx_registers := r\<rparr>
    \<and> vmcs_fields m' pa GUEST_CR0 = cr0 m \<and> vmcs_fields m' pa GUEST_CR3 = cr3 m \<and> vmcs_fields m' pa GUEST_CR4 = cr4 m
    \<and> vmcs_fields m' pa GUEST_GDTR_BASE = dtr_base (sgdt m) \<and> vmcs_fields m' pa GUEST_GDTR_LIMIT = ucast (dtr_limit (sgdt m))
    \<and> vmcs_fields m' pa GUEST_IDTR_BASE = dtr_base (sidt m) \<and> vmcs_fields m' pa GUEST_IDTR_LIMIT = ucast (dtr_limit (sidt m))
    \<and> segment_carried (vmcs_fields m' pa) GUEST_ES_SELECTOR GUEST_ES_LIMIT GUEST_ES_ACCESS_RIGHTS (es_sel m) m
    \<and> segment_carried (vmcs_fields m' pa) GUEST_CS_SELECTOR GUEST_CS_LIMIT GUEST_CS_ACCESS_RIGHTS (cs_sel m) m
    \<and> segment_carried (vmcs_fields m' pa) GUEST_SS_SELECTOR GUEST_SS_LIMIT GUEST_SS_ACCESS_RIGHTS (ss_sel m) m
    \<and> segment_carried (vmcs_fields m' pa) GUEST_DS_SELECTOR GUEST_DS_LIMIT GUEST_DS_ACCESS_RIGHTS (ds_sel m) m
    \<and> segment_carried (vmcs_fields m' pa) GUEST_FS_SELECTOR GUEST_FS_LIMIT GUEST_FS_ACCESS_RIGHTS (fs_sel m) m
    \<and> segment_carried (vmcs_fields m' pa) GUEST_GS_SELECTOR GUEST_GS_LIMIT GUEST_GS_ACCESS_RIGHTS (gs_sel m) m
    \<and> segment_carried (vmcs_fields m' pa) GUEST_TR_SELECTOR GUEST_TR_LIMIT GUEST_TR_ACCESS_RIGHTS (tr m) m
    \<and> vmcs_fields m' pa GUEST_FS_BASE = rdmsr IA32_FS_BASE m \<and> vmcs_fields m' pa GUEST_GS_BASE = rdmsr IA32_GS_BASE m
    \<and> tss_base_of oc (sgdt m) (tr m) m = Inr (vmcs_fields m' pa GUEST_TR_BASE)
    \<and> vmcs_fields m' pa GUEST_LDTR_SELECTOR = ucast (ldtr m) \<and> vmcs_fields m' pa GUEST_LDTR_ACCESS_RIGHTS = 0x10000
    \<and> vmcs_fields m' pa GUEST_SYSENTER_CS = rdmsr IA32_SYSENTER_CS m
    \<and> vmcs_fields m' pa GUEST_SYSENTER_EIP = rdmsr IA32_SYSENTER_EIP m
    \<and> vmcs_fields m' pa GUEST_SYSENTER_ESP = rdmsr IA32_SYSENTER_ESP m \<and> vmcs_fields m' pa GUEST_LINK_PTR_FULL = - 1
    \<and> vmcs_fields m' pa GUEST_RIP = rip r \<and> vmcs_fields m' pa GUEST_RSP = rsp r \<and> vmcs_fields m' pa GUEST_RFLAGS = rflags r
    \<and> (\<forall>f \<in> fields_not_initialized. vmcs_fields m' pa f = vmcs_fields m pa f)
    \<and> vmcs_fields m' pa EPTP_FULL = eptp
    \<and> vmcs_fields m' pa HOST_CR0 = cr0 m \<and> vmcs_fields m' pa HOST_CR4 = cr4 m
    \<and> (\<forall>f \<in> {HOST_ES_SELECTOR, HOST_CS_SELECTOR, HOST_SS_SELECTOR, HOST_DS_SELECTOR, HOST_FS_SELECTOR,
          HOST_GS_SELECTOR, HOST_TR_SELECTOR}. take_bit 3 (vmcs_fields m' pa f) = 0)"
  using initialize_fields [OF assms] by simp

theorem vmx_guest_continues_witness:
  "\<exists>g' m'. VmxGuest_initialize True id 0x7000 0x801e (env_host_data example_env)
       (Registers_default\<lparr>rip := 0x401000\<rparr>) example_guest vmx_running = Inr (g', m')
     \<and> vmcs_fields m' 0x6000 GUEST_RIP = 0x401000 \<and> vmcs_fields m' 0x6000 GUEST_CS_SELECTOR = 0x13"
proof -
  let ?r = "Registers_default\<lparr>rip := 0x401000\<rparr>"
  have "tss_base_of True (sgdt vmx_running) (tr vmx_running) vmx_running = Inr 0xfffff80571e7b000"
    by (rule tss_machine_base) (simp_all add: vmx_running_def tss_machine_def)
  with initialize_total [OF vmx_running_current this, of "env_host_data example_env" id "0x7000" "0x801e" ?r example_guest] obtain m'
    where i: "VmxGuest_initialize True id 0x7000 0x801e (env_host_data example_env) ?r example_guest vmx_running =
      Inr (example_guest\<lparr>vmx_registers := ?r\<rparr>, m')" by (auto simp: example_env_def)
  from vmx_guest_continues [OF vmx_running_current i]
  have "vmcs_fields m' 0x6000 GUEST_RIP = 0x401000" "vmcs_fields m' 0x6000 GUEST_CS_SELECTOR = ucast (cs_sel vmx_running)"
    by (simp_all add: segment_carried_def)
  with i show ?thesis by (simp add: vmx_running_def tss_machine_def)
qed

text \<open>
  A start-up IPI with vector \<open>v\<close> starts the guest at the physical address \<open>v\<close> * 4096:
  for a VM exit with the SIPI reason, the code segment base is \<open>v\<close> shifted by 12, RIP is
  zero, both in the VMCS and in the captured registers, the selector is the base divided
  by 16, the guest is active again, and the other registers are those of the exit.
\<close>

lemma vmx_sipi_starts_guest:
  assumes "vmx_current pa m" and "ucast (ex_fields ex EXIT_REASON) = (4 :: u16)"
    and "v = ex_fields ex EXIT_QUALIFICATION" and "unat v < 256"
  shows "\<exists>g' m'. VmxGuest_run oc cpuid rsp_rip (GuestExit ex) g m = Inr (StartupIpi, g', m') \<and> vmx_current pa m'
    \<and> unat (vmcs_fields m' pa GUEST_CS_BASE + vmcs_fields m' pa GUEST_RIP) = unat v * 4096
    \<and> vmcs_fields m' pa GUEST_CS_BASE = vmcs_fields m' pa GUEST_CS_SELECTOR * 16
    \<and> vmcs_fields m' pa GUEST_ACTIVITY_STATE = 0
    \<and> vmx_registers g' = (ex_gprs ex)\<lparr>rip := 0, rsp := ex_fields ex GUEST_RSP, rflags := ex_fields ex GUEST_RFLAGS\<rparr>"
proof (rule VmxGuest_run_exit [OF assms(1), where ex = ex and oc = oc and cpuid = cpuid and rsp_rip = rsp_rip and g = g])
  fix m2
  assume c: "vmx_current pa m2" and f: "\<And>f. saved_on_exit f \<Longrightarrow> vmcs_fields m2 pa f = ex_fields ex f"
    and run: "VmxGuest_run oc cpuid rsp_rip (GuestExit ex) g m =
        vmx_exit_reason oc cpuid (g\<lparr>vmx_registers := (ex_gprs ex)\<lparr>rip := ex_fields ex GUEST_RIP,
           rsp := ex_fields ex GUEST_RSP, rflags := ex_fields ex GUEST_RFLAGS\<rparr>\<rparr>) m2"
  have "saved_on_exit EXIT_REASON" "saved_on_exit EXIT_QUALIFICATION" by (simp_all add: saved_on_exit_def get_bits_def)
  with f assms(2,3) have why: "ucast (vmcs_fields m2 pa EXIT_REASON) = (4 :: u16)" and v: "vmcs_fields m2 pa EXIT_QUALIFICATION = v" by simp_all
  have "unat (push_bit 12 v) = unat v * 4096"
    using assms(4) by (simp add: unsigned_push_bit_eq push_bit_nat_def take_bit_nat_eq_self)
  moreover have "push_bit 12 v = push_bit 8 v * 16"
    by (simp add: push_bit_eq_mult)
  ultimately show ?thesis
    by (simp add: run vmx_exit_reason_def vmread_current [OF c] why sipi_signal_current [OF c] v put_all_simps c)
qed

lemma vmx_sipi_starts_guest_example:
  "\<exists>g' m'. VmxGuest_run True (\<lambda>_ _. \<lparr>eax = 1, ebx = 0, ecx = 0, edx = 0\<rparr>) (0, 0) (GuestExit (example_exit 4 0x9f)) example_guest vmx_running
       = Inr (StartupIpi, g', m')
     \<and> unat (vmcs_fields m' 0x6000 GUEST_CS_BASE + vmcs_fields m' 0x6000 GUEST_RIP) = 0x9f000"
proof -
  have "ucast (ex_fields (example_exit 4 0x9f) EXIT_REASON) = (4 :: u16)" "ex_fields (example_exit 4 0x9f) EXIT_QUALIFICATION = 0x9f"
    by (simp_all add: example_exit_def)
  from vmx_sipi_starts_guest [OF vmx_running_current this(1) this(2) [symmetric],
      of True "\<lambda>_ _. \<lparr>eax = 1, ebx = 0, ecx = 0, edx = 0\<rparr>" "(0, 0)" example_guest]
  show ?thesis by auto
qed

text \<open>CR0 after INIT: ET and the fixed bits, without PE and PG for an unrestricted guest.\<close>

definition init_cr0 :: "bool \<Rightarrow> 'm machine_scheme \<Rightarrow> u64" where
  "init_cr0 unrestricted m =
     (let c = (0x10 AND rdmsr IA32_VMX_CR0_FIXED1 m) OR rdmsr IA32_VMX_CR0_FIXED0 m
      in if unrestricted then c AND NOT 0x80000001 else c)"

lemma init_cr0_bits:
  "bit (init_cr0 unrestricted m) n \<longleftrightarrow>
     (bit (rdmsr IA32_VMX_CR0_FIXED0 m) n \<or> n = 4 \<and> bit (rdmsr IA32_VMX_CR0_FIXED1 m) n) \<and> \<not> (unrestricted \<and> n \<in> {0, 31})"
proof -
  have m: "(0x80000001 :: u64) = push_bit 31 1 OR push_bit 0 1" "(0x10 :: u64) = push_bit 4 1" by simp_all
  have "bit (push_bit k 1 :: u64) n \<longleftrightarrow> n = k \<and> n < 64" for k by (auto simp: bit_simps)
  then have "bit (0x80000001 :: u64) n \<longleftrightarrow> n = 31 \<and> n < 64 \<or> n = 0 \<and> n < 64" "bit (0x10 :: u64) n \<longleftrightarrow> n = 4 \<and> n < 64"
    unfolding m bit_or_iff by blast+
  then have "bit (c AND NOT 0x80000001) n \<longleftrightarrow> bit c n \<and> n \<notin> {0, 31}"
      "bit (0x10 AND a OR b) n \<longleftrightarrow> bit b n \<or> n = 4 \<and> bit a n" for a b c :: u64
    unfolding bit_and_iff bit_or_iff bit_not_iff by (auto simp: possible_bit_word dest: bit_imp_le_length)
  then show ?thesis
    unfolding init_cr0_def Let_def by (cases unrestricted) simp_all
qed

text \<open>
  C27. An INIT signal puts the guest into the architectural state after INIT: every field of
  \<open>init_state\<close> (RIP, RSP, RFLAGS, CR3, the read shadows of CR0 and CR4, EFER, all eight
  segment registers, GDTR, IDTR and the activity state \<open>wait-for-SIPI\<close>) has its value there,
  the captured registers are zero but for RDX, RIP, RFLAGS and the XMM registers, CR2 and the debug
  registers are reset, the IA-32e mode is left and no other field changes since the VM exit.
  CR4 has the bits that VMX operation fixes to one; CR0 has ET and those bits, but for an
  unrestricted guest not PE and PG.
\<close>

theorem vmx_init_resets_guest:
  assumes "vmx_current pa m" and "ucast (ex_fields ex EXIT_REASON) = (3 :: u16)" and "1 \<le> eax (cpuid 0 0)"
  shows "\<exists>g' m'. VmxGuest_run oc cpuid rsp_rip (GuestExit ex) g m = Inr (InitSignal, g', m') \<and> vmx_current pa m'
    \<and> vmx_registers g' = init_registers cpuid (ex_gprs ex)
    \<and> (\<forall>(f, v) \<in> set init_state. vmcs_fields m' pa f = v)
    \<and> vmcs_fields m' pa GUEST_CS_BASE + vmcs_fields m' pa GUEST_RIP = 0xfffffff0
    \<and> vmcs_fields m' pa GUEST_CR4 = rdmsr IA32_VMX_CR4_FIXED0 m'
    \<and> (\<forall>n. bit (vmcs_fields m' pa GUEST_CR0) n \<longleftrightarrow>
          (bit (rdmsr IA32_VMX_CR0_FIXED0 m') n \<or> n = 4 \<and> bit (rdmsr IA32_VMX_CR0_FIXED1 m') n)
          \<and> \<not> (bit (vmcs_fields m pa SECONDARY_PROCBASED_EXEC_CONTROLS) 7 \<and> n \<in> {0, 31}))
    \<and> \<not> bit (vmcs_fields m' pa VMENTRY_CONTROLS) 9
    \<and> (\<forall>f. saved_on_exit f \<longrightarrow> f \<notin> fst ` set init_state \<longrightarrow> f \<notin> {GUEST_CR0, GUEST_CR4} \<longrightarrow> vmcs_fields m' pa f = ex_fields ex f)
    \<and> cr2 m' = 0 \<and> dr0_reg m' = 0 \<and> dr1_reg m' = 0 \<and> dr2_reg m' = 0 \<and> dr3_reg m' = 0
    \<and> dr6_reg m' = 0xffff0ff0 \<and> dr7_reg m' = 0x400"
proof (rule VmxGuest_run_exit [OF assms(1), where ex = ex and oc = oc and cpuid = cpuid and rsp_rip = rsp_rip and g = g])
  fix m2
  assume c: "vmx_current pa m2" and f: "\<And>f. saved_on_exit f \<Longrightarrow> vmcs_fields m2 pa f = ex_fields ex f"
    and f': "\<And>f. \<not> saved_on_exit f \<Longrightarrow> f \<notin> {HOST_RSP, HOST_RIP, VMENTRY_CONTROLS} \<Longrightarrow> vmcs_fields m2 pa f = vmcs_fields m pa f"
    and run: "VmxGuest_run oc cpuid rsp_rip (GuestExit ex) g m =
        vmx_exit_reason oc cpuid (g\<lparr>vmx_registers := (ex_gprs ex)\<lparr>rip := ex_fields ex GUEST_RIP,
           rsp := ex_fields ex GUEST_RSP, rflags := ex_fields ex GUEST_RFLAGS\<rparr>\<rparr>) m2"
  have "saved_on_exit EXIT_REASON" by (simp add: saved_on_exit_def get_bits_def)
  with f assms(2) have why: "ucast (vmcs_fields m2 pa EXIT_REASON) = (3 :: u16)" by simp
  have "\<not> saved_on_exit SECONDARY_PROCBASED_EXEC_CONTROLS" by (simp add: saved_on_exit_def get_bits_def)
  with f' have sec: "vmcs_fields m2 pa SECONDARY_PROCBASED_EXEC_CONTROLS = vmcs_fields m pa SECONDARY_PROCBASED_EXEC_CONTROLS" by simp
  define r where "r = (ex_gprs ex)\<lparr>rip := ex_fields ex GUEST_RIP, rsp := ex_fields ex GUEST_RSP, rflags := ex_fields ex GUEST_RFLAGS\<rparr>"
  obtain g' m' where h: "vmx_handle_init_signal cpuid (g\<lparr>vmx_registers := r\<rparr>) m2 = Inr (g', m')"
    and regs: "vmx_registers g' = init_registers cpuid r"
    and fields: "list_all (\<lambda>(f, v). vmcs_fields m' pa f = v) init_state"
    and frame: "\<forall>f. f \<notin> fst ` set init_state \<longrightarrow> f \<notin> {GUEST_CR0, GUEST_CR4, VMENTRY_CONTROLS} \<longrightarrow> vmcs_fields m' pa f = vmcs_fields m2 pa f"
    and ctl: "vmcs_fields m' pa VMENTRY_CONTROLS = vmcs_fields m2 pa VMENTRY_CONTROLS AND NOT 0x200"
    and cr: "get_adjusted_guest_cr0 CR0_EXTENSION_TYPE m2 = Inr (vmcs_fields m' pa GUEST_CR0)"
      "vmcs_fields m' pa GUEST_CR4 = rdmsr IA32_VMX_CR4_FIXED0 m2"
    and dbg: "cr2_reg m' = 0" "dr0_reg m' = 0" "dr1_reg m' = 0" "dr2_reg m' = 0" "dr3_reg m' = 0"
      "dr6_reg m' = 0xffff0ff0" "dr7_reg m' = 0x400" and msrs: "msrs m' = msrs m2"
    using init_signal_fields [of pa m2 cpuid "g\<lparr>vmx_registers := r\<rparr>", OF c assms(3)] by auto
  have start: "vmcs_fields m' pa GUEST_CS_BASE + vmcs_fields m' pa GUEST_RIP = 0xfffffff0"
    using fields by (simp add: init_state_def)
  have "\<not> saved_on_exit VMENTRY_CONTROLS" by (simp add: saved_on_exit_def get_bits_def)
  with frame f have exit: "saved_on_exit f \<Longrightarrow> f \<notin> fst ` set init_state \<Longrightarrow> f \<notin> {GUEST_CR0, GUEST_CR4} \<Longrightarrow>
      vmcs_fields m' pa f = ex_fields ex f" for f by (metis insert_iff)
  have lma: "\<not> bit (vmcs_fields m' pa VMENTRY_CONTROLS) 9" by (simp add: ctl bit_and_iff)
  have "VmxGuest_run oc cpuid rsp_rip (GuestExit ex) g m = Inr (InitSignal, g', m')"
    using h by (simp add: run vmx_exit_reason_def vmread_current [OF c] why r_def)
  moreover have "init_registers cpuid r = init_registers cpuid (ex_gprs ex)" by (simp add: r_def init_registers_def)
  moreover have "vmcs_fields m' pa GUEST_CR0 = init_cr0 (bit (vmcs_fields m pa SECONDARY_PROCBASED_EXEC_CONTROLS) 7) m'"
    using cr(1) unfolding adjusted_guest_cr0_current [OF c] sec unrestricted_bit
    by (cases "bit (vmcs_fields m pa SECONDARY_PROCBASED_EXEC_CONTROLS) 7")
      (simp_all add: init_cr0_def get_adjusted_cr0_def rdmsr_def msrs Let_def)
  ultimately show ?thesis
    using fields start exit lma dbg cr(2) regs init_signal_current [OF c h]
    by (intro exI [of _ g'] exI [of _ m'])
      (simp add: init_cr0_bits list_all_iff rdmsr_def msrs cr2_def)
qed

theorem vmx_init_resets_guest_witness:
  "\<exists>g' m'. VmxGuest_run True (\<lambda>_ _. \<lparr>eax = 1, ebx = 0, ecx = 0, edx = 0\<rparr>) (0, 0) (GuestExit (example_exit 3 0)) example_guest vmx_running
       = Inr (InitSignal, g', m') \<and> vmcs_fields m' 0x6000 GUEST_ACTIVITY_STATE = 3"
proof -
  have "ucast (ex_fields (example_exit 3 0) EXIT_REASON) = (3 :: u16)" by (simp add: example_exit_def)
  from vmx_init_resets_guest [OF vmx_running_current this, of "\<lambda>_ _. \<lparr>eax = 1, ebx = 0, ecx = 0, edx = 0\<rparr>" True "(0, 0)" example_guest]
  show ?thesis by (auto simp: init_state_def)
qed

text \<open>
  C6. Devirtualization. When the guest executes VMCALL with the number DEVIRTUALIZE, one
  round of the host loop gives the processor back: the control registers, the FS and GS
  bases, GDTR and IDTR are those of the guest, execution continues behind the VMCALL with
  the guest's registers, and the processor has left VMX operation. The segment selectors
  and the SYSENTER MSRs, which are not restored, are those of the host-state area.
\<close>

theorem vmx_devirtualize_restores:
  assumes "vmx_ready e vt g m" and "pa = env_pa e (region_va (vmcs g))"
    and "ucast (ex_fields ex EXIT_REASON) = (18 :: u16)" and "rax (ex_gprs ex) = DEVIRTUALIZE"
    and "unat (ex_fields ex GUEST_RIP) + unat (ex_fields ex VMEXIT_INSTRUCTION_LEN) < 2 ^ 64"
  shows "\<exists>r m'. host_step (vmx_arch e) cpuid xcr0_all (GuestExit ex) vt g m = Inr (Devirtualized r m')
    \<and> r = (ex_gprs ex)\<lparr>rip := ex_fields ex GUEST_RIP + ex_fields ex VMEXIT_INSTRUCTION_LEN,
          rsp := ex_fields ex GUEST_RSP, rflags := ex_fields ex GUEST_RFLAGS\<rparr>
    \<and> cr0 m' = ex_fields ex GUEST_CR0 \<and> cr3 m' = ex_fields ex GUEST_CR3 \<and> cr4 m' = ex_fields ex GUEST_CR4
    \<and> rdmsr IA32_FS_BASE m' = ex_fields ex GUEST_FS_BASE \<and> rdmsr IA32_GS_BASE m' = ex_fields ex GUEST_GS_BASE
    \<and> sgdt m' = \<lparr>dtr_base = ex_fields ex GUEST_GDTR_BASE, dtr_limit = ucast (ex_fields ex GUEST_GDTR_LIMIT)\<rparr>
    \<and> sidt m' = \<lparr>dtr_base = ex_fields ex GUEST_IDTR_BASE, dtr_limit = ucast (ex_fields ex GUEST_IDTR_LIMIT)\<rparr>
    \<and> vmxon_ptr m' = None \<and> current_vmcs m' = None
    \<and> ds_sel m' = ucast (vmcs_fields m pa HOST_DS_SELECTOR)
    \<and> rdmsr IA32_SYSENTER_EIP m' = vmcs_fields m pa HOST_SYSENTER_EIP"
proof -
  have c0: "vmx_current pa m" "aligned_4k pa" using assms(1,2) by (simp_all add: vmx_ready_def)
  show ?thesis
  proof (rule VmxGuest_run_exit [OF c0(1), where ex = ex and oc = "env_oc e" and cpuid = "env_cpuid e" and rsp_rip = "env_rsp_rip e" and g = g])
    fix m2
    define r where "r = (ex_gprs ex)\<lparr>rip := ex_fields ex GUEST_RIP, rsp := ex_fields ex GUEST_RSP, rflags := ex_fields ex GUEST_RFLAGS\<rparr>"
    assume c: "vmx_current pa m2" and f: "\<And>f. saved_on_exit f \<Longrightarrow> vmcs_fields m2 pa f = ex_fields ex f"
      and f': "\<And>f. \<not> saved_on_exit f \<Longrightarrow> f \<notin> {HOST_RSP, HOST_RIP, VMENTRY_CONTROLS} \<Longrightarrow> vmcs_fields m2 pa f = vmcs_fields m pa f"
      and host: "\<exists>m0. m2 = load_host_state (vmcs_fields m2 pa) m0 \<and> machine.truncate m0 = ex_cpu ex"
      and "VmxGuest_run (env_oc e) (env_cpuid e) (env_rsp_rip e) (GuestExit ex) g m =
        vmx_exit_reason (env_oc e) (env_cpuid e) (g\<lparr>vmx_registers := (ex_gprs ex)\<lparr>rip := ex_fields ex GUEST_RIP,
           rsp := ex_fields ex GUEST_RSP, rflags := ex_fields ex GUEST_RFLAGS\<rparr>\<rparr>) m2"
    then have run: "run (vmx_arch e) (GuestExit ex) g m = vmx_exit_reason (env_oc e) (env_cpuid e) (g\<lparr>vmx_registers := r\<rparr>) m2"
      by (simp add: vmx_arch_def r_def)
    have saved: "vmcs_fields m2 pa EXIT_REASON = ex_fields ex EXIT_REASON" "vmcs_fields m2 pa VMEXIT_INSTRUCTION_LEN = ex_fields ex VMEXIT_INSTRUCTION_LEN"
      "vmcs_fields m2 pa GUEST_CR0 = ex_fields ex GUEST_CR0" "vmcs_fields m2 pa GUEST_CR3 = ex_fields ex GUEST_CR3"
      "vmcs_fields m2 pa GUEST_CR4 = ex_fields ex GUEST_CR4" "vmcs_fields m2 pa GUEST_FS_BASE = ex_fields ex GUEST_FS_BASE"
      "vmcs_fields m2 pa GUEST_GS_BASE = ex_fields ex GUEST_GS_BASE" "vmcs_fields m2 pa GUEST_GDTR_BASE = ex_fields ex GUEST_GDTR_BASE"
      "vmcs_fields m2 pa GUEST_GDTR_LIMIT = ex_fields ex GUEST_GDTR_LIMIT" "vmcs_fields m2 pa GUEST_IDTR_BASE = ex_fields ex GUEST_IDTR_BASE"
      "vmcs_fields m2 pa GUEST_IDTR_LIMIT = ex_fields ex GUEST_IDTR_LIMIT"
      by (rule f, simp add: saved_on_exit_def get_bits_def)+
    have kept: "vmcs_fields m2 pa HOST_DS_SELECTOR = vmcs_fields m pa HOST_DS_SELECTOR"
      "vmcs_fields m2 pa HOST_SYSENTER_EIP = vmcs_fields m pa HOST_SYSENTER_EIP"
      by (rule f', simp add: saved_on_exit_def get_bits_def, simp)+
    define info where "info = \<lparr>next_rip = ex_fields ex GUEST_RIP + ex_fields ex VMEXIT_INSTRUCTION_LEN\<rparr>"
    have "run (vmx_arch e) (GuestExit ex) g m = Inr (VmCall info, g\<lparr>vmx_registers := r\<rparr>, m2)"
      using assms(3,5) by (simp add: run vmx_exit_reason_def vmcs_simps vmread_current [OF c] instruction_info_current [OF c] saved r_def info_def)
    moreover define g' where "g' = g\<lparr>vmx_registers := r\<lparr>rip := next_rip info\<rparr>\<rparr>"
    moreover have "vmx_ready e vt g' m2" using c c0(2) assms(2) by (simp add: vmx_ready_def g'_def)
    note leave = vmx_leave [OF this]
    have "env_pa e (region_va (vmcs g')) = pa" using assms(2) by (simp add: g'_def)
    with leave obtain m3 where "VmxGuest_load_guest_cpu_state g' m2 = Inr (restored (vmcs_fields m2 pa) m2)"
      "VmxGuest_deactivate (env_pa e) g' (restored (vmcs_fields m2 pa) m2) = Inr (g', m3)"
      "Vmx_disable vt m3 = Inr (vt, (restored (vmcs_fields m2 pa) m2)\<lparr>vmxon_ptr := None, current_vmcs := None,
          vmcs_launched := (vmcs_launched m2)(pa := False)\<rparr>)" by auto
    ultimately have step: "host_step (vmx_arch e) cpuid xcr0_all (GuestExit ex) vt g m =
        Inr (Devirtualized (r\<lparr>rip := next_rip info\<rparr>) ((restored (vmcs_fields m2 pa) m2)\<lparr>vmxon_ptr := None, current_vmcs := None,
          vmcs_launched := (vmcs_launched m2)(pa := False)\<rparr>))"
      using assms(4) by (simp add: host_step_def devirtualize_processor_def Let_def vmx_arch_def r_def)
    from host have "ds_sel m2 = ucast (vmcs_fields m2 pa HOST_DS_SELECTOR)"
      "msrs m2 IA32_SYSENTER_EIP = vmcs_fields m2 pa HOST_SYSENTER_EIP" by (metis load_host_state_regs)+
    then show ?thesis
      by (simp add: step restored_def saved kept r_def info_def machine_simps)
  qed
qed

theorem vmx_devirtualize_restores_witness:
  "\<exists>r m'. host_step (vmx_arch example_env) (\<lambda>_ _. \<lparr>eax = 1, ebx = 0, ecx = 0, edx = 0\<rparr>) 7 (GuestExit (example_exit 18 0))
         (Vmx_default 0x5000 vmx_running) example_guest vmx_running = Inr (Devirtualized r m')
     \<and> rip r = 0x1003 \<and> cr3 m' = 0x1ad000 \<and> vmxon_ptr m' = None"
proof -
  have "vmx_ready example_env (Vmx_default 0x5000 vmx_running) example_guest vmx_running"
    using vmx_running_current by (simp add: vmx_ready_def example_env_def example_guest_def aligned_4k_def)
  from vmx_devirtualize_restores [OF this refl, of "example_exit 18 0" "\<lambda>_ _. \<lparr>eax = 1, ebx = 0, ecx = 0, edx = 0\<rparr>" 7]
  show ?thesis by (auto simp: example_exit_def DEVIRTUALIZE_def Registers_default_def)
qed

text \<open>
  C7. The hypervisor can always be unloaded. After \<open>virtualize_core\<close> has virtualized a
  processor, and after any sequence of VM exits that the host loop has handled, the
  devirtualization of the processor cannot panic: it leaves VMX operation and continues
  the guest at the address it is given.
\<close>

theorem vmx_unload_always_possible:
  assumes "aligned_4k (env_pa e (env_vmcs_va e))" and "env_pa e (env_vmcs_va e) \<noteq> env_pa e (env_vmxon_va e)"
    and "virtualize_core (vmx_arch e) cpuid xcr0_all ids r evs m = Inr (Running vt g m1)"
  shows "\<exists>m2. devirtualize_processor (vmx_arch e) info vt g m1 =
      Inr (Devirtualized ((vmx_registers g)\<lparr>rip := next_rip info\<rparr>) m2) \<and> vmxon_ptr m2 = None"
proof -
  note ready = virtualize_core_ready [OF assms]
  define g' where "g' = g\<lparr>vmx_registers := (vmx_registers g)\<lparr>rip := next_rip info\<rparr>\<rparr>"
  from ready have "vmx_ready e vt g' m1" by (simp add: vmx_ready_def g'_def)
  from vmx_leave [OF this] show ?thesis
    by (auto simp: devirtualize_processor_def vmx_arch_def Let_def g'_def)
qed

theorem vmx_unload_always_possible_witness:
  "\<exists>vt g m1 m2. virtualize_core (vmx_arch example_env) (env_cpuid example_env) 7
         \<lparr>APIC_ID_MAP = [0 \<mapsto> 0], PROCESSOR_COUNT = 1\<rparr> Registers_default [] tss_machine = Inr (Running vt g m1)
     \<and> devirtualize_processor (vmx_arch example_env) \<lparr>next_rip = 0x1003\<rparr> vt g m1 =
         Inr (Devirtualized ((vmx_registers g)\<lparr>rip := 0x1003\<rparr>) m2) \<and> vmxon_ptr m2 = None"
proof -
  obtain vt g m1 where v: "virtualize_core (vmx_arch example_env) (env_cpuid example_env) 7
      \<lparr>APIC_ID_MAP = [0 \<mapsto> 0], PROCESSOR_COUNT = 1\<rparr> Registers_default [] tss_machine = Inr (Running vt g m1)"
    using example_virtualized by blast
  have "aligned_4k (env_pa example_env (env_vmcs_va example_env))"
    "env_pa example_env (env_vmcs_va example_env) \<noteq> env_pa example_env (env_vmxon_va example_env)"
    by (simp_all add: example_env_def aligned_4k_def)
  from vmx_unload_always_possible [OF this v, of "\<lparr>next_rip = 0x1003\<rparr>"] v show ?thesis by auto
qed

end
