(* ===== verification/Npts.thy ===== *)
theory Npts
  imports Paging Machine
begin

unbundle bit_operations_syntax

text \<open>
  The nested page tables of AMD, \<open>hypervisor/amd/npts.rs\<close>: the identity tables of
  \<open>Paging\<close> built with \<open>npt = True\<close>, in which the 2MB entry of the local APIC is split
  into the 512 entries of \<open>pt_apic\<close>. The write permission of the APIC page can then be
  changed alone, which is how the hypervisor sees the writes of the boot processor
  to the interrupt command register.
\<close>

section \<open>Definitions\<close>

definition NestedPageTables_new :: paging_structures where
  "NestedPageTables_new = PagingStructures_new"

definition npt_build_identity :: "(u64 \<Rightarrow> u64) \<Rightarrow> u64 \<Rightarrow> paging_structures \<Rightarrow> paging_structures" where
  "npt_build_identity pa_of base ps = build_identity_internal pa_of base True ps"

text \<open>The loop of \<open>split_2mb\<close> (lines 53 to 61).\<close>

fun split_loop :: "bool \<Rightarrow> bool \<Rightarrow> u64 \<Rightarrow> table \<Rightarrow> table rust" where
  "split_loop w u frame [] = Inr []"
| "split_loop w u frame (pte # ptes) =
     and_then (assert_that (\<not> present pte) ''!pte.present()'') (\<lambda>_.
       let pte' = set_pfn frame (set_large False (set_user u (set_writable w (set_present True pte))))
       in and_then (split_loop w u (frame + BASE_PAGE_SIZE) ptes) (\<lambda>ptes'. Inr (pte' # ptes')))"

definition split_2mb :: "(u64 \<Rightarrow> u64) \<Rightarrow> u64 \<Rightarrow> entry \<Rightarrow> table \<Rightarrow> (entry \<times> table) rust" where
  "split_2mb pa_of pt_va pde ptb =
     and_then (assert_that (present pde) ''pde.present()'') (\<lambda>_.
     and_then (assert_that (large pde) ''pde.large()'') (\<lambda>_.
     and_then (split_loop (writable pde) (user pde) (pfn pde) ptb) (\<lambda>pt'.
     let pt_pa = pa_of pt_va
     in Inr (set_large False (set_pfn (drop_bit BASE_PAGE_SHIFT pt_pa) pde), pt'))))"

text \<open>The \<open>apic_base\<close> that both users of the APIC page compute: the MSR without its flags.\<close>

definition apic_base_of :: "'m machine_scheme \<Rightarrow> u64" where
  "apic_base_of m = (let apic_base_raw = rdmsr IA32_APIC_BASE m in apic_base_raw AND NOT 0xfff)"

definition split_apic_page ::
  "(u64 \<Rightarrow> u64) \<Rightarrow> u64 \<Rightarrow> 'm machine_scheme \<Rightarrow> paging_structures \<Rightarrow> paging_structures rust" where
  "split_apic_page pa_of base m ps =
     (let apic_base_raw = rdmsr IA32_APIC_BASE m in
      and_then (assert_that (\<not> get_bit 10 apic_base_raw) ''x2APIC is enabled'') (\<lambda>_.
      and_then (assert_that (get_bit 11 apic_base_raw) ''APIC is disabled'') (\<lambda>_.
      let apic_base = apic_base_of m;
          pdpt_index = unat (get_bits 30 38 apic_base);
          pd_index = unat (get_bits 21 29 apic_base);
          pde = pd ps ! pdpt_index ! pd_index
      in and_then (split_2mb pa_of (addr_pt_apic base) pde (pt_apic ps)) (\<lambda>(pde', pt').
         Inr (ps\<lparr>pd := (pd ps)[pdpt_index := (pd ps ! pdpt_index)[pd_index := pde']],
                 pt_apic := pt'\<rparr>)))))"

text \<open>The update of \<open>SvmGuest::intercept_apic_write\<close> on \<open>apic_pt\<close>.\<close>

definition set_apic_writable :: "bool \<Rightarrow> 'm machine_scheme \<Rightarrow> paging_structures \<Rightarrow> paging_structures" where
  "set_apic_writable w m ps =
     (let apic_base = apic_base_of m;
          pt_index = unat (get_bits 12 20 apic_base)
      in ps\<lparr>pt_apic := (pt_apic ps)[pt_index := set_writable w (pt_apic ps ! pt_index)]\<rparr>)"

text \<open>The tables with the frame of \<open>pt_apic\<close>, which \<open>split_apic_page\<close> links.\<close>

definition holds_npt :: "(u64 \<Rightarrow> table option) \<Rightarrow> (u64 \<Rightarrow> u64) \<Rightarrow> u64 \<Rightarrow> paging_structures \<Rightarrow> bool" where
  "holds_npt tbl pa_of base ps \<longleftrightarrow> holds_structures tbl pa_of base ps
     \<and> tbl (drop_bit 12 (pa_of (addr_pt_apic base))) = Some (pt_apic ps)"

text \<open>\<open>SharedGuestData::new\<close> of \<open>amd/guest.rs\<close>, the nested page tables.\<close>

definition shared_npt :: "(u64 \<Rightarrow> u64) \<Rightarrow> u64 \<Rightarrow> 'm machine_scheme \<Rightarrow> paging_structures rust" where
  "shared_npt pa_of base m =
     split_apic_page pa_of base m (npt_build_identity pa_of base NestedPageTables_new)"

text \<open>The 2MB region of an address.\<close>

definition region_2mb :: "u64 \<Rightarrow> u64" where
  "region_2mb va = drop_bit 21 va"

section \<open>The split table\<close>

lemma split_loop_zero:
  "split_loop w u (of_nat f) (replicate n 0) =
     Inr (map (\<lambda>k. set_pfn (of_nat (f + 4096 * k)) (set_large False (set_user u (set_writable w (set_present True 0)))))
       [0..<n])"
proof (induction n arbitrary: f)
  case (Suc n)
  have "(of_nat f + BASE_PAGE_SIZE :: u64) = of_nat (f + 4096)" by (simp add: BASE_PAGE_SIZE_def)
  with Suc [of "f + 4096"] show ?case
    by (simp add: not_present_zero map_upt_Suc add.assoc del: upt_Suc of_nat_add)
qed simp

lemma split_entry_small:
  "set_pfn frame (set_large False (set_user True (set_writable True (set_present True 0))))
     = small_entry True (push_bit 12 frame) 0"
  by (rule bit_word_eqI) (auto simp: accessor_defs small_entry_def bitfield_simps bit_simps)

lemma split_pde:
  "set_large False (set_pfn (drop_bit 12 a) (large_entry True b 0)) = small_entry True a 0"
  by (rule bit_word_eqI) (auto simp: accessor_defs small_entry_def large_entry_def bitfield_simps bit_simps)

lemma pfn_large_entry: "unat a < 2 ^ 52 \<Longrightarrow> pfn (large_entry npt a 0) = drop_bit 12 a"
  by (rule bit_word_eqI) (auto simp: pfn_def bit_get_bits bit_large_entry bit_simps dest: bit_52)

text \<open>The entry number \<open>k\<close> of the split table maps the frame \<open>4096 * k\<close> above the first.\<close>

definition split_pt :: "u64 \<Rightarrow> table" where
  "split_pt region = map (\<lambda>k. small_entry True (push_bit 21 region + of_nat (0x1000000 * k)) 0) [0..<512]"

lemma split_2mb_large:
  assumes "unat region < 2 ^ 18"
  shows "split_2mb pa_of pt_va (large_entry True (push_bit 21 region) 0) (replicate 512 0) =
     Inr (small_entry True (pa_of pt_va) 0, split_pt region)"
proof -
  have u: "unat (push_bit 21 region) = unat region * 2 ^ 21"
    using assms by (simp add: push_bit_eq_mult unat_word_ariths)
  have "unat (drop_bit 12 (push_bit 21 region)) = unat region * 512"
    by (simp add: unat_drop_bit_eq drop_bit_nat_def u)
  then have "drop_bit 12 (push_bit 21 region) = of_nat (unat region * 512)"
    using assms by (simp add: word_unat_eq_iff unat_of_nat unat_word_ariths)
  moreover have "unat (push_bit 21 region) < 2 ^ 52" using assms u by simp
  ultimately have f: "pfn (large_entry True (push_bit 21 region) 0) = of_nat (unat region * 512)"
    by (simp add: pfn_large_entry)
  have "push_bit 12 (of_nat (unat region * 512 + 4096 * k)) = push_bit 21 region + of_nat (0x1000000 * k)" for k
    by (simp add: push_bit_eq_mult algebra_simps)
  then show ?thesis
    by (simp add: split_2mb_def large_entry_fields f split_loop_zero split_entry_small split_pde split_pt_def
        BASE_PAGE_SHIFT_def del: of_nat_add of_nat_mult)
qed


section \<open>The nested walk after the split\<close>

definition split_structures :: "(u64 \<Rightarrow> u64) \<Rightarrow> u64 \<Rightarrow> u64 \<Rightarrow> table \<Rightarrow> paging_structures" where
  "split_structures pa_of base a tb =
     (let ps = built pa_of base True; i = walk_index 30 a; j = walk_index 21 a in
      ps\<lparr>pd := (pd ps)[i := (pd ps ! i)[j := small_entry True (pa_of (addr_pt_apic base)) 0]], pt_apic := tb\<rparr>)"

lemma built_pt_apic: "pt_apic (built pa_of base True) = replicate 512 0"
  by (simp add: built_def build_identity_internal_def Let_def pdpte_loop_npt, simp add: PagingStructures_new_def)

lemma built_pd_length: "length (pd (built pa_of base True)) = 512"
  "i < 512 \<Longrightarrow> length (pd (built pa_of base True) ! i) = 512"
  by (simp_all add: built_def build_identity_internal_def Let_def pdpte_loop_npt large_pd_def)

lemma shared_npt_eq:
  assumes "\<not> bit (rdmsr IA32_APIC_BASE m) 10" and "bit (rdmsr IA32_APIC_BASE m) 11"
    and "a = apic_base_of m" and "unat a < 2 ^ 39"
  shows "shared_npt pa_of base m = Inr (split_structures pa_of base a (split_pt (drop_bit 21 a)))"
proof -
  have idx: "unat (get_bits 30 38 a) = walk_index 30 a" "unat (get_bits 21 29 a) = walk_index 21 a"
    by (simp_all add: walk_index_def)
  have "pd (built pa_of base True) ! walk_index 30 a ! walk_index 21 a
      = large_entry True (push_bit 21 (drop_bit 21 a)) 0"
    unfolding built_pd [OF walk_index_less walk_index_less] large_page_of [OF assms(4)] by simp
  moreover have "unat (drop_bit 21 a) < 2 ^ 18"
    using assms(4) by (simp add: unat_drop_bit_eq drop_bit_nat_def less_mult_imp_div_less)
  ultimately show ?thesis
    using assms(1,2)
    by (simp add: shared_npt_def split_apic_page_def npt_build_identity_def NestedPageTables_new_def
        built_def [symmetric] get_bit_def assms(3) [symmetric] idx built_pt_apic split_2mb_large
        split_structures_def Let_def)
qed

lemma region_2mb_eq_iff:
  assumes "unat va < 2 ^ 39" and "unat a < 2 ^ 39"
  shows "region_2mb va = region_2mb a \<longleftrightarrow> walk_index 30 va = walk_index 30 a \<and> walk_index 21 va = walk_index 21 a"
proof -
  have "region_2mb va = region_2mb a \<longleftrightarrow> unat va div 2 ^ 21 = unat a div 2 ^ 21"
    by (simp add: region_2mb_def word_unat_eq_iff unat_drop_bit_eq drop_bit_nat_def)
  also have "\<dots> \<longleftrightarrow> 512 * walk_index 30 va + walk_index 21 va = 512 * walk_index 30 a + walk_index 21 a"
    by (simp only: large_index [OF assms(1)] large_index [OF assms(2)])
  also have "\<dots> \<longleftrightarrow> walk_index 30 va = walk_index 30 a \<and> walk_index 21 va = walk_index 21 a"
    by (rule mult_add_eq_iff) (rule walk_index_less)+
  finally show ?thesis .
qed

lemma walk_split:
  assumes "holds_npt tbl pa_of base (split_structures pa_of base a tb)" and "pa_52bit pa_of"
    and "unat va < 2 ^ 39" and "unat a < 2 ^ 39"
  shows "walk tbl (drop_bit 12 (pa_of base)) va =
     (if region_2mb va = region_2mb a then
        (let e = tb ! walk_index 12 va in
         if present e then Some (push_bit 12 (get_bits 12 51 e) OR take_bit 12 va, writable e, user e) else None)
      else Some (va, True, True))"
proof -
  let ?ps = "split_structures pa_of base a tb" and ?i = "walk_index 30 va" and ?j = "walk_index 21 va"
  have i4: "walk_index 39 va = 0" using assms(3) by (simp add: walk_index_eq)
  have "pd (built pa_of base True) ! ?i ! ?j = large_entry True (push_bit 21 (drop_bit 21 va)) 0"
    unfolding built_pd [OF walk_index_less walk_index_less] large_page_of [OF assms(3)] by simp
  then have pd: "pd ?ps ! ?i ! ?j = (if region_2mb va = region_2mb a
      then small_entry True (pa_of (addr_pt_apic base)) 0 else large_entry True (push_bit 21 (drop_bit 21 va)) 0)"
    using walk_index_less [of _ va] walk_index_less [of _ a]
    by (auto simp: split_structures_def Let_def region_2mb_eq_iff [OF assms(3,4)] nth_list_update built_pd_length)
  have tables: "pml4 ?ps = pml4 (built pa_of base True)" "pdpt ?ps = pdpt (built pa_of base True)" "pt_apic ?ps = tb"
    by (simp_all add: split_structures_def Let_def)
  have "unat va < 2 ^ 52" using assms(3) by simp
  with pd tables show ?thesis
    using assms(1,2) i4 walk_index_less [of _ va]
    by (simp add: walk_def holds_npt_def holds_structures_def pa_52bit_def built_pml4 built_pdpt small_entry_fields
        large_entry_fields pfn_small_entry page_base_large Let_def)
qed


lemma push_get_bits_12: "unat (push_bit 12 w) < 2 ^ 52 \<Longrightarrow> push_bit 12 (get_bits 12 51 (push_bit 12 w)) = push_bit 12 w"
  for w :: u64
proof (rule bit_word_eqI)
  fix n assume "unat (push_bit 12 w) < 2 ^ 52" and "n < LENGTH(64)"
  with bit_52 [of "push_bit 12 w" n] have "bit (push_bit 12 w) n \<Longrightarrow> n < 52" by simp
  with \<open>n < LENGTH(64)\<close> show "bit (push_bit 12 (get_bits 12 51 (push_bit 12 w))) n = bit (push_bit 12 w) n"
    by (auto simp: bit_simps bit_get_bits)
qed

lemma get_bits_small_entry: "get_bits 12 51 (small_entry npt a 0) = get_bits 12 51 a"
  by (rule bit_word_eqI) (auto simp: bit_get_bits bit_small_entry)

text \<open>The physical address of an address \<open>va\<close> of the split region.\<close>

lemma split_offset:
  "va = push_bit 21 (drop_bit 21 va) + of_nat (0x1000 * walk_index 12 va) + take_bit 12 va"
proof -
  let ?n = "unat va"
  have "?n = ?n div 2 ^ 21 * 2 ^ 21 + ?n mod 2 ^ 21" by simp
  also have "?n mod 2 ^ 21 = 0x1000 * (?n div 0x1000 mod 512) + ?n mod 0x1000"
    using mod_mult2_eq [of ?n "0x1000" 512] by simp
  finally have "?n = ?n div 2 ^ 21 * 2 ^ 21 + 0x1000 * walk_index 12 va + ?n mod 0x1000"
    by (simp add: walk_index_eq)
  then have "(of_nat ?n :: u64) = of_nat (?n div 2 ^ 21 * 2 ^ 21) + of_nat (0x1000 * walk_index 12 va) + of_nat (?n mod 0x1000)"
    by (metis of_nat_add)
  moreover have "of_nat (?n mod 0x1000) = take_bit 12 va"
  proof -
    have "unat (take_bit 12 va) = ?n mod 0x1000" by (simp add: unsigned_take_bit_eq take_bit_nat_def)
    moreover have "of_nat (unat (take_bit 12 va)) = take_bit 12 va" by simp
    ultimately show ?thesis by simp
  qed
  moreover have "of_nat ?n = va" by simp
  ultimately show ?thesis unfolding of_nat_push_drop by metis
qed

lemma split_page_of:
  assumes "unat va < 2 ^ 39" and "region_2mb va = region"
  shows "push_bit 12 (get_bits 12 51 (split_pt region ! walk_index 12 va)) OR take_bit 12 va
           = va + of_nat (walk_index 12 va * 0xfff000)"
proof -
  let ?k = "walk_index 12 va" and ?R = "push_bit 21 (drop_bit 21 va)"
  let ?w = "?R + of_nat (0x1000000 * ?k)" and ?x = "push_bit 9 (drop_bit 21 va) + of_nat (0x1000 * ?k)"
  have k: "?k < 512" by (rule walk_index_less)
  have w: "?w = push_bit 12 ?x" by (simp add: push_bit_eq_mult algebra_simps)
  have "unat ?R < 2 ^ 39"
    by (rule unat_less_exp) (use bit_less_exp [OF assms(1)] in \<open>auto simp: bit_simps not_less [symmetric]\<close>)
  moreover have "unat (of_nat (0x1000000 * ?k) :: u64) \<le> 0x1000000 * ?k"
    by (simp add: unat_of_nat del: of_nat_mult)
  ultimately have lt: "unat (push_bit 12 ?x) < 2 ^ 52"
    using unat_add_le [of ?R "of_nat (0x1000000 * ?k)"] k unfolding w by simp
  have "push_bit 12 (get_bits 12 51 (split_pt region ! ?k)) = ?w"
    using assms(2) k push_get_bits_12 [OF lt, folded w]
    by (simp add: split_pt_def get_bits_small_entry region_2mb_def del: of_nat_mult)
  moreover have "?w OR take_bit 12 va = ?w + take_bit 12 va"
    unfolding w by (rule disjunctive_add_eq_or [symmetric]) (auto intro!: bit_word_eqI simp: bit_simps)
  moreover have "?w + take_bit 12 va = va + of_nat (?k * 0xfff000)"
    by (subst (3) split_offset) (simp add: algebra_simps)
  ultimately show ?thesis by simp
qed


lemma page_eq_iff:
  "drop_bit 12 va = drop_bit 12 a \<longleftrightarrow> region_2mb va = region_2mb a \<and> walk_index 12 va = walk_index 12 a" for va a :: u64
proof -
  have split: "512 * (unat v div 2 ^ 21) + walk_index 12 v = unat v div 2 ^ 12" for v :: u64
  proof -
    have "unat v div 2 ^ 21 = unat v div 2 ^ 12 div 512" by (simp add: div_mult2_eq [symmetric])
    then show ?thesis by (simp add: walk_index_eq)
  qed
  have "drop_bit 12 va = drop_bit 12 a \<longleftrightarrow> unat va div 2 ^ 12 = unat a div 2 ^ 12"
    by (simp add: word_unat_eq_iff unat_drop_bit_eq drop_bit_nat_def)
  also have "\<dots> \<longleftrightarrow> unat va div 2 ^ 21 = unat a div 2 ^ 21 \<and> walk_index 12 va = walk_index 12 a"
    unfolding split [symmetric] by (rule mult_add_eq_iff) (rule walk_index_less)+
  also have "unat va div 2 ^ 21 = unat a div 2 ^ 21 \<longleftrightarrow> region_2mb va = region_2mb a"
    by (simp add: region_2mb_def word_unat_eq_iff unat_drop_bit_eq drop_bit_nat_def)
  finally show ?thesis .
qed

lemma split_pt_fields:
  "present (split_pt region ! walk_index 12 va)" "writable (split_pt region ! walk_index 12 va)"
  "user (split_pt region ! walk_index 12 va)" "length (split_pt region) = 512"
  by (simp_all add: split_pt_def small_entry_fields walk_index_less del: of_nat_mult)

section \<open>A concrete memory\<close>

definition npt_mem :: "paging_structures \<Rightarrow> u64 \<Rightarrow> table option" where
  "npt_mem ps = (mem_of 0x100000 ps)(0x303 := Some (pt_apic ps))"

definition apic_machine :: machine where
  "apic_machine = blank_machine ((\<lambda>_. 0)(IA32_APIC_BASE := 0xfee00900)) (\<lambda>_. 0) ()"

lemma holds_npt_mem: "holds_npt (npt_mem ps) (take_bit 52) 0x100000 ps"
proof -
  have "drop_bit 12 (take_bit 52 (addr_pd 0x100000 i)) \<noteq> 0x303" if "i < 512" for i
  proof -
    have "unat (drop_bit 12 (take_bit 52 (addr_pd 0x100000 i))) = 0x102 + i" using that by (rule addr_pd_frame)
    with that show ?thesis by auto
  qed
  with holds_mem_of [of ps] show ?thesis
    by (auto simp: holds_npt_def holds_structures_def npt_mem_def addr_pt_apic_def addr_pdpt_def addr_pt_def)
qed

lemma apic_machine_facts:
  "\<not> bit (rdmsr IA32_APIC_BASE apic_machine) 10" "bit (rdmsr IA32_APIC_BASE apic_machine) 11"
  "apic_base_of apic_machine = 0xfee00000" "unat (apic_base_of apic_machine) < 2 ^ 39"
  by (simp_all add: apic_machine_def rdmsr_def apic_base_of_def)

lemma apic_machine_npt: "\<exists>ps. shared_npt pa_of base apic_machine = Inr ps"
  using shared_npt_eq [OF apic_machine_facts(1,2) refl apic_machine_facts(4)] by blast

section \<open>Properties\<close>

text \<open>Where the guest finds an address, with the frames of the split region as the code computes them.\<close>

definition npt_target :: "u64 \<Rightarrow> u64 \<Rightarrow> u64" where
  "npt_target apic_base va =
     (if region_2mb va = region_2mb apic_base then va + of_nat (walk_index 12 va * 0xfff000) else va)"

text \<open>
  \<open>intercept_apic_write\<close> changes the write permission of the APIC page and of no other
  address: a write of the guest to the page the APIC base names causes a nested page
  fault exactly while interception is enabled, reads are never affected.
\<close>

lemma intercepted_walk:
  assumes "\<not> bit (rdmsr IA32_APIC_BASE m) 10" and "bit (rdmsr IA32_APIC_BASE m) 11"
    and "unat (apic_base_of m) < 2 ^ 39" and "shared_npt pa_of base m = Inr ps"
    and "holds_npt tbl pa_of base (set_apic_writable w m ps)" and "pa_52bit pa_of" and "unat va < 2 ^ 39"
  shows "walk tbl (drop_bit 12 (pa_of base)) va =
     Some (npt_target (apic_base_of m) va, drop_bit 12 va = drop_bit 12 (apic_base_of m) \<longrightarrow> w, True)"
proof -
  let ?a = "apic_base_of m" and ?i = "walk_index 12 (apic_base_of m)"
  let ?tb = "(split_pt (drop_bit 21 ?a))[?i := set_writable w (split_pt (drop_bit 21 ?a) ! ?i)]"
  have "ps = split_structures pa_of base ?a (split_pt (drop_bit 21 ?a))"
    using shared_npt_eq [OF assms(1,2) refl assms(3)] assms(4) by simp
  then have "set_apic_writable w m ps = split_structures pa_of base ?a ?tb"
    by (simp add: set_apic_writable_def split_structures_def Let_def walk_index_def)
  with walk_split [OF _ assms(6,7,3), of tbl base ?tb] assms(5)
  have walk: "walk tbl (drop_bit 12 (pa_of base)) va =
     (if region_2mb va = region_2mb ?a then
        (let e = ?tb ! walk_index 12 va in
         if present e then Some (push_bit 12 (get_bits 12 51 e) OR take_bit 12 va, writable e, user e) else None)
      else Some (va, True, True))" by simp
  have same: "drop_bit 12 va = drop_bit 12 ?a \<longleftrightarrow> region_2mb va = region_2mb ?a \<and> walk_index 12 va = ?i"
    by (rule page_eq_iff)
  have e: "present (set_writable w x) = present x" "writable (set_writable w x) = w" "user (set_writable w x) = user x" for x
    by (simp_all add: accessor_defs bitfield_simps)
  have g: "get_bits 12 51 (set_writable w x) = get_bits 12 51 x" for x
    by (rule bit_word_eqI) (auto simp: accessor_defs bitfield_simps)
  show ?thesis
    unfolding walk same Let_def npt_target_def
    using split_page_of [OF assms(7), of "drop_bit 21 ?a"]
    by (cases "walk_index 12 va = ?i") (auto simp: nth_list_update split_pt_fields e g walk_index_less region_2mb_def [symmetric])
qed

text \<open>Without interception.\<close>

lemma npt_walk:
  assumes "\<not> bit (rdmsr IA32_APIC_BASE m) 10" and "bit (rdmsr IA32_APIC_BASE m) 11"
    and "unat (apic_base_of m) < 2 ^ 39" and "shared_npt pa_of base m = Inr ps"
    and "holds_npt tbl pa_of base ps" and "pa_52bit pa_of" and "unat va < 2 ^ 39"
  shows "walk tbl (drop_bit 12 (pa_of base)) va = Some (npt_target (apic_base_of m) va, True, True)"
proof -
  let ?a = "apic_base_of m"
  have "ps = split_structures pa_of base ?a (split_pt (drop_bit 21 ?a))"
    using shared_npt_eq [OF assms(1,2) refl assms(3)] assms(4) by simp
  with walk_split [OF _ assms(6,7,3), of tbl base] assms(5) show ?thesis
    using split_page_of [OF assms(7), of "drop_bit 21 ?a"]
    by (simp add: split_pt_fields Let_def region_2mb_def [symmetric] npt_target_def)
qed

text \<open>
  C10. The nested tables that \<open>SharedGuestData::new\<close> builds translate every address outside
  the 2MB region of the local APIC to itself. Inside the region, page number \<open>k\<close> of the
  region is mapped \<open>0xfff000 * k\<close> bytes too high, because \<open>split_2mb\<close> advances the frame
  number by the page size instead of by one: the translation is the identity exactly
  for the first page of the region.
\<close>

theorem npt_split_translates:
  assumes "\<not> bit (rdmsr IA32_APIC_BASE m) 10" and "bit (rdmsr IA32_APIC_BASE m) 11"
    and "unat (apic_base_of m) < 2 ^ 39" and "shared_npt pa_of base m = Inr ps"
    and "holds_npt tbl pa_of base ps" and "pa_52bit pa_of" and "unat va < 2 ^ 39"
  shows "walk tbl (drop_bit 12 (pa_of base)) va =
     Some (if region_2mb va = region_2mb (apic_base_of m) then va + of_nat (walk_index 12 va * 0xfff000) else va,
           True, True)"
  using npt_walk [OF assms] by (simp add: npt_target_def)

theorem npt_split_translates_witness:
  "\<exists>ps. shared_npt (take_bit 52) 0x100000 apic_machine = Inr ps
     \<and> walk (npt_mem ps) 0x100 0xfee00300 = Some (0xfee00300, True, True)
     \<and> walk (npt_mem ps) 0x100 0xfee01000 = Some (0xffe00000, True, True)"
proof -
  obtain ps where ps: "shared_npt (take_bit 52) 0x100000 apic_machine = Inr ps" using apic_machine_npt by blast
  from npt_split_translates [OF apic_machine_facts(1,2,4) ps holds_npt_mem pa_52bit_take_bit, of "0xfee00300"]
    npt_split_translates [OF apic_machine_facts(1,2,4) ps holds_npt_mem pa_52bit_take_bit, of "0xfee01000"]
  have "walk (npt_mem ps) 0x100 0xfee00300 = Some (0xfee00300, True, True)"
    "walk (npt_mem ps) 0x100 0xfee01000 = Some (0xffe00000, True, True)"
    by (simp_all add: apic_machine_facts(3) region_2mb_def walk_index_eq)
  with ps show ?thesis by blast
qed

end
