(* ===== verification/Svm.thy ===== *)
theory Svm
  imports Host Npts
begin

unbundle bit_operations_syntax

text \<open>
  Enabling and disabling AMD SVM, \<open>hypervisor/amd/svm.rs\<close>, and the virtual machine control
  block of \<open>amd/guest.rs\<close>. The machine is extended with what the processors share,
  \<open>SHARED_GUEST_DATA\<close> (the nested page tables and the activity states), with the hidden parts
  of the segment registers that VMSAVE stores, and with the registers of the local APIC,
  by physical address. The padding of the VMCB is left out, and the four fields of a
  segment register are one record.
\<close>

section \<open>The virtual machine control block\<close>

record vmcb_segment =
  seg_selector :: u16
  seg_attrib :: u16
  seg_limit :: u32
  seg_base :: u64

record ControlArea =
  intercept_cr_read :: u16
  intercept_cr_write :: u16
  intercept_dr_read :: u16
  intercept_dr_write :: u16
  intercept_exception :: u32
  intercept_misc1 :: u32
  intercept_misc2 :: u32
  intercept_misc3 :: u32
  pause_filter_threshold :: u16
  pause_filter_count :: u16
  iopm_base_pa :: u64
  msrpm_base_pa :: u64
  tsc_offset :: u64
  guest_asid :: u32
  tlb_control :: u32
  vintr :: u64
  interrupt_shadow :: u64
  exit_code :: u64
  exit_info1 :: u64
  exit_info2 :: u64
  exit_int_info :: u64
  np_enable :: u64
  avic_apic_bar :: u64
  guest_pa_pf_ghcb :: u64
  event_inj :: u64
  ncr3 :: u64
  lbr_virtualization_enable :: u64
  vmcb_clean :: u32
  nrip :: u64
  num_of_bytes_fetched :: u8
  guest_instruction_bytes :: "u8 list"
  avic_apic_backing_page_pointer :: u64
  avic_logical_table_pointer :: u64
  avic_physical_table_pointer :: u64
  vmcb_save_state_pointer :: u64

record StateSaveArea =
  sa_es :: vmcb_segment
  sa_cs :: vmcb_segment
  sa_ss :: vmcb_segment
  sa_ds :: vmcb_segment
  sa_fs :: vmcb_segment
  sa_gs :: vmcb_segment
  sa_gdtr :: vmcb_segment
  sa_ldtr :: vmcb_segment
  sa_idtr :: vmcb_segment
  sa_tr :: vmcb_segment
  sa_cpl :: u8
  sa_efer :: u64
  sa_cr4 :: u64
  sa_cr3 :: u64
  sa_cr0 :: u64
  sa_dr7 :: u64
  sa_dr6 :: u64
  sa_rflags :: u64
  sa_rip :: u64
  sa_rsp :: u64
  sa_s_cet :: u64
  sa_ssp :: u64
  sa_isst_addr :: u64
  sa_rax :: u64
  sa_star :: u64
  sa_lstar :: u64
  sa_cstar :: u64
  sa_sf_mask :: u64
  sa_kernel_gs_base :: u64
  sa_sysenter_cs :: u64
  sa_sysenter_esp :: u64
  sa_sysenter_eip :: u64
  sa_cr2 :: u64
  sa_gpat :: u64
  sa_dbg_ctl :: u64
  sa_br_from :: u64
  sa_br_to :: u64
  sa_last_excep_from :: u64
  sa_last_excep_to :: u64
  sa_spec_ctl :: u64

record Vmcb =
  control_area :: ControlArea
  state_save_area :: StateSaveArea

definition segment_zeroed :: vmcb_segment where
  "segment_zeroed = \<lparr>seg_selector = 0, seg_attrib = 0, seg_limit = 0, seg_base = 0\<rparr>"

definition ControlArea_zeroed :: ControlArea where
  "ControlArea_zeroed =
     \<lparr>intercept_cr_read = 0, intercept_cr_write = 0, intercept_dr_read = 0, intercept_dr_write = 0,
      intercept_exception = 0, intercept_misc1 = 0, intercept_misc2 = 0, intercept_misc3 = 0,
      pause_filter_threshold = 0, pause_filter_count = 0, iopm_base_pa = 0, msrpm_base_pa = 0, tsc_offset = 0,
      guest_asid = 0, tlb_control = 0, vintr = 0, interrupt_shadow = 0, exit_code = 0, exit_info1 = 0,
      exit_info2 = 0, exit_int_info = 0, np_enable = 0, avic_apic_bar = 0, guest_pa_pf_ghcb = 0, event_inj = 0,
      ncr3 = 0, lbr_virtualization_enable = 0, vmcb_clean = 0, nrip = 0, num_of_bytes_fetched = 0,
      guest_instruction_bytes = replicate 15 0, avic_apic_backing_page_pointer = 0,
      avic_logical_table_pointer = 0, avic_physical_table_pointer = 0, vmcb_save_state_pointer = 0\<rparr>"

definition StateSaveArea_zeroed :: StateSaveArea where
  "StateSaveArea_zeroed =
     \<lparr>sa_es = segment_zeroed, sa_cs = segment_zeroed, sa_ss = segment_zeroed, sa_ds = segment_zeroed,
      sa_fs = segment_zeroed, sa_gs = segment_zeroed, sa_gdtr = segment_zeroed, sa_ldtr = segment_zeroed,
      sa_idtr = segment_zeroed, sa_tr = segment_zeroed, sa_cpl = 0, sa_efer = 0, sa_cr4 = 0, sa_cr3 = 0,
      sa_cr0 = 0, sa_dr7 = 0, sa_dr6 = 0, sa_rflags = 0, sa_rip = 0, sa_rsp = 0, sa_s_cet = 0, sa_ssp = 0,
      sa_isst_addr = 0, sa_rax = 0, sa_star = 0, sa_lstar = 0, sa_cstar = 0, sa_sf_mask = 0,
      sa_kernel_gs_base = 0, sa_sysenter_cs = 0, sa_sysenter_esp = 0, sa_sysenter_eip = 0, sa_cr2 = 0,
      sa_gpat = 0, sa_dbg_ctl = 0, sa_br_from = 0, sa_br_to = 0, sa_last_excep_from = 0, sa_last_excep_to = 0,
      sa_spec_ctl = 0\<rparr>"

text \<open>\<open>Vmcb::default\<close>\<close>

definition Vmcb_default :: Vmcb where
  "Vmcb_default = \<lparr>control_area = ControlArea_zeroed, state_save_area = StateSaveArea_zeroed\<rparr>"

section \<open>The machine with SVM\<close>

abbreviation IA32_STAR :: u32 where "IA32_STAR \<equiv> 0xc0000081"
abbreviation IA32_LSTAR :: u32 where "IA32_LSTAR \<equiv> 0xc0000082"
abbreviation IA32_CSTAR :: u32 where "IA32_CSTAR \<equiv> 0xc0000083"
abbreviation IA32_FMASK :: u32 where "IA32_FMASK \<equiv> 0xc0000084"
abbreviation IA32_KERNEL_GSBASE :: u32 where "IA32_KERNEL_GSBASE \<equiv> 0xc0000102"
abbreviation (input) EFER_SVME :: u64 where "EFER_SVME \<equiv> 0x1000"

text \<open>
  \<open>fs_cache\<close> to \<open>ldtr_cache\<close> are the attributes and limits of FS, GS, TR and LDTR that are
  not visible elsewhere, and the bases of the last two.
\<close>

record svm_machine = machine +
  npt :: paging_structures
  activity_states :: "u8 list"
  apic_mmio :: "u64 \<Rightarrow> u32"
  fs_cache :: "u16 \<times> u32"
  gs_cache :: "u16 \<times> u32"
  tr_cache :: "u16 \<times> u32 \<times> u64"
  ldtr_cache :: "u16 \<times> u32 \<times> u64"

text \<open>VMSAVE stores FS, GS, TR, LDTR and the system call MSRs.\<close>

definition vmsave_instr :: "svm_machine \<Rightarrow> StateSaveArea \<Rightarrow> StateSaveArea" where
  "vmsave_instr m sa =
     (let (fa, fl) = fs_cache m; (ga, gl) = gs_cache m; (ta, tl, tb) = tr_cache m; (la, ll, lb) = ldtr_cache m in
      sa\<lparr>sa_fs := \<lparr>seg_selector = fs_sel m, seg_attrib = fa, seg_limit = fl, seg_base = msrs m IA32_FS_BASE\<rparr>,
         sa_gs := \<lparr>seg_selector = gs_sel m, seg_attrib = ga, seg_limit = gl, seg_base = msrs m IA32_GS_BASE\<rparr>,
         sa_tr := \<lparr>seg_selector = tr_sel m, seg_attrib = ta, seg_limit = tl, seg_base = tb\<rparr>,
         sa_ldtr := \<lparr>seg_selector = ldtr_sel m, seg_attrib = la, seg_limit = ll, seg_base = lb\<rparr>,
         sa_kernel_gs_base := msrs m IA32_KERNEL_GSBASE, sa_star := msrs m IA32_STAR, sa_lstar := msrs m IA32_LSTAR,
         sa_cstar := msrs m IA32_CSTAR, sa_sf_mask := msrs m IA32_FMASK, sa_sysenter_cs := msrs m IA32_SYSENTER_CS,
         sa_sysenter_esp := msrs m IA32_SYSENTER_ESP, sa_sysenter_eip := msrs m IA32_SYSENTER_EIP\<rparr>)"

text \<open>VMLOAD loads them.\<close>

definition vmload_instr :: "StateSaveArea \<Rightarrow> svm_machine \<Rightarrow> svm_machine" where
  "vmload_instr sa m =
     m\<lparr>fs_sel := seg_selector (sa_fs sa), gs_sel := seg_selector (sa_gs sa), tr_sel := seg_selector (sa_tr sa),
       ldtr_sel := seg_selector (sa_ldtr sa),
       msrs := (msrs m)(IA32_FS_BASE := seg_base (sa_fs sa), IA32_GS_BASE := seg_base (sa_gs sa),
         IA32_KERNEL_GSBASE := sa_kernel_gs_base sa, IA32_STAR := sa_star sa, IA32_LSTAR := sa_lstar sa,
         IA32_CSTAR := sa_cstar sa, IA32_FMASK := sa_sf_mask sa, IA32_SYSENTER_CS := sa_sysenter_cs sa,
         IA32_SYSENTER_ESP := sa_sysenter_esp sa, IA32_SYSENTER_EIP := sa_sysenter_eip sa),
       fs_cache := (seg_attrib (sa_fs sa), seg_limit (sa_fs sa)),
       gs_cache := (seg_attrib (sa_gs sa), seg_limit (sa_gs sa)),
       tr_cache := (seg_attrib (sa_tr sa), seg_limit (sa_tr sa), seg_base (sa_tr sa)),
       ldtr_cache := (seg_attrib (sa_ldtr sa), seg_limit (sa_ldtr sa), seg_base (sa_ldtr sa))\<rparr>"

section \<open>The extension\<close>

record Svm =
  saved_efer :: u64

definition Svm_default :: Svm where
  "Svm_default = \<lparr>saved_efer = 0\<rparr>"

definition Svm_enable :: "Svm \<Rightarrow> 'm machine_scheme \<Rightarrow> (Svm \<times> 'm machine_scheme) rust" where
  "Svm_enable vt m =
     (let vt' = vt\<lparr>saved_efer := rdmsr IA32_EFER m\<rparr>
      in Inr (vt', wrmsr IA32_EFER (saved_efer vt' OR EFER_SVME) m))"

definition Svm_disable :: "Svm \<Rightarrow> 'm machine_scheme \<Rightarrow> (Svm \<times> 'm machine_scheme) rust" where
  "Svm_disable vt m = Inr (vt, wrmsr IA32_EFER (saved_efer vt) m)"

end
