(* ===== verification/Svm_Guest.thy ===== *)
theory Svm_Guest
  imports Svm Host_Data
begin

unbundle bit_operations_syntax

text \<open>
  The AMD guest, \<open>hypervisor/amd/guest.rs\<close>. The two control blocks are values in the guest;
  the processor reaches them through \<open>vmcb_pa\<close> and \<open>host_vmcb_pa\<close>, which \<open>PlatformOps::pa\<close>
  gives for their addresses. What the guest does between VMRUN and \<open>#VMEXIT\<close>, and what the
  other processors do to the shared activity states meanwhile, is the argument \<open>event\<close>; it
  also lists the values that the busy loop of \<open>wait_for_sipi\<close> observes.
\<close>

section \<open>Definitions\<close>

text \<open>\<open>GuestActivityState\<close> and \<open>TlbControl\<close> by their discriminants.\<close>

definition ACTIVE :: u8 where "ACTIVE = 0"
definition WAIT_FOR_SIPI :: u8 where "WAIT_FOR_SIPI = 0xff"
definition DO_NOT_FLUSH :: u32 where "DO_NOT_FLUSH = 0"
definition FLUSH_ALL :: u32 where "FLUSH_ALL = 1"

record SvmGuest =
  svm_id :: nat
  svm_registers :: registers
  vmcb :: Vmcb
  vmcb_pa :: u64
  host_vmcb :: Vmcb
  host_vmcb_pa :: u64
  host_state_va :: u64

text \<open>Updates of one area of the control block.\<close>

definition upd_control :: "(ControlArea \<Rightarrow> ControlArea) \<Rightarrow> SvmGuest \<Rightarrow> SvmGuest" where
  "upd_control f g = g\<lparr>vmcb := (vmcb g)\<lparr>control_area := f (control_area (vmcb g))\<rparr>\<rparr>"

definition upd_state :: "(StateSaveArea \<Rightarrow> StateSaveArea) \<Rightarrow> SvmGuest \<Rightarrow> SvmGuest" where
  "upd_state f g = g\<lparr>vmcb := (vmcb g)\<lparr>state_save_area := f (state_save_area (vmcb g))\<rparr>\<rparr>"

definition intercept_apic_write :: "bool \<Rightarrow> SvmGuest \<Rightarrow> svm_machine \<Rightarrow> SvmGuest \<times> svm_machine" where
  "intercept_apic_write en g m =
     (upd_control (\<lambda>c. c\<lparr>tlb_control := FLUSH_ALL\<rparr>) g, m\<lparr>npt := set_apic_writable (\<not> en) m (npt m)\<rparr>)"

text \<open>
  \<open>addrs\<close> are the addresses of the two control blocks and of the host state area; \<open>uefi\<close>
  says whether the feature is on. The array \<open>activity_states\<close> is indexed with the number.
\<close>

definition SvmGuest_new ::
  "bool \<Rightarrow> (u64 \<Rightarrow> u64) \<Rightarrow> u64 \<times> u64 \<times> u64 \<Rightarrow> nat \<Rightarrow> svm_machine \<Rightarrow> (SvmGuest \<times> svm_machine) rust" where
  "SvmGuest_new uefi pa_of addrs n m =
     (case addrs of (vmcb_va, host_vmcb_va, hs_va) \<Rightarrow>
      if length (activity_states m) \<le> n then Inl IndexOutOfBounds
      else
        let vm = \<lparr>svm_id = n, svm_registers = Registers_default, vmcb = Vmcb_default, vmcb_pa = pa_of vmcb_va,
                  host_vmcb = Vmcb_default, host_vmcb_pa = pa_of host_vmcb_va, host_state_va = hs_va\<rparr>
        in Inr (if uefi \<and> svm_id vm = 0 then intercept_apic_write True vm m else (vm, m)))"

definition SvmGuest_activate :: "(u64 \<Rightarrow> u64) \<Rightarrow> SvmGuest \<Rightarrow> svm_machine \<Rightarrow> (SvmGuest \<times> svm_machine) rust" where
  "SvmGuest_activate pa_of g m = Inr (g, wrmsr SVM_MSR_VM_HSAVE_PA (pa_of (host_state_va g)) m)"

definition SvmGuest_deactivate :: "SvmGuest \<Rightarrow> svm_machine \<Rightarrow> (SvmGuest \<times> svm_machine) rust" where
  "SvmGuest_deactivate g m = Inr (g, wrmsr SVM_MSR_VM_HSAVE_PA 0 m)"

definition svm_initialize_control :: "(u64 \<Rightarrow> u64) \<Rightarrow> u64 \<Rightarrow> SvmGuest \<Rightarrow> svm_machine \<Rightarrow> SvmGuest \<times> svm_machine" where
  "svm_initialize_control pa_of nested_pml4_addr g m =
     (let g1 = upd_control (\<lambda>c. c\<lparr>intercept_misc1 := push_bit 18 1, intercept_misc2 := push_bit 0 1 OR push_bit 1 1,
                 pause_filter_count := 0xffff, guest_asid := 1, np_enable := 1, ncr3 := pa_of nested_pml4_addr\<rparr>) g;
          m1 = wrmsr SVM_MSR_VM_CR (rdmsr SVM_MSR_VM_CR m OR push_bit 1 1) m
      in (upd_control (\<lambda>c. c\<lparr>intercept_exception := push_bit 30 1\<rparr>) g1, m1))"

definition svm_segment :: "svm_machine \<Rightarrow> u64 \<Rightarrow> selector \<Rightarrow> vmcb_segment \<Rightarrow> vmcb_segment" where
  "svm_segment m guest_gdt sel s =
     s\<lparr>seg_selector := sel, seg_attrib := get_segment_access_right (mem64 m) guest_gdt sel,
       seg_limit := get_segment_limit (mem64 m) guest_gdt sel\<rparr>"

definition svm_initialize_guest :: "SvmGuest \<Rightarrow> svm_machine \<Rightarrow> SvmGuest" where
  "svm_initialize_guest g m =
     (let idtr = sidt m; gdtr = sgdt m; guest_gdt = dtr_base gdtr; r = svm_registers g;
          g1 = upd_state (\<lambda>s. s\<lparr>
            sa_es := svm_segment m guest_gdt (es_sel m) (sa_es s),
            sa_cs := svm_segment m guest_gdt (cs_sel m) (sa_cs s),
            sa_ss := svm_segment m guest_gdt (ss_sel m) (sa_ss s),
            sa_ds := svm_segment m guest_gdt (ds_sel m) (sa_ds s),
            sa_gdtr := (sa_gdtr s)\<lparr>seg_base := dtr_base gdtr, seg_limit := ucast (dtr_limit gdtr)\<rparr>,
            sa_idtr := (sa_idtr s)\<lparr>seg_base := dtr_base idtr, seg_limit := ucast (dtr_limit idtr)\<rparr>,
            sa_efer := rdmsr IA32_EFER m OR EFER_SVME, sa_cr0 := cr0 m, sa_cr3 := cr3 m, sa_cr4 := cr4 m,
            sa_rip := rip r, sa_rsp := rsp r, sa_rflags := rflags r, sa_rax := rax r,
            sa_gpat := rdmsr IA32_PAT m\<rparr>) g
      in upd_state (vmsave_instr m) g1)"

definition svm_initialize_host ::
  "(u64 \<Rightarrow> u64) \<Rightarrow> 'tss shared_host_data option \<Rightarrow> SvmGuest \<Rightarrow> svm_machine \<Rightarrow> (SvmGuest \<times> svm_machine) rust" where
  "svm_initialize_host pa_of SHARED_HOST_DATA g m =
     and_then (unwrap ''SHARED_HOST_DATA'' SHARED_HOST_DATA) (\<lambda>shared_host.
     let m1 = (case host_pt shared_host of Some pml4_addr \<Rightarrow> cr3_write (pa_of pml4_addr) m | None \<Rightarrow> m) in
     and_then
       (case host_gdts shared_host of
          Some gdts \<Rightarrow>
            and_then (gdt_of (svm_id g) gdts) (\<lambda>hg.
            case gdt_apply (hg_gdt_addr hg) (hg_raw hg) m1 of
              Inl e \<Rightarrow> Inl (UnwrapFailed ''apply'')
            | Inr m2 \<Rightarrow> Inr m2)
        | None \<Rightarrow> Inr m1) (\<lambda>m2.
     and_then
       (case host_idt shared_host of
          Some (base, idt) \<Rightarrow> and_then (idt_idtr base idt) (\<lambda>d. Inr (lidt d m2))
        | None \<Rightarrow> Inr m2) (\<lambda>m3.
     Inr (g\<lparr>host_vmcb := (host_vmcb g)\<lparr>state_save_area := vmsave_instr m3 (state_save_area (host_vmcb g))\<rparr>\<rparr>, m3))))"

definition SvmGuest_initialize ::
  "(u64 \<Rightarrow> u64) \<Rightarrow> u64 \<Rightarrow> 'tss shared_host_data option \<Rightarrow> registers \<Rightarrow> SvmGuest \<Rightarrow> svm_machine
     \<Rightarrow> (SvmGuest \<times> svm_machine) rust" where
  "SvmGuest_initialize pa_of nested_pml4_addr SHARED_HOST_DATA r g m =
     (case svm_initialize_control pa_of nested_pml4_addr (g\<lparr>svm_registers := r\<rparr>) m of (g1, m1) \<Rightarrow>
      svm_initialize_host pa_of SHARED_HOST_DATA (svm_initialize_guest g1 m1) m1)"

subsection \<open>INIT and start-up IPI\<close>

text \<open>The segment registers after INIT; \<open>rights\<close> is the attribute value.\<close>

definition svm_init_segment :: "u16 \<Rightarrow> vmcb_segment" where
  "svm_init_segment rights = \<lparr>seg_selector = 0, seg_attrib = rights, seg_limit = 0xffff, seg_base = 0\<rparr>"

text \<open>\<open>get_bit(b) as u64 << b\<close>\<close>

definition keep_bit :: "nat \<Rightarrow> u64 \<Rightarrow> u64" where
  "keep_bit b v = push_bit b (if get_bit b v then 1 else 0)"

text \<open>\<open>AtomicU8::swap\<close> on the activity state of a processor: the old value and the new states.\<close>

definition swap_state :: "nat \<Rightarrow> u8 \<Rightarrow> u8 list \<Rightarrow> u8 \<times> u8 list" where
  "swap_state i v states = (states ! i, states[i := v])"

definition svm_handle_init_signal :: "cpuid_fun \<Rightarrow> SvmGuest \<Rightarrow> svm_machine \<Rightarrow> (SvmGuest \<times> svm_machine) rust" where
  "svm_handle_init_signal cpuid g m =
     and_then (assert_that (svm_id g \<noteq> 0) ''self.id != 0'') (\<lambda>_.
     case swap_state (svm_id g) WAIT_FOR_SIPI (activity_states m) of (prev, states) \<Rightarrow>
     let m1 = m\<lparr>activity_states := states\<rparr> in
     and_then (assert_that (prev = ACTIVE) ''activity_state == Active'') (\<lambda>_.
     let previous_cr0 = cr0 m1;
         new_cr0 = push_bit 4 1 OR keep_bit 29 previous_cr0 OR keep_bit 30 previous_cr0;
         g1 = upd_state (\<lambda>s. s\<lparr>
           sa_cr0 := new_cr0, sa_cr2 := 0, sa_cr3 := 0, sa_cr4 := 0, sa_rflags := FLAGS_A1, sa_efer := EFER_SVME,
           sa_rip := 0xfff0,
           sa_cs := \<lparr>seg_selector = 0xf000, seg_attrib = 0x9b, seg_limit = 0xffff, seg_base = 0xffff0000\<rparr>,
           sa_ds := svm_init_segment 0x93, sa_es := svm_init_segment 0x93, sa_fs := svm_init_segment 0x93,
           sa_gs := svm_init_segment 0x93,
           sa_gdtr := (sa_gdtr s)\<lparr>seg_base := 0, seg_limit := 0xffff\<rparr>,
           sa_idtr := (sa_idtr s)\<lparr>seg_base := 0, seg_limit := 0xffff\<rparr>,
           sa_ldtr := svm_init_segment 0x82, sa_tr := svm_init_segment 0x8b,
           sa_rsp := 0, sa_dr6 := 0xffff0ff0, sa_dr7 := 0x400\<rparr>) g;
         r = (svm_registers g)\<lparr>rax := 0, rdx := ucast (eax (cpuid 1 0)), rbx := 0, rcx := 0, rbp := 0, rdi := 0,
               rsi := 0, r8 := 0, r9 := 0, r10 := 0, r11 := 0, r12 := 0, r13 := 0, r14 := 0, r15 := 0\<rparr>;
         m2 = m1\<lparr>dr0_reg := 0, dr1_reg := 0, dr2_reg := 0, dr3_reg := 0\<rparr>
     in Inr (upd_control (\<lambda>c. c\<lparr>tlb_control := FLUSH_ALL, vmcb_clean := 0\<rparr>) (g1\<lparr>svm_registers := r\<rparr>), m2)))"

text \<open>
  The loop of \<open>wait_for_sipi\<close>: \<open>loads\<close> are the values that successive loads of the activity
  state observe, as the other processors change it. \<open>None\<close> means that the loop is still
  running after them. The swap that follows sees the value that ended the loop: another
  processor only replaces the value WaitForSipi.
\<close>

fun spin_while_waiting :: "u8 list \<Rightarrow> u8 option" where
  "spin_while_waiting [] = None"
| "spin_while_waiting (v # vs) = (if v = WAIT_FOR_SIPI then spin_while_waiting vs else Some v)"

definition wait_for_sipi :: "u8 list \<Rightarrow> SvmGuest \<Rightarrow> svm_machine \<Rightarrow> (u8 \<times> svm_machine) rust" where
  "wait_for_sipi loads g m =
     and_then (assert_that (svm_id g \<noteq> 0) ''self.id != 0'') (\<lambda>_.
     case spin_while_waiting loads of
       None \<Rightarrow> Inl NoReturn
     | Some v \<Rightarrow>
         (case swap_state (svm_id g) ACTIVE ((activity_states m)[svm_id g := v]) of (vector, states) \<Rightarrow>
          Inr (vector, m\<lparr>activity_states := states\<rparr>)))"

definition handle_sipi :: "u8 \<Rightarrow> SvmGuest \<Rightarrow> svm_machine \<Rightarrow> SvmGuest rust" where
  "handle_sipi vector g m =
     and_then (assert_that (svm_id g \<noteq> 0) ''self.id != 0'') (\<lambda>_.
     and_then (assert_that (activity_states m ! svm_id g = ACTIVE) ''activity_state == Active'') (\<lambda>_.
     let g1 = upd_state (\<lambda>s. s\<lparr>
           sa_cs := (sa_cs s)\<lparr>seg_selector := push_bit 8 (ucast vector), seg_base := push_bit 12 (ucast vector)\<rparr>,
           sa_rip := 0\<rparr>) g
     in Inr (g1\<lparr>svm_registers := (svm_registers g1)\<lparr>rip := 0\<rparr>\<rparr>)))"

definition handle_security_exception ::
  "cpuid_fun \<Rightarrow> u8 list \<Rightarrow> SvmGuest \<Rightarrow> svm_machine \<Rightarrow> (SvmGuest \<times> svm_machine) rust" where
  "handle_security_exception cpuid loads g m =
     and_then (assert_that (svm_id g \<noteq> 0) ''self.id != 0'') (\<lambda>_.
     and_then (svm_handle_init_signal cpuid g m) (\<lambda>(g1, m1).
     and_then (wait_for_sipi loads g1 m1) (\<lambda>(vector, m2).
     and_then (handle_sipi vector g1 m2) (\<lambda>g2. Inr (g2, m2)))))"

subsection \<open>Writes to the APIC page\<close>

definition starts_with :: "u8 list \<Rightarrow> u8 list \<Rightarrow> bool" where
  "starts_with pat xs \<longleftrightarrow> take (length pat) xs = pat"

text \<open>The value that a recognised instruction stores, and its length.\<close>

definition decode_apic_write :: "u8 list \<Rightarrow> registers \<Rightarrow> (u32 \<times> u64) rust" where
  "decode_apic_write instructions r =
     (if starts_with [0xc7, 0x80, 0xb0, 0x00, 0x00, 0x00, 0x00, 0x00, 0x00, 0x00] instructions then Inr (0, 10)
      else if starts_with [0x45, 0x89, 0x65, 0x00] instructions then Inr (ucast (r12 r), 4)
      else if starts_with [0x41, 0x89, 0x14, 0x00] instructions then Inr (ucast (rdx r), 4)
      else if starts_with [0xc7, 0x81, 0xb0, 0x00, 0x00, 0x00, 0x00, 0x00, 0x00, 0x00] instructions then Inr (0, 10)
      else if starts_with [0xa3, 0x00, 0x03, 0xe0, 0xfe, 0x00, 0x00, 0x00, 0x00] instructions then Inr (ucast (rax r), 9)
      else if starts_with [0xa3, 0x10, 0x03, 0xe0, 0xfe, 0x00, 0x00, 0x00, 0x00] instructions then Inr (ucast (rax r), 9)
      else if starts_with [0x89, 0x90, 0x00, 0x03, 0x00, 0x00] instructions then Inr (ucast (rdx r), 6)
      else if starts_with [0x89, 0x88, 0x10, 0x03, 0x00, 0x00] instructions then Inr (ucast (rcx r), 6)
      else Inl (ExplicitPanic ''Unhandled APIC access instructions''))"

text \<open>\<open>PROCESSOR_COUNT.load() - 1\<close> on \<open>usize\<close>\<close>

definition last_processor :: "bool \<Rightarrow> apic_ids \<Rightarrow> nat rust" where
  "last_processor oc ids =
     (if PROCESSOR_COUNT ids = 0 then if oc then Inl Overflow else Inr (2 ^ 64 - 1) else Inr (PROCESSOR_COUNT ids - 1))"

text \<open>The compare-and-exchange from WaitForSipi to the vector.\<close>

definition deliver_sipi :: "nat \<Rightarrow> u8 \<Rightarrow> u8 list \<Rightarrow> u8 list rust" where
  "deliver_sipi processor_id vector states =
     (if processor_id < length states
      then Inr (if states ! processor_id = WAIT_FOR_SIPI then states[processor_id := vector] else states)
      else Inl IndexOutOfBounds)"

definition emulate_apic_write :: "apic_ids \<Rightarrow> u32 \<Rightarrow> u64 \<Rightarrow> svm_machine \<Rightarrow> svm_machine rust" where
  "emulate_apic_write ids value faulting_gpa m =
     (let message_type = get_bits 8 10 value;
          apic_register = faulting_gpa AND 0xfff in
      if message_type \<noteq> 6 \<or> apic_register \<noteq> 0x300
      then Inr (m\<lparr>apic_mmio := (apic_mmio m)(faulting_gpa := value)\<rparr>)
      else
        and_then (assert_that (\<not> get_bit 11 value) ''Destination Mode must be Physical'') (\<lambda>_.
        and_then (assert_that (get_bits 18 19 value = 0) ''Destination Shorthand must be Destination'') (\<lambda>_.
        let icr_high_addr = (faulting_gpa AND NOT 0xfff) OR 0x310;
            icr_high_value = apic_mmio m icr_high_addr;
            vector = (ucast (get_bits 0 7 value) :: u8);
            apic_id = (ucast (get_bits 24 31 icr_high_value) :: u8) in
        and_then (unwrap ''processor_id_from'' (processor_id_from apic_id ids)) (\<lambda>processor_id.
        and_then (assert_that (vector \<noteq> WAIT_FOR_SIPI) ''vector != WaitForSipi'') (\<lambda>_.
        and_then (deliver_sipi processor_id vector (activity_states m)) (\<lambda>states.
        Inr (m\<lparr>activity_states := states\<rparr>)))))))"

definition handle_nested_page_fault ::
  "bool \<Rightarrow> apic_ids \<Rightarrow> SvmGuest \<Rightarrow> svm_machine \<Rightarrow> (SvmGuest \<times> svm_machine) rust" where
  "handle_nested_page_fault oc ids g m =
     and_then (last_processor oc ids) (\<lambda>last_id.
     case (if svm_id g = last_id then intercept_apic_write False g m else (g, m)) of (g1, m1) \<Rightarrow>
     let c = control_area (vmcb g1);
         instructions = take (unat (num_of_bytes_fetched c)) (guest_instruction_bytes c);
         r = svm_registers g1 in
     and_then (decode_apic_write instructions r) (\<lambda>(value, instr_len).
     and_then (add_checked oc (rip r) instr_len) (\<lambda>rip'.
     and_then (emulate_apic_write ids value (exit_info2 c) m1) (\<lambda>m2.
     Inr (g1\<lparr>svm_registers := r\<lparr>rip := rip'\<rparr>\<rparr>, m2)))))"

subsection \<open>Running the guest\<close>

text \<open>
  \<open>sx_cpu\<close> is the processor as the guest leaves it, \<open>sx_gprs\<close> its general purpose and XMM
  registers, \<open>sx_state\<close> the state-save area and \<open>sx_control\<close> the control area as the processor
  writes them, \<open>sx_states\<close>, \<open>sx_npt\<close> and \<open>sx_mmio\<close> what the shared data and the APIC hold after
  the exit, and \<open>sx_loads\<close> what the loop of \<open>wait_for_sipi\<close> observes.
\<close>

record svm_exit =
  sx_cpu :: machine
  sx_gprs :: registers
  sx_state :: StateSaveArea
  sx_control :: ControlArea
  sx_states :: "nat \<Rightarrow> u8"
  sx_npt :: paging_structures
  sx_mmio :: "u64 \<Rightarrow> u32"
  sx_loads :: "u8 list"

text \<open>The fields of the control area that \<open>#VMEXIT\<close> writes.\<close>

definition control_after_exit :: "ControlArea \<Rightarrow> ControlArea \<Rightarrow> ControlArea" where
  "control_after_exit new c =
     c\<lparr>vintr := vintr new, interrupt_shadow := interrupt_shadow new, exit_code := exit_code new,
       exit_info1 := exit_info1 new, exit_info2 := exit_info2 new, exit_int_info := exit_int_info new,
       event_inj := event_inj new, nrip := nrip new, num_of_bytes_fetched := num_of_bytes_fetched new,
       guest_instruction_bytes := guest_instruction_bytes new\<rparr>"

text \<open>
  The host state that VMRUN saves and \<open>#VMEXIT\<close> loads again, taken from the processor \<open>m\<close> at
  VMRUN.
\<close>

definition restore_host_state :: "'a machine_scheme \<Rightarrow> 'b machine_scheme \<Rightarrow> 'b machine_scheme" where
  "restore_host_state m n =
     n\<lparr>cr0_reg := cr0_reg m, cr3_reg := cr3_reg m, cr4_reg := cr4_reg m,
       msrs := (msrs n)(IA32_EFER := msrs m IA32_EFER), gdtr_reg := gdtr_reg m, idtr_reg := idtr_reg m,
       es_sel := es_sel m, cs_sel := cs_sel m, ss_sel := ss_sel m, ds_sel := ds_sel m, dr7_reg := 0x400\<rparr>"

text \<open>
  \<open>run_svm_guest\<close> of \<open>run_guest.S\<close>: VMLOAD, VMRUN and VMSAVE on the guest control block, the
  copy of the registers, and VMLOAD on the host control block.
\<close>

definition run_svm_guest :: "svm_exit \<Rightarrow> SvmGuest \<Rightarrow> svm_machine \<Rightarrow> SvmGuest \<times> svm_machine" where
  "run_svm_guest ex g m =
     (let r = svm_registers g;
          r1 = (sx_gprs ex)\<lparr>rax := rax r, rip := rip r, rsp := rsp r, rflags := rflags r\<rparr>;
          g1 = g\<lparr>svm_registers := r1,
                 vmcb := \<lparr>control_area = control_after_exit (sx_control ex) (control_area (vmcb g)),
                          state_save_area = sx_state ex\<rparr>\<rparr>;
          m1 = machine.extend (sx_cpu ex) (svm_machine.fields (sx_npt ex)
                 (map (sx_states ex) [0..<length (activity_states m)]) (sx_mmio ex)
                 (fs_cache m) (gs_cache m) (tr_cache m) (ldtr_cache m))
      in (g1, vmload_instr (state_save_area (host_vmcb g)) (restore_host_state m m1)))"

text \<open>The match on the exit code.\<close>

definition svm_exit_reason ::
  "bool \<Rightarrow> cpuid_fun \<Rightarrow> apic_ids \<Rightarrow> u8 list \<Rightarrow> SvmGuest \<Rightarrow> svm_machine \<Rightarrow> (VmExitReason \<times> SvmGuest \<times> svm_machine) rust" where
  "svm_exit_reason oc cpuid ids loads g m =
     (let c = control_area (vmcb g) in
      if exit_code c = 0x5e then
        and_then (handle_security_exception cpuid loads g m) (\<lambda>(g1, m1). Inr (InitSignal, g1, m1))
      else if exit_code c = 0x72 then Inr (Cpuid \<lparr>next_rip = nrip c\<rparr>, g, m)
      else if exit_code c = 0x81 then Inr (VmCall \<lparr>next_rip = nrip c\<rparr>, g, m)
      else if exit_code c = 0x400 then
        and_then (handle_nested_page_fault oc ids g m) (\<lambda>(g1, m1). Inr (NestedPageFault, g1, m1))
      else Inl (ExplicitPanic ''Unhandled #VMEXIT reason''))"

text \<open>Before VMRUN the registers that the control block holds are copied into it.\<close>

definition registers_to_vmcb :: "SvmGuest \<Rightarrow> SvmGuest" where
  "registers_to_vmcb g =
     (let r = svm_registers g
      in upd_state (\<lambda>s. s\<lparr>sa_rax := rax r, sa_rip := rip r, sa_rsp := rsp r, sa_rflags := rflags r\<rparr>) g)"

definition SvmGuest_run ::
  "bool \<Rightarrow> cpuid_fun \<Rightarrow> apic_ids \<Rightarrow> svm_exit \<Rightarrow> SvmGuest \<Rightarrow> svm_machine \<Rightarrow> (VmExitReason \<times> SvmGuest \<times> svm_machine) rust" where
  "SvmGuest_run oc cpuid ids ex g m =
     (case run_svm_guest ex (registers_to_vmcb g) m of (g2, m1) \<Rightarrow>
      let s = state_save_area (vmcb g2);
          g3 = g2\<lparr>svm_registers := (svm_registers g2)\<lparr>rax := sa_rax s, rip := sa_rip s, rsp := sa_rsp s, rflags := sa_rflags s\<rparr>\<rparr>;
          g4 = upd_control (\<lambda>c. c\<lparr>tlb_control := DO_NOT_FLUSH, vmcb_clean := - 1\<rparr>) g3
      in svm_exit_reason oc cpuid ids (sx_loads ex) g4 m1)"

definition SvmGuest_load_guest_cpu_state :: "SvmGuest \<Rightarrow> svm_machine \<Rightarrow> svm_machine rust" where
  "SvmGuest_load_guest_cpu_state g m =
     (let state = state_save_area (vmcb g);
          m1 = cr3_write (sa_cr3 state) m;
          m2 = cr0_write (sa_cr0 state) m1;
          m3 = cr4_write (sa_cr4 state) m2;
          m4 = wrmsr IA32_EFER (sa_efer state AND NOT EFER_SVME) m3;
          m5 = wrmsr IA32_FS_BASE (seg_base (sa_fs state)) m4;
          m6 = wrmsr IA32_GS_BASE (seg_base (sa_gs state)) m5;
          m7 = lgdt \<lparr>dtr_base = seg_base (sa_gdtr state), dtr_limit = ucast (seg_limit (sa_gdtr state))\<rparr> m6
      in Inr (lidt \<lparr>dtr_base = seg_base (sa_idtr state), dtr_limit = ucast (seg_limit (sa_idtr state))\<rparr> m7))"

text \<open>\<open>SharedGuestData::new\<close>: the shared data in the machine.\<close>

definition SharedGuestData_new :: "(u64 \<Rightarrow> u64) \<Rightarrow> u64 \<Rightarrow> svm_machine \<Rightarrow> svm_machine rust" where
  "SharedGuestData_new pa_of base m =
     and_then (shared_npt pa_of base m) (\<lambda>n. Inr (m\<lparr>npt := n, activity_states := replicate 0xff ACTIVE\<rparr>))"

text \<open>The implementation of the traits \<open>Extension\<close> and \<open>Guest\<close> for AMD processors.\<close>

record 'tss svm_env =
  sv_oc :: bool
  sv_uefi :: bool
  sv_pa :: "u64 \<Rightarrow> u64"
  sv_cpuid :: cpuid_fun
  sv_ids :: apic_ids
  sv_addrs :: "u64 \<times> u64 \<times> u64"
  sv_npt_addr :: u64
  sv_host_data :: "'tss shared_host_data option"

definition svm_arch ::
  "'tss svm_env \<Rightarrow> (Svm, SvmGuest, svm_exit, \<lparr>npt :: paging_structures, activity_states :: u8 list,
     apic_mmio :: u64 \<Rightarrow> u32, fs_cache :: u16 \<times> u32, gs_cache :: u16 \<times> u32, tr_cache :: u16 \<times> u32 \<times> u64,
     ldtr_cache :: u16 \<times> u32 \<times> u64\<rparr>) architecture" where
  "svm_arch e =
     \<lparr>ext_default = (\<lambda>_. Svm_default),
      enable = Svm_enable,
      disable = Svm_disable,
      guest_new = SvmGuest_new (sv_uefi e) (sv_pa e) (sv_addrs e),
      activate = SvmGuest_activate (sv_pa e),
      initialize = SvmGuest_initialize (sv_pa e) (sv_npt_addr e) (sv_host_data e),
      run = SvmGuest_run (sv_oc e) (sv_cpuid e) (sv_ids e),
      deactivate = SvmGuest_deactivate,
      load_guest_cpu_state = SvmGuest_load_guest_cpu_state,
      regs = svm_registers,
      set_regs = (\<lambda>r g. g\<lparr>svm_registers := r\<rparr>)\<rparr>"

section \<open>The contract of the host\<close>

lemma upd_simps [simp]:
  "svm_id (upd_control f g) = svm_id g" "svm_registers (upd_control f g) = svm_registers g"
  "state_save_area (vmcb (upd_control f g)) = state_save_area (vmcb g)"
  "control_area (vmcb (upd_control f g)) = f (control_area (vmcb g))"
  "svm_id (upd_state h g) = svm_id g" "svm_registers (upd_state h g) = svm_registers g"
  "state_save_area (vmcb (upd_state h g)) = h (state_save_area (vmcb g))"
  "control_area (vmcb (upd_state h g)) = control_area (vmcb g)"
  "host_vmcb (upd_control f g) = host_vmcb g" "host_vmcb (upd_state h g) = host_vmcb g"
  by (simp_all add: upd_control_def upd_state_def)

lemma intercept_keeps [simp]:
  "svm_id (fst (intercept_apic_write en g m)) = svm_id g"
  "activity_states (snd (intercept_apic_write en g m)) = activity_states m"
  by (simp_all add: intercept_apic_write_def)

definition svm_ready :: "'tss svm_env \<Rightarrow> Svm \<Rightarrow> SvmGuest \<Rightarrow> svm_machine \<Rightarrow> bool" where
  "svm_ready e vt g m \<longleftrightarrow> svm_id g < length (activity_states m)"

lemma run_svm_guest_keeps:
  assumes "run_svm_guest ex g m = (g', m')"
  shows "svm_id g' = svm_id g" "activity_states m' = map (sx_states ex) [0..<length (activity_states m)]"
    "host_vmcb g' = host_vmcb g"
  using assms
  by (auto simp: run_svm_guest_def Let_def vmload_instr_def restore_host_state_def svm_machine.defs machine.defs)

lemma security_exception_keeps:
  "handle_security_exception cpuid loads g m = Inr (g', m') \<Longrightarrow>
     svm_id g' = svm_id g \<and> length (activity_states m') = length (activity_states m)"
  by (auto simp: handle_security_exception_def svm_handle_init_signal_def wait_for_sipi_def handle_sipi_def swap_state_def
      Let_def rust_simps split: option.splits)

lemma emulate_apic_write_keeps:
  "emulate_apic_write ids v a m = Inr m' \<Longrightarrow> length (activity_states m') = length (activity_states m)"
  by (auto simp: emulate_apic_write_def deliver_sipi_def Let_def rust_simps split: if_splits)

lemma nested_page_fault_keeps:
  assumes "handle_nested_page_fault oc ids g m = Inr (g', m')"
  shows "svm_id g' = svm_id g \<and> length (activity_states m') = length (activity_states m)"
proof -
  obtain last_id where l: "last_processor oc ids = Inr last_id" using assms by (auto simp: handle_nested_page_fault_def rust_simps)
  define gm where "gm = (if svm_id g = last_id then intercept_apic_write False g m else (g, m))"
  have "svm_id (fst gm) = svm_id g" "activity_states (snd gm) = activity_states m" by (simp_all add: gm_def)
  then show ?thesis
    using assms l by (auto simp: handle_nested_page_fault_def rust_simps Let_def gm_def [symmetric] split: prod.splits
        dest!: emulate_apic_write_keeps)
qed

lemma SvmGuest_run_exit:
  obtains g1 m1 where "SvmGuest_run oc cpuid ids ex g m = svm_exit_reason oc cpuid ids (sx_loads ex) g1 m1"
    and "svm_id g1 = svm_id g" and "state_save_area (vmcb g1) = sx_state ex"
    and "svm_registers g1 = (sx_gprs ex)\<lparr>rax := sa_rax (sx_state ex), rip := sa_rip (sx_state ex),
           rsp := sa_rsp (sx_state ex), rflags := sa_rflags (sx_state ex)\<rparr>"
    and "control_area (vmcb g1) = (control_after_exit (sx_control ex) (control_area (vmcb g)))
           \<lparr>tlb_control := DO_NOT_FLUSH, vmcb_clean := - 1\<rparr>"
    and "host_vmcb g1 = host_vmcb g"
    and "m1 = snd (run_svm_guest ex g m)"
proof -
  define g1 where "g1 = registers_to_vmcb g"
  have m1: "snd (run_svm_guest ex g1 m) = snd (run_svm_guest ex g m)"
    by (simp add: run_svm_guest_def Let_def g1_def registers_to_vmcb_def)
  obtain g2 m1 where r: "run_svm_guest ex g1 m = (g2, m1)" by fastforce
  then have g2: "svm_id g2 = svm_id g" "host_vmcb g2 = host_vmcb g" "state_save_area (vmcb g2) = sx_state ex"
    "control_area (vmcb g2) = control_after_exit (sx_control ex) (control_area (vmcb g))"
    "svm_registers g2 = (sx_gprs ex)\<lparr>rax := rax (svm_registers g), rip := rip (svm_registers g),
       rsp := rsp (svm_registers g), rflags := rflags (svm_registers g)\<rparr>"
    by (auto simp: run_svm_guest_def Let_def g1_def registers_to_vmcb_def)
  show ?thesis
  proof (rule that)
    show "SvmGuest_run oc cpuid ids ex g m = svm_exit_reason oc cpuid ids (sx_loads ex)
      (upd_control (\<lambda>c. c\<lparr>tlb_control := DO_NOT_FLUSH, vmcb_clean := - 1\<rparr>) (g2\<lparr>svm_registers := (svm_registers g2)
        \<lparr>rax := sa_rax (sx_state ex), rip := sa_rip (sx_state ex), rsp := sa_rsp (sx_state ex), rflags := sa_rflags (sx_state ex)\<rparr>\<rparr>)) m1"
      by (simp add: SvmGuest_run_def Let_def g1_def [symmetric] r g2(3))
    show "m1 = snd (run_svm_guest ex g m)" using m1 r by simp
  qed (simp_all add: g2)
qed

lemma SvmGuest_run_keeps:
  assumes "SvmGuest_run oc cpuid ids ex g m = Inr (reason, g', m')"
  shows "svm_id g' = svm_id g \<and> length (activity_states m') = length (activity_states m)"
proof (rule SvmGuest_run_exit [where oc = oc and cpuid = cpuid and ids = ids and ex = ex and g = g and m = m])
  fix g1 m1
  assume r: "SvmGuest_run oc cpuid ids ex g m = svm_exit_reason oc cpuid ids (sx_loads ex) g1 m1"
    and g1: "svm_id g1 = svm_id g" and "m1 = snd (run_svm_guest ex g m)"
  then have "length (activity_states m1) = length (activity_states m)"
    using run_svm_guest_keeps(2) [of ex g m "fst (run_svm_guest ex g m)" m1] by simp
  with assms r g1 show ?thesis
    by (auto simp: svm_exit_reason_def rust_simps Let_def split: if_splits
        dest!: security_exception_keeps nested_page_fault_keeps)
qed

interpretation svm: host_arch "svm_arch e" "svm_ready e" for e :: "'tss svm_env"
proof
  fix vt g g' m m' ev reason
  assume "svm_ready e vt g m" and "run (svm_arch e) ev g m = Inr (reason, g', m')"
  then show "svm_ready e vt g' m'"
    by (auto simp: svm_ready_def svm_arch_def dest: SvmGuest_run_keeps)
qed (simp_all add: svm_arch_def svm_ready_def SvmGuest_load_guest_cpu_state_def SvmGuest_deactivate_def Svm_disable_def
    Let_def wrmsr_def)

end
