(* ===== verification/Svm_Properties.thy ===== *)
theory Svm_Properties
  imports Svm_Guest
begin

unbundle bit_operations_syntax

text \<open>
  What the AMD implementation guarantees: the guest goes on in the state in which the
  processor was virtualized, the conversion of INIT and the start-up IPI starts an
  application processor, writes to the APIC page are emulated, and devirtualization gives
  the processor back.
\<close>

section \<open>Effects of the handlers\<close>

lemma bit_keep_bit: "bit (keep_bit b v) n \<longleftrightarrow> n = b \<and> bit v b"
  by (auto simp: keep_bit_def get_bit_def bit_simps dest: bit_imp_le_length)

lemma run_svm_guest_machine:
  "snd (run_svm_guest ex g m) = vmload_instr (state_save_area (host_vmcb g)) (restore_host_state m
     (machine.extend (sx_cpu ex) (svm_machine.fields (sx_npt ex) (map (sx_states ex) [0..<length (activity_states m)])
        (sx_mmio ex) (fs_cache m) (gs_cache m) (tr_cache m) (ldtr_cache m))))"
  by (simp add: run_svm_guest_def Let_def)

lemma run_svm_guest_regs [simp]:
  "cr0_reg (snd (run_svm_guest ex g m)) = cr0_reg m"
  "activity_states (snd (run_svm_guest ex g m)) = map (sx_states ex) [0..<length (activity_states m)]"
  "apic_mmio (snd (run_svm_guest ex g m)) = sx_mmio ex" "npt (snd (run_svm_guest ex g m)) = sx_npt ex"
  by (simp_all add: run_svm_guest_machine vmload_instr_def restore_host_state_def svm_machine.defs machine.defs)

lemma security_exception_started:
  assumes "svm_id g \<noteq> 0" and "svm_id g < length (activity_states m)" and "activity_states m ! svm_id g = ACTIVE"
    and "spin_while_waiting loads = Some v"
  shows "\<exists>g' m'. handle_security_exception cpuid loads g m = Inr (g', m')
    \<and> activity_states m' = activity_states m
    \<and> svm_registers g' = (svm_registers g)\<lparr>rax := 0, rdx := ucast (eax (cpuid 1 0)), rbx := 0, rcx := 0, rbp := 0, rdi := 0,
         rsi := 0, r8 := 0, r9 := 0, r10 := 0, r11 := 0, r12 := 0, r13 := 0, r14 := 0, r15 := 0, rip := 0\<rparr>
    \<and> seg_base (sa_cs (state_save_area (vmcb g'))) = push_bit 12 (ucast v)
    \<and> seg_selector (sa_cs (state_save_area (vmcb g'))) = push_bit 8 (ucast v)
    \<and> sa_rip (state_save_area (vmcb g')) = 0 \<and> sa_rflags (state_save_area (vmcb g')) = 2
    \<and> sa_rsp (state_save_area (vmcb g')) = 0
    \<and> sa_cr0 (state_save_area (vmcb g')) = push_bit 4 1 OR keep_bit 29 (cr0 m) OR keep_bit 30 (cr0 m)
    \<and> sa_cr3 (state_save_area (vmcb g')) = 0 \<and> sa_cr4 (state_save_area (vmcb g')) = 0
    \<and> sa_efer (state_save_area (vmcb g')) = 0x1000
    \<and> sa_ss (state_save_area (vmcb g')) = sa_ss (state_save_area (vmcb g))
    \<and> sa_ds (state_save_area (vmcb g')) = svm_init_segment 0x93
    \<and> tlb_control (control_area (vmcb g')) = FLUSH_ALL \<and> vmcb_clean (control_area (vmcb g')) = 0"
proof -
  have "(activity_states m)[svm_id g := ACTIVE] = activity_states m" using assms(3) by (metis list_update_id)
  then show ?thesis
    using assms
    by (simp add: handle_security_exception_def svm_handle_init_signal_def wait_for_sipi_def handle_sipi_def swap_state_def
        Let_def cr0_def)
qed

lemma nested_page_fault_emulates:
  assumes "last_processor oc ids = Inr l" and "(g1, m1) = (if svm_id g = l then intercept_apic_write False g m else (g, m))"
    and "decode_apic_write (take (unat (num_of_bytes_fetched (control_area (vmcb g)))) (guest_instruction_bytes (control_area (vmcb g))))
           (svm_registers g) = Inr (value, len)"
    and "unat (rip (svm_registers g)) + unat len < 2 ^ 64"
  shows "handle_nested_page_fault oc ids g m =
    and_then (emulate_apic_write ids value (exit_info2 (control_area (vmcb g))) m1) (\<lambda>m2.
    Inr (g1\<lparr>svm_registers := (svm_registers g)\<lparr>rip := rip (svm_registers g) + len\<rparr>\<rparr>, m2))"
  using assms by (cases "svm_id g = l") (simp_all add: handle_nested_page_fault_def intercept_apic_write_def Let_def)

lemma run_svm_guest_apic_base: "apic_base_of (snd (run_svm_guest ex g m)) = apic_base_of (sx_cpu ex)"
  by (simp add: run_svm_guest_machine apic_base_of_def rdmsr_def vmload_instr_def restore_host_state_def svm_machine.defs machine.defs)

section \<open>Stores as the processor decodes them\<close>

text \<open>
  The part of the instruction format that a 32-bit store in 64-bit mode uses: an optional
  REX prefix, the opcode, and for the register and the immediate form ModRM, SIB and
  displacement. \<open>x86_store\<close> gives the value that is stored and the length of the instruction
  for MOV r/m32, r32 (opcode 0x89), MOV r/m32, imm32 (0xc7 /0) and MOV moffs32, EAX (0xa3).
  (AMD64 manual, volume 3, 1.2 and 1.4)
\<close>

definition reg32 :: "u8 \<Rightarrow> registers \<Rightarrow> u32" where
  "reg32 n r = ucast ([rax r, rcx r, rdx r, rbx r, rsp r, rbp r, rsi r, rdi r,
     r8 r, r9 r, r10 r, r11 r, r12 r, r13 r, r14 r, r15 r] ! unat n)"

text \<open>The bytes of ModRM, SIB and displacement of a memory operand.\<close>

fun operand_len :: "u8 list \<Rightarrow> nat option" where
  "operand_len [] = None"
| "operand_len (modrm # bs) =
     (let md = drop_bit 6 modrm; rm = take_bit 3 modrm;
          no_base = (md = 0 \<and> (rm = 5 \<or> rm = 4 \<and> bs \<noteq> [] \<and> take_bit 3 (hd bs) = 5));
          disp = (if md = 1 then 1 else if md = 2 \<or> no_base then 4 else 0)
      in if md = 3 then None else Some (1 + (if rm = 4 then 1 else 0) + disp))"

definition imm32 :: "u8 list \<Rightarrow> u32" where
  "imm32 bs = ucast (bs ! 0) OR push_bit 8 (ucast (bs ! 1)) OR push_bit 16 (ucast (bs ! 2)) OR push_bit 24 (ucast (bs ! 3))"

definition x86_store :: "u8 list \<Rightarrow> registers \<Rightarrow> (u32 \<times> nat) option" where
  "x86_store bs r =
     (let (rex, bs1) = (case bs of b # bs' \<Rightarrow> if drop_bit 4 b = 4 then ([b], bs') else ([], bs) | [] \<Rightarrow> ([], bs));
          p = length rex;
          reg_ext = (if rex \<noteq> [] \<and> bit (hd rex) 2 then 8 else 0) in
      case bs1 of
        op # bs2 \<Rightarrow>
          if op = 0xa3 then Some (reg32 0 r, p + 9)
          else if op = 0x89 then
            map_option (\<lambda>n. (reg32 (reg_ext + take_bit 3 (drop_bit 3 (hd bs2))) r, p + 1 + n)) (operand_len bs2)
          else if op = 0xc7 \<and> bs2 \<noteq> [] \<and> take_bit 3 (drop_bit 3 (hd bs2)) = 0 then
            map_option (\<lambda>n. (imm32 (drop n bs2), p + 1 + n + 4)) (operand_len bs2)
          else None
      | [] \<Rightarrow> None)"

text \<open>The instructions of UEFI firmware and Windows that the handler knows.\<close>

definition apic_write_forms :: "u8 list list" where
  "apic_write_forms =
     [[0xc7, 0x80, 0xb0, 0, 0, 0, 0, 0, 0, 0], [0x45, 0x89, 0x65, 0], [0x41, 0x89, 0x14, 0],
      [0xc7, 0x81, 0xb0, 0, 0, 0, 0, 0, 0, 0], [0xa3, 0, 3, 0xe0, 0xfe, 0, 0, 0, 0], [0xa3, 0x10, 3, 0xe0, 0xfe, 0, 0, 0, 0],
      [0x89, 0x90, 0, 3, 0, 0], [0x89, 0x88, 0x10, 3, 0, 0]]"

lemma starts_with_simps:
  "starts_with [] xs" "starts_with (p # pat) (x # xs) \<longleftrightarrow> p = x \<and> starts_with pat xs"
  by (auto simp: starts_with_def)

lemma decode_forms:
  "map (\<lambda>form. decode_apic_write (form @ tail) r) apic_write_forms =
     map Inr [(0, 10), (ucast (r12 r), 4), (ucast (rdx r), 4), (0, 10), (ucast (rax r), 9), (ucast (rax r), 9),
       (ucast (rdx r), 6), (ucast (rcx r), 6)]"
  by (simp add: apic_write_forms_def decode_apic_write_def starts_with_simps)

lemma x86_forms:
  "map (\<lambda>form. x86_store form r) apic_write_forms =
     map Some [(0, 10), (ucast (r12 r), 4), (ucast (rdx r), 4), (0, 10), (ucast (rax r), 9), (ucast (rax r), 9),
       (ucast (rdx r), 6), (ucast (rcx r), 6)]"
  by (simp add: apic_write_forms_def x86_store_def reg32_def imm32_def drop_bit_eq_div take_bit_eq_mod bit_iff_odd)

lemma decode_is_x86:
  assumes "form \<in> set apic_write_forms" and "x86_store form r = Some (v, n)"
  shows "decode_apic_write (form @ tail) r = Inr (v, of_nat n) \<and> n \<le> 10"
proof -
  obtain i where i: "i < length apic_write_forms" "form = apic_write_forms ! i" using assms(1) by (auto simp: in_set_conv_nth)
  then have "i \<in> {0, 1, 2, 3, 4, 5, 6, 7}" by (auto simp: apic_write_forms_def)
  moreover from i assms(2) have "map (\<lambda>form. x86_store form r) apic_write_forms ! i = Some (v, n)"
    and d: "map (\<lambda>form. decode_apic_write (form @ tail) r) apic_write_forms ! i = decode_apic_write (form @ tail) r" by simp_all
  ultimately show ?thesis unfolding x86_forms d [symmetric] decode_forms by auto
qed

text \<open>The decoder accepts the known instructions and nothing else.\<close>

lemma decode_apic_write_known:
  "(\<exists>v. decode_apic_write bs r = Inr v) \<longleftrightarrow> (\<exists>form \<in> set apic_write_forms. starts_with form bs)"
  by (auto simp: apic_write_forms_def decode_apic_write_def)

section \<open>An example\<close>

definition svm_example :: svm_machine where
  "svm_example = blank_machine (\<lambda>_. 0) (\<lambda>_. 0)
     \<lparr>npt = PagingStructures_new, activity_states = replicate 0xff ACTIVE, apic_mmio = (\<lambda>_. 0),
      fs_cache = (0, 0), gs_cache = (0, 0), tr_cache = (0, 0, 0), ldtr_cache = (0, 0, 0)\<rparr>"

definition svm_example_env :: "unit svm_env" where
  "svm_example_env = \<lparr>sv_oc = True, sv_uefi = False, sv_pa = id, sv_cpuid = (\<lambda>_ _. \<lparr>eax = 1, ebx = 0, ecx = 0, edx = 0\<rparr>),
     sv_ids = \<lparr>APIC_ID_MAP = [0 \<mapsto> 0, 7 \<mapsto> 1], PROCESSOR_COUNT = 2\<rparr>, sv_addrs = (0x1000, 0x2000, 0x3000),
     sv_npt_addr = 0x4000, sv_host_data = Some \<lparr>host_pt = None, host_idt = None, host_gdts = None\<rparr>\<rparr>"

definition svm_example_guest :: "nat \<Rightarrow> SvmGuest" where
  "svm_example_guest n = \<lparr>svm_id = n, svm_registers = Registers_default, vmcb = Vmcb_default, vmcb_pa = 0x1000,
     host_vmcb = Vmcb_default, host_vmcb_pa = 0x2000, host_state_va = 0x3000\<rparr>"

definition svm_example_exit :: "u64 \<Rightarrow> u8 list \<Rightarrow> svm_exit" where
  "svm_example_exit code loads =
     \<lparr>sx_cpu = blank_machine (\<lambda>_. 0) (\<lambda>_. 0) (), sx_gprs = Registers_default\<lparr>rdx := 0x469a\<rparr>,
      sx_state = StateSaveArea_zeroed\<lparr>sa_cr3 := 0x1ad000, sa_rflags := 0x202, sa_rip := 0x1000\<rparr>,
      sx_control = ControlArea_zeroed\<lparr>exit_code := code, nrip := 0x1003, exit_info2 := 0xfee00300, num_of_bytes_fetched := 6,
        guest_instruction_bytes := [0x89, 0x90, 0x00, 0x03, 0x00, 0x00] @ replicate 9 0\<rparr>,
      sx_states = (\<lambda>n. if n = 1 \<and> code = 0x400 then WAIT_FOR_SIPI else ACTIVE), sx_npt = PagingStructures_new,
      sx_mmio = (\<lambda>_. 0)(0xfee00310 := 0x07000000), sx_loads = loads\<rparr>"

lemma svm_example_simps [simp]:
  "length (activity_states svm_example) = 0xff" "svm_id (svm_example_guest n) = n"
  "exit_code (sx_control (svm_example_exit code loads)) = code" "sx_loads (svm_example_exit code loads) = loads"
  by (simp_all add: svm_example_def blank_machine_def svm_example_guest_def svm_example_exit_def)

section \<open>Properties\<close>

text \<open>
  C18. INIT and start-up IPI on an application processor. When \<open>#VMEXIT(#SX)\<close> reports an
  INIT and the busy loop then observes the vector \<open>v\<close>, the guest is started at \<open>v\<close> * 4096
  with paging and protected mode off, its general purpose registers cleared (RDX holds the
  processor signature), the TLB flushed and the activity state Active again. CR0.NW and CR0.CD
  are taken over from the CR0 of the host. The reset values of RFLAGS and RSP are lost: the
  next run copies the registers that the guest had before INIT into the control block. SS
  keeps its old contents.
\<close>

theorem svm_init_sipi_starts_processor:
  assumes "svm_id g \<noteq> 0" and "svm_id g < length (activity_states m)" and "exit_code (sx_control ex) = 0x5e"
    and "sx_states ex (svm_id g) = ACTIVE" and "spin_while_waiting (sx_loads ex) = Some v"
  shows "\<exists>g' m' s. SvmGuest_run oc cpuid ids ex g m = Inr (InitSignal, g', m')
    \<and> s = state_save_area (vmcb (registers_to_vmcb g'))
    \<and> unat (seg_base (sa_cs s) + sa_rip s) = unat v * 4096 \<and> unat (seg_selector (sa_cs s)) = unat v * 256
    \<and> (\<forall>n. bit (sa_cr0 s) n \<longleftrightarrow> n = 4 \<or> (n = 29 \<or> n = 30) \<and> bit (cr0 m) n)
    \<and> sa_cr3 s = 0 \<and> sa_cr4 s = 0 \<and> sa_efer s = 0x1000 \<and> seg_limit (sa_ds s) = 0xffff
    \<and> rdx (svm_registers g') = ucast (eax (cpuid 1 0)) \<and> rax (svm_registers g') = 0 \<and> rbx (svm_registers g') = 0
    \<and> r15 (svm_registers g') = 0
    \<and> activity_states m' ! svm_id g = ACTIVE \<and> tlb_control (control_area (vmcb g')) = FLUSH_ALL
    \<and> sa_rflags (state_save_area (vmcb g')) = 2
    \<and> sa_rflags s = sa_rflags (sx_state ex) \<and> sa_rsp s = sa_rsp (sx_state ex) \<and> sa_ss s = sa_ss (sx_state ex)"
proof (rule SvmGuest_run_exit [where oc = oc and cpuid = cpuid and ids = ids and ex = ex and g = g and m = m])
  fix g1 m1
  assume run: "SvmGuest_run oc cpuid ids ex g m = svm_exit_reason oc cpuid ids (sx_loads ex) g1 m1"
    and g1: "svm_id g1 = svm_id g" "state_save_area (vmcb g1) = sx_state ex"
    "svm_registers g1 = (sx_gprs ex)\<lparr>rax := sa_rax (sx_state ex), rip := sa_rip (sx_state ex),
       rsp := sa_rsp (sx_state ex), rflags := sa_rflags (sx_state ex)\<rparr>"
    "control_area (vmcb g1) = (control_after_exit (sx_control ex) (control_area (vmcb g)))
       \<lparr>tlb_control := DO_NOT_FLUSH, vmcb_clean := - 1\<rparr>"
    and m1: "m1 = snd (run_svm_guest ex g m)"
  have "svm_id g1 \<noteq> 0" "svm_id g1 < length (activity_states m1)" "activity_states m1 ! svm_id g1 = ACTIVE"
    using assms(1,2,4) by (simp_all add: g1 m1)
  from security_exception_started [OF this assms(5), of cpuid] obtain g' m' where
    h: "handle_security_exception cpuid (sx_loads ex) g1 m1 = Inr (g', m')" and act: "activity_states m' = activity_states m1"
    and r: "svm_registers g' = (svm_registers g1)\<lparr>rax := 0, rdx := ucast (eax (cpuid 1 0)), rbx := 0, rcx := 0, rbp := 0, rdi := 0,
         rsi := 0, r8 := 0, r9 := 0, r10 := 0, r11 := 0, r12 := 0, r13 := 0, r14 := 0, r15 := 0, rip := 0\<rparr>"
    and s: "seg_base (sa_cs (state_save_area (vmcb g'))) = push_bit 12 (ucast v)"
      "seg_selector (sa_cs (state_save_area (vmcb g'))) = push_bit 8 (ucast v)"
      "sa_rflags (state_save_area (vmcb g')) = 2"
      "sa_cr0 (state_save_area (vmcb g')) = push_bit 4 1 OR keep_bit 29 (cr0 m1) OR keep_bit 30 (cr0 m1)"
      "sa_cr3 (state_save_area (vmcb g')) = 0" "sa_cr4 (state_save_area (vmcb g')) = 0"
      "sa_efer (state_save_area (vmcb g')) = 0x1000" "sa_ss (state_save_area (vmcb g')) = sa_ss (state_save_area (vmcb g1))"
      "sa_ds (state_save_area (vmcb g')) = svm_init_segment 0x93" "tlb_control (control_area (vmcb g')) = FLUSH_ALL"
    by auto
  have "SvmGuest_run oc cpuid ids ex g m = Inr (InitSignal, g', m')"
    using h assms(3) by (simp add: run svm_exit_reason_def g1 control_after_exit_def)
  moreover have "cr0 m1 = cr0 m" by (simp add: m1 cr0_def)
  moreover have "unat (push_bit 12 (ucast v :: u64)) = unat v * 4096" "unat (push_bit 8 (ucast v :: u16)) = unat v * 256"
    using unat_lt_exp [of v] by (simp_all add: unsigned_push_bit_eq push_bit_nat_def take_bit_nat_eq_self unat_ucast_up)
  moreover have "bit (push_bit 4 1 OR keep_bit 29 x OR keep_bit 30 x :: u64) n \<longleftrightarrow> n = 4 \<or> (n = 29 \<or> n = 30) \<and> bit x n" for x n
    unfolding bit_or_iff bit_keep_bit bit_push_bit_iff bit_1_iff by auto
  moreover have "activity_states m' ! svm_id g = ACTIVE" using assms(2,4) by (simp add: act m1)
  ultimately show ?thesis
    by (intro exI [of _ g'] exI [of _ m'] exI [of _ "state_save_area (vmcb (registers_to_vmcb g'))"])
      (simp add: registers_to_vmcb_def Let_def r s g1 svm_init_segment_def)
qed

theorem svm_init_sipi_starts_processor_witness:
  "\<exists>g' m'. SvmGuest_run True (\<lambda>_ _. \<lparr>eax = 1, ebx = 0, ecx = 0, edx = 0\<rparr>) (sv_ids svm_example_env)
       (svm_example_exit 0x5e [0xff, 0xff, 0x9a]) (svm_example_guest 1) svm_example = Inr (InitSignal, g', m')
     \<and> unat (seg_base (sa_cs (state_save_area (vmcb (registers_to_vmcb g')))) + sa_rip (state_save_area (vmcb (registers_to_vmcb g')))) = 0x9a000
     \<and> sa_rflags (state_save_area (vmcb (registers_to_vmcb g'))) = 0x202"
proof -
  let ?ex = "svm_example_exit 0x5e [0xff, 0xff, 0x9a]"
  have "svm_id (svm_example_guest 1) \<noteq> 0" "svm_id (svm_example_guest 1) < length (activity_states svm_example)"
    "exit_code (sx_control ?ex) = 0x5e" by simp_all
  moreover have "sx_states ?ex (svm_id (svm_example_guest 1)) = ACTIVE" "spin_while_waiting (sx_loads ?ex) = Some 0x9a"
    "sa_rflags (sx_state ?ex) = 0x202"
    by (simp_all add: svm_example_exit_def WAIT_FOR_SIPI_def)
  ultimately show ?thesis
    using svm_init_sipi_starts_processor [of "svm_example_guest 1" svm_example ?ex "0x9a" True
        "\<lambda>_ _. \<lparr>eax = 1, ebx = 0, ecx = 0, edx = 0\<rparr>" "sv_ids svm_example_env"] by auto
qed

text \<open>
  C17. Writes to the APIC page. For a nested page fault whose instruction bytes begin with one
  of the eight known forms, the store is emulated as the processor would have executed it
  (\<open>x86_store\<close>): RIP moves behind the instruction, and unless it writes a start-up IPI to
  the interrupt command register, the APIC register receives the value of its source operand.
  A start-up IPI does not reach the APIC; instead the activity state of the destination,
  found by the APIC ID in the high half of the command register, gets the vector if it is
  WaitForSipi, and no other activity state changes. When the fault is on the last processor,
  the APIC page becomes writable again in the shared tables; on no other processor do they
  change.
\<close>

theorem apic_write_emulated:
  assumes "exit_code (sx_control ex) = 0x400" and "last_processor oc ids = Inr l"
    and "take (unat (num_of_bytes_fetched (sx_control ex))) (guest_instruction_bytes (sx_control ex)) = form @ tail"
    and "form \<in> set apic_write_forms"
    and "x86_store form ((sx_gprs ex)\<lparr>rax := sa_rax (sx_state ex), rip := sa_rip (sx_state ex),
           rsp := sa_rsp (sx_state ex), rflags := sa_rflags (sx_state ex)\<rparr>) = Some (value, len)"
    and "unat (sa_rip (sx_state ex)) + len < 2 ^ 64"
    and "gpa = exit_info2 (sx_control ex)" and "sipi \<longleftrightarrow> get_bits 8 10 value = 6 \<and> take_bit 12 gpa = 0x300"
    and "sipi \<Longrightarrow> \<not> bit value 11 \<and> get_bits 18 19 value = 0 \<and> get_bits 0 7 value \<noteq> 0xff
           \<and> processor_id_from (ucast (get_bits 24 31 (sx_mmio ex ((gpa AND NOT 0xfff) OR 0x310)))) ids = Some p
           \<and> p < length (activity_states m)"
  shows "\<exists>g' m'. SvmGuest_run oc cpuid ids ex g m = Inr (NestedPageFault, g', m')
    \<and> svm_registers g' = (sx_gprs ex)\<lparr>rax := sa_rax (sx_state ex), rip := sa_rip (sx_state ex) + of_nat len,
         rsp := sa_rsp (sx_state ex), rflags := sa_rflags (sx_state ex)\<rparr>
    \<and> apic_mmio m' = (if sipi then sx_mmio ex else (sx_mmio ex)(gpa := value))
    \<and> (\<forall>n < length (activity_states m). activity_states m' ! n =
         (if sipi \<and> n = p \<and> sx_states ex n = WAIT_FOR_SIPI then ucast (get_bits 0 7 value) else sx_states ex n))
    \<and> npt m' = (if svm_id g = l then set_apic_writable True (sx_cpu ex) (sx_npt ex) else sx_npt ex)"
proof (rule SvmGuest_run_exit [where oc = oc and cpuid = cpuid and ids = ids and ex = ex and g = g and m = m])
  fix g1 m1
  assume run: "SvmGuest_run oc cpuid ids ex g m = svm_exit_reason oc cpuid ids (sx_loads ex) g1 m1"
    and g1: "svm_id g1 = svm_id g" "state_save_area (vmcb g1) = sx_state ex"
    "svm_registers g1 = (sx_gprs ex)\<lparr>rax := sa_rax (sx_state ex), rip := sa_rip (sx_state ex),
       rsp := sa_rsp (sx_state ex), rflags := sa_rflags (sx_state ex)\<rparr>"
    "control_area (vmcb g1) = (control_after_exit (sx_control ex) (control_area (vmcb g)))
       \<lparr>tlb_control := DO_NOT_FLUSH, vmcb_clean := - 1\<rparr>"
    and m1: "m1 = snd (run_svm_guest ex g m)"
  have c: "num_of_bytes_fetched (control_area (vmcb g1)) = num_of_bytes_fetched (sx_control ex)"
    "guest_instruction_bytes (control_area (vmcb g1)) = guest_instruction_bytes (sx_control ex)"
    "exit_info2 (control_area (vmcb g1)) = gpa" "exit_code (control_area (vmcb g1)) = 0x400"
    by (simp_all add: g1 control_after_exit_def assms(1,7))
  from decode_is_x86 [OF assms(4), of "svm_registers g1" "value" len tail] assms(5)
  have dec: "decode_apic_write (form @ tail) (svm_registers g1) = Inr (value, of_nat len)" and len: "len \<le> 10"
    by (simp_all add: g1(3))
  have "unat (of_nat len :: u64) = len" using len by (simp add: unsigned_of_nat take_bit_nat_eq_self)
  then have fits: "unat (rip (svm_registers g1)) + unat (of_nat len :: u64) < 2 ^ 64" using assms(6) by (simp add: g1(3))
  obtain g2 m2 where i: "(g2, m2) = (if svm_id g1 = l then intercept_apic_write False g1 m1 else (g1, m1))" by (metis surj_pair)
  from nested_page_fault_emulates [OF assms(2) i, of "value" "of_nat len"] dec fits
  have h: "handle_nested_page_fault oc ids g1 m1 = and_then (emulate_apic_write ids value gpa m2) (\<lambda>m3.
      Inr (g2\<lparr>svm_registers := (svm_registers g1)\<lparr>rip := sa_rip (sx_state ex) + of_nat len\<rparr>\<rparr>, m3))"
    by (simp add: g1(3) c assms(3))
  have "set_apic_writable True m1 (npt m1) = set_apic_writable True (sx_cpu ex) (sx_npt ex)"
    by (simp add: m1 set_apic_writable_def run_svm_guest_apic_base)
  then have st: "activity_states m2 = map (sx_states ex) [0..<length (activity_states m)]" "apic_mmio m2 = sx_mmio ex"
    "npt m2 = (if svm_id g = l then set_apic_writable True (sx_cpu ex) (sx_npt ex) else sx_npt ex)"
    using i by (auto simp: m1 g1(1) intercept_apic_write_def split: if_splits)
  have vec: "(ucast (get_bits 0 7 value) :: u8) = WAIT_FOR_SIPI \<longleftrightarrow> get_bits 0 7 value = 0xff"
  proof -
    have "unat (get_bits 0 7 value) < 256" using unat_get_bits_less [of 0 7 "value"] by simp
    then have "unat (ucast (get_bits 0 7 value) :: u8) = unat (get_bits 0 7 value)"
      by (simp add: unsigned_ucast_eq take_bit_nat_eq_self)
    then show ?thesis by (simp add: word_unat_eq_iff WAIT_FOR_SIPI_def)
  qed
  have em: "emulate_apic_write ids value gpa m2 = Inr (if sipi
      then m2\<lparr>activity_states := (if sx_states ex p = WAIT_FOR_SIPI then (activity_states m2)[p := ucast (get_bits 0 7 value)] else activity_states m2)\<rparr>
      else m2\<lparr>apic_mmio := (apic_mmio m2)(gpa := value)\<rparr>)"
    using assms(9) unfolding emulate_apic_write_def Let_def and_low_masks
    by (auto simp: assms(8) st vec get_bit_def deliver_sipi_def)
  show ?thesis
    using h unfolding em by (auto simp: run svm_exit_reason_def c Let_def st nth_list_update g1(3))
qed

theorem apic_write_emulated_witness:
  "\<exists>g' m'. SvmGuest_run True (\<lambda>_ _. \<lparr>eax = 1, ebx = 0, ecx = 0, edx = 0\<rparr>) (sv_ids svm_example_env)
       (svm_example_exit 0x400 []) (svm_example_guest 0) svm_example = Inr (NestedPageFault, g', m')
     \<and> rip (svm_registers g') = 0x1006 \<and> apic_mmio m' = (\<lambda>_. 0)(0xfee00310 := 0x07000000)
     \<and> activity_states m' ! 1 = 0x9a \<and> activity_states m' ! 2 = 0"
proof -
  let ?ex = "svm_example_exit 0x400 []" and ?form = "[0x89, 0x90, 0, 3, 0, 0] :: u8 list"
  have "take (unat (num_of_bytes_fetched (sx_control ?ex))) (guest_instruction_bytes (sx_control ?ex)) = ?form @ []"
    "?form \<in> set apic_write_forms"
    by (simp_all add: svm_example_exit_def apic_write_forms_def)
  moreover have "x86_store ?form ((sx_gprs ?ex)\<lparr>rax := sa_rax (sx_state ?ex), rip := sa_rip (sx_state ?ex),
      rsp := sa_rsp (sx_state ?ex), rflags := sa_rflags (sx_state ?ex)\<rparr>) = Some (0x469a, 6)"
    by (simp add: svm_example_exit_def x86_store_def reg32_def drop_bit_eq_div take_bit_eq_mod)
  moreover have "last_processor True (sv_ids svm_example_env) = Inr 1" by (simp add: last_processor_def svm_example_env_def)
  moreover have "exit_info2 (sx_control ?ex) = 0xfee00300" "sa_rip (sx_state ?ex) = 0x1000"
    "sx_mmio ?ex = (\<lambda>_. 0)(0xfee00310 := 0x07000000)" "sx_states ?ex 1 = WAIT_FOR_SIPI" "sx_states ?ex 2 = 0"
    by (simp_all add: svm_example_exit_def ACTIVE_def)
  moreover have "processor_id_from 7 (sv_ids svm_example_env) = Some 1"
    by (simp add: processor_id_from_def svm_example_env_def)
  moreover have "get_bits 8 10 (0x469a :: u32) = 6" "get_bits 18 19 (0x469a :: u32) = 0" "get_bits 0 7 (0x469a :: u32) = 0x9a"
    by (simp_all add: get_bits_def)
  ultimately obtain g' m' where "SvmGuest_run True (\<lambda>_ _. \<lparr>eax = 1, ebx = 0, ecx = 0, edx = 0\<rparr>) (sv_ids svm_example_env)
       ?ex (svm_example_guest 0) svm_example = Inr (NestedPageFault, g', m')"
     "rip (svm_registers g') = 0x1006" "apic_mmio m' = (\<lambda>_. 0)(0xfee00310 := 0x07000000)"
     "\<And>n. n < 255 \<Longrightarrow> activity_states m' ! n =
         (if n = 1 \<and> sx_states ?ex n = WAIT_FOR_SIPI then ucast (get_bits 0 7 (0x469a :: u32)) else sx_states ?ex n)"
    using apic_write_emulated [of ?ex True "sv_ids svm_example_env" 1 ?form "[]" "0x469a" 6 "0xfee00300" True 1 svm_example
        "\<lambda>_ _. \<lparr>eax = 1, ebx = 0, ecx = 0, edx = 0\<rparr>" "svm_example_guest 0"]
    by (auto simp: get_bits_def)
  moreover have "(ucast (get_bits 0 7 (0x469a :: u32)) :: u8) = 0x9a" by (simp add: get_bits_def)
  moreover note \<open>sx_states ?ex 1 = WAIT_FOR_SIPI\<close> \<open>sx_states ?ex 2 = 0\<close>
  ultimately show ?thesis by (intro exI [of _ g'] exI [of _ m']) simp
qed

text \<open>
  C28. Devirtualization on AMD. The hypercall gives the processor back with the guest's
  control registers, FS and GS bases, GDTR and IDTR, at the instruction behind VMMCALL; the
  address of the host save area is cleared. EFER, which \<open>load_guest_cpu_state\<close> first sets to
  the guest's value, ends as the value that was saved when SVM was enabled, so a change
  that the guest made to EFER is lost.
\<close>

theorem svm_devirtualize_restores:
  assumes "exit_code (sx_control ex) = 0x81" and "sa_rax (sx_state ex) = DEVIRTUALIZE"
  shows "\<exists>r m'. host_step (svm_arch e) cpuid xcr0_all ex vt g m = Inr (Devirtualized r m')
    \<and> r = (sx_gprs ex)\<lparr>rax := sa_rax (sx_state ex), rip := nrip (sx_control ex),
          rsp := sa_rsp (sx_state ex), rflags := sa_rflags (sx_state ex)\<rparr>
    \<and> cr0 m' = sa_cr0 (sx_state ex) \<and> cr3 m' = sa_cr3 (sx_state ex) \<and> cr4 m' = sa_cr4 (sx_state ex)
    \<and> rdmsr IA32_FS_BASE m' = seg_base (sa_fs (sx_state ex)) \<and> rdmsr IA32_GS_BASE m' = seg_base (sa_gs (sx_state ex))
    \<and> sgdt m' = \<lparr>dtr_base = seg_base (sa_gdtr (sx_state ex)), dtr_limit = ucast (seg_limit (sa_gdtr (sx_state ex)))\<rparr>
    \<and> sidt m' = \<lparr>dtr_base = seg_base (sa_idtr (sx_state ex)), dtr_limit = ucast (seg_limit (sa_idtr (sx_state ex)))\<rparr>
    \<and> rdmsr SVM_MSR_VM_HSAVE_PA m' = 0 \<and> rdmsr IA32_EFER m' = saved_efer vt"
proof (rule SvmGuest_run_exit [where oc = "sv_oc e" and cpuid = "sv_cpuid e" and ids = "sv_ids e" and ex = ex and g = g and m = m])
  fix g1 m1
  assume run: "SvmGuest_run (sv_oc e) (sv_cpuid e) (sv_ids e) ex g m = svm_exit_reason (sv_oc e) (sv_cpuid e) (sv_ids e) (sx_loads ex) g1 m1"
    and g1: "state_save_area (vmcb g1) = sx_state ex"
    "svm_registers g1 = (sx_gprs ex)\<lparr>rax := sa_rax (sx_state ex), rip := sa_rip (sx_state ex),
       rsp := sa_rsp (sx_state ex), rflags := sa_rflags (sx_state ex)\<rparr>"
    "control_area (vmcb g1) = (control_after_exit (sx_control ex) (control_area (vmcb g)))
       \<lparr>tlb_control := DO_NOT_FLUSH, vmcb_clean := - 1\<rparr>"
  have "SvmGuest_run (sv_oc e) (sv_cpuid e) (sv_ids e) ex g m = Inr (VmCall \<lparr>next_rip = nrip (sx_control ex)\<rparr>, g1, m1)"
    using assms(1) by (simp add: run svm_exit_reason_def g1 control_after_exit_def)
  then show ?thesis
    using assms(2)
    by (simp add: host_step_def devirtualize_processor_def svm_arch_def SvmGuest_load_guest_cpu_state_def
        SvmGuest_deactivate_def Svm_disable_def machine_simps Let_def g1)
qed

theorem svm_devirtualize_restores_witness:
  "\<exists>r m'. host_step (svm_arch svm_example_env) (\<lambda>_ _. \<lparr>eax = 1, ebx = 0, ecx = 0, edx = 0\<rparr>) 7 (svm_example_exit 0x81 [])
         \<lparr>saved_efer = 0xd01\<rparr> (svm_example_guest 0) svm_example = Inr (Devirtualized r m')
     \<and> rip r = 0x1003 \<and> cr3 m' = 0x1ad000 \<and> rdmsr IA32_EFER m' = 0xd01"
proof -
  have "sa_rax (sx_state (svm_example_exit 0x81 [])) = DEVIRTUALIZE" "nrip (sx_control (svm_example_exit 0x81 [])) = 0x1003"
    "sa_cr3 (sx_state (svm_example_exit 0x81 [])) = 0x1ad000"
    by (simp_all add: svm_example_exit_def DEVIRTUALIZE_def StateSaveArea_zeroed_def)
  then show ?thesis
    using svm_devirtualize_restores [of "svm_example_exit 0x81 []" svm_example_env "\<lambda>_ _. \<lparr>eax = 1, ebx = 0, ecx = 0, edx = 0\<rparr>" 7
        "\<lparr>saved_efer = 0xd01\<rparr>" "svm_example_guest 0" svm_example] by auto
qed

text \<open>
  A segment register in the VMCB: selector, attributes and limit are those of the descriptor
  in the processor's GDT, the base is what the control block had before.
\<close>

definition vmcb_segment_carried :: "vmcb_segment \<Rightarrow> vmcb_segment \<Rightarrow> selector \<Rightarrow> 'm machine_scheme \<Rightarrow> bool" where
  "vmcb_segment_carried s old sel m \<longleftrightarrow>
     s = \<lparr>seg_selector = sel, seg_attrib = get_segment_access_right (mem64 m) (dtr_base (sgdt m)) sel,
          seg_limit = get_segment_limit (mem64 m) (dtr_base (sgdt m)) sel, seg_base = seg_base old\<rparr>"

text \<open>
  C16. Initialization of the VMCB: the guest continues where the processor was virtualized,
  with SVME set as VMRUN requires, nested paging on, and CPUID, VMRUN, VMMCALL and the
  security exception intercepted; INIT is redirected to that exception. Carried over are
  the control registers CR0, CR3 and CR4, EFER, PAT, GDTR, IDTR, the captured RIP, RSP, RFLAGS and RAX, the
  selectors, attributes and limits of ES, CS, SS and DS, all of FS, GS, TR and LDTR, and the
  MSRs of SYSCALL, SYSENTER and SWAPGS. Not carried over are CR2, DR6, DR7, the debug control
  MSR and SPEC_CTRL: these fields, the CPL and the bases of ES, CS, SS and DS keep the zero
  of a fresh control block.
\<close>

theorem svm_guest_continues:
  assumes "SvmGuest_initialize pa_of nested_pml4 shd r g m = Inr (g', m')" and "s = state_save_area (vmcb g')"
    and "c = control_area (vmcb g')" and "old = state_save_area (vmcb g)"
  shows "svm_registers g' = r \<and> sa_cr0 s = cr0 m \<and> sa_cr3 s = cr3 m \<and> sa_cr4 s = cr4 m
    \<and> sa_efer s = rdmsr IA32_EFER m OR 0x1000 \<and> sa_gpat s = rdmsr IA32_PAT m
    \<and> sa_rip s = rip r \<and> sa_rsp s = rsp r \<and> sa_rflags s = rflags r \<and> sa_rax s = rax r
    \<and> seg_base (sa_gdtr s) = dtr_base (sgdt m) \<and> seg_limit (sa_gdtr s) = ucast (dtr_limit (sgdt m))
    \<and> seg_base (sa_idtr s) = dtr_base (sidt m) \<and> seg_limit (sa_idtr s) = ucast (dtr_limit (sidt m))
    \<and> vmcb_segment_carried (sa_es s) (sa_es old) (es_sel m) m \<and> vmcb_segment_carried (sa_cs s) (sa_cs old) (cs_sel m) m
    \<and> vmcb_segment_carried (sa_ss s) (sa_ss old) (ss_sel m) m \<and> vmcb_segment_carried (sa_ds s) (sa_ds old) (ds_sel m) m
    \<and> sa_fs s = \<lparr>seg_selector = fs_sel m, seg_attrib = fst (fs_cache m), seg_limit = snd (fs_cache m), seg_base = rdmsr IA32_FS_BASE m\<rparr>
    \<and> sa_gs s = \<lparr>seg_selector = gs_sel m, seg_attrib = fst (gs_cache m), seg_limit = snd (gs_cache m), seg_base = rdmsr IA32_GS_BASE m\<rparr>
    \<and> seg_selector (sa_tr s) = tr m \<and> (seg_attrib (sa_tr s), seg_limit (sa_tr s), seg_base (sa_tr s)) = tr_cache m
    \<and> seg_selector (sa_ldtr s) = ldtr m \<and> (seg_attrib (sa_ldtr s), seg_limit (sa_ldtr s), seg_base (sa_ldtr s)) = ldtr_cache m
    \<and> sa_star s = rdmsr IA32_STAR m \<and> sa_lstar s = rdmsr IA32_LSTAR m \<and> sa_cstar s = rdmsr IA32_CSTAR m
    \<and> sa_sf_mask s = rdmsr IA32_FMASK m \<and> sa_kernel_gs_base s = rdmsr IA32_KERNEL_GSBASE m
    \<and> sa_sysenter_cs s = rdmsr IA32_SYSENTER_CS m \<and> sa_sysenter_esp s = rdmsr IA32_SYSENTER_ESP m
    \<and> sa_sysenter_eip s = rdmsr IA32_SYSENTER_EIP m
    \<and> (vmcb g = Vmcb_default \<longrightarrow> sa_cr2 s = 0 \<and> sa_dr6 s = 0 \<and> sa_dr7 s = 0 \<and> sa_cpl s = 0 \<and> sa_dbg_ctl s = 0
         \<and> sa_spec_ctl s = 0 \<and> map seg_base [sa_es s, sa_cs s, sa_ss s, sa_ds s] = [0, 0, 0, 0])
    \<and> bit (intercept_misc1 c) 18 \<and> bit (intercept_misc2 c) 0 \<and> bit (intercept_misc2 c) 1 \<and> bit (intercept_exception c) 30
    \<and> guest_asid c = 1 \<and> np_enable c = 1 \<and> ncr3 c = pa_of nested_pml4
    \<and> bit (rdmsr SVM_MSR_VM_CR m') 1"
proof -
  obtain g1 m1 where c1: "svm_initialize_control pa_of nested_pml4 (g\<lparr>svm_registers := r\<rparr>) m = (g1, m1)" by fastforce
  with assms(1) have h: "svm_initialize_host pa_of shd (svm_initialize_guest g1 m1) m1 = Inr (g', m')"
    by (simp add: SvmGuest_initialize_def)
  from c1 have m1: "m1 = wrmsr SVM_MSR_VM_CR (rdmsr SVM_MSR_VM_CR m OR push_bit 1 1) m" and r1: "svm_registers g1 = r"
    and ca: "control_area (vmcb g1) = (control_area (vmcb g))\<lparr>intercept_misc1 := push_bit 18 1, intercept_misc2 := push_bit 0 1 OR push_bit 1 1,
                 pause_filter_count := 0xffff, guest_asid := 1, np_enable := 1, ncr3 := pa_of nested_pml4, intercept_exception := push_bit 30 1\<rparr>"
    and sa: "state_save_area (vmcb g1) = state_save_area (vmcb g)"
    by (auto simp: svm_initialize_control_def Let_def upd_control_def)
  have g': "vmcb g' = vmcb (svm_initialize_guest g1 m1) \<and> svm_registers g' = svm_registers (svm_initialize_guest g1 m1)
      \<and> msrs m' = msrs m1"
    using h by (auto simp: svm_initialize_host_def rust_simps Let_def gdt_apply_def machine_simps split: option.splits sum.splits if_splits)
  show ?thesis
    unfolding assms(2-4)
    by (simp add: g' rdmsr_def svm_initialize_guest_def Let_def vmsave_instr_def svm_segment_def vmcb_segment_carried_def
        r1 ca sa split: prod.splits)
      (simp add: m1 machine_simps bit_or_iff Vmcb_default_def StateSaveArea_zeroed_def segment_zeroed_def)
qed

theorem svm_guest_continues_witness:
  "\<exists>g' m'. SvmGuest_initialize id 0x4000 (sv_host_data svm_example_env) (Registers_default\<lparr>rip := 0x401000\<rparr>) (svm_example_guest 0) svm_example
       = Inr (g', m') \<and> sa_rip (state_save_area (vmcb g')) = 0x401000 \<and> ncr3 (control_area (vmcb g')) = 0x4000"
proof -
  obtain g' m' where i: "SvmGuest_initialize id 0x4000 (sv_host_data svm_example_env) (Registers_default\<lparr>rip := 0x401000\<rparr>)
      (svm_example_guest 0) svm_example = Inr (g', m')"
    by (cases "svm_initialize_control id 0x4000 ((svm_example_guest 0)\<lparr>svm_registers := Registers_default\<lparr>rip := 0x401000\<rparr>\<rparr>) svm_example")
      (auto simp: SvmGuest_initialize_def svm_initialize_host_def svm_example_env_def Let_def)
  from svm_guest_continues [OF i refl refl refl] i show ?thesis by auto
qed

lemma svm_virtualize_core_ready:
  assumes "virtualize_core (svm_arch e) cpuid xcr0_all ids r evs m = Inr (Running vt g m1)"
  shows "vt = \<lparr>saved_efer = rdmsr IA32_EFER m\<rparr> \<and> svm_ready e vt g m1"
proof -
  from assms obtain n g0 m2 g1 m3 g2 m4 where
    new: "SvmGuest_new (sv_uefi e) (sv_pa e) (sv_addrs e) n (wrmsr IA32_EFER (rdmsr IA32_EFER m OR 0x1000) m) = Inr (g0, m2)"
    and act: "SvmGuest_activate (sv_pa e) g0 m2 = Inr (g1, m3)"
    and init: "SvmGuest_initialize (sv_pa e) (sv_npt_addr e) (sv_host_data e) r g1 m3 = Inr (g2, m4)"
    and loop: "host_loop (svm_arch e) cpuid xcr0_all evs (Running \<lparr>saved_efer = rdmsr IA32_EFER m\<rparr> g2 m4) = Inr (Running vt g m1)"
    by (auto simp: virtualize_core_def svm_arch_def rust_simps Svm_enable_def Svm_default_def Let_def)
  from new have "svm_id g0 < length (activity_states m2)"
    by (auto simp: SvmGuest_new_def Let_def intercept_apic_write_def wrmsr_def split: prod.splits if_splits)
  with act have "svm_id g1 < length (activity_states m3)" by (auto simp: SvmGuest_activate_def wrmsr_def)
  with init have "svm_ready e \<lparr>saved_efer = rdmsr IA32_EFER m\<rparr> g2 m4"
    by (auto simp: svm_ready_def SvmGuest_initialize_def svm_initialize_control_def svm_initialize_guest_def svm_initialize_host_def
        rust_simps Let_def gdt_apply_def machine_simps split: option.splits sum.splits if_splits)
  from svm.loop_ready [OF loop this] show ?thesis by blast
qed

text \<open>
  C8. The hypervisor can always be unloaded on AMD: after \<open>virtualize_core\<close> and any handled
  sequence of exits, devirtualization succeeds, EFER has the value it had before the
  processor was virtualized, and the host save area is released.
\<close>

theorem svm_unload_always_possible:
  assumes "virtualize_core (svm_arch e) cpuid xcr0_all ids r evs m = Inr (Running vt g m1)"
  shows "\<exists>m2. devirtualize_processor (svm_arch e) info vt g m1 =
      Inr (Devirtualized ((svm_registers g)\<lparr>rip := next_rip info\<rparr>) m2)
    \<and> rdmsr IA32_EFER m2 = rdmsr IA32_EFER m \<and> rdmsr SVM_MSR_VM_HSAVE_PA m2 = 0
    \<and> svm_id g < length (activity_states m1)"
proof -
  from svm_virtualize_core_ready [OF assms] have "vt = \<lparr>saved_efer = rdmsr IA32_EFER m\<rparr>" "svm_ready e vt g m1" by blast+
  then show ?thesis
    by (simp add: svm_ready_def devirtualize_processor_def svm_arch_def SvmGuest_load_guest_cpu_state_def SvmGuest_deactivate_def
        Svm_disable_def machine_simps Let_def)
qed

theorem svm_unload_always_possible_witness:
  "\<exists>vt g m1 m2. virtualize_core (svm_arch svm_example_env) (sv_cpuid svm_example_env) 7 (sv_ids svm_example_env)
         Registers_default [] svm_example = Inr (Running vt g m1)
     \<and> devirtualize_processor (svm_arch svm_example_env) \<lparr>next_rip = 0x1003\<rparr> vt g m1 =
         Inr (Devirtualized ((svm_registers g)\<lparr>rip := 0x1003\<rparr>) m2) \<and> rdmsr IA32_EFER m2 = 0"
proof -
  have "activity_states svm_example \<noteq> []" using svm_example_simps(1) by fastforce
  then obtain g m1 vt where v: "virtualize_core (svm_arch svm_example_env) (sv_cpuid svm_example_env) 7 (sv_ids svm_example_env)
      Registers_default [] svm_example = Inr (Running vt g m1)"
    by (simp add: virtualize_core_def svm_arch_def svm_example_env_def apic_id_get_def processor_id_from_def Svm_enable_def
        SvmGuest_new_def SvmGuest_activate_def SvmGuest_initialize_def svm_initialize_control_def svm_initialize_host_def Let_def wrmsr_def)
  moreover have "rdmsr IA32_EFER svm_example = 0" by (simp add: svm_example_def rdmsr_def)
  ultimately show ?thesis using svm_unload_always_possible [OF v, of "\<lparr>next_rip = 0x1003\<rparr>"] by auto
qed

end
