(* ===== verification/Guest_Memory.thy ===== *)
theory Guest_Memory
  imports Epts Vmx_Properties Svm_Properties
begin

unbundle bit_operations_syntax

text \<open>
  What all guests share: \<open>SharedGuestData\<close> of \<open>intel/guest.rs\<close> and \<open>amd/guest.rs\<close>. It is built once,
  by the first processor, from that processor's memory type and APIC registers, and its
  addresses are put into the VMCS or the VMCB of every guest. The theory composes the
  tables of the theories \<open>Epts\<close> and \<open>Npts\<close> with the initialization of the guests: the memory
  and the MSRs that a guest reaches through its control structure. On AMD the processors
  change the shared tables while guests run; there a sequence of actions of any processors
  is threaded through the shared data.
\<close>

section \<open>Definitions\<close>

subsection \<open>Intel\<close>

text \<open>The boxes are represented with their addresses.\<close>

record vmx_shared_guest =
  msr_bitmaps_addr :: u64
  msr_bitmaps :: "u8 list"
  epts_addr :: u64
  shared_epts :: epts

definition vmx_shared_guest_data ::
  "bool \<Rightarrow> u64 \<Rightarrow> (u64 \<Rightarrow> u64) \<Rightarrow> u64 \<times> u64 \<Rightarrow> 'm machine_scheme \<Rightarrow> vmx_shared_guest rust" where
  "vmx_shared_guest_data oc bsf_undefined pa_of addrs m =
     (case addrs of (epts_va, bitmaps_va) \<Rightarrow>
      and_then (epts_build_identity oc bsf_undefined pa_of epts_va m Epts_zeroed) (\<lambda>epts.
      Inr \<lparr>msr_bitmaps_addr = bitmaps_va, msr_bitmaps = replicate 4096 0, epts_addr = epts_va, shared_epts = epts\<rparr>))"

subsection \<open>AMD\<close>

definition svm_shared_guest_data ::
  "(u64 \<Rightarrow> u64) \<Rightarrow> u64 \<Rightarrow> 'm machine_scheme \<Rightarrow> (paging_structures \<times> u8 list) rust" where
  "svm_shared_guest_data pa_of base m =
     and_then (shared_npt pa_of base m) (\<lambda>npt. Inr (npt, replicate 0xff ACTIVE))"

text \<open>
  One \<open>SHARED_GUEST_DATA\<close> is behind all guests. What the processors do with it: each creates,
  activates and initializes its guest, and each handles the nested page faults of its guest.
  A processor acts on its own machine, with the shared part as the previous action, of
  whatever processor, left it.
\<close>

type_synonym svm_shared = "paging_structures \<times> u8 list"

datatype svm_action =
    Create_guest "u64 \<times> u64 \<times> u64" nat registers svm_machine
  | Handle_fault SvmGuest svm_machine

fun action_machine :: "svm_action \<Rightarrow> svm_machine" where
  "action_machine (Create_guest addrs n r m) = m"
| "action_machine (Handle_fault g m) = m"

definition with_shared :: "svm_shared \<Rightarrow> svm_machine \<Rightarrow> svm_machine" where
  "with_shared sh m = m\<lparr>npt := fst sh, activity_states := snd sh\<rparr>"

definition shared_of :: "svm_machine \<Rightarrow> svm_shared" where
  "shared_of m = (npt m, activity_states m)"

fun svm_act ::
  "bool \<Rightarrow> bool \<Rightarrow> apic_ids \<Rightarrow> (u64 \<Rightarrow> u64) \<Rightarrow> u64 \<Rightarrow> 'tss shared_host_data option \<Rightarrow> svm_action \<Rightarrow> svm_shared
     \<Rightarrow> (SvmGuest list \<times> svm_shared) rust" where
  "svm_act uefi oc ids pa_of base shd (Create_guest addrs n r m) sh =
     and_then (SvmGuest_new uefi pa_of addrs n (with_shared sh m)) (\<lambda>(g, m1).
     and_then (SvmGuest_activate pa_of g m1) (\<lambda>(g1, m2).
     and_then (SvmGuest_initialize pa_of base shd r g1 m2) (\<lambda>(g2, m3).
     Inr ([g2], shared_of m3))))"
| "svm_act uefi oc ids pa_of base shd (Handle_fault g m) sh =
     and_then (handle_nested_page_fault oc ids g (with_shared sh m)) (\<lambda>(g', m').
     Inr ([], shared_of m'))"

text \<open>The guests that a sequence of actions creates, and the shared data it leaves.\<close>

fun svm_acts ::
  "bool \<Rightarrow> bool \<Rightarrow> apic_ids \<Rightarrow> (u64 \<Rightarrow> u64) \<Rightarrow> u64 \<Rightarrow> 'tss shared_host_data option \<Rightarrow> svm_action list \<Rightarrow> svm_shared
     \<Rightarrow> (SvmGuest list \<times> svm_shared) rust" where
  "svm_acts uefi oc ids pa_of base shd [] sh = Inr ([], sh)"
| "svm_acts uefi oc ids pa_of base shd (a # acts) sh =
     and_then (svm_act uefi oc ids pa_of base shd a sh) (\<lambda>(gs, sh1).
     and_then (svm_acts uefi oc ids pa_of base shd acts sh1) (\<lambda>(gs', sh2). Inr (gs @ gs', sh2)))"

text \<open>
  Whether the APIC page can be written after a sequence of actions: the guest of the UEFI
  boot processor takes the right away, for all processors, and the first fault on the last
  processor gives it back.
\<close>

fun apic_page_writable :: "bool \<Rightarrow> nat \<Rightarrow> svm_action list \<Rightarrow> bool \<Rightarrow> bool" where
  "apic_page_writable uefi l [] w = w"
| "apic_page_writable uefi l (Create_guest addrs n r m # acts) w = apic_page_writable uefi l acts (if uefi \<and> n = 0 then False else w)"
| "apic_page_writable uefi l (Handle_fault g m # acts) w = apic_page_writable uefi l acts (if svm_id g = l then True else w)"

section \<open>The MSR bitmaps as the processor reads them\<close>

text \<open>
  Bytes 0 to 1023 are for reads of the MSRs up to 0x1fff, 1024 to 2047 for reads of the 8192
  MSRs from 0xc0000000 on, the second half of the page for writes. Other MSRs always cause an
  exit. (Intel SDM, 25.6.9)
\<close>

definition msr_access_exits :: "u8 list \<Rightarrow> bool \<Rightarrow> u32 \<Rightarrow> bool" where
  "msr_access_exits page wr msr =
     (if msr \<le> 0x1fff then bit (page ! ((if wr then 2048 else 0) + unat msr div 8)) (unat msr mod 8)
      else if 0xc0000000 \<le> msr \<and> msr \<le> 0xc0001fff then
        let n = unat (msr - 0xc0000000) in bit (page ! ((if wr then 3072 else 1024) + n div 8)) (n mod 8)
      else True)"

lemma msr_access_zero:
  "msr_access_exits (replicate 4096 0) wr msr \<longleftrightarrow> \<not> (msr \<le> 0x1fff \<or> 0xc0000000 \<le> msr \<and> msr \<le> 0xc0001fff)"
proof -
  have byte: "\<not> bit (replicate 4096 (0 :: u8) ! (b + n div 8)) k" if "n < 0x2000" "b \<le> 3072" for b n k
  proof -
    have "n div 8 < 1024" using that(1) by (simp add: less_mult_imp_div_less)
    with that(2) have "b + n div 8 < 4096" by simp
    then show ?thesis by (simp add: nth_replicate)
  qed
  consider "msr \<le> 0x1fff" | "\<not> msr \<le> 0x1fff" "0xc0000000 \<le> msr" "msr \<le> 0xc0001fff"
    | "\<not> msr \<le> 0x1fff" "\<not> (0xc0000000 \<le> msr \<and> msr \<le> 0xc0001fff)" by blast
  then show ?thesis
  proof cases
    case 1
    then have "unat msr < 0x2000" by (simp add: word_le_nat_alt)
    from byte [OF this, of 2048] byte [OF this, of 0] 1 show ?thesis by (simp add: msr_access_exits_def)
  next
    case 2
    then have "unat (msr - 0xc0000000) < 0x2000" by (simp add: word_le_nat_alt unat_sub)
    from byte [OF this, of 3072] byte [OF this, of 1024] 2 show ?thesis by (simp add: msr_access_exits_def Let_def)
  next
    case 3
    then show ?thesis unfolding msr_access_exits_def by (simp only: if_False simp_thms)
  qed
qed

section \<open>The shared data\<close>

lemma vmx_shared_ready:
  assumes "vmx_shared_guest_data oc bsf pa_of (epts_va, bitmaps_va) m = Inr sg"
    and "holds_epts tbl pa_of (epts_addr sg) (shared_epts sg)" and "pa_52bit pa_of"
  obtains mtrr where "Mtrr_new oc bsf m = Inr mtrr" and "ept_ready tbl pa_of (epts_addr sg) mtrr (shared_epts sg)"
    and "msr_bitmaps sg = replicate 4096 0"
  using assms that by (auto simp: vmx_shared_guest_data_def epts_build_identity_def ept_ready_def rust_simps)

lemma shared_npt_apic_enabled:
  assumes "shared_npt pa_of base m = Inr ps"
  shows "\<not> bit (rdmsr IA32_APIC_BASE m) 10" and "bit (rdmsr IA32_APIC_BASE m) 11"
  using assms by (auto simp: shared_npt_def split_apic_page_def get_bit_def rust_simps Let_def)

text \<open>The control block and the tables after a guest was created and initialized.\<close>

lemma svm_initialized_tables:
  assumes "SvmGuest_new uefi pa_of addrs n m = Inr (g, m1)" and "SvmGuest_activate pa_of g m1 = Inr (g1, m2)"
    and "SvmGuest_initialize pa_of base shd r g1 m2 = Inr (g2, m3)"
  shows "ncr3 (control_area (vmcb g2)) = pa_of base \<and> np_enable (control_area (vmcb g2)) = 1
    \<and> npt m3 = (if uefi \<and> n = 0 then set_apic_writable False m (npt m) else npt m)"
proof -
  from assms(1) have "npt m1 = (if uefi \<and> n = 0 then set_apic_writable False m (npt m) else npt m)"
    by (auto simp: SvmGuest_new_def intercept_apic_write_def Let_def split: prod.splits if_splits)
  moreover have "npt m2 = npt m1" using assms(2) by (auto simp: SvmGuest_activate_def wrmsr_def)
  moreover from assms(3) have "npt m3 = npt m2"
    by (auto simp: SvmGuest_initialize_def svm_initialize_control_def svm_initialize_host_def gdt_apply_def rust_simps
        machine_simps wrmsr_def cr3_write_def lgdt_def lidt_def Let_def split: option.splits sum.splits if_splits prod.splits)
  moreover from assms(3) have "ncr3 (control_area (vmcb g2)) = pa_of base" "np_enable (control_area (vmcb g2)) = 1"
    by (auto simp: SvmGuest_initialize_def svm_initialize_control_def svm_initialize_host_def svm_initialize_guest_def rust_simps Let_def
        split: option.splits sum.splits if_splits prod.splits)
  ultimately show ?thesis by simp
qed

subsection \<open>The shared tables under all actions\<close>

lemma set_apic_writable_twice:
  assumes "apic_base_of m = apic_base_of m0"
  shows "set_apic_writable w m (set_apic_writable w' m0 ps) = set_apic_writable w m0 ps"
proof -
  have "set_writable w (set_writable w' e) = set_writable w e" for e
    by (rule bit_word_eqI) (auto simp: set_writable_def set_flag_def bit_simps)
  then have "(xs[i := set_writable w' (xs ! i)])[i := set_writable w (xs[i := set_writable w' (xs ! i)] ! i)]
      = xs[i := set_writable w (xs ! i)]" for xs i
    by (cases "i < length xs") (simp_all add: list_update_beyond)
  then show ?thesis by (simp add: set_apic_writable_def assms Let_def)
qed

lemma emulate_apic_write_npt: "emulate_apic_write ids v gpa m = Inr m' \<Longrightarrow> npt m' = npt m"
  by (auto simp: emulate_apic_write_def rust_simps Let_def split: if_splits)

lemma nested_page_fault_npt:
  assumes "handle_nested_page_fault oc ids g m = Inr (g', m')" and "last_processor oc ids = Inr l"
  shows "npt m' = (if svm_id g = l then set_apic_writable True m (npt m) else npt m)"
  using assms
  by (auto simp: handle_nested_page_fault_def intercept_apic_write_def rust_simps Let_def dest!: emulate_apic_write_npt split: if_splits)

lemma with_shared_simps [simp]:
  "npt (with_shared sh m) = fst sh" "set_apic_writable w (with_shared sh m) ps = set_apic_writable w m ps"
  by (simp_all add: with_shared_def set_apic_writable_def apic_base_of_def rdmsr_def)

text \<open>One action on tables in which the APIC page has the write permission \<open>w\<close>.\<close>

definition npt_state :: "'m machine_scheme \<Rightarrow> paging_structures \<Rightarrow> bool \<Rightarrow> paging_structures \<Rightarrow> bool" where
  "npt_state m0 ps0 w ps \<longleftrightarrow> w \<and> ps = ps0 \<or> ps = set_apic_writable w m0 ps0"

lemma npt_state_write:
  assumes "npt_state m0 ps0 w ps" and "apic_base_of m = apic_base_of m0"
  shows "npt_state m0 ps0 w' (set_apic_writable w' m ps)"
proof -
  have "set_apic_writable w' m ps0 = set_apic_writable w' m0 ps0" by (simp add: set_apic_writable_def assms(2))
  then show ?thesis using assms(1) set_apic_writable_twice [OF assms(2)] by (auto simp: npt_state_def)
qed

lemma svm_act_tables:
  assumes "svm_act uefi oc ids pa_of base shd a sh = Inr (gs, sh')" and "last_processor oc ids = Inr l"
    and "npt_state m0 ps0 w (fst sh)" and "apic_base_of (action_machine a) = apic_base_of m0"
  shows "npt_state m0 ps0 (apic_page_writable uefi l [a] w) (fst sh')
    \<and> (\<forall>g \<in> set gs. ncr3 (control_area (vmcb g)) = pa_of base \<and> np_enable (control_area (vmcb g)) = 1)"
proof (cases a)
  case (Create_guest addrs n r m)
  with assms(1) obtain g m1 g1 m2 g2 m3 where steps: "SvmGuest_new uefi pa_of addrs n (with_shared sh m) = Inr (g, m1)"
      "SvmGuest_activate pa_of g m1 = Inr (g1, m2)" "SvmGuest_initialize pa_of base shd r g1 m2 = Inr (g2, m3)"
    and "gs = [g2]" "sh' = shared_of m3" by (auto simp: rust_simps)
  with svm_initialized_tables [OF steps] assms(3,4) npt_state_write [OF assms(3), of m False] show ?thesis
    by (auto simp: Create_guest shared_of_def)
next
  case (Handle_fault g m)
  with assms(1) obtain g' m' where "handle_nested_page_fault oc ids g (with_shared sh m) = Inr (g', m')"
    and "gs = []" "sh' = shared_of m'" by (auto simp: rust_simps)
  with nested_page_fault_npt [OF this(1) assms(2)] assms(3,4) npt_state_write [OF assms(3), of m True] show ?thesis
    by (auto simp: Handle_fault shared_of_def)
qed

lemma svm_acts_tables:
  assumes "svm_acts uefi oc ids pa_of base shd acts sh = Inr (gs, sh')" and "last_processor oc ids = Inr l"
    and "npt_state m0 ps0 w (fst sh)" and "\<forall>a \<in> set acts. apic_base_of (action_machine a) = apic_base_of m0"
  shows "npt_state m0 ps0 (apic_page_writable uefi l acts w) (fst sh')
    \<and> (\<forall>g \<in> set gs. ncr3 (control_area (vmcb g)) = pa_of base \<and> np_enable (control_area (vmcb g)) = 1)"
  using assms(1,3,4)
proof (induction acts arbitrary: sh gs w)
  case Nil
  then show ?case by simp
next
  case (Cons a acts)
  from Cons.prems(1) obtain gs1 sh1 gs2 where a: "svm_act uefi oc ids pa_of base shd a sh = Inr (gs1, sh1)"
    and rest: "svm_acts uefi oc ids pa_of base shd acts sh1 = Inr (gs2, sh')" and gs: "gs = gs1 @ gs2"
    by (auto simp: rust_simps)
  have one: "npt_state m0 ps0 (apic_page_writable uefi l [a] w) (fst sh1)
      \<and> (\<forall>g \<in> set gs1. ncr3 (control_area (vmcb g)) = pa_of base \<and> np_enable (control_area (vmcb g)) = 1)"
    using Cons.prems(3) by (intro svm_act_tables [OF a assms(2) Cons.prems(2)]) simp
  with Cons.IH [OF rest, of "apic_page_writable uefi l [a] w"] Cons.prems(3) show ?case
    by (cases a) (auto simp: gs)
qed

section \<open>Properties\<close>

text \<open>
  C19. The memory and the MSRs of an Intel guest. With the data that the first processor
  builds from its MTRRs, the EPT pointer that \<open>initialize\<close> puts into the VMCS of any guest
  translates every address below 2^48 to itself, with all rights and the memory type of the
  MTRR lookup; the MSR bitmaps in the VMCS let the guest access every MSR that they
  cover without a VM exit, and no other. The controls that put both to use, the secondary
  controls and MSR bitmaps in the primary and EPT and unrestricted guest in the secondary
  controls, are set exactly where the capability MSRs of the processor allow them; the code
  does not refuse a processor that lacks them.
\<close>

theorem intel_guest_memory:
  assumes "vmx_shared_guest_data oc bsf pa_of (epts_va, bitmaps_va) m0 = Inr sg" and "pa_52bit pa_of"
    and "holds_epts tbl pa_of (epts_addr sg) (shared_epts sg)" and "vmx_current pa m"
    and "VmxGuest_initialize oc pa_of (msr_bitmaps_addr sg) (eptp pa_of (epts_addr sg)) shd r g m = Inr (g', m')"
    and "primary = rdmsr (if bit (rdmsr IA32_VMX_BASIC m) 55 then 0x48e else 0x482) m" and "secondary = rdmsr 0x48b m"
  shows "\<exists>mtrr. Mtrr_new oc bsf m0 = Inr mtrr
    \<and> (\<forall>gpa. unat gpa < 2 ^ 48 \<longrightarrow> (\<exists>t. ept_type mtrr gpa = Some t
        \<and> ept_walk tbl (vmcs_fields m' pa EPTP_FULL) gpa = Some (gpa, (True, True, True), MemoryType_code t)))
    \<and> vmcs_fields m' pa MSR_BITMAPS_ADDR_FULL = pa_of (msr_bitmaps_addr sg)
    \<and> (\<forall>wr msr. msr_access_exits (msr_bitmaps sg) wr msr \<longleftrightarrow> \<not> (msr \<le> 0x1fff \<or> 0xc0000000 \<le> msr \<and> msr \<le> 0xc0001fff))
    \<and> (\<forall>n \<in> {28, 31}. bit (vmcs_fields m' pa PRIMARY_PROCBASED_EXEC_CONTROLS) n \<longleftrightarrow> bit primary (32 + n))
    \<and> (\<forall>n \<in> {1, 7}. bit (vmcs_fields m' pa SECONDARY_PROCBASED_EXEC_CONTROLS) n \<longleftrightarrow> bit secondary (32 + n))"
proof -
  obtain mtrr where mtrr: "Mtrr_new oc bsf m0 = Inr mtrr" and ready: "ept_ready tbl pa_of (epts_addr sg) mtrr (shared_epts sg)"
    and bitmaps: "msr_bitmaps sg = replicate 4096 0" using vmx_shared_ready [OF assms(1,3,2)] .
  have cap: "primary = rdmsr (capability_msr ProcessorBased m) m" "secondary = rdmsr (capability_msr ProcessorBased2 m) m"
    using assms(6,7) by (simp_all add: capability_msr_def)
  have adj: "adjust_vmx_control ProcessorBased 0x90040000 m = Inr (vmcs_fields m' pa PRIMARY_PROCBASED_EXEC_CONTROLS)"
    "adjust_vmx_control ProcessorBased2 0x410108a m = Inr (vmcs_fields m' pa SECONDARY_PROCBASED_EXEC_CONTROLS)"
    using initialize_fields [OF assms(4,5)] by simp_all
  from adjusted_bits [OF _ _ cap(1), of "0x90040000"] adj(1)
  have "\<forall>n \<in> {28, 31}. bit (vmcs_fields m' pa PRIMARY_PROCBASED_EXEC_CONTROLS) n \<longleftrightarrow> bit primary (32 + n)" by auto
  moreover from adjusted_bits [OF _ _ cap(2), of "0x410108a"] adj(2)
  have "\<forall>n \<in> {1, 7}. bit (vmcs_fields m' pa SECONDARY_PROCBASED_EXEC_CONTROLS) n \<longleftrightarrow> bit secondary (32 + n)" by auto
  moreover have "vmcs_fields m' pa EPTP_FULL = eptp pa_of (epts_addr sg)"
      "vmcs_fields m' pa MSR_BITMAPS_ADDR_FULL = pa_of (msr_bitmaps_addr sg)"
    using initialize_fields [OF assms(4,5)] by simp_all
  ultimately show ?thesis
    using mtrr ept_walk_identity [OF ready] by (simp add: msr_access_zero bitmaps)
qed

text \<open>A machine whose MTRRs make all memory write-back.\<close>

definition mtrr_machine :: machine where
  "mtrr_machine = blank_machine
     (\<lambda>msr. if msr = IA32_MTRR_DEF_TYPE then 0xc06 else if msr \<in> set FIXED_MTRRS then 0x0606060606060606 else 0) (\<lambda>_. 0) ()"

lemma write_back_code: "MemoryType_from_u8 6 = Some WriteBack"
  by (simp add: MemoryType_from_u8_def)

lemma replicate_8: "replicate 8 x = [x, x, x, x, x, x, x, x]"
  by (simp add: eval_nat_numeral)

lemma replicate_11: "replicate 11 x = [x, x, x, x, x, x, x, x, x, x, x]"
  by (simp add: eval_nat_numeral)

lemma fixed_bytes_write_back:
  "fixed_bytes_loop (start, z) j (replicate n 6) [\<lparr>memory_type = WriteBack, range_start = 0, range_end = start + z * of_nat j\<rparr>] =
     Inr [\<lparr>memory_type = WriteBack, range_start = 0, range_end = start + z * of_nat (j + n)\<rparr>]"
proof (induction n arbitrary: j)
  case (Suc n)
  from Suc [of "Suc j"] show ?case by (simp add: update_combined_ranges_def write_back_code Let_def algebra_simps)
qed simp

lemma bytes_of_write_back: "to_be_bytes 0x0606060606060606 = replicate 8 6"
  unfolding replicate_8 by (simp add: to_be_bytes_def upt_rec)

lemma first_bytes_write_back:
  "fixed_bytes_loop (0, z) 0 (replicate 8 6) [] = Inr [\<lparr>memory_type = WriteBack, range_start = 0, range_end = z * 8\<rparr>]"
proof -
  have "(8 :: nat) = Suc 7" by simp
  then have "replicate 8 (6 :: u8) = 6 # replicate 7 6" by (simp only: replicate_Suc)
  then have "fixed_bytes_loop (0, z) 0 (replicate 8 6) [] = fixed_bytes_loop (0, z) 1 (replicate 7 6)
      [\<lparr>memory_type = WriteBack, range_start = 0, range_end = 0 + z * of_nat 1\<rparr>]"
    by (simp add: update_combined_ranges_def write_back_code)
  then show ?thesis using fixed_bytes_write_back [of 0 z 1 7] by simp
qed

lemma fixed_loop_write_back:
  "fixed_loop FIXED_MTRR_RANGES (replicate 11 0x0606060606060606) [] =
     Inr [\<lparr>memory_type = WriteBack, range_start = 0, range_end = 0x100000\<rparr>]"
proof -
  have more: "fixed_bytes_loop (start, z) 0 (replicate 8 6) [\<lparr>memory_type = WriteBack, range_start = 0, range_end = start\<rparr>] =
      Inr [\<lparr>memory_type = WriteBack, range_start = 0, range_end = start + z * 8\<rparr>]" for start z
    using fixed_bytes_write_back [of start z 0 8] by simp
  show ?thesis
    unfolding FIXED_MTRR_RANGES_def replicate_11 fixed_loop.simps bytes_of_write_back first_bytes_write_back and_then_Inr
    by (simp add: more)
qed

lemma mtrr_machine_flat: "Mtrr_new oc bsf mtrr_machine = Inr flat_mtrr"
proof -
  have "rdmsr IA32_MTRR_DEF_TYPE mtrr_machine = 0xc06" "rdmsr IA32_MTRRCAP mtrr_machine = 0"
    "map (\<lambda>msr. rdmsr msr mtrr_machine) FIXED_MTRRS = replicate 11 0x0606060606060606"
    unfolding replicate_11 by (simp_all add: rdmsr_def mtrr_machine_def FIXED_MTRRS_def)
  then have "RawMtrrs_new mtrr_machine = Inr \<lparr>raw_default_memory_type = WriteBack, raw_fixed = replicate 11 0x0606060606060606, raw_variable = []\<rparr>"
    by (simp add: RawMtrrs_new_def MemoryType_from_u8_def read_variable_mtrrs_def Let_def)
  then show ?thesis
    by (simp add: Mtrr_new_def convert_from_raw_fixed_def convert_from_raw_variable_def fixed_loop_write_back length_fixed_ranges flat_mtrr_def)
qed

theorem intel_guest_memory_witness:
  "\<exists>sg g' m'. vmx_shared_guest_data True 0 (take_bit 52) (0x100000, 0x7000) mtrr_machine = Inr sg
     \<and> VmxGuest_initialize True (take_bit 52) (msr_bitmaps_addr sg) (eptp (take_bit 52) 0x100000) (env_host_data example_env)
         Registers_default example_guest vmx_running = Inr (g', m')
     \<and> ept_walk (ept_mem (shared_epts sg)) (vmcs_fields m' 0x6000 EPTP_FULL) 0x8000123456 = Some (0x8000123456, (True, True, True), 6)
     \<and> \<not> msr_access_exits (msr_bitmaps sg) True 0xc0000080"
proof -
  obtain eps where "ept_build (take_bit 52) 0x100000 flat_mtrr Epts_zeroed = Inr eps"
    using ept_build_total [OF flat_resolvable] by blast
  then obtain sg where sg: "vmx_shared_guest_data True 0 (take_bit 52) (0x100000, 0x7000) mtrr_machine = Inr sg"
    and addr: "epts_addr sg = 0x100000"
    by (auto simp: vmx_shared_guest_data_def epts_build_identity_def mtrr_machine_flat)
  have "tss_base_of True (sgdt vmx_running) (tr vmx_running) vmx_running = Inr 0xfffff80571e7b000"
    by (rule tss_machine_base) (simp_all add: vmx_running_def tss_machine_def)
  with initialize_total [OF vmx_running_current this, of "env_host_data example_env" "take_bit 52" "msr_bitmaps_addr sg"
      "eptp (take_bit 52) 0x100000" Registers_default example_guest]
  obtain m' where i: "VmxGuest_initialize True (take_bit 52) (msr_bitmaps_addr sg) (eptp (take_bit 52) 0x100000) (env_host_data example_env)
      Registers_default example_guest vmx_running = Inr (example_guest\<lparr>vmx_registers := Registers_default\<rparr>, m')" by (auto simp: example_env_def)
  have "ept_type flat_mtrr 0x8000123456 = Some WriteBack"
    by (simp add: ept_type_def LARGE_PAGE_SIZE_def PML4_SLOT_SIZE_def mtrr_find_def find_from_variable_def flat_mtrr_def)
  moreover from intel_guest_memory [OF sg pa_52bit_take_bit _ vmx_running_current, unfolded addr, OF holds_ept_mem i refl refl]
  have walk: "unat gpa < 2 ^ 48 \<Longrightarrow> \<exists>t. ept_type flat_mtrr gpa = Some t
      \<and> ept_walk (ept_mem (shared_epts sg)) (vmcs_fields m' 0x6000 EPTP_FULL) gpa = Some (gpa, (True, True, True), MemoryType_code t)"
    and msr: "\<not> msr_access_exits (msr_bitmaps sg) True 0xc0000080" for gpa by (auto simp: mtrr_machine_flat)
  ultimately have "ept_walk (ept_mem (shared_epts sg)) (vmcs_fields m' 0x6000 EPTP_FULL) 0x8000123456 = Some (0x8000123456, (True, True, True), 6)"
    using walk [of "0x8000123456"] by simp
  with sg i msr show ?thesis by blast
qed

text \<open>
  C20. The memory of the AMD guests. All guests run with nested paging through the one set of
  tables that the first processor builds. After any sequence of guest creations and handled
  nested page faults, by processors with the same APIC base, every guest reads every address below 2^39, and an
  address outside the 2MB region of the local APIC is translated to itself (\<open>npt_target\<close> has
  the frames inside the region). Every address can be written, except those in the page of
  the APIC from the creation of the guest of a UEFI boot processor on until the last
  processor has handled a fault: during that time the page is read-only for all guests.
\<close>

theorem amd_guest_memory:
  assumes "svm_shared_guest_data pa_of base m0 = Inr sh0" and "unat (apic_base_of m0) < 2 ^ 39" and "pa_52bit pa_of"
    and "last_processor oc ids = Inr l" and "\<forall>a \<in> set acts. apic_base_of (action_machine a) = apic_base_of m0"
    and "svm_acts uefi oc ids pa_of base shd acts sh0 = Inr (gs, sh)" and "g \<in> set gs"
    and "holds_npt tbl pa_of base (fst sh)" and "unat va < 2 ^ 39"
  shows "np_enable (control_area (vmcb g)) = 1
    \<and> walk tbl (drop_bit 12 (ncr3 (control_area (vmcb g)))) va =
        Some (npt_target (apic_base_of m0) va,
          drop_bit 12 va = drop_bit 12 (apic_base_of m0) \<longrightarrow> apic_page_writable uefi l acts True, True)
    \<and> (region_2mb va \<noteq> region_2mb (apic_base_of m0) \<longrightarrow> npt_target (apic_base_of m0) va = va)"
proof -
  obtain ps0 where ps: "shared_npt pa_of base m0 = Inr ps0" and sh0: "fst sh0 = ps0"
    using assms(1) by (auto simp: svm_shared_guest_data_def rust_simps)
  note apic = shared_npt_apic_enabled [OF ps]
  have "npt_state m0 ps0 True (fst sh0)" by (simp add: npt_state_def sh0)
  from svm_acts_tables [OF assms(6,4) this assms(5)] assms(7)
  have st: "npt_state m0 ps0 (apic_page_writable uefi l acts True) (fst sh)"
    and g: "ncr3 (control_area (vmcb g)) = pa_of base" "np_enable (control_area (vmcb g)) = 1" by auto
  have "walk tbl (drop_bit 12 (pa_of base)) va = Some (npt_target (apic_base_of m0) va,
      drop_bit 12 va = drop_bit 12 (apic_base_of m0) \<longrightarrow> apic_page_writable uefi l acts True, True)"
    using st npt_walk [OF apic assms(2) ps _ assms(3,9), of tbl] intercepted_walk [OF apic assms(2) ps _ assms(3,9), of tbl] assms(8)
    by (auto simp: npt_state_def)
  then show ?thesis by (simp add: g npt_target_def)
qed

text \<open>The machine of the theory \<open>Svm_Properties\<close> with its APIC enabled.\<close>

definition svm_apic_machine :: svm_machine where
  "svm_apic_machine = svm_example\<lparr>msrs := (msrs svm_example)(IA32_APIC_BASE := 0xfee00900)\<rparr>"

text \<open>The boot processor and another one create their guests: the page is read-only for the second guest, too.\<close>

theorem amd_guest_memory_witness:
  "\<exists>sh0 gs sh g. svm_shared_guest_data (take_bit 52) 0x100000 svm_apic_machine = Inr sh0
     \<and> svm_acts True True (sv_ids svm_example_env) (take_bit 52) 0x100000 (sv_host_data svm_example_env)
         [Create_guest (0x1000, 0x2000, 0x3000) 0 Registers_default svm_apic_machine,
          Create_guest (0x4000, 0x5000, 0x6000) 1 Registers_default svm_apic_machine] sh0 = Inr (gs, sh)
     \<and> length gs = 2 \<and> g = gs ! 1
     \<and> walk (npt_mem (fst sh)) (drop_bit 12 (ncr3 (control_area (vmcb g)))) 0xfee00300 = Some (0xfee00300, False, True)
     \<and> walk (npt_mem (fst sh)) (drop_bit 12 (ncr3 (control_area (vmcb g)))) 0x12345678 = Some (0x12345678, True, True)"
proof -
  let ?m = svm_apic_machine and ?shd = "sv_host_data svm_example_env" and ?ids = "sv_ids svm_example_env"
  let ?acts = "[Create_guest (0x1000, 0x2000, 0x3000) 0 Registers_default ?m, Create_guest (0x4000, 0x5000, 0x6000) 1 Registers_default ?m]"
  have raw: "rdmsr IA32_APIC_BASE ?m = 0xfee00900" by (simp add: svm_apic_machine_def rdmsr_def)
  then have apic: "apic_base_of ?m = 0xfee00000" by (simp add: apic_base_of_def)
  obtain ps where ps: "svm_shared_guest_data (take_bit 52) 0x100000 ?m = Inr (ps, replicate 0xff ACTIVE)"
    using shared_npt_eq [of ?m "0xfee00000" "take_bit 52" "0x100000"] raw apic by (auto simp: svm_shared_guest_data_def)
  have create: "\<exists>g ps'. svm_act True True ?ids (take_bit 52) 0x100000 ?shd (Create_guest addrs n Registers_default ?m)
      (ps, replicate 0xff ACTIVE) = Inr ([g], ps', replicate 0xff ACTIVE)" if "n < 0xff" for addrs n ps
    using that by (cases addrs) (auto simp: SvmGuest_new_def intercept_apic_write_def SvmGuest_activate_def SvmGuest_initialize_def
        svm_initialize_control_def svm_initialize_host_def svm_example_env_def Let_def with_shared_def shared_of_def wrmsr_def)
  obtain g0 ps1 where "svm_act True True ?ids (take_bit 52) 0x100000 ?shd (?acts ! 0) (ps, replicate 0xff ACTIVE) = Inr ([g0], ps1, replicate 0xff ACTIVE)"
    using create [of 0 "(0x1000, 0x2000, 0x3000)" ps] by auto
  moreover obtain g1 ps2 where "svm_act True True ?ids (take_bit 52) 0x100000 ?shd (?acts ! 1) (ps1, replicate 0xff ACTIVE) = Inr ([g1], ps2, replicate 0xff ACTIVE)"
    using create [of 1 "(0x4000, 0x5000, 0x6000)" ps1] by auto
  ultimately have acts: "svm_acts True True ?ids (take_bit 52) 0x100000 ?shd ?acts (ps, replicate 0xff ACTIVE) = Inr ([g0, g1], ps2, replicate 0xff ACTIVE)"
    by simp
  have l: "last_processor True ?ids = Inr 1" by (simp add: last_processor_def svm_example_env_def)
  have "walk (npt_mem (fst (ps2, replicate 0xff ACTIVE))) (drop_bit 12 (ncr3 (control_area (vmcb g1)))) va =
      Some (npt_target 0xfee00000 va, drop_bit 12 va \<noteq> 0xfee00, True)" if "unat va < 2 ^ 39" for va
    using amd_guest_memory [OF ps _ pa_52bit_take_bit l _ acts _ holds_npt_mem that, of g1] by (simp add: apic)
  from this [of "0xfee00300"] this [of "0x12345678"]
  have "walk (npt_mem ps2) (drop_bit 12 (ncr3 (control_area (vmcb g1)))) 0xfee00300 = Some (0xfee00300, False, True)"
    "walk (npt_mem ps2) (drop_bit 12 (ncr3 (control_area (vmcb g1)))) 0x12345678 = Some (0x12345678, True, True)"
    by (simp_all add: npt_target_def region_2mb_def walk_index_eq)
  with ps acts show ?thesis by force
qed

end
