(* ===== verification/Vmcs_Debug.thy ===== *)
theory Vmcs_Debug
  imports Vmx_Guest
begin

unbundle bit_operations_syntax

text \<open>
  The \<open>Debug\<close> implementation of \<open>Vmcs\<close> in \<open>hypervisor/intel/guest.rs\<close>, which \<open>run\<close> uses to log the
  current VMCS before it panics on an unhandled VM exit. The result is the list of the
  labels and values that are given to the formatter; the blanks that fill a label up to 47
  characters are left out. The fields stand in the sections in which the code has them, each
  section with the width and the type that its comment names. Encodings that are constants of
  the x86 crate are those of the manual. (Intel SDM, Appendix B)
\<close>

section \<open>Definitions\<close>

text \<open>Encodings that the x86 crate does not define.\<close>

definition VMCS_CONTROL_HLAT_PREFIX_SIZE :: u32 where "VMCS_CONTROL_HLAT_PREFIX_SIZE = 0x6"
definition VMCS_CONTROL_LAST_PID_POINTER_INDEX :: u32 where "VMCS_CONTROL_LAST_PID_POINTER_INDEX = 0x8"
definition VMCS_GUEST_UINV :: u32 where "VMCS_GUEST_UINV = 0x814"
definition VMCS_CONTROL_TERTIARY_PROCESSOR_BASED_VM_EXECUTION_CONTROLS :: u32 where "VMCS_CONTROL_TERTIARY_PROCESSOR_BASED_VM_EXECUTION_CONTROLS = 0x2034"
definition VMCS_CONTROL_ENCLV_EXITING_BITMAP :: u32 where "VMCS_CONTROL_ENCLV_EXITING_BITMAP = 0x2036"
definition VMCS_CONTROL_LOW_PASID_DIRECTORY_ADDRESS :: u32 where "VMCS_CONTROL_LOW_PASID_DIRECTORY_ADDRESS = 0x2038"
definition VMCS_CONTROL_HIGH_PASID_DIRECTORY_ADDRESS :: u32 where "VMCS_CONTROL_HIGH_PASID_DIRECTORY_ADDRESS = 0x203a"
definition VMCS_CONTROL_SHARED_EPT_POINTER :: u32 where "VMCS_CONTROL_SHARED_EPT_POINTER = 0x203c"
definition VMCS_CONTROL_PCONFIG_EXITING_BITMAP :: u32 where "VMCS_CONTROL_PCONFIG_EXITING_BITMAP = 0x203e"
definition VMCS_CONTROL_HLATP :: u32 where "VMCS_CONTROL_HLATP = 0x2040"
definition VMCS_CONTROL_PID_POINTER_TABLE_ADDRESS :: u32 where "VMCS_CONTROL_PID_POINTER_TABLE_ADDRESS = 0x2042"
definition VMCS_CONTROL_SECONDARY_VM_EXIT_CONTROLS :: u32 where "VMCS_CONTROL_SECONDARY_VM_EXIT_CONTROLS = 0x2044"
definition VMCS_CONTROL_IA32_SPEC_CTRL_MASK :: u32 where "VMCS_CONTROL_IA32_SPEC_CTRL_MASK = 0x204a"
definition VMCS_CONTROL_IA32_SPEC_CTRL_SHADOW :: u32 where "VMCS_CONTROL_IA32_SPEC_CTRL_SHADOW = 0x204c"
definition VMCS_GUEST_IA32_LBR_CTL :: u32 where "VMCS_GUEST_IA32_LBR_CTL = 0x2816"
definition VMCS_GUEST_IA32_PKRS :: u32 where "VMCS_GUEST_IA32_PKRS = 0x2818"
definition VMCS_HOST_IA32_PKRS :: u32 where "VMCS_HOST_IA32_PKRS = 0x2c06"
definition VMCS_CONTROL_INSTRUCTION_TIMEOUT_CONTROL :: u32 where "VMCS_CONTROL_INSTRUCTION_TIMEOUT_CONTROL = 0x4024"
definition VMCS_GUEST_IA32_S_CET :: u32 where "VMCS_GUEST_IA32_S_CET = 0x6828"
definition VMCS_GUEST_SSP :: u32 where "VMCS_GUEST_SSP = 0x682a"
definition VMCS_GUEST_IA32_INTERRUPT_SSP_TABLE_ADDR :: u32 where "VMCS_GUEST_IA32_INTERRUPT_SSP_TABLE_ADDR = 0x682c"
definition VMCS_HOST_IA32_S_CET :: u32 where "VMCS_HOST_IA32_S_CET = 0x6c18"
definition VMCS_HOST_SSP :: u32 where "VMCS_HOST_SSP = 0x6c1a"
definition VMCS_HOST_IA32_INTERRUPT_SSP_TABLE_ADDR :: u32 where "VMCS_HOST_IA32_INTERRUPT_SSP_TABLE_ADDR = 0x6c1c"

datatype field_width = Width16 | Width64 | Width32 | NaturalWidth

datatype field_type = Control | ReadOnly | GuestState | HostState

type_synonym vmcs_section = "field_width \<times> field_type \<times> (string \<times> u32) list"

definition guest_fields_16 :: "vmcs_section" where
  "guest_fields_16 = (Width16, GuestState,
     [(''Guest ES Selector'', 0x800),
      (''Guest CS Selector'', 0x802),
      (''Guest SS Selector'', 0x804),
      (''Guest DS Selector'', 0x806),
      (''Guest FS Selector'', 0x808),
      (''Guest GS Selector'', 0x80a),
      (''Guest LDTR Selector'', 0x80c),
      (''Guest TR Selector'', 0x80e),
      (''Guest interrupt status'', 0x810),
      (''PML index'', 0x812),
      (''Guest UINV'', VMCS_GUEST_UINV)])"

definition guest_fields_64 :: "vmcs_section" where
  "guest_fields_64 = (Width64, GuestState,
     [(''VMCS link pointer'', 0x2800),
      (''Guest IA32_DEBUGCTL'', 0x2802),
      (''Guest IA32_PAT'', 0x2804),
      (''Guest IA32_EFER'', 0x2806),
      (''Guest IA32_PERF_GLOBAL_CTRL'', 0x2808),
      (''Guest PDPTE0'', 0x280a),
      (''Guest PDPTE1'', 0x280c),
      (''Guest PDPTE2'', 0x280e),
      (''Guest PDPTE3'', 0x2810),
      (''Guest IA32_BNDCFGS'', 0x2812),
      (''Guest IA32_RTIT_CTL'', 0x2814),
      (''Guest IA32_LBR_CTL'', VMCS_GUEST_IA32_LBR_CTL),
      (''Guest IA32_PKRS'', VMCS_GUEST_IA32_PKRS)])"

definition guest_fields_32 :: "vmcs_section" where
  "guest_fields_32 = (Width32, GuestState,
     [(''Guest ES Limit'', 0x4800),
      (''Guest CS Limit'', 0x4802),
      (''Guest SS Limit'', 0x4804),
      (''Guest DS Limit'', 0x4806),
      (''Guest FS Limit'', 0x4808),
      (''Guest GS Limit'', 0x480a),
      (''Guest LDTR Limit'', 0x480c),
      (''Guest TR Limit'', 0x480e),
      (''Guest GDTR limit'', 0x4810),
      (''Guest IDTR limit'', 0x4812),
      (''Guest ES access rights'', 0x4814),
      (''Guest CS access rights'', 0x4816),
      (''Guest SS access rights'', 0x4818),
      (''Guest DS access rights'', 0x481a),
      (''Guest FS access rights'', 0x481c),
      (''Guest GS access rights'', 0x481e),
      (''Guest LDTR access rights'', 0x4820),
      (''Guest TR access rights'', 0x4822),
      (''Guest interruptibility state'', 0x4824),
      (''Guest activity state'', 0x4826),
      (''Guest SMBASE'', 0x4828),
      (''Guest IA32_SYSENTER_CS'', 0x482a),
      (''VMX-preemption timer value'', 0x482e)])"

definition guest_fields_natural :: "vmcs_section" where
  "guest_fields_natural = (NaturalWidth, GuestState,
     [(''Guest CR0'', 0x6800),
      (''Guest CR3'', 0x6802),
      (''Guest CR4'', 0x6804),
      (''Guest ES Base'', 0x6806),
      (''Guest CS Base'', 0x6808),
      (''Guest SS Base'', 0x680a),
      (''Guest DS Base'', 0x680c),
      (''Guest FS Base'', 0x680e),
      (''Guest GS Base'', 0x6810),
      (''Guest LDTR base'', 0x6812),
      (''Guest TR base'', 0x6814),
      (''Guest GDTR base'', 0x6816),
      (''Guest IDTR base'', 0x6818),
      (''Guest DR7'', 0x681a),
      (''Guest RSP'', 0x681c),
      (''Guest RIP'', 0x681e),
      (''Guest RFLAGS'', 0x6820),
      (''Guest pending debug exceptions'', 0x6822),
      (''Guest IA32_SYSENTER_ESP'', 0x6824),
      (''Guest IA32_SYSENTER_EIP'', 0x6826),
      (''Guest IA32_S_CET'', VMCS_GUEST_IA32_S_CET),
      (''Guest SSP'', VMCS_GUEST_SSP),
      (''Guest IA32_INTERRUPT_SSP_TABLE_ADDR'', VMCS_GUEST_IA32_INTERRUPT_SSP_TABLE_ADDR)])"

definition host_fields_16 :: "vmcs_section" where
  "host_fields_16 = (Width16, HostState,
     [(''Host ES Selector'', 0xc00),
      (''Host CS Selector'', 0xc02),
      (''Host SS Selector'', 0xc04),
      (''Host DS Selector'', 0xc06),
      (''Host FS Selector'', 0xc08),
      (''Host GS Selector'', 0xc0a),
      (''Host TR Selector'', 0xc0c)])"

definition host_fields_64 :: "vmcs_section" where
  "host_fields_64 = (Width64, HostState,
     [(''Host IA32_PAT'', 0x2c00),
      (''Host IA32_EFER'', 0x2c02),
      (''Host IA32_PERF_GLOBAL_CTRL'', 0x2c04),
      (''Host IA32_PKRS'', VMCS_HOST_IA32_PKRS)])"

definition host_fields_32 :: "vmcs_section" where
  "host_fields_32 = (Width32, HostState,
     [(''Host IA32_SYSENTER_CS'', 0x4c00)])"

definition host_fields_natural :: "vmcs_section" where
  "host_fields_natural = (NaturalWidth, HostState,
     [(''Host CR0'', 0x6c00),
      (''Host CR3'', 0x6c02),
      (''Host CR4'', 0x6c04),
      (''Host FS Base'', 0x6c06),
      (''Host GS Base'', 0x6c08),
      (''Host TR base'', 0x6c0a),
      (''Host GDTR base'', 0x6c0c),
      (''Host IDTR base'', 0x6c0e),
      (''Host IA32_SYSENTER_ESP'', 0x6c10),
      (''Host IA32_SYSENTER_EIP'', 0x6c12),
      (''Host RSP'', 0x6c14),
      (''Host RIP'', 0x6c16),
      (''Host IA32_S_CET'', VMCS_HOST_IA32_S_CET),
      (''Host SSP'', VMCS_HOST_SSP),
      (''Host IA32_INTERRUPT_SSP_TABLE_ADDR'', VMCS_HOST_IA32_INTERRUPT_SSP_TABLE_ADDR)])"

definition control_fields_16 :: "vmcs_section" where
  "control_fields_16 = (Width16, Control,
     [(''Virtual-processor identifier'', 0x0),
      (''Posted-interrupt notification vector'', 0x2),
      (''EPTP index'', 0x4),
      (''HLAT prefix size'', VMCS_CONTROL_HLAT_PREFIX_SIZE),
      (''Last PID-pointer index'', VMCS_CONTROL_LAST_PID_POINTER_INDEX)])"

definition control_fields_64 :: "vmcs_section" where
  "control_fields_64 = (Width64, Control,
     [(''Address of I/O bitmap A'', 0x2000),
      (''Address of I/O bitmap B'', 0x2002),
      (''Address of MSR bitmaps'', 0x2004),
      (''VM-exit MSR-store address'', 0x2006),
      (''VM-exit MSR-load address'', 0x2008),
      (''VM-entry MSR-load address'', 0x200a),
      (''Executive-VMCS pointer'', 0x200c),
      (''PML address'', 0x200e),
      (''TSC offset'', 0x2010),
      (''Virtual-APIC address'', 0x2012),
      (''APIC-access address'', 0x2014),
      (''Posted-interrupt descriptor address'', 0x2016),
      (''VM-function controls'', 0x2018),
      (''EPT pointer'', 0x201a),
      (''EOI-exit bitmap 0'', 0x201c),
      (''EOI-exit bitmap 1'', 0x201e),
      (''EOI-exit bitmap 2'', 0x2020),
      (''EOI-exit bitmap 3'', 0x2022),
      (''EPTP-list address'', 0x2024),
      (''VMREAD-bitmap address'', 0x2026),
      (''VMWRITE-bitmap address'', 0x2028),
      (''Virtualization-exception information address'', 0x202a),
      (''XSS-exiting bitmap'', 0x202c),
      (''ENCLS-exiting bitmap'', 0x202e),
      (''Sub-page-permission-table pointer'', 0x2030),
      (''TSC multiplier'', 0x2032),
      (''Tertiary processor-based VM-execution controls'', VMCS_CONTROL_TERTIARY_PROCESSOR_BASED_VM_EXECUTION_CONTROLS),
      (''ENCLV-exiting bitmap'', VMCS_CONTROL_ENCLV_EXITING_BITMAP),
      (''Low PASID directory address'', VMCS_CONTROL_LOW_PASID_DIRECTORY_ADDRESS),
      (''High PASID directory address'', VMCS_CONTROL_HIGH_PASID_DIRECTORY_ADDRESS),
      (''Shared EPT pointer'', VMCS_CONTROL_SHARED_EPT_POINTER),
      (''PCONFIG-exiting bitmap'', VMCS_CONTROL_PCONFIG_EXITING_BITMAP),
      (''HLATP'', VMCS_CONTROL_HLATP),
      (''PID-pointer table address'', VMCS_CONTROL_PID_POINTER_TABLE_ADDRESS),
      (''Secondary VM-exit controls'', VMCS_CONTROL_SECONDARY_VM_EXIT_CONTROLS),
      (''IA32_SPEC_CTRL mask'', VMCS_CONTROL_IA32_SPEC_CTRL_MASK),
      (''IA32_SPEC_CTRL shadow'', VMCS_CONTROL_IA32_SPEC_CTRL_SHADOW)])"

definition control_fields_32 :: "vmcs_section" where
  "control_fields_32 = (Width32, Control,
     [(''Pin-based VM-execution controls'', 0x4000),
      (''Primary processor-based VM-execution controls'', 0x4002),
      (''Exception bitmap'', 0x4004),
      (''Page-fault error-code mask'', 0x4006),
      (''Page-fault error-code match'', 0x4008),
      (''CR3-target count'', 0x400a),
      (''Primary VM-exit controls'', 0x400c),
      (''VM-exit MSR-store count'', 0x400e),
      (''VM-exit MSR-load count'', 0x4010),
      (''VM-entry controls'', 0x4012),
      (''VM-entry MSR-load count'', 0x4014),
      (''VM-entry interruption-information field'', 0x4016),
      (''VM-entry exception error code'', 0x4018),
      (''VM-entry instruction length'', 0x401a),
      (''TPR threshold'', 0x401c),
      (''Secondary processor-based VM-execution controls'', 0x401e),
      (''PLE_Gap'', 0x4020),
      (''PLE_Window'', 0x4022),
      (''Instruction-timeout control'', VMCS_CONTROL_INSTRUCTION_TIMEOUT_CONTROL)])"

definition control_fields_natural :: "vmcs_section" where
  "control_fields_natural = (NaturalWidth, Control,
     [(''CR0 guest/host mask'', 0x6000),
      (''CR4 guest/host mask'', 0x6002),
      (''CR0 read shadow'', 0x6004),
      (''CR4 read shadow'', 0x6006),
      (''CR3-target value 0'', 0x6008),
      (''CR3-target value 1'', 0x600a),
      (''CR3-target value 2'', 0x600c),
      (''CR3-target value 3'', 0x600e)])"

definition read_only_fields_64 :: "vmcs_section" where
  "read_only_fields_64 = (Width64, ReadOnly,
     [(''Guest-physical address'', 0x2400)])"

definition read_only_fields_32 :: "vmcs_section" where
  "read_only_fields_32 = (Width32, ReadOnly,
     [(''VM-instruction error'', 0x4400),
      (''Exit reason'', 0x4402),
      (''VM-exit interruption information'', 0x4404),
      (''VM-exit interruption error code'', 0x4406),
      (''IDT-vectoring information field'', 0x4408),
      (''IDT-vectoring error code'', 0x440a),
      (''VM-exit instruction length'', 0x440c),
      (''VM-exit instruction information'', 0x440e)])"

definition read_only_fields_natural :: "vmcs_section" where
  "read_only_fields_natural = (NaturalWidth, ReadOnly,
     [(''Exit qualification'', 0x6400),
      (''I/O RCX'', 0x6402),
      (''I/O RSI'', 0x6404),
      (''I/O RDI'', 0x6406),
      (''I/O RIP'', 0x6408),
      (''Guest-linear address'', 0x640a)])"

definition vmcs_sections :: "vmcs_section list" where
  "vmcs_sections =
     [guest_fields_16, guest_fields_64, guest_fields_32, guest_fields_natural,
      host_fields_16, host_fields_64, host_fields_32, host_fields_natural,
      control_fields_16, control_fields_64, control_fields_32, control_fields_natural,
      read_only_fields_64, read_only_fields_32, read_only_fields_natural]"

text \<open>The wrapper of VMREAD that returns 0 on error.\<close>

definition vmread_relaxed :: "u32 \<Rightarrow> vmx_machine \<Rightarrow> u64" where
  "vmread_relaxed encoding m = (case vmread_instr encoding m of Some v \<Rightarrow> v | None \<Rightarrow> 0)"

definition Vmcs_fmt :: "vmx_region \<Rightarrow> vmx_machine \<Rightarrow> (string \<times> u64) list" where
  "Vmcs_fmt reg m =
     (''Current VMCS'', region_va reg) # (''Revision ID'', ucast (revision_id reg)) #
     concat (map (\<lambda>(w, t, fields). map (\<lambda>(label, encoding). (label, vmread_relaxed encoding m)) fields) vmcs_sections)"

lemmas own_encodings = VMCS_CONTROL_HLAT_PREFIX_SIZE_def VMCS_CONTROL_LAST_PID_POINTER_INDEX_def VMCS_GUEST_UINV_def
  VMCS_CONTROL_TERTIARY_PROCESSOR_BASED_VM_EXECUTION_CONTROLS_def VMCS_CONTROL_ENCLV_EXITING_BITMAP_def VMCS_CONTROL_LOW_PASID_DIRECTORY_ADDRESS_def
  VMCS_CONTROL_HIGH_PASID_DIRECTORY_ADDRESS_def VMCS_CONTROL_SHARED_EPT_POINTER_def VMCS_CONTROL_PCONFIG_EXITING_BITMAP_def
  VMCS_CONTROL_HLATP_def VMCS_CONTROL_PID_POINTER_TABLE_ADDRESS_def VMCS_CONTROL_SECONDARY_VM_EXIT_CONTROLS_def
  VMCS_CONTROL_IA32_SPEC_CTRL_MASK_def VMCS_CONTROL_IA32_SPEC_CTRL_SHADOW_def VMCS_GUEST_IA32_LBR_CTL_def
  VMCS_GUEST_IA32_PKRS_def VMCS_HOST_IA32_PKRS_def VMCS_CONTROL_INSTRUCTION_TIMEOUT_CONTROL_def
  VMCS_GUEST_IA32_S_CET_def VMCS_GUEST_SSP_def VMCS_GUEST_IA32_INTERRUPT_SSP_TABLE_ADDR_def
  VMCS_HOST_IA32_S_CET_def VMCS_HOST_SSP_def VMCS_HOST_IA32_INTERRUPT_SSP_TABLE_ADDR_def

lemmas section_defs = guest_fields_16_def guest_fields_64_def guest_fields_32_def guest_fields_natural_def host_fields_16_def
  host_fields_64_def host_fields_32_def host_fields_natural_def control_fields_16_def control_fields_64_def
  control_fields_32_def control_fields_natural_def read_only_fields_64_def read_only_fields_32_def read_only_fields_natural_def

section \<open>The encodings\<close>

text \<open>The width and the type of a field are part of its encoding. (Intel SDM, 25.11.2)\<close>

definition width_of :: "u32 \<Rightarrow> field_width" where
  "width_of e = [Width16, Width64, Width32, NaturalWidth] ! unat (take_bit 2 (drop_bit 13 e))"

definition type_of :: "u32 \<Rightarrow> field_type" where
  "type_of e = [Control, ReadOnly, GuestState, HostState] ! unat (take_bit 2 (drop_bit 10 e))"

definition encodings :: "vmcs_section \<Rightarrow> u32 list" where
  "encodings s = map snd (snd (snd s))"

definition dumped :: "u32 set" where
  "dumped = (\<Union>s\<in>set vmcs_sections. set (encodings s))"

fun ascending :: "u32 list \<Rightarrow> bool" where
  "ascending (a # b # rest) \<longleftrightarrow> a < b \<and> ascending (b # rest)"
| "ascending _ \<longleftrightarrow> True"

lemma ascending_sorted: "ascending es \<Longrightarrow> sorted_wrt (<) es"
proof (induction es rule: ascending.induct)
  case (1 a b rest)
  then have "sorted_wrt (<) (b # rest)" "a < b" by simp_all
  then show ?case by (auto dest: less_trans)
qed simp_all

definition section_ok :: "vmcs_section \<Rightarrow> bool" where
  "section_ok s \<longleftrightarrow> ascending (encodings s) \<and> list_all (\<lambda>e. width_of e = fst s \<and> type_of e = fst (snd s)) (encodings s)"

lemma sections_ok: "list_all section_ok vmcs_sections"
proof -
  have "section_ok guest_fields_16" "section_ok guest_fields_64" "section_ok guest_fields_32" "section_ok guest_fields_natural"
    "section_ok host_fields_16" "section_ok host_fields_64" "section_ok host_fields_32" "section_ok host_fields_natural"
    "section_ok control_fields_16" "section_ok control_fields_64" "section_ok control_fields_32" "section_ok control_fields_natural"
    "section_ok read_only_fields_64" "section_ok read_only_fields_32" "section_ok read_only_fields_natural"
    by (simp_all add: section_ok_def encodings_def section_defs own_encodings width_of_def type_of_def)
  then show ?thesis by (simp add: vmcs_sections_def)
qed

lemma section_kinds_distinct: "distinct (map (\<lambda>s. (fst s, fst (snd s))) vmcs_sections)"
  by (simp add: vmcs_sections_def section_defs)

lemma distinct_concat_kinds:
  assumes "distinct (map kind ss)" and "\<And>s. s \<in> set ss \<Longrightarrow> distinct (es s)"
    and "\<And>s e. s \<in> set ss \<Longrightarrow> e \<in> set (es s) \<Longrightarrow> kind_of e = kind s"
  shows "distinct (concat (map es ss))"
  using assms
proof (induction ss)
  case (Cons s ss)
  have "set (es s) \<inter> set (es s') = {}" if "s' \<in> set ss" for s'
  proof -
    have "kind s \<noteq> kind s'" using Cons.prems(1) that by auto
    moreover have "kind_of e = kind s" if "e \<in> set (es s)" for e using Cons.prems(3) [of s e] that by simp
    moreover have "kind_of e = kind s'" if "e \<in> set (es s')" for e using Cons.prems(3) [of s' e] that \<open>s' \<in> set ss\<close> by simp
    ultimately show ?thesis by fastforce
  qed
  moreover have "distinct (concat (map es ss))" using Cons by simp
  ultimately show ?case using Cons.prems(2) [of s] by auto
qed simp

lemma distinct_encodings: "distinct (concat (map encodings vmcs_sections))"
proof (rule distinct_concat_kinds [OF section_kinds_distinct])
  fix s assume s: "s \<in> set vmcs_sections"
  with sections_ok have ok: "section_ok s" by (simp add: list_all_iff)
  then have "sorted_wrt (<) (encodings s)" using ascending_sorted by (simp add: section_ok_def)
  then show "distinct (encodings s)" by (simp add: strict_sorted_iff)
  show "(width_of e, type_of e) = (fst s, fst (snd s))" if "e \<in> set (encodings s)" for e
    using ok that by (simp add: section_ok_def list_all_iff)
qed

section \<open>What the dump shows\<close>

lemma vmread_relaxed_current: "vmx_current pa m \<Longrightarrow> vmread_relaxed e m = vmcs_fields m pa e"
  by (auto simp: vmread_relaxed_def vmread_instr_def vmx_current_def)

lemma vmread_relaxed_outside: "vmxon_ptr m = None \<or> current_vmcs m = None \<Longrightarrow> vmread_relaxed e m = 0"
  by (auto simp: vmread_relaxed_def vmread_instr_def)

lemma Vmcs_fmt_values: "map snd (Vmcs_fmt reg m) = region_va reg # ucast (revision_id reg) # map (\<lambda>e. vmread_relaxed e m) (concat (map encodings vmcs_sections))"
  by (simp add: Vmcs_fmt_def encodings_def map_concat split_def comp_def)

lemma vmwrite_all_other:
  "vmwrite_all ws m = Inr m' \<Longrightarrow> f \<notin> fst ` set ws \<Longrightarrow> vmcs_fields m' pa f = vmcs_fields m pa f"
proof (induction ws arbitrary: m)
  case (Cons w ws)
  obtain e v where w: "w = (e, v)" by force
  from Cons.prems(1) obtain m1 where "vmwrite e v m = Inr m1" and rest: "vmwrite_all ws m1 = Inr m'"
    by (auto simp: w vmwrite_all.simps rust_simps)
  then have "vmcs_fields m1 pa f = vmcs_fields m pa f"
    using Cons.prems(2) by (auto simp: w vmwrite_def vmwrite_instr_def unwrap_def split: if_splits option.splits)
  with Cons.IH [OF rest] Cons.prems(2) show ?case by simp
qed (simp add: vmwrite_all.simps)

text \<open>The fields that \<open>initialize\<close> writes.\<close>

lemma section_dumped:
  "s \<in> set vmcs_sections \<Longrightarrow> S \<subseteq> set (encodings s) \<Longrightarrow> S \<subseteq> dumped"
  unfolding dumped_def by blast

lemma listed_sections:
  "control_fields_32 \<in> set vmcs_sections" "control_fields_64 \<in> set vmcs_sections" "guest_fields_16 \<in> set vmcs_sections"
  "guest_fields_32 \<in> set vmcs_sections" "guest_fields_64 \<in> set vmcs_sections" "guest_fields_natural \<in> set vmcs_sections"
  "host_fields_16 \<in> set vmcs_sections" "host_fields_natural \<in> set vmcs_sections"
  unfolding vmcs_sections_def by (simp_all only: list.set insert_iff simp_thms)

lemma initialized_dumped:
  "{VMEXIT_CONTROLS, VMENTRY_CONTROLS, PINBASED_EXEC_CONTROLS, PRIMARY_PROCBASED_EXEC_CONTROLS, SECONDARY_PROCBASED_EXEC_CONTROLS} \<subseteq> dumped"
  "{MSR_BITMAPS_ADDR_FULL, EPTP_FULL} \<subseteq> dumped"
  "{GUEST_ES_SELECTOR, GUEST_CS_SELECTOR, GUEST_SS_SELECTOR, GUEST_DS_SELECTOR, GUEST_FS_SELECTOR, GUEST_GS_SELECTOR,
    GUEST_TR_SELECTOR, GUEST_LDTR_SELECTOR} \<subseteq> dumped"
  "{GUEST_ES_LIMIT, GUEST_CS_LIMIT, GUEST_SS_LIMIT, GUEST_DS_LIMIT, GUEST_FS_LIMIT, GUEST_GS_LIMIT, GUEST_TR_LIMIT,
    GUEST_GDTR_LIMIT, GUEST_IDTR_LIMIT, GUEST_ES_ACCESS_RIGHTS, GUEST_CS_ACCESS_RIGHTS, GUEST_SS_ACCESS_RIGHTS,
    GUEST_DS_ACCESS_RIGHTS, GUEST_FS_ACCESS_RIGHTS, GUEST_GS_ACCESS_RIGHTS, GUEST_TR_ACCESS_RIGHTS, GUEST_LDTR_ACCESS_RIGHTS,
    GUEST_SYSENTER_CS} \<subseteq> dumped"
  "{GUEST_LINK_PTR_FULL} \<subseteq> dumped"
  "{GUEST_FS_BASE, GUEST_GS_BASE, GUEST_TR_BASE, GUEST_GDTR_BASE, GUEST_IDTR_BASE, GUEST_SYSENTER_EIP,
    GUEST_SYSENTER_ESP, GUEST_CR0, GUEST_CR3, GUEST_CR4, GUEST_RSP, GUEST_RIP, GUEST_RFLAGS} \<subseteq> dumped"
  "{HOST_ES_SELECTOR, HOST_CS_SELECTOR, HOST_SS_SELECTOR, HOST_DS_SELECTOR, HOST_FS_SELECTOR, HOST_GS_SELECTOR, HOST_TR_SELECTOR} \<subseteq> dumped"
  "{HOST_CR0, HOST_CR3, HOST_CR4, HOST_FS_BASE, HOST_GS_BASE, HOST_TR_BASE, HOST_GDTR_BASE, HOST_IDTR_BASE} \<subseteq> dumped"
  by (rule section_dumped [OF listed_sections(1)] section_dumped [OF listed_sections(2)] section_dumped [OF listed_sections(3)]
      section_dumped [OF listed_sections(4)] section_dumped [OF listed_sections(5)] section_dumped [OF listed_sections(6)]
      section_dumped [OF listed_sections(7)] section_dumped [OF listed_sections(8)], simp add: encodings_def section_defs)+

lemma initialize_writes_dumped:
  assumes "VmxGuest_initialize oc pa_of va eptp shd r g m = Inr (g', m')" and "f \<notin> dumped"
  shows "vmcs_fields m' pa f = vmcs_fields m pa f"
proof -
  have other: "vmcs_fields m2 pa f = vmcs_fields m1 pa f" if "vmwrite_all ws m1 = Inr m2" "fst ` set ws \<subseteq> dumped" for ws m1 m2
    using vmwrite_all_other [OF that(1)] that(2) assms(2) by blast
  from assms(1) obtain m1 m2 where "vmx_initialize_control pa_of va eptp m = Inr m1"
    and g: "vmx_initialize_guest oc (g\<lparr>vmx_registers := r\<rparr>) m1 = Inr m2"
    and h: "vmx_initialize_host oc shd (g\<lparr>vmx_registers := r\<rparr>) m2 = Inr m'"
    by (auto simp: VmxGuest_initialize_def Let_def rust_simps)
  then have 1: "vmcs_fields m1 pa f = vmcs_fields m pa f"
    unfolding vmx_initialize_control_def and_then_eq_Inr_iff using initialized_dumped(1,2) by (auto intro!: other)
  from g obtain m3 ws ws' where "vmwrite_all ws m1 = Inr m3" "vmwrite_all ws' m3 = Inr m2" "fst ` set ws \<subseteq> dumped" "fst ` set ws' \<subseteq> dumped"
    unfolding vmx_initialize_guest_def Let_def and_then_eq_Inr_iff using initialized_dumped(3-6) by fastforce
  then have 2: "vmcs_fields m2 pa f = vmcs_fields m1 pa f" using other by metis
  from h obtain x z trs y w where "vmwrite_all (vmx_host_fields m2 x z trs y w) m2 = Inr m'"
    unfolding vmx_initialize_host_def Let_def and_then_eq_Inr_iff by (auto simp: and_then_eq_Inr_iff)
  then have "vmcs_fields m' pa f = vmcs_fields m2 pa f"
    by (rule other) (use initialized_dumped(7,8) in \<open>simp add: vmx_host_fields_def\<close>)
  with 1 2 show ?thesis by simp
qed

text \<open>
  The dump of the current VMCS shows 181 different fields, in the sections of their encodings,
  with the values that they have in the VMCS, among them every field that \<open>initialize\<close>
  writes; outside of VMX operation it shows zeros instead of failing.
\<close>

lemma Vmcs_fmt_faithful:
  "vmx_current pa m \<Longrightarrow> map snd (Vmcs_fmt reg m) =
     region_va reg # ucast (revision_id reg) # map (vmcs_fields m pa) (concat (map encodings vmcs_sections))"
  "vmxon_ptr m = None \<or> current_vmcs m = None \<Longrightarrow> map snd (Vmcs_fmt reg m) =
     region_va reg # ucast (revision_id reg) # replicate 181 0"
  "f \<in> set (concat (map encodings vmcs_sections)) \<longleftrightarrow> f \<in> dumped"
proof -
  have "length (concat (map encodings vmcs_sections)) = 181"
    by (simp add: vmcs_sections_def encodings_def section_defs)
  then show "vmxon_ptr m = None \<or> current_vmcs m = None \<Longrightarrow> map snd (Vmcs_fmt reg m) =
      region_va reg # ucast (revision_id reg) # replicate 181 0"
    by (simp only: Vmcs_fmt_values vmread_relaxed_outside map_replicate_const)
qed (simp_all add: Vmcs_fmt_values vmread_relaxed_current dumped_def)

end
