(* ===== verification/Allocator.thy ===== *)
theory Allocator
  imports Prelude
begin

text \<open>
  The global allocator of \<open>hypervisor/allocator.rs\<close>: a pre-allocated heap of
  \<open>ALLOCATION_BYTES\<close> split into 4096-byte and 128-byte blocks, with one bitmap for each
  pool. Addresses, sizes and counts (\<open>usize\<close>) are natural numbers; the null pointer is
  the address 0; a \<open>BitArray\<close> is the list of its bits in iteration order. The state of the
  static \<open>METADATA\<close> (a \<open>Once\<close>) is \<open>None\<close> until \<open>init\<close> has run.

  The theory states the contract of a heap allocator as the locale \<open>heap_allocator\<close>,
  proves what its clients rely on (live allocations never overlap, releasing a live
  allocation succeeds) once from the contract, and interprets it on the model.
\<close>

section \<open>Data\<close>

record layout =
  size :: nat
  align :: nat

definition ALLOCATION_BYTES :: nat where "ALLOCATION_BYTES = 0xa00000"
definition ALLOCATION_PAGES :: nat where "ALLOCATION_PAGES = ALLOCATION_BYTES div 0x1000"
definition NUMBER_OF_BLOCK_4096 :: nat where "NUMBER_OF_BLOCK_4096 = 0x900"
definition NUMBER_OF_BLOCK_128 :: nat where "NUMBER_OF_BLOCK_128 = 0x2000"
definition BLOCK_SIZE_4096 :: nat where "BLOCK_SIZE_4096 = 4096"
definition BLOCK_SIZE_128 :: nat where "BLOCK_SIZE_128 = 128"

text \<open>\<open>blocks\<close> is the address of the \<open>Blocks\<close> structure, the heap itself.\<close>

record metadata =
  blocks :: nat
  bitmap4096 :: "bool list"
  bitmap128 :: "bool list"

text \<open>
  The \<open>repr(C)\<close> structure \<open>Blocks\<close>: \<open>block4096\<close> at offset 0, \<open>block128\<close> right after it
  (both arrays have alignment 1).
\<close>

definition block4096 :: "metadata \<Rightarrow> nat" where
  "block4096 meta = blocks meta"

definition block128 :: "metadata \<Rightarrow> nat" where
  "block128 meta = blocks meta + NUMBER_OF_BLOCK_4096 * BLOCK_SIZE_4096"

definition size_of_Blocks :: nat where
  "size_of_Blocks = NUMBER_OF_BLOCK_4096 * BLOCK_SIZE_4096 + NUMBER_OF_BLOCK_128 * BLOCK_SIZE_128"

section \<open>Operations\<close>

text \<open>\<open>align_of::<Metadata>()\<close> is 8: a \<open>NonNull\<close> pointer and two byte arrays.\<close>

definition Metadata_new :: "nat \<Rightarrow> metadata rust" where
  "Metadata_new ptr =
     and_then (assert_that (ptr \<noteq> 0) ''!ptr.is_null()'') (\<lambda>_.
     and_then (assert_that (ptr mod 8 = 0) ''is_multiple_of(align_of::<Self>())'') (\<lambda>_.
     Inr \<lparr>blocks = ptr,
          bitmap4096 = replicate NUMBER_OF_BLOCK_4096 False,
          bitmap128 = replicate NUMBER_OF_BLOCK_128 False\<rparr>))"

definition init :: "nat \<Rightarrow> metadata option \<Rightarrow> metadata option rust" where
  "init ptr METADATA =
     (case METADATA of
        Some meta \<Rightarrow> Inr (Some meta)
      | None \<Rightarrow> and_then (Metadata_new ptr) (\<lambda>meta. Inr (Some meta)))"

definition round_up_by :: "nat \<Rightarrow> nat \<Rightarrow> nat" where
  "round_up_by number sz =
     (let round_down = number div sz in
      if number mod sz \<noteq> 0 then round_down + 1 else round_down)"

text \<open>The loop of \<open>find_empty_blocks\<close>, with its variables \<open>index\<close>, \<open>empty_block_count\<close>, \<open>start\<close>.\<close>

fun find_empty_blocks_loop :: "nat \<Rightarrow> nat \<Rightarrow> nat \<Rightarrow> nat \<Rightarrow> bool list \<Rightarrow> nat option" where
  "find_empty_blocks_loop count index empty_block_count start [] = None"
| "find_empty_blocks_loop count index empty_block_count start (b # bits) =
     (let start' = (if \<not> b \<and> empty_block_count = 0 then index else start);
          empty_block_count' = (if b then 0 else empty_block_count + 1)
      in if empty_block_count' = count then Some start'
         else find_empty_blocks_loop count (index + 1) empty_block_count' start' bits)"

definition find_empty_blocks :: "bool list \<Rightarrow> nat \<Rightarrow> nat option" where
  "find_empty_blocks bitmap count = find_empty_blocks_loop count 0 0 0 bitmap"

text \<open>\<open>bitmap.get(index).unwrap()\<close>\<close>

definition bitmap_get :: "bool list \<Rightarrow> nat \<Rightarrow> bool rust" where
  "bitmap_get bitmap index =
     unwrap ''bitmap.get(index)'' (if index < length bitmap then Some (bitmap ! index) else None)"

text \<open>
  The two marking loops: assert that bit \<open>index\<close> is not yet \<open>v\<close>, set it to \<open>v\<close>, for
  \<open>n\<close> indices from \<open>index\<close> on (\<open>v\<close> is true in \<open>alloc_internal\<close>, false in
  \<open>dealloc_internal\<close>).
\<close>

fun mark_range :: "bool \<Rightarrow> nat \<Rightarrow> nat \<Rightarrow> bool list \<Rightarrow> bool list rust" where
  "mark_range v index 0 bitmap = Inr bitmap"
| "mark_range v index (Suc n) bitmap =
     and_then (bitmap_get bitmap index) (\<lambda>b.
     and_then (assert_that (b \<noteq> v) ''bitmap.get(index)'') (\<lambda>_.
     mark_range v (index + 1) n (bitmap[index := v])))"

definition alloc_internal :: "layout \<Rightarrow> nat \<Rightarrow> nat \<Rightarrow> bool list \<Rightarrow> (nat \<times> bool list) rust" where
  "alloc_internal lay block_base BLOCK_SIZE bitmap =
     (let required_block_count = round_up_by (size lay) BLOCK_SIZE;
          position = find_empty_blocks bitmap required_block_count
      in case position of
           None \<Rightarrow> Inr (0, bitmap)
         | Some start \<Rightarrow>
             and_then (mark_range True start required_block_count bitmap) (\<lambda>bitmap'.
             if start < length bitmap
             then Inr (block_base + start * BLOCK_SIZE, bitmap')
             else Inl IndexOutOfBounds))"

text \<open>\<open>ptr as usize - addr_of!(*blocks) as usize\<close> underflows for a pointer below the pool.\<close>

definition dealloc_internal :: "nat \<Rightarrow> layout \<Rightarrow> nat \<Rightarrow> nat \<Rightarrow> bool list \<Rightarrow> bool list rust" where
  "dealloc_internal ptr lay block_base BLOCK_SIZE bitmap =
     (if ptr < block_base then Inl Overflow
      else let offset = ptr - block_base;
               start = offset div BLOCK_SIZE;
               block_count = round_up_by (size lay) BLOCK_SIZE
           in mark_range False start block_count bitmap)"

text \<open>The locked part of \<open>alloc\<close> and \<open>dealloc\<close>, on the metadata itself.\<close>

definition alloc_meta :: "layout \<Rightarrow> metadata \<Rightarrow> (nat \<times> metadata) rust" where
  "alloc_meta lay meta =
     (if size lay \<ge> BLOCK_SIZE_4096
      then and_then (alloc_internal lay (block4096 meta) BLOCK_SIZE_4096 (bitmap4096 meta))
             (\<lambda>(ptr, bm). Inr (ptr, meta\<lparr>bitmap4096 := bm\<rparr>))
      else and_then (alloc_internal lay (block128 meta) BLOCK_SIZE_128 (bitmap128 meta))
             (\<lambda>(ptr, bm). Inr (ptr, meta\<lparr>bitmap128 := bm\<rparr>)))"

definition dealloc_meta :: "nat \<Rightarrow> layout \<Rightarrow> metadata \<Rightarrow> metadata rust" where
  "dealloc_meta ptr lay meta =
     (if size lay \<ge> BLOCK_SIZE_4096
      then and_then (dealloc_internal ptr lay (block4096 meta) BLOCK_SIZE_4096 (bitmap4096 meta))
             (\<lambda>bm. Inr (meta\<lparr>bitmap4096 := bm\<rparr>))
      else and_then (dealloc_internal ptr lay (block128 meta) BLOCK_SIZE_128 (bitmap128 meta))
             (\<lambda>bm. Inr (meta\<lparr>bitmap128 := bm\<rparr>)))"

definition alloc :: "layout \<Rightarrow> metadata option \<Rightarrow> (nat \<times> metadata option) rust" where
  "alloc lay METADATA =
     and_then (unwrap ''init() is not called'' METADATA) (\<lambda>meta.
     and_then (alloc_meta lay meta) (\<lambda>(ptr, meta'). Inr (ptr, Some meta')))"

definition dealloc :: "nat \<Rightarrow> layout \<Rightarrow> metadata option \<Rightarrow> metadata option rust" where
  "dealloc ptr lay METADATA =
     and_then (unwrap ''init() is not called'' METADATA) (\<lambda>meta.
     and_then (dealloc_meta ptr lay meta) (\<lambda>meta'. Inr (Some meta')))"

section \<open>Specification vocabulary\<close>

text \<open>A run of \<open>count\<close> free blocks at \<open>s\<close>.\<close>

definition free_run :: "bool list \<Rightarrow> nat \<Rightarrow> nat \<Rightarrow> bool" where
  "free_run bitmap s count \<longleftrightarrow> s + count \<le> length bitmap \<and> (\<forall>i<count. \<not> bitmap ! (s + i))"

definition set_range :: "bool \<Rightarrow> nat \<Rightarrow> nat \<Rightarrow> bool list \<Rightarrow> bool list" where
  "set_range v s n bm = take s bm @ replicate n v @ drop (s + n) bm"

text \<open>The bytes of a pool that its bitmap marks as in use.\<close>

definition pool_used :: "nat \<Rightarrow> nat \<Rightarrow> bool list \<Rightarrow> nat set" where
  "pool_used pb bs bm = {a. pb \<le> a \<and> (a - pb) div bs < length bm \<and> bm ! ((a - pb) div bs)}"

definition used_bytes :: "metadata \<Rightarrow> nat set" where
  "used_bytes meta = pool_used (block4096 meta) BLOCK_SIZE_4096 (bitmap4096 meta)
                   \<union> pool_used (block128 meta) BLOCK_SIZE_128 (bitmap128 meta)"

definition heap_bytes :: "metadata \<Rightarrow> nat set" where
  "heap_bytes meta = {blocks meta ..< blocks meta + ALLOCATION_BYTES}"

definition wf_meta :: "metadata \<Rightarrow> bool" where
  "wf_meta meta \<longleftrightarrow> blocks meta \<noteq> 0
     \<and> length (bitmap4096 meta) = NUMBER_OF_BLOCK_4096
     \<and> length (bitmap128 meta) = NUMBER_OF_BLOCK_128"

text \<open>The block size a layout is served with, its pool, and the bytes reserved for it.\<close>

definition block_size_for :: "layout \<Rightarrow> nat" where
  "block_size_for lay = (if size lay \<ge> BLOCK_SIZE_4096 then BLOCK_SIZE_4096 else BLOCK_SIZE_128)"

definition extent :: "layout \<Rightarrow> nat" where
  "extent lay = round_up_by (size lay) (block_size_for lay) * block_size_for lay"

definition pool_base :: "metadata \<Rightarrow> layout \<Rightarrow> nat" where
  "pool_base meta lay = (if size lay \<ge> BLOCK_SIZE_4096 then block4096 meta else block128 meta)"

definition pool_bitmap :: "metadata \<Rightarrow> layout \<Rightarrow> bool list" where
  "pool_bitmap meta lay = (if size lay \<ge> BLOCK_SIZE_4096 then bitmap4096 meta else bitmap128 meta)"

text \<open>Replacing the bitmap of the pool that serves \<open>lay\<close>; the bytes in use of the other pool.\<close>

definition set_pool :: "metadata \<Rightarrow> layout \<Rightarrow> bool list \<Rightarrow> metadata" where
  "set_pool meta lay bm =
     (if size lay \<ge> BLOCK_SIZE_4096 then meta\<lparr>bitmap4096 := bm\<rparr> else meta\<lparr>bitmap128 := bm\<rparr>)"

definition other_used :: "metadata \<Rightarrow> layout \<Rightarrow> nat set" where
  "other_used meta lay =
     (if size lay \<ge> BLOCK_SIZE_4096 then pool_used (block128 meta) BLOCK_SIZE_128 (bitmap128 meta)
      else pool_used (block4096 meta) BLOCK_SIZE_4096 (bitmap4096 meta))"

text \<open>\<open>p\<close> is the address of a run of whole blocks of the pool that serves \<open>lay\<close>.\<close>

definition placed :: "metadata \<Rightarrow> nat \<Rightarrow> layout \<Rightarrow> bool" where
  "placed meta p lay \<longleftrightarrow>
     (\<exists>s. p = pool_base meta lay + s * block_size_for lay
        \<and> s + round_up_by (size lay) (block_size_for lay) \<le> length (pool_bitmap meta lay))"

text \<open>
  A client of an allocator: a sequence of requests, run against the operations
  \<open>allocate\<close> and \<open>release\<close>. \<open>live\<close> lists the allocations handed out and not yet
  released; a request that gets the null pointer adds nothing.
\<close>

datatype heap_op = Alloc layout | Free nat

definition drop_nth :: "nat \<Rightarrow> 'a list \<Rightarrow> 'a list" where
  "drop_nth i xs = take i xs @ drop (Suc i) xs"

fun run_heap ::
  "(layout \<Rightarrow> 's \<Rightarrow> (nat \<times> 's) rust) \<Rightarrow> (nat \<Rightarrow> layout \<Rightarrow> 's \<Rightarrow> 's rust) \<Rightarrow> heap_op list
     \<Rightarrow> 's \<times> (nat \<times> layout) list \<Rightarrow> ('s \<times> (nat \<times> layout) list) rust" where
  "run_heap allocate release [] st = Inr st"
| "run_heap allocate release (Alloc l # ops) (s, live) =
     and_then (allocate l s) (\<lambda>(p, s').
       run_heap allocate release ops (s', if p = 0 then live else (p, l) # live))"
| "run_heap allocate release (Free i # ops) (s, live) =
     (if i < length live
      then and_then (release (fst (live ! i)) (snd (live ! i)) s) (\<lambda>s'.
             run_heap allocate release ops (s', drop_nth i live))
      else run_heap allocate release ops (s, live))"

fun op_ok :: "heap_op \<Rightarrow> bool" where
  "op_ok (Alloc l) = (0 < size l)"
| "op_ok (Free i) = True"

definition bytes_of :: "(layout \<Rightarrow> nat) \<Rightarrow> nat \<times> layout \<Rightarrow> nat set" where
  "bytes_of reserved a = {fst a ..< fst a + reserved (snd a)}"

definition pairwise_disjoint :: "(layout \<Rightarrow> nat) \<Rightarrow> (nat \<times> layout) list \<Rightarrow> bool" where
  "pairwise_disjoint reserved = sorted_wrt (\<lambda>a b. bytes_of reserved a \<inter> bytes_of reserved b = {})"

lemmas alloc_consts = ALLOCATION_BYTES_def NUMBER_OF_BLOCK_4096_def NUMBER_OF_BLOCK_128_def
  BLOCK_SIZE_4096_def BLOCK_SIZE_128_def size_of_Blocks_def

section \<open>Finding free blocks\<close>

lemma round_up_by_pos: "0 < n \<Longrightarrow> 0 < sz \<Longrightarrow> 0 < round_up_by n sz"
  by (auto simp: round_up_by_def Let_def)

lemma round_up_by_bounds:
  assumes "0 < sz"
  shows "n \<le> round_up_by n sz * sz \<and> round_up_by n sz * sz < n + sz"
proof -
  define q r where "q = n div sz" and "r = n mod sz"
  then have "n = q * sz + r" "r < sz" using assms by simp_all
  then show ?thesis by (auto simp: round_up_by_def Let_def)
qed

text \<open>
  Loop invariant of \<open>find_empty_blocks\<close>: the last \<open>empty_block_count\<close> bits read are
  free, the bit before them (if any) is in use, and no run long enough ends before
  \<open>index\<close>.
\<close>

definition find_inv :: "bool list \<Rightarrow> nat \<Rightarrow> nat \<Rightarrow> nat \<Rightarrow> nat \<Rightarrow> bool" where
  "find_inv bm count index ebc start \<longleftrightarrow>
     index \<le> length bm \<and> ebc \<le> index \<and> ebc < count
   \<and> (\<forall>i. index - ebc \<le> i \<and> i < index \<longrightarrow> \<not> bm ! i)
   \<and> (0 < ebc \<longrightarrow> start = index - ebc)
   \<and> (ebc < index \<longrightarrow> bm ! (index - ebc - 1))
   \<and> (\<forall>s. s + count \<le> index \<longrightarrow> \<not> free_run bm s count)"

lemma free_run_used: "free_run bm s count \<Longrightarrow> s \<le> i \<Longrightarrow> i < s + count \<Longrightarrow> \<not> bm ! i"
  unfolding free_run_def by (metis le_add_diff_inverse less_diff_conv2 add.commute)

lemma find_inv_used:
  assumes "find_inv bm count index ebc start" and "index < length bm" and "bm ! index"
  shows "find_inv bm count (index + 1) 0 start"
  using assms free_run_used [of bm _ count index]
  by (fastforce simp: find_inv_def less_Suc_eq le_Suc_eq)

lemma find_inv_free:
  assumes inv: "find_inv bm count index ebc start" and len: "index < length bm"
    and free: "\<not> bm ! index" and less: "ebc + 1 < count"
  shows "find_inv bm count (index + 1) (ebc + 1) (if ebc = 0 then index else start)"
proof -
  have no_run: "\<not> free_run bm s count" if "s + count = index + 1" for s
  proof
    assume "free_run bm s count"
    moreover from that less inv have "ebc < index" and "s \<le> index - ebc - 1"
      by (auto simp: find_inv_def)
    ultimately have "\<not> bm ! (index - ebc - 1)"
      using that by (intro free_run_used [of bm s count]) auto
    with inv \<open>ebc < index\<close> show False by (simp add: find_inv_def)
  qed
  have "\<not> free_run bm s count" if "s + count \<le> index + 1" for s
    using inv no_run that by (cases "s + count = index + 1") (auto simp: find_inv_def)
  moreover have "\<not> bm ! i" if "index - ebc \<le> i" "i < index + 1" for i
    using inv free that by (cases "i = index") (auto simp: find_inv_def)
  ultimately show ?thesis
    using inv len less by (auto simp: find_inv_def)
qed

lemma find_empty_blocks_loop_correct:
  assumes "find_inv bm count index ebc start"
  shows "case find_empty_blocks_loop count index ebc start (drop index bm) of
           None \<Rightarrow> \<forall>s. \<not> free_run bm s count
         | Some s \<Rightarrow> free_run bm s count \<and> (\<forall>s'. s' < s \<longrightarrow> \<not> free_run bm s' count)"
  using assms
proof (induction "drop index bm" arbitrary: index ebc start)
  case Nil
  then have "index = length bm" by (simp add: find_inv_def)
  with Nil show ?case by (auto simp: find_inv_def free_run_def)
next
  case (Cons b bits)
  then have len: "index < length bm" by (metis drop_eq_Nil2 list.distinct(1) not_le)
  from Cons.hyps(2) len have b: "bm ! index = b" and bits: "bits = drop (index + 1) bm"
    by (metis Cons_nth_drop_Suc list.inject Suc_eq_plus1)+
  note dr = Cons.hyps(2) [symmetric]
  show ?case
  proof (cases "b \<or> ebc + 1 < count")
    case True
    have "find_inv bm count (index + 1) (if b then 0 else ebc + 1)
            (if \<not> b \<and> ebc = 0 then index else start)"
      using find_inv_used [OF Cons.prems len] find_inv_free [OF Cons.prems len] b True by auto
    from Cons.hyps(1) [OF bits this] bits dr True Cons.prems show ?thesis
      by (auto simp: Let_def find_inv_def)
  next
    case False
    with Cons.prems have count: "ebc + 1 = count" and st:
      "(if ebc = 0 then index else start) = index + 1 - count" by (auto simp: find_inv_def)
    have "\<not> bm ! (index - ebc + i)" if "i < count" for i
    proof (cases "i = ebc")
      case True
      with Cons.prems False b show ?thesis by (simp add: find_inv_def)
    next
      case neq: False
      with Cons.prems that count have "index - ebc + i < index" by (auto simp: find_inv_def)
      with Cons.prems show ?thesis unfolding find_inv_def by (meson le_add1)
    qed
    with Cons.prems count len have "free_run bm (index + 1 - count) count"
      by (auto simp: find_inv_def free_run_def)
    moreover have "\<not> free_run bm s' count" if "s' < index + 1 - count" for s'
      using Cons.prems that by (auto simp: find_inv_def)
    ultimately show ?thesis
      using dr False count st by (auto simp: Let_def)
  qed
qed

lemma find_empty_blocks_correct:
  assumes "0 < count"
  shows "case find_empty_blocks bm count of
           None \<Rightarrow> \<forall>s. \<not> free_run bm s count
         | Some s \<Rightarrow> free_run bm s count \<and> (\<forall>s'. s' < s \<longrightarrow> \<not> free_run bm s' count)"
proof -
  have "find_inv bm count 0 0 0"
    using assms by (auto simp: find_inv_def)
  from find_empty_blocks_loop_correct [OF this] show ?thesis
    by (simp add: find_empty_blocks_def)
qed

section \<open>Marking blocks\<close>

lemma length_set_range [simp]: "s + n \<le> length bm \<Longrightarrow> length (set_range v s n bm) = length bm"
  by (simp add: set_range_def)

lemma nth_set_range:
  "s + n \<le> length bm \<Longrightarrow> i < length bm \<Longrightarrow>
     set_range v s n bm ! i = (if s \<le> i \<and> i < s + n then v else bm ! i)"
  by (auto simp: set_range_def nth_append)

lemma mark_range_spec:
  "s + n \<le> length bm \<Longrightarrow> (\<forall>i<n. bm ! (s + i) \<noteq> v) \<Longrightarrow> mark_range v s n bm = Inr (set_range v s n bm)"
proof (induction n arbitrary: s bm)
  case 0
  then show ?case by (simp add: set_range_def)
next
  case (Suc n)
  have "bm ! s \<noteq> v" using Suc.prems(2) by force
  moreover have "\<forall>i<n. bm[s := v] ! (s + 1 + i) \<noteq> v"
    using Suc.prems(2) by (metis Suc_eq_plus1 Suc_mono add.assoc add.commute add_eq_self_zero nat.distinct(1) nth_list_update_neq)
  moreover have "set_range v (s + 1) n (bm[s := v]) = set_range v s (Suc n) bm"
    using Suc.prems(1)
    by (intro nth_equalityI) (simp_all add: nth_set_range nth_list_update not_le less_Suc_eq_le le_Suc_eq)
  ultimately show ?case
    using Suc by (simp add: bitmap_get_def)
qed

section \<open>Pools\<close>

lemma mem_blocks_iff:
  assumes "0 < (bs::nat)"
  shows "a \<in> {pb + s * bs ..< pb + s * bs + n * bs} \<longleftrightarrow>
           pb \<le> a \<and> s \<le> (a - pb) div bs \<and> (a - pb) div bs < s + n"
proof -
  have "s * bs \<le> a - pb \<longleftrightarrow> s \<le> (a - pb) div bs"
    using assms by (simp add: less_eq_div_iff_mult_less_eq)
  moreover have "a - pb < (s + n) * bs \<longleftrightarrow> (a - pb) div bs < s + n"
    using assms by (simp add: div_less_iff_less_mult)
  ultimately show ?thesis by (auto simp: add_mult_distrib)
qed

lemma pool_used_set_range:
  assumes "0 < bs" and "s + n \<le> length bm"
  shows "pool_used pb bs (set_range v s n bm) =
           (if v then pool_used pb bs bm \<union> {pb + s * bs ..< pb + s * bs + n * bs}
            else pool_used pb bs bm - {pb + s * bs ..< pb + s * bs + n * bs})"
proof (rule set_eqI)
  fix a
  show "a \<in> pool_used pb bs (set_range v s n bm) \<longleftrightarrow>
        a \<in> (if v then pool_used pb bs bm \<union> {pb + s * bs ..< pb + s * bs + n * bs}
            else pool_used pb bs bm - {pb + s * bs ..< pb + s * bs + n * bs})"
    using assms(2) 
    by (cases v) (auto simp only: if_True if_False Un_iff Diff_iff mem_blocks_iff [OF assms(1)]
        pool_used_def mem_Collect_eq nth_set_range length_set_range split: if_splits)
qed

lemma free_run_iff_unused:
  assumes "0 < bs" and "s + n \<le> length bm"
  shows "free_run bm s n \<longleftrightarrow> {pb + s * bs ..< pb + s * bs + n * bs} \<inter> pool_used pb bs bm = {}"
proof
  assume "free_run bm s n"
  then show "{pb + s * bs ..< pb + s * bs + n * bs} \<inter> pool_used pb bs bm = {}"
    using free_run_used [of bm s n]
    by (auto simp only: disjoint_iff mem_blocks_iff [OF assms(1)] pool_used_def mem_Collect_eq)
next
  assume empty: "{pb + s * bs ..< pb + s * bs + n * bs} \<inter> pool_used pb bs bm = {}"
  have "\<not> bm ! (s + i)" if "i < n" for i
  proof
    assume "bm ! (s + i)"
    with that assms have "pb + (s + i) * bs \<in> pool_used pb bs bm"
      by (simp add: pool_used_def)
    moreover have "pb + (s + i) * bs \<in> {pb + s * bs ..< pb + s * bs + n * bs}"
      using that assms by (simp add: add_mult_distrib)
    ultimately show False using empty by blast
  qed
  with assms show "free_run bm s n" by (simp add: free_run_def)
qed

lemma alloc_internal_cases:
  assumes "0 < size lay" and "0 < bs"
  defines "n \<equiv> round_up_by (size lay) bs"
  shows "(\<forall>s. \<not> free_run bm s n) \<and> alloc_internal lay pb bs bm = Inr (0, bm)
       \<or> (\<exists>s. free_run bm s n \<and> (\<forall>s'. s' < s \<longrightarrow> \<not> free_run bm s' n)
            \<and> alloc_internal lay pb bs bm = Inr (pb + s * bs, set_range True s n bm))"
proof -
  have n: "0 < n" using assms by (simp add: round_up_by_pos)
  show ?thesis
  proof (cases "find_empty_blocks bm n")
    case None
    with find_empty_blocks_correct [OF n, of bm] show ?thesis
      by (simp add: alloc_internal_def n_def)
  next
    case (Some s)
    with find_empty_blocks_correct [OF n, of bm] have run: "free_run bm s n"
      and first: "\<forall>s'. s' < s \<longrightarrow> \<not> free_run bm s' n" by simp_all
    from run have mark: "mark_range True s n bm = Inr (set_range True s n bm)"
      by (intro mark_range_spec) (simp_all add: free_run_def)
    from run n have "s < length bm" by (simp add: free_run_def)
    with Some mark run first show ?thesis
      by (auto simp: alloc_internal_def n_def [symmetric])
  qed
qed

lemma dealloc_internal_placed:
  assumes "0 < bs" and "s + round_up_by (size lay) bs \<le> length bm"
    and "{pb + s * bs ..< pb + s * bs + round_up_by (size lay) bs * bs} \<subseteq> pool_used pb bs bm"
  shows "dealloc_internal (pb + s * bs) lay pb bs bm
           = Inr (set_range False s (round_up_by (size lay) bs) bm)"
proof -
  let ?n = "round_up_by (size lay) bs"
  have "bm ! (s + i)" if "i < ?n" for i
  proof -
    have "pb + (s + i) * bs \<in> {pb + s * bs ..< pb + s * bs + ?n * bs}"
      using that assms(1) by (simp add: add_mult_distrib)
    with assms(3) have "pb + (s + i) * bs \<in> pool_used pb bs bm" by blast
    with assms(1) show ?thesis by (simp add: pool_used_def)
  qed
  then have "mark_range False s ?n bm = Inr (set_range False s ?n bm)"
    using assms(2) by (intro mark_range_spec) auto
  with assms(1) show ?thesis by (simp add: dealloc_internal_def)
qed

section \<open>The contract of a heap allocator\<close>

locale heap_allocator =
  fixes inv :: "'s \<Rightarrow> bool"
    and allocate :: "layout \<Rightarrow> 's \<Rightarrow> (nat \<times> 's) rust"
    and release :: "nat \<Rightarrow> layout \<Rightarrow> 's \<Rightarrow> 's rust"
    and used :: "'s \<Rightarrow> nat set"
    and reserved :: "layout \<Rightarrow> nat"
    and fits :: "'s \<Rightarrow> nat \<Rightarrow> layout \<Rightarrow> bool"
  assumes allocate_total: "inv s \<Longrightarrow> 0 < size l \<Longrightarrow> \<exists>p s'. allocate l s = Inr (p, s') \<and> inv s'"
    and allocate_null: "inv s \<Longrightarrow> 0 < size l \<Longrightarrow> allocate l s = Inr (0, s') \<Longrightarrow> s' = s"
    and allocate_fresh: "inv s \<Longrightarrow> 0 < size l \<Longrightarrow> allocate l s = Inr (p, s') \<Longrightarrow> p \<noteq> 0 \<Longrightarrow>
       bytes_of reserved (p, l) \<inter> used s = {} \<and> used s' = used s \<union> bytes_of reserved (p, l)
       \<and> fits s' p l"
    and allocate_fits: "inv s \<Longrightarrow> 0 < size l \<Longrightarrow> allocate l s = Inr (p, s') \<Longrightarrow> fits s' q k = fits s q k"
    and release_placed: "inv s \<Longrightarrow> fits s p l \<Longrightarrow> bytes_of reserved (p, l) \<subseteq> used s \<Longrightarrow>
       \<exists>s'. release p l s = Inr s' \<and> inv s' \<and> used s' = used s - bytes_of reserved (p, l)
          \<and> (\<forall>q k. fits s' q k = fits s q k)"
begin

definition live_ok :: "'s \<Rightarrow> (nat \<times> layout) list \<Rightarrow> bool" where
  "live_ok s live \<longleftrightarrow> inv s \<and> pairwise_disjoint reserved live
     \<and> used s = (\<Union>a\<in>set live. bytes_of reserved a) \<and> (\<forall>a\<in>set live. fits s (fst a) (snd a))"

lemma live_ok_allocate:
  assumes "live_ok s live" and "0 < size l" and "allocate l s = Inr (p, s')"
  shows "live_ok s' (if p = 0 then live else (p, l) # live)"
proof (cases "p = 0")
  case True
  with assms allocate_null [of s l s'] show ?thesis by (auto simp: live_ok_def)
next
  case False
  from assms(1) have inv: "inv s" and u: "used s = (\<Union>a\<in>set live. bytes_of reserved a)"
    by (simp_all add: live_ok_def)
  from allocate_total [OF inv assms(2)] assms(3) have "inv s'" by auto
  moreover note fresh = allocate_fresh [OF inv assms(2,3) False]
  moreover have "\<forall>b\<in>set live. bytes_of reserved (p, l) \<inter> bytes_of reserved b = {}"
    using fresh u by blast
  ultimately show ?thesis
    using assms(1) False u allocate_fits [OF inv assms(2,3)]
    by (auto simp: live_ok_def pairwise_disjoint_def)
qed

lemma live_ok_release:
  assumes "live_ok s live" and "i < length live"
  shows "\<exists>s'. release (fst (live ! i)) (snd (live ! i)) s = Inr s' \<and> live_ok s' (drop_nth i live)"
proof -
  obtain xs a ys where live: "live = xs @ a # ys" and i: "i = length xs"
    using assms(2) id_take_nth_drop [of i live] by (metis length_take min.absorb4)
  have nth: "live ! i = a" and dn: "drop_nth i live = xs @ ys"
    by (simp_all add: live i drop_nth_def)
  have ok: "inv s" "fits s (fst a) (snd a)" "bytes_of reserved a \<subseteq> used s"
    using assms(1) by (auto simp: live_ok_def live)
  have disj: "bytes_of reserved b \<inter> bytes_of reserved a = {}" if "b \<in> set (xs @ ys)" for b
    using assms(1) that by (auto simp: live_ok_def live pairwise_disjoint_def sorted_wrt_append)
  from release_placed [of s "fst a" "snd a"] ok obtain s' where s':
    "release (fst a) (snd a) s = Inr s'" "inv s'" "used s' = used s - bytes_of reserved a"
    "\<forall>q k. fits s' q k = fits s q k" by auto
  have "used s' = (\<Union>b\<in>set (xs @ ys). bytes_of reserved b)"
  proof -
    have "used s = bytes_of reserved a \<union> (\<Union>b\<in>set (xs @ ys). bytes_of reserved b)"
      using assms(1) by (auto simp: live_ok_def live)
    moreover have "(\<Union>b\<in>set (xs @ ys). bytes_of reserved b) \<inter> bytes_of reserved a = {}"
      using disj by blast
    ultimately show ?thesis using s'(3) by blast
  qed
  moreover have "pairwise_disjoint reserved (xs @ ys)"
    using assms(1) by (auto simp: live_ok_def live pairwise_disjoint_def sorted_wrt_append)
  ultimately have "live_ok s' (xs @ ys)"
    using s' assms(1) by (auto simp: live_ok_def live)
  with s'(1) show ?thesis by (auto simp: nth dn)
qed

theorem run_heap_safe:
  "live_ok s live \<Longrightarrow> list_all op_ok ops \<Longrightarrow>
     \<exists>s' live'. run_heap allocate release ops (s, live) = Inr (s', live') \<and> live_ok s' live'"
proof (induction ops arbitrary: s live)
  case Nil
  then show ?case by simp
next
  case (Cons op ops)
  show ?case
  proof (cases op)
    case (Alloc l)
    with Cons.prems have "inv s" "0 < size l" by (simp_all add: live_ok_def)
    then obtain p s1 where a: "allocate l s = Inr (p, s1)" using allocate_total by blast
    from live_ok_allocate [OF Cons.prems(1) \<open>0 < size l\<close> a] Cons Alloc a show ?thesis
      by (simp split: if_splits)
  next
    case (Free i)
    show ?thesis
    proof (cases "i < length live")
      case True
      with live_ok_release [OF Cons.prems(1)] obtain s1 where
        "release (fst (live ! i)) (snd (live ! i)) s = Inr s1" "live_ok s1 (drop_nth i live)"
        by blast
      with Cons Free True show ?thesis by simp
    next
      case False
      with Cons Free show ?thesis by simp
    qed
  qed
qed

end

section \<open>The model satisfies the contract\<close>

lemmas pool_defs = pool_base_def pool_bitmap_def block_size_for_def set_pool_def other_used_def

lemma block_size_for_pos [simp]: "0 < block_size_for lay"
  by (simp add: block_size_for_def alloc_consts)

lemma alloc_meta_pool:
  "alloc_meta lay meta =
     and_then (alloc_internal lay (pool_base meta lay) (block_size_for lay) (pool_bitmap meta lay))
       (\<lambda>(p, bm). Inr (p, set_pool meta lay bm))"
  by (simp add: alloc_meta_def pool_defs)

lemma dealloc_meta_pool:
  "dealloc_meta p lay meta =
     and_then (dealloc_internal p lay (pool_base meta lay) (block_size_for lay) (pool_bitmap meta lay))
       (\<lambda>bm. Inr (set_pool meta lay bm))"
  by (simp add: dealloc_meta_def pool_defs)

lemma used_bytes_pool:
  "used_bytes meta = pool_used (pool_base meta lay) (block_size_for lay) (pool_bitmap meta lay)
                   \<union> other_used meta lay"
  by (auto simp: used_bytes_def pool_defs)

lemma used_bytes_set_pool:
  "used_bytes (set_pool meta lay bm) =
     pool_used (pool_base meta lay) (block_size_for lay) bm \<union> other_used meta lay"
  by (auto simp: used_bytes_def pool_defs block4096_def block128_def)

lemma pool_used_subset: "0 < bs \<Longrightarrow> pool_used pb bs bm \<subseteq> {pb ..< pb + length bm * bs}"
  by (auto simp: pool_used_def div_less_iff_less_mult)

lemma other_used_disjoint:
  assumes "wf_meta meta"
  shows "other_used meta lay
           \<inter> {pool_base meta lay ..< pool_base meta lay + length (pool_bitmap meta lay) * block_size_for lay} = {}"
proof -
  have "pool_used (block4096 meta) BLOCK_SIZE_4096 (bitmap4096 meta) \<subseteq> {..< block128 meta}"
    using assms pool_used_subset [of BLOCK_SIZE_4096 "block4096 meta" "bitmap4096 meta"]
    by (auto simp: wf_meta_def block4096_def block128_def alloc_consts)
  moreover have "pool_used (block128 meta) BLOCK_SIZE_128 (bitmap128 meta) \<subseteq> {block128 meta ..}"
    by (auto simp: pool_used_def)
  moreover have "block4096 meta + length (bitmap4096 meta) * BLOCK_SIZE_4096 = block128 meta"
    using assms by (simp add: wf_meta_def block4096_def block128_def)
  ultimately show ?thesis
    by (cases "size lay \<ge> BLOCK_SIZE_4096") (auto simp: pool_defs)
qed

lemma wf_meta_set_pool:
  "wf_meta meta \<Longrightarrow> length bm = length (pool_bitmap meta lay) \<Longrightarrow> wf_meta (set_pool meta lay bm)"
  by (simp add: wf_meta_def pool_defs)

lemma placed_set_pool:
  "length bm = length (pool_bitmap meta lay) \<Longrightarrow> placed (set_pool meta lay bm) p k = placed meta p k"
  by (simp add: placed_def pool_defs block4096_def block128_def)

lemma pool_base_nonzero: "wf_meta meta \<Longrightarrow> pool_base meta lay \<noteq> 0"
  by (simp add: wf_meta_def pool_defs block4096_def block128_def)

text \<open>What \<open>alloc\<close> does on every well-formed heap: the first fit, or null and no change.\<close>

lemma alloc_meta_cases:
  assumes "0 < size lay"
  defines "n \<equiv> round_up_by (size lay) (block_size_for lay)"
  shows "(\<forall>s. \<not> free_run (pool_bitmap meta lay) s n) \<and> alloc_meta lay meta = Inr (0, meta)
       \<or> (\<exists>s. free_run (pool_bitmap meta lay) s n
            \<and> (\<forall>s'. s' < s \<longrightarrow> \<not> free_run (pool_bitmap meta lay) s' n)
            \<and> alloc_meta lay meta = Inr (pool_base meta lay + s * block_size_for lay,
                 set_pool meta lay (set_range True s n (pool_bitmap meta lay))))"
proof -
  have "set_pool meta lay (pool_bitmap meta lay) = meta" by (simp add: pool_defs)
  then show ?thesis
    using alloc_internal_cases [OF assms(1), of "block_size_for lay" "pool_bitmap meta lay" "pool_base meta lay"]
    unfolding n_def alloc_meta_pool by auto
qed

lemma alloc_meta_success:
  assumes wf: "wf_meta meta" and sz: "0 < size lay"
    and a: "alloc_meta lay meta = Inr (p, meta')" and p: "p \<noteq> 0"
  obtains s where "free_run (pool_bitmap meta lay) s (round_up_by (size lay) (block_size_for lay))"
    and "p = pool_base meta lay + s * block_size_for lay"
    and "meta' = set_pool meta lay
           (set_range True s (round_up_by (size lay) (block_size_for lay)) (pool_bitmap meta lay))"
  using alloc_meta_cases [OF sz, of meta] a p by auto

lemma alloc_meta_null:
  assumes "wf_meta meta" and "0 < size lay" and "alloc_meta lay meta = Inr (0, meta')"
  shows "meta' = meta"
  using alloc_meta_cases [OF assms(2), of meta] assms(3) pool_base_nonzero [OF assms(1), of lay] by auto

lemma alloc_meta_fresh:
  assumes "wf_meta meta" and "0 < size lay" and "alloc_meta lay meta = Inr (p, meta')" and "p \<noteq> 0"
  shows "bytes_of extent (p, lay) \<inter> used_bytes meta = {}
       \<and> used_bytes meta' = used_bytes meta \<union> bytes_of extent (p, lay) \<and> placed meta' p lay"
  using assms
proof (rule alloc_meta_success)
  let ?n = "round_up_by (size lay) (block_size_for lay)" and ?bm = "pool_bitmap meta lay"
  let ?pb = "pool_base meta lay" and ?bs = "block_size_for lay"
  fix s assume run: "free_run ?bm s ?n" and p: "p = ?pb + s * ?bs"
    and meta': "meta' = set_pool meta lay (set_range True s ?n ?bm)"
  from run have le: "s + ?n \<le> length ?bm" by (simp add: free_run_def)
  have bytes: "bytes_of extent (p, lay) = {?pb + s * ?bs ..< ?pb + s * ?bs + ?n * ?bs}"
    by (simp add: bytes_of_def extent_def p)
  have "s * ?bs + ?n * ?bs \<le> length ?bm * ?bs"
    using le by (simp add: add_mult_distrib [symmetric])
  then have "bytes_of extent (p, lay) \<subseteq> {?pb ..< ?pb + length ?bm * ?bs}"
    by (auto simp: bytes)
  with other_used_disjoint [OF assms(1), of lay] have "bytes_of extent (p, lay) \<inter> other_used meta lay = {}"
    by blast
  moreover have "bytes_of extent (p, lay) \<inter> pool_used ?pb ?bs ?bm = {}"
    using run free_run_iff_unused [of ?bs s ?n ?bm ?pb] le by (simp add: bytes)
  moreover have "used_bytes meta' = used_bytes meta \<union> bytes_of extent (p, lay)"
    using pool_used_set_range [of ?bs s ?n ?bm ?pb True] le
    unfolding meta' used_bytes_set_pool used_bytes_pool [of meta lay] bytes by auto
  moreover have "placed meta' p lay"
    using le by (auto simp: meta' placed_set_pool) (auto simp: placed_def p)
  ultimately show ?thesis
    unfolding used_bytes_pool [of meta lay] by blast
qed

lemma alloc_meta_total:
  assumes "wf_meta meta" and "0 < size lay"
  shows "\<exists>p meta'. alloc_meta lay meta = Inr (p, meta') \<and> wf_meta meta'"
  using alloc_meta_cases [OF assms(2), of meta] assms(1)
  by (auto simp: free_run_def wf_meta_set_pool)

lemma alloc_meta_placed:
  assumes "wf_meta meta" and "0 < size lay" and "alloc_meta lay meta = Inr (p, meta')"
  shows "placed meta' q k = placed meta q k"
  using alloc_meta_cases [OF assms(2), of meta] assms(3)
  by (auto simp: free_run_def placed_set_pool)

lemma dealloc_meta_used:
  assumes "wf_meta meta" and "placed meta p lay" and "bytes_of extent (p, lay) \<subseteq> used_bytes meta"
  shows "\<exists>meta'. dealloc_meta p lay meta = Inr meta' \<and> wf_meta meta'
           \<and> used_bytes meta' = used_bytes meta - bytes_of extent (p, lay)
           \<and> (\<forall>q k. placed meta' q k = placed meta q k)"
proof -
  let ?n = "round_up_by (size lay) (block_size_for lay)" and ?bm = "pool_bitmap meta lay"
  let ?pb = "pool_base meta lay" and ?bs = "block_size_for lay"
  from assms(2) obtain s where p: "p = ?pb + s * ?bs" and le: "s + ?n \<le> length ?bm"
    by (auto simp: placed_def)
  have bytes: "bytes_of extent (p, lay) = {?pb + s * ?bs ..< ?pb + s * ?bs + ?n * ?bs}"
    by (simp add: bytes_of_def extent_def p)
  have "s * ?bs + ?n * ?bs \<le> length ?bm * ?bs"
    using le by (simp add: add_mult_distrib [symmetric])
  then have "bytes_of extent (p, lay) \<subseteq> {?pb ..< ?pb + length ?bm * ?bs}"
    by (auto simp: bytes)
  with other_used_disjoint [OF assms(1), of lay] have other: "bytes_of extent (p, lay) \<inter> other_used meta lay = {}"
    by blast
  with assms(3) have "{?pb + s * ?bs ..< ?pb + s * ?bs + ?n * ?bs} \<subseteq> pool_used ?pb ?bs ?bm"
    unfolding used_bytes_pool [of meta lay] bytes by blast
  from dealloc_internal_placed [OF _ le this]
  have d: "dealloc_meta p lay meta = Inr (set_pool meta lay (set_range False s ?n ?bm))"
    by (simp add: dealloc_meta_pool p)
  moreover have "used_bytes (set_pool meta lay (set_range False s ?n ?bm))
                   = used_bytes meta - bytes_of extent (p, lay)"
    using pool_used_set_range [of ?bs s ?n ?bm ?pb False] le other
    unfolding used_bytes_set_pool used_bytes_pool [of meta lay] bytes by auto
  ultimately show ?thesis
    using le assms(1) by (auto simp: wf_meta_set_pool placed_set_pool)
qed

interpretation heap: heap_allocator wf_meta alloc_meta dealloc_meta used_bytes extent placed
  using alloc_meta_total alloc_meta_null alloc_meta_fresh alloc_meta_placed dealloc_meta_used
  by unfold_locales blast+

section \<open>The heap region and the round trip\<close>

lemma blocks_set_pool [simp]: "blocks (set_pool meta lay bm) = blocks meta"
  by (simp add: set_pool_def)

lemma alloc_meta_blocks: "alloc_meta lay meta = Inr (p, meta') \<Longrightarrow> blocks meta' = blocks meta"
  by (auto simp: alloc_meta_pool and_then_eq_Inr_iff)

lemma dealloc_meta_blocks: "dealloc_meta p lay meta = Inr meta' \<Longrightarrow> blocks meta' = blocks meta"
  by (auto simp: dealloc_meta_pool and_then_eq_Inr_iff)

lemma run_heap_blocks:
  "run_heap alloc_meta dealloc_meta ops (meta, live) = Inr (meta', live') \<Longrightarrow> blocks meta' = blocks meta"
proof (induction ops arbitrary: meta live)
  case Nil
  then show ?case by simp
next
  case (Cons op ops)
  then show ?case
    by (cases op) (auto simp: and_then_eq_Inr_iff split: if_splits
        dest: alloc_meta_blocks dealloc_meta_blocks)
qed

lemma used_bytes_heap: "wf_meta meta \<Longrightarrow> used_bytes meta \<subseteq> heap_bytes meta"
  using pool_used_subset [of BLOCK_SIZE_128 "block128 meta" "bitmap128 meta"]
    pool_used_subset [of BLOCK_SIZE_4096 "block4096 meta" "bitmap4096 meta"]
  by (auto simp: used_bytes_def heap_bytes_def wf_meta_def block4096_def block128_def alloc_consts)

lemma Metadata_new_Inr:
  "Metadata_new ptr = Inr meta \<longleftrightarrow> ptr \<noteq> 0 \<and> ptr mod 8 = 0 \<and>
     meta = \<lparr>blocks = ptr, bitmap4096 = replicate NUMBER_OF_BLOCK_4096 False,
             bitmap128 = replicate NUMBER_OF_BLOCK_128 False\<rparr>"
  by (auto simp: Metadata_new_def rust_simps)

lemma Metadata_new_live_ok: "Metadata_new ptr = Inr meta \<Longrightarrow> heap.live_ok meta []"
  by (auto simp: Metadata_new_Inr heap.live_ok_def wf_meta_def pairwise_disjoint_def used_bytes_def
      pool_used_def)

lemma set_range_inverse:
  assumes "free_run bm s n"
  shows "set_range False s n (set_range True s n bm) = bm"
proof (rule nth_equalityI)
  show "length (set_range False s n (set_range True s n bm)) = length bm"
    using assms by (simp add: free_run_def)
next
  fix i assume "i < length (set_range False s n (set_range True s n bm))"
  with assms have "i < length bm" "s + n \<le> length bm" by (simp_all add: free_run_def)
  then show "set_range False s n (set_range True s n bm) ! i = bm ! i"
    using free_run_used [OF assms, of i] by (simp add: nth_set_range)
qed

lemma alloc_first_block:
  assumes "0 < size lay" and "free_run (pool_bitmap meta lay) 0 (round_up_by (size lay) (block_size_for lay))"
  shows "\<exists>meta'. alloc lay (Some meta) = Inr (pool_base meta lay, Some meta')"
proof -
  from alloc_meta_cases [OF assms(1), of meta] assms(2) obtain s meta' where
    "alloc_meta lay meta = Inr (pool_base meta lay + s * block_size_for lay, meta')" and "\<not> 0 < s"
    by blast
  then show ?thesis by (simp add: alloc_def)
qed

section \<open>Properties\<close>

text \<open>
  C5. Sequences of requests are safe: starting from a fresh heap, any sequence of
  allocations of positive size and of releases of live allocations runs without a panic,
  and afterwards the live allocations are pairwise disjoint, lie inside the
  \<open>ALLOCATION_BYTES\<close> bytes given to \<open>init\<close>, and cover exactly the bytes marked in use.
\<close>

theorem allocator_runs_safely:
  assumes "Metadata_new ptr = Inr meta" and "list_all op_ok ops"
  shows "\<exists>meta' live. run_heap alloc_meta dealloc_meta ops (meta, []) = Inr (meta', live)
           \<and> pairwise_disjoint extent live
           \<and> used_bytes meta' = (\<Union>a\<in>set live. bytes_of extent a)
           \<and> used_bytes meta' \<subseteq> {ptr ..< ptr + ALLOCATION_BYTES}"
proof -
  from heap.run_heap_safe [OF Metadata_new_live_ok [OF assms(1)] assms(2)]
  obtain meta' live where run: "run_heap alloc_meta dealloc_meta ops (meta, []) = Inr (meta', live)"
    and ok: "heap.live_ok meta' live" by blast
  have "blocks meta' = ptr"
    using run_heap_blocks [OF run] assms(1) by (simp add: Metadata_new_Inr)
  with used_bytes_heap [of meta'] ok run show ?thesis
    by (auto simp: heap.live_ok_def heap_bytes_def)
qed

theorem allocator_runs_safely_witness:
  "\<exists>meta' live. run_heap alloc_meta dealloc_meta
        [Alloc \<lparr>size = 5000, align = 4096\<rparr>, Alloc \<lparr>size = 16, align = 8\<rparr>, Free 0]
        (\<lparr>blocks = 0x1000, bitmap4096 = replicate NUMBER_OF_BLOCK_4096 False,
          bitmap128 = replicate NUMBER_OF_BLOCK_128 False\<rparr>, []) = Inr (meta', live)
     \<and> pairwise_disjoint extent live
     \<and> used_bytes meta' = (\<Union>a\<in>set live. bytes_of extent a)
     \<and> used_bytes meta' \<subseteq> {0x1000 ..< 0x1000 + ALLOCATION_BYTES}"
  by (rule allocator_runs_safely) (simp_all add: Metadata_new_Inr)

text \<open>
  C35. \<open>alloc\<close> serves a request from the first run of free blocks that is long enough,
  marks exactly those blocks, and returns null (changing nothing) exactly when the pool
  has no such run. It never panics once \<open>init\<close> has run, for a positive size.
\<close>

theorem alloc_first_fit:
  assumes "0 < size lay"
  defines "n \<equiv> round_up_by (size lay) (block_size_for lay)"
  shows "(\<forall>s. \<not> free_run (pool_bitmap meta lay) s n) \<and> alloc lay (Some meta) = Inr (0, Some meta)
       \<or> (\<exists>s. free_run (pool_bitmap meta lay) s n
            \<and> (\<forall>s'. s' < s \<longrightarrow> \<not> free_run (pool_bitmap meta lay) s' n)
            \<and> alloc lay (Some meta) = Inr (pool_base meta lay + s * block_size_for lay,
                 Some (set_pool meta lay (set_range True s n (pool_bitmap meta lay)))))"
  using alloc_meta_cases [OF assms(1), of meta] unfolding n_def alloc_def by auto

theorem alloc_first_fit_witness:
  "(\<forall>s. \<not> free_run [True, False] s 1)
       \<and> alloc \<lparr>size = 16, align = 8\<rparr> (Some \<lparr>blocks = 0x1000, bitmap4096 = [], bitmap128 = [True, False]\<rparr>)
           = Inr (0, Some \<lparr>blocks = 0x1000, bitmap4096 = [], bitmap128 = [True, False]\<rparr>)
   \<or> (\<exists>s. free_run [True, False] s 1 \<and> (\<forall>s'. s' < s \<longrightarrow> \<not> free_run [True, False] s' 1)
       \<and> alloc \<lparr>size = 16, align = 8\<rparr> (Some \<lparr>blocks = 0x1000, bitmap4096 = [], bitmap128 = [True, False]\<rparr>)
           = Inr (0x901000 + s * 128,
               Some \<lparr>blocks = 0x1000, bitmap4096 = [], bitmap128 = set_range True s 1 [True, False]\<rparr>))"
  using alloc_first_fit [of "\<lparr>size = 16, align = 8\<rparr>"
      "\<lparr>blocks = 0x1000, bitmap4096 = [], bitmap128 = [True, False]\<rparr>"]
  by (simp add: round_up_by_def pool_defs alloc_consts block128_def)

text \<open>
  Releasing what was just allocated restores the allocator: after a successful
  \<open>alloc\<close>, \<open>dealloc\<close> with the same layout returns the previous state.
\<close>

lemma alloc_dealloc_roundtrip:
  assumes "wf_meta meta" and "0 < size lay"
    and "alloc lay (Some meta) = Inr (p, Some meta')" and "p \<noteq> 0"
  shows "dealloc p lay (Some meta') = Inr (Some meta)"
proof -
  let ?n = "round_up_by (size lay) (block_size_for lay)" and ?bm = "pool_bitmap meta lay"
  from assms(3) have a: "alloc_meta lay meta = Inr (p, meta')"
    by (auto simp: alloc_def rust_simps)
  from alloc_meta_success [OF assms(1,2) a assms(4)] obtain s where run: "free_run ?bm s ?n"
    and p: "p = pool_base meta lay + s * block_size_for lay"
    and m: "meta' = set_pool meta lay (set_range True s ?n ?bm)" .
  have "pool_base meta' lay = pool_base meta lay" and bm: "pool_bitmap meta' lay = set_range True s ?n ?bm"
    by (simp_all add: m pool_defs block4096_def block128_def)
  moreover have "mark_range False s ?n (set_range True s ?n ?bm) = Inr ?bm"
    using run mark_range_spec [of s ?n "set_range True s ?n ?bm" False]
    by (simp add: free_run_def nth_set_range set_range_inverse)
  moreover have "set_pool meta' lay ?bm = meta" by (simp add: m pool_defs)
  ultimately show ?thesis
    by (simp add: dealloc_def dealloc_meta_pool dealloc_internal_def p)
qed

lemma alloc_dealloc_roundtrip_example:
  "\<exists>meta'. alloc \<lparr>size = 4096, align = 4096\<rparr> (Some \<lparr>blocks = 0x1000,
        bitmap4096 = replicate NUMBER_OF_BLOCK_4096 False,
        bitmap128 = replicate NUMBER_OF_BLOCK_128 False\<rparr>) = Inr (0x1000, Some meta')
     \<and> dealloc 0x1000 \<lparr>size = 4096, align = 4096\<rparr> (Some meta')
       = Inr (Some \<lparr>blocks = 0x1000, bitmap4096 = replicate NUMBER_OF_BLOCK_4096 False,
          bitmap128 = replicate NUMBER_OF_BLOCK_128 False\<rparr>)"
proof -
  let ?m = "\<lparr>blocks = 0x1000, bitmap4096 = replicate NUMBER_OF_BLOCK_4096 False,
          bitmap128 = replicate NUMBER_OF_BLOCK_128 False\<rparr>" and ?l = "\<lparr>size = 4096, align = 4096\<rparr>"
  have wf: "wf_meta ?m" by (simp add: wf_meta_def)
  obtain meta' where a: "alloc ?l (Some ?m) = Inr (0x1000, Some meta')"
    using alloc_first_block [of ?l ?m]
    by (auto simp: free_run_def round_up_by_def pool_defs alloc_consts block4096_def)
  from alloc_dealloc_roundtrip [OF wf _ a] a show ?thesis by auto
qed

text \<open>
  If the heap given to \<open>init\<close> is 4096-byte aligned, every pointer \<open>alloc\<close> returns is
  aligned to 4096 for requests of at least 4096 bytes and to 128 for smaller ones, and the
  whole request fits inside the heap.
\<close>

lemma alloc_aligned_in_heap:
  assumes "wf_meta meta" and "blocks meta mod 4096 = 0" and "0 < size lay"
    and "alloc lay (Some meta) = Inr (p, Some meta')" and "p \<noteq> 0"
  shows "p mod (if 4096 \<le> size lay then 4096 else 128) = 0
       \<and> {p ..< p + size lay} \<subseteq> {blocks meta ..< blocks meta + ALLOCATION_BYTES}"
proof -
  from assms(4) have a: "alloc_meta lay meta = Inr (p, meta')"
    by (auto simp: alloc_def rust_simps)
  from alloc_meta_success [OF assms(1,3) a assms(5)] obtain s where
    p: "p = pool_base meta lay + s * block_size_for lay" .
  have "p mod (if 4096 \<le> size lay then 4096 else 128) = 0"
    using assms(2) unfolding p by (auto simp: pool_defs alloc_consts block4096_def block128_def mod_eq_0_iff_dvd)
  moreover have "bytes_of extent (p, lay) \<subseteq> heap_bytes meta"
    using alloc_meta_fresh [OF assms(1,3) a assms(5)] used_bytes_heap [of meta'] alloc_meta_blocks [OF a]
      alloc_meta_total [OF assms(1,3)] a by (auto simp: heap_bytes_def)
  moreover have "size lay \<le> extent lay"
    by (simp add: extent_def round_up_by_bounds)
  ultimately show ?thesis by (auto simp: bytes_of_def heap_bytes_def)
qed

lemma alloc_aligned_in_heap_example:
  "\<exists>meta'. alloc \<lparr>size = 4096, align = 4096\<rparr> (Some \<lparr>blocks = 0x1000,
        bitmap4096 = replicate NUMBER_OF_BLOCK_4096 False,
        bitmap128 = replicate NUMBER_OF_BLOCK_128 False\<rparr>) = Inr (0x1000, Some meta')
     \<and> 0x1000 mod (4096::nat) = 0
     \<and> {0x1000 ..< 0x1000 + 4096} \<subseteq> {0x1000 ..< 0x1000 + ALLOCATION_BYTES}"
proof -
  let ?m = "\<lparr>blocks = 0x1000, bitmap4096 = replicate NUMBER_OF_BLOCK_4096 False,
          bitmap128 = replicate NUMBER_OF_BLOCK_128 False\<rparr>" and ?l = "\<lparr>size = 4096, align = 4096\<rparr>"
  have wf: "wf_meta ?m" by (simp add: wf_meta_def)
  obtain meta' where a: "alloc ?l (Some ?m) = Inr (0x1000, Some meta')"
    using alloc_first_block [of ?l ?m]
    by (auto simp: free_run_def round_up_by_def pool_defs alloc_consts block4096_def)
  from alloc_aligned_in_heap [OF wf _ _ a] a show ?thesis by simp
qed

text \<open>
  \<open>init\<close> accepts a heap that is not page aligned (it checks the alignment of
  \<open>Metadata\<close>, 8, not the 4096 its comment demands), and then \<open>alloc\<close> breaks the alignment
  of the layout: here a 4096-aligned request is served at address 8.
\<close>

lemma init_accepts_misaligned_heap:
  "\<exists>meta meta'. init 8 None = Inr (Some meta)
     \<and> alloc \<lparr>size = 4096, align = 4096\<rparr> (Some meta) = Inr (8, Some meta')"
proof -
  let ?m = "\<lparr>blocks = 8, bitmap4096 = replicate NUMBER_OF_BLOCK_4096 False,
          bitmap128 = replicate NUMBER_OF_BLOCK_128 False\<rparr>" and ?l = "\<lparr>size = 4096, align = 4096\<rparr>"
  have "init 8 None = Inr (Some ?m)" by (simp add: init_def Metadata_new_def)
  moreover have "\<exists>meta'. alloc ?l (Some ?m) = Inr (8, Some meta')"
    using alloc_first_block [of ?l ?m]
    by (auto simp: free_run_def round_up_by_def pool_defs alloc_consts block4096_def)
  ultimately show ?thesis by blast
qed

end
