(* ===== verification/Support.thy ===== *)
theory Support
  imports Allocator
begin

text \<open>
  The clients of the allocator in \<open>hypervisor/support.rs\<close> and
  \<open>hypervisor/switch_stack.rs\<close>: \<open>zeroed_box\<close>, \<open>InterruptGuard\<close> and
  \<open>jump_with_new_stack\<close>. Memory is a function from addresses to bytes;
  \<open>alloc_zeroed\<close> is the standard library's default for a \<open>GlobalAlloc\<close>: \<open>alloc\<close>, then
  \<open>size\<close> zero bytes written when the pointer is not null. \<open>handle_alloc_error\<close> does not
  return: it is the panic \<open>ExplicitPanic\<close>.
\<close>

section \<open>Definitions\<close>

type_synonym memory = "nat \<Rightarrow> u8"

definition zero_bytes :: "nat \<Rightarrow> nat \<Rightarrow> memory \<Rightarrow> memory" where
  "zero_bytes p n mem = (\<lambda>a. if p \<le> a \<and> a < p + n then 0 else mem a)"

definition alloc_zeroed ::
  "layout \<Rightarrow> metadata option \<times> memory \<Rightarrow> (nat \<times> metadata option \<times> memory) rust" where
  "alloc_zeroed lay st =
     (case st of (METADATA, mem) \<Rightarrow>
        and_then (alloc lay METADATA) (\<lambda>(ptr, METADATA').
        Inr (ptr, METADATA', if ptr \<noteq> 0 then zero_bytes ptr (size lay) mem else mem)))"

definition handle_alloc_error :: "layout \<Rightarrow> 'a rust" where
  "handle_alloc_error lay = Inl (ExplicitPanic ''memory allocation failed'')"

text \<open>\<open>zeroed_box::<T>()\<close>, with the layout of \<open>T\<close>.\<close>

definition zeroed_box ::
  "layout \<Rightarrow> metadata option \<times> memory \<Rightarrow> (nat \<times> metadata option \<times> memory) rust" where
  "zeroed_box lay st =
     and_then (alloc_zeroed lay st) (\<lambda>(ptr, st').
     if ptr = 0 then handle_alloc_error lay else Inr (ptr, st'))"

text \<open>
  \<open>InterruptGuard\<close>: \<open>new\<close> remembers the interrupt flag of RFLAGS and clears it, \<open>drop\<close>
  sets it again when it was set. The state is the interrupt flag of the processor.
\<close>

record interrupt_guard =
  enabled :: bool

definition InterruptGuard_new :: "bool \<Rightarrow> interrupt_guard \<times> bool" where
  "InterruptGuard_new rflags_if = (\<lparr>enabled = rflags_if\<rparr>, False)"

definition InterruptGuard_drop :: "interrupt_guard \<Rightarrow> bool \<Rightarrow> bool" where
  "InterruptGuard_drop guard rflags_if = (if enabled guard then True else rflags_if)"

text \<open>
  \<open>jump_with_new_stack\<close> up to the call of \<open>switch_stack\<close>: the value of \<open>stack_base\<close>, which
  becomes RSP, and the allocator's new state. \<open>Page\<close> has size and alignment 4096.
\<close>

definition stack_layout :: layout where
  "stack_layout = \<lparr>size = 0x10 * 4096, align = 4096\<rparr>"

definition jump_with_new_stack ::
  "metadata option \<times> memory \<Rightarrow> (nat \<times> metadata option \<times> memory) rust" where
  "jump_with_new_stack st =
     and_then (alloc_zeroed stack_layout st) (\<lambda>(stack, st').
     if stack = 0 then handle_alloc_error stack_layout
     else Inr (stack + size stack_layout - 0x8, st'))"

section \<open>Properties\<close>

lemma alloc_zeroed_Some:
  "alloc_zeroed lay (Some meta, mem) =
     and_then (alloc lay (Some meta)) (\<lambda>(ptr, METADATA').
       Inr (ptr, METADATA', if ptr \<noteq> 0 then zero_bytes ptr (size lay) mem else mem))"
  by (simp add: alloc_zeroed_def)

lemma alloc_Some_Inr:
  "alloc lay (Some meta) = Inr (p, st') \<Longrightarrow> \<exists>meta'. alloc_meta lay meta = Inr (p, meta') \<and> st' = Some meta'"
  by (auto simp: alloc_def rust_simps)

text \<open>
  A box from \<open>zeroed_box\<close> is zero-initialised, its bytes were not in use before, and
  no byte that was in use (so no other live allocation) is changed.
\<close>

lemma zeroed_box_fresh:
  assumes "wf_meta meta" and "0 < size lay" and "zeroed_box lay (Some meta, mem) = Inr (p, Some meta', mem')"
  shows "p \<noteq> 0 \<and> {p ..< p + size lay} \<inter> used_bytes meta = {} \<and> {p ..< p + size lay} \<subseteq> used_bytes meta'
       \<and> (\<forall>a\<in>{p ..< p + size lay}. mem' a = 0) \<and> (\<forall>a\<in>used_bytes meta. mem' a = mem a)"
proof -
  from assms(3) have p: "p \<noteq> 0" and a: "alloc_meta lay meta = Inr (p, meta')"
    and mem': "mem' = zero_bytes p (size lay) mem"
    by (auto simp: zeroed_box_def alloc_zeroed_Some handle_alloc_error_def rust_simps
        split: if_splits dest!: alloc_Some_Inr)
  have "{p ..< p + size lay} \<subseteq> bytes_of extent (p, lay)"
    using round_up_by_bounds [of "block_size_for lay" "size lay"] by (auto simp: bytes_of_def extent_def)
  with alloc_meta_fresh [OF assms(1,2) a p] p show ?thesis
    by (auto simp: mem' zero_bytes_def)
qed

lemma zeroed_box_fresh_example:
  "\<exists>meta' mem'. zeroed_box \<lparr>size = 4096, align = 4096\<rparr> (Some \<lparr>blocks = 0x1000,
        bitmap4096 = replicate NUMBER_OF_BLOCK_4096 False,
        bitmap128 = replicate NUMBER_OF_BLOCK_128 False\<rparr>, \<lambda>_. 0xcc) = Inr (0x1000, Some meta', mem')
     \<and> {0x1000 ..< 0x2000} \<subseteq> used_bytes meta' \<and> mem' 0x1fff = 0"
proof -
  let ?m = "\<lparr>blocks = 0x1000, bitmap4096 = replicate NUMBER_OF_BLOCK_4096 False,
          bitmap128 = replicate NUMBER_OF_BLOCK_128 False\<rparr>" and ?l = "\<lparr>size = 4096, align = 4096\<rparr>"
  have wf: "wf_meta ?m" by (simp add: wf_meta_def)
  obtain meta' where "alloc ?l (Some ?m) = Inr (0x1000, Some meta')"
    using alloc_first_block [of ?l ?m]
    by (auto simp: free_run_def round_up_by_def pool_defs alloc_consts block4096_def)
  then have z: "zeroed_box ?l (Some ?m, \<lambda>_. 0xcc) = Inr (0x1000, Some meta', zero_bytes 0x1000 4096 (\<lambda>_. 0xcc))"
    by (simp add: zeroed_box_def alloc_zeroed_Some)
  from zeroed_box_fresh [OF wf _ z] z show ?thesis by auto
qed

text \<open>
  The host stack: \<open>jump_with_new_stack\<close> either panics because the allocator is
  exhausted, or switches to a stack pointer 8 bytes below the end of a zeroed block of
  0x10000 bytes that was not in use (the function's comment says 0x40000 bytes); with a
  page-aligned heap the stack pointer is 8 modulo 16, as a function entry expects.
\<close>

lemma jump_with_new_stack_fresh_stack:
  assumes "wf_meta meta" and "blocks meta mod 4096 = 0"
    and "jump_with_new_stack (Some meta, mem) = Inr (rsp, METADATA, mem')"
  obtains meta' where "METADATA = Some meta'" and "wf_meta meta'" and "blocks meta' = blocks meta" and "rsp mod 16 = 8"
    and "{rsp + 8 - 0x10000 ..< rsp + 8} \<inter> used_bytes meta = {}"
    and "used_bytes meta' = used_bytes meta \<union> {rsp + 8 - 0x10000 ..< rsp + 8}"
    and "\<forall>a\<in>used_bytes meta. mem' a = mem a"
proof -
  have sz: "0 < size stack_layout" "size stack_layout = 0x10000" "extent stack_layout = 0x10000"
    by (simp_all add: stack_layout_def extent_def round_up_by_def block_size_for_def alloc_consts)
  from assms(3) obtain p meta' where p: "p \<noteq> 0" and a: "alloc_meta stack_layout meta = Inr (p, meta')"
    and METADATA: "METADATA = Some meta'"
    and mem': "mem' = zero_bytes p (size stack_layout) mem" and rsp: "rsp = p + 0x10000 - 8"
    using sz by (auto simp: jump_with_new_stack_def alloc_zeroed_Some handle_alloc_error_def rust_simps
        split: if_splits dest!: alloc_Some_Inr)
  from alloc_meta_success [OF assms(1) sz(1) a p] obtain s where
    ps: "p = pool_base meta stack_layout + s * block_size_for stack_layout"
    and meta': "meta' = set_pool meta stack_layout
           (set_range True s (round_up_by (size stack_layout) (block_size_for stack_layout)) (pool_bitmap meta stack_layout))" .
  from ps have "p = blocks meta + s * 4096"
    by (simp add: stack_layout_def pool_defs alloc_consts block4096_def)
  moreover obtain k where "blocks meta = 4096 * k" using assms(2) by (auto simp: mod_eq_0_iff_dvd)
  ultimately have "rsp = 16 * (256 * k + 256 * s + 4095) + 8" by (simp add: rsp)
  then have "rsp mod 16 = 8" by (simp only: mod_mult_self4) simp
  moreover have bytes: "{rsp + 8 - 0x10000 ..< rsp + 8} = bytes_of extent (p, stack_layout)"
    by (simp add: rsp bytes_of_def sz add.commute)
  moreover note fresh = alloc_meta_fresh [OF assms(1) sz(1) a p]
  moreover have "mem' b = mem b" if "b \<in> used_bytes meta" for b
    using fresh that by (auto simp: mem' zero_bytes_def bytes_of_def sz)
  moreover have "wf_meta meta'" using alloc_meta_total [OF assms(1) sz(1)] a by auto
  moreover have "blocks meta' = blocks meta" by (simp add: meta' pool_defs)
  ultimately show ?thesis using that METADATA by auto
qed

lemma jump_with_new_stack_outcome:
  assumes "wf_meta meta"
  shows "(\<exists>stack heap'. jump_with_new_stack (Some meta, mem) = Inr (stack, heap'))
    \<or> jump_with_new_stack (Some meta, mem) = Inl (ExplicitPanic ''memory allocation failed'')"
proof -
  have "0 < size stack_layout" by (simp add: stack_layout_def)
  from alloc_meta_total [OF assms this] obtain p meta' where "alloc_meta stack_layout meta = Inr (p, meta')" by blast
  then show ?thesis
    by (simp add: jump_with_new_stack_def alloc_zeroed_def alloc_def handle_alloc_error_def stack_layout_def)
qed

lemma interrupt_guard_restores:
  "InterruptGuard_drop (fst (InterruptGuard_new f)) (snd (InterruptGuard_new f)) = f"
  by (simp add: InterruptGuard_new_def InterruptGuard_drop_def)

end
