(* ===== verification/System.thy ===== *)
theory System
  imports Support Vmx_Properties Svm_Properties
begin

text \<open>
  The hypervisor on all processors of a system: \<open>virtualize_system\<close> and
  \<open>devirtualize_system\<close> of \<open>hypervisor/mod.rs\<close>, \<open>host::main\<close>, \<open>hypercall::devirtualize\<close>. It
  composes the platform, the APIC IDs, the shared host data, the stack switch with the allocator, the host loop and the two
  implementations of the architecture.

  A logical processor runs natively or as a guest. What the hardware contributes are fields
  of the processor: its vendor name and CPUID instruction, the registers that
  \<open>capture_current\<close> reads, the VM exits after the guest was started, and the VM exit of the
  hypercall instruction. The callbacks run through the registered platform; the lemmas about
  them rest on its contract, the locale \<open>platform\<close>.
\<close>

section \<open>Definitions\<close>

subsection \<open>One processor\<close>

datatype ('v, 'g, 'm) mode =
    Native 'm
  | Virtual 'v 'g 'm

fun mode_of :: "('v, 'g, 'm) host_state \<Rightarrow> ('v, 'g, 'm) mode" where
  "mode_of (Running vt g m) = Virtual vt g m"
| "mode_of (Devirtualized r m) = Native m"

text \<open>\<open>core_stack\<close> is the host stack of the processor, once it has one.\<close>

record ('v, 'g, 'ev, 'm) core =
  core_vendor :: "string option"
  core_cpuid :: cpuid_fun
  core_registers :: registers
  core_exits :: "'ev list"
  core_hypercall :: 'ev
  core_stack :: "nat option"
  core_mode :: "('v, 'g, 'm) mode"

text \<open>The CPUID instruction as software on the processor sees it.\<close>

definition seen_cpuid :: "('v, 'g, 'ev, 'm) core \<Rightarrow> cpuid_fun" where
  "seen_cpuid c = (case core_mode c of Native m \<Rightarrow> core_cpuid c | Virtual vt g m \<Rightarrow> guest_cpuid (core_cpuid c))"

text \<open>
  The test of the vendor name, in \<open>host::main\<close> and \<open>hypercall::devirtualize\<close>. The two
  alternatives execute instructions that exist on processors of that vendor only; on the
  others they raise an undefined opcode exception.
\<close>

definition by_vendor :: "string option \<Rightarrow> 'a rust \<Rightarrow> 'a rust \<Rightarrow> 'a rust" where
  "by_vendor vendor intel amd =
     and_then (unwrap ''get_vendor_info'' vendor) (\<lambda>v. if v = ''GenuineIntel'' then intel else amd)"

definition undefined_opcode :: "'a rust" where
  "undefined_opcode = Inl (ExplicitPanic ''undefined opcode'')"

text \<open>
  The closure of \<open>virtualize_system\<close>; \<open>main\<close> is \<open>host::main\<close> on this processor. The guest goes on
  at the captured instruction pointer, so the test runs a second time. Would it fail
  again, the closure would virtualize again and never return.
\<close>

definition virtualize_current ::
  "(registers \<Rightarrow> 'm \<Rightarrow> ('v, 'g, 'm) host_state rust) \<Rightarrow> ('v, 'g, 'ev, 'm) core \<Rightarrow> metadata option \<times> memory
     \<Rightarrow> (('v, 'g, 'ev, 'm) core \<times> metadata option \<times> memory) rust" where
  "virtualize_current main c heap =
     (if is_our_hypervisor_present (seen_cpuid c) then Inr (c, heap)
      else case core_mode c of
        Virtual vt g m \<Rightarrow> Inl NoReturn
      | Native m \<Rightarrow>
          and_then (jump_with_new_stack heap) (\<lambda>(stack_base, heap1).
          and_then (main (core_registers c) m) (\<lambda>st.
          let c1 = c\<lparr>core_stack := Some stack_base, core_mode := mode_of st\<rparr>
          in if is_our_hypervisor_present (seen_cpuid c1) then Inr (c1, heap1) else Inl NoReturn)))"

text \<open>
  \<open>asm!("vmcall", in("rax") DEVIRTUALIZE)\<close> and the same with VMMCALL: the number is in RAX when the
  instruction is executed, so in the RAX that the VM exit saves. The instruction is undefined
  outside of a guest.
\<close>

fun vmcall_rax :: "u64 \<Rightarrow> vmx_event \<Rightarrow> vmx_event" where
  "vmcall_rax number (GuestExit ex) = GuestExit (ex\<lparr>ex_gprs := (ex_gprs ex)\<lparr>rax := number\<rparr>\<rparr>)"
| "vmcall_rax number (EntryFailure flags n) = EntryFailure flags n"

definition vmmcall_rax :: "u64 \<Rightarrow> svm_exit \<Rightarrow> svm_exit" where
  "vmmcall_rax number ex = ex\<lparr>sx_state := (sx_state ex)\<lparr>sa_rax := number\<rparr>\<rparr>"

definition devirtualize_current ::
  "('v, 'g, 'ev, 'm) architecture \<Rightarrow> (u64 \<Rightarrow> 'ev \<Rightarrow> 'ev) \<Rightarrow> u64
     \<Rightarrow> ('v, 'g, 'ev, 'm machine_scheme) core \<Rightarrow> ('v, 'g, 'ev, 'm machine_scheme) core rust" where
  "devirtualize_current arch with_rax xcr0_all c =
     (case core_mode c of
        Native m \<Rightarrow> undefined_opcode
      | Virtual vt g m \<Rightarrow>
          and_then (host_step arch (core_cpuid c) xcr0_all (with_rax DEVIRTUALIZE (core_hypercall c)) vt g m) (\<lambda>st.
          Inr (c\<lparr>core_mode := mode_of st\<rparr>)))"

subsection \<open>The processors of both vendors\<close>

datatype 'tss cpu =
    IntelCpu "'tss vmx_env" "(Vmx, VmxGuest, vmx_event, vmx_machine) core"
  | AmdCpu "'tss svm_env" "(Svm, SvmGuest, svm_exit, svm_machine) core"

fun cpu_seen :: "'tss cpu \<Rightarrow> cpuid_fun" where
  "cpu_seen (IntelCpu e c) = seen_cpuid c"
| "cpu_seen (AmdCpu e c) = seen_cpuid c"

text \<open>\<open>apic_id::get\<close> on the processor.\<close>

definition cpu_apic_id :: "'tss cpu \<Rightarrow> u8" where
  "cpu_apic_id p = apic_id_get (ebx (cpu_seen p 1 0))"

text \<open>The static variables that the callbacks use: the APIC IDs and the heap.\<close>

type_synonym statics = "apic_ids \<times> metadata option \<times> memory"

record 'tss system =
  PLATFORM_OPS :: "('tss cpu, statics) platform_ops option"
  sys_ids :: apic_ids
  SHARED_HOST_DATA :: "'tss shared_host_data option"
  sys_heap :: "metadata option \<times> memory"
  cpus :: "'tss cpu list"

text \<open>The code on a processor uses its own CPUID and the static variables of the hypervisor.\<close>

definition intel_env ::
  "(u64 \<Rightarrow> u64) \<Rightarrow> 'tss shared_host_data option \<Rightarrow> cpuid_fun \<Rightarrow> 'tss vmx_env \<Rightarrow> 'tss vmx_env" where
  "intel_env pa shd cpuid e = e\<lparr>env_pa := pa, env_cpuid := cpuid, env_host_data := shd\<rparr>"

definition amd_env ::
  "(u64 \<Rightarrow> u64) \<Rightarrow> apic_ids \<Rightarrow> 'tss shared_host_data option \<Rightarrow> cpuid_fun \<Rightarrow> 'tss svm_env \<Rightarrow> 'tss svm_env" where
  "amd_env pa ids shd cpuid e = e\<lparr>sv_pa := pa, sv_cpuid := cpuid, sv_ids := ids, sv_host_data := shd\<rparr>"

definition intel_main ::
  "(u64 \<Rightarrow> u64) \<Rightarrow> apic_ids \<Rightarrow> 'tss shared_host_data option \<Rightarrow> u64 \<Rightarrow> 'tss vmx_env
     \<Rightarrow> (Vmx, VmxGuest, vmx_event, vmx_machine) core \<Rightarrow> registers \<Rightarrow> vmx_machine \<Rightarrow> (Vmx, VmxGuest, vmx_machine) host_state rust" where
  "intel_main pa ids shd xcr0_all e c registers m =
     by_vendor (core_vendor c)
       (virtualize_core (vmx_arch (intel_env pa shd (core_cpuid c) e)) (core_cpuid c) xcr0_all ids registers (core_exits c) m)
       undefined_opcode"

definition amd_main ::
  "(u64 \<Rightarrow> u64) \<Rightarrow> apic_ids \<Rightarrow> 'tss shared_host_data option \<Rightarrow> u64 \<Rightarrow> 'tss svm_env
     \<Rightarrow> (Svm, SvmGuest, svm_exit, svm_machine) core \<Rightarrow> registers \<Rightarrow> svm_machine \<Rightarrow> (Svm, SvmGuest, svm_machine) host_state rust" where
  "amd_main pa ids shd xcr0_all e c registers m =
     by_vendor (core_vendor c) undefined_opcode
       (virtualize_core (svm_arch (amd_env pa ids shd (core_cpuid c) e)) (core_cpuid c) xcr0_all ids registers (core_exits c) m)"

fun virtualize_cpu ::
  "(u64 \<Rightarrow> u64) \<Rightarrow> 'tss shared_host_data option \<Rightarrow> u64 \<Rightarrow> ('tss cpu, statics) callback" where
  "virtualize_cpu pa shd xcr0_all (IntelCpu e c) (ids, heap) =
     and_then (virtualize_current (intel_main pa ids shd xcr0_all e c) c heap) (\<lambda>(c', heap'). Inr (IntelCpu e c', ids, heap'))"
| "virtualize_cpu pa shd xcr0_all (AmdCpu e c) (ids, heap) =
     and_then (virtualize_current (amd_main pa ids shd xcr0_all e c) c heap) (\<lambda>(c', heap'). Inr (AmdCpu e c', ids, heap'))"

fun hypercall_devirtualize ::
  "(u64 \<Rightarrow> u64) \<Rightarrow> 'tss shared_host_data option \<Rightarrow> u64 \<Rightarrow> ('tss cpu, statics) callback" where
  "hypercall_devirtualize pa shd xcr0_all (IntelCpu e c) (ids, heap) =
     by_vendor (core_vendor c)
       (and_then (devirtualize_current (vmx_arch (intel_env pa shd (core_cpuid c) e)) vmcall_rax xcr0_all c) (\<lambda>c'. Inr (IntelCpu e c', ids, heap)))
       undefined_opcode"
| "hypercall_devirtualize pa shd xcr0_all (AmdCpu e c) (ids, heap) =
     by_vendor (core_vendor c) undefined_opcode
       (and_then (devirtualize_current (svm_arch (amd_env pa ids shd (core_cpuid c) e)) vmmcall_rax xcr0_all c) (\<lambda>c'. Inr (AmdCpu e c', ids, heap)))"

subsection \<open>The system\<close>

definition virtualize_system :: "u64 \<Rightarrow> 'tss shared_host_data \<Rightarrow> 'tss system \<Rightarrow> 'tss system rust" where
  "virtualize_system xcr0_all shared_host sys =
     and_then (apic_id_init cpu_apic_id (PLATFORM_OPS sys) (cpus sys) (sys_ids sys, sys_heap sys)) (\<lambda>(ps, statics).
     let shd = call_once shared_host (SHARED_HOST_DATA sys) in
     and_then (platform_ops_get (PLATFORM_OPS sys)) (\<lambda>ops.
     and_then (ops_run ops (virtualize_cpu (ops_pa ops) shd xcr0_all) ps statics) (\<lambda>(ps', ids, heap).
     Inr (sys\<lparr>sys_ids := ids, SHARED_HOST_DATA := shd, sys_heap := heap, cpus := ps'\<rparr>))))"

text \<open>\<open>devirtualize_system\<close>, called on the processor with number \<open>current\<close>.\<close>

definition devirtualize_system :: "u64 \<Rightarrow> nat \<Rightarrow> 'tss system \<Rightarrow> 'tss system rust" where
  "devirtualize_system xcr0_all current sys =
     (if \<not> is_our_hypervisor_present (cpu_seen (cpus sys ! current)) then Inr sys
      else
        and_then (platform_ops_get (PLATFORM_OPS sys)) (\<lambda>ops.
        and_then (ops_run ops (hypercall_devirtualize (ops_pa ops) (SHARED_HOST_DATA sys) xcr0_all) (cpus sys) (sys_ids sys, sys_heap sys)) (\<lambda>(ps, ids, heap).
        Inr (sys\<lparr>sys_ids := ids, sys_heap := heap, cpus := ps\<rparr>))))"

section \<open>One processor there and back\<close>

lemma seen_cpuid_simps [simp]:
  "core_mode c = Native m \<Longrightarrow> seen_cpuid c = core_cpuid c"
  "core_mode c = Virtual vt g m \<Longrightarrow> seen_cpuid c = guest_cpuid (core_cpuid c)"
  by (simp_all add: seen_cpuid_def)

lemma virtualize_current_result:
  assumes "virtualize_current main c heap = Inr (c', heap')" and "core_mode c = Native m"
    and "\<not> is_our_hypervisor_present (core_cpuid c)"
  shows "\<exists>vt g m'. main (core_registers c) m = Inr (Running vt g m') \<and> (\<exists>stack. c' = c\<lparr>core_stack := Some stack, core_mode := Virtual vt g m'\<rparr>
     \<and> jump_with_new_stack heap = Inr (stack, heap'))"
proof -
  from assms obtain st stack where st: "main (core_registers c) m = Inr st" and c': "c' = c\<lparr>core_stack := Some stack, core_mode := mode_of st\<rparr>"
    and stack: "jump_with_new_stack heap = Inr (stack, heap')"
    and seen: "is_our_hypervisor_present (seen_cpuid c')"
    by (auto simp: virtualize_current_def rust_simps Let_def split: if_splits)
  show ?thesis
  proof (cases st)
    case (Running vt g m')
    with st c' stack show ?thesis by simp
  next
    case (Devirtualized r m')
    with seen assms(3) show ?thesis by (simp add: c' seen_cpuid_def)
  qed
qed

lemma host_step_disabled:
  assumes "host_step arch cpuid xcr0_all ev vt g m = Inr (Devirtualized r m')"
  shows "\<exists>m2 vt'. disable arch vt m2 = Inr (vt', m')"
proof -
  from assms obtain reason g1 m1 where "run arch ev g m = Inr (reason, g1, m1)" by (auto simp: host_step_def rust_simps)
  with assms obtain info where "devirtualize_processor arch info vt g1 m1 = Inr (Devirtualized r m')"
    by (cases reason) (auto simp: host_step_def Let_def rust_simps split: if_splits prod.splits)
  then show ?thesis by (auto simp: devirtualize_processor_def Let_def rust_simps)
qed

text \<open>The VM exit of the hypercall instruction.\<close>

definition vmcall_exit :: "vmx_event \<Rightarrow> bool" where
  "vmcall_exit ev \<longleftrightarrow> (case ev of EntryFailure flags n \<Rightarrow> False
     | GuestExit ex \<Rightarrow> ucast (ex_fields ex EXIT_REASON) = (18 :: u16)
         \<and> unat (ex_fields ex GUEST_RIP) + unat (ex_fields ex VMEXIT_INSTRUCTION_LEN) < 2 ^ 64)"

definition vmmcall_exit :: "svm_exit \<Rightarrow> bool" where
  "vmmcall_exit ex \<longleftrightarrow> exit_code (sx_control ex) = 0x81"

lemma vmcall_run:
  assumes "vmx_ready e vt g m" and "vmcall_exit ev"
  shows "\<exists>info g' m'. run (vmx_arch e) (vmcall_rax DEVIRTUALIZE ev) g m = Inr (VmCall info, g', m') \<and> rax (regs (vmx_arch e) g') = DEVIRTUALIZE"
proof -
  let ?pa = "env_pa e (region_va (vmcs g))"
  from assms(2) obtain ex where ev: "vmcall_rax DEVIRTUALIZE ev = GuestExit ex" and why: "ucast (ex_fields ex EXIT_REASON) = (18 :: u16)"
    and rax: "rax (ex_gprs ex) = DEVIRTUALIZE"
    and len: "unat (ex_fields ex GUEST_RIP) + unat (ex_fields ex VMEXIT_INSTRUCTION_LEN) < 2 ^ 64"
    by (cases ev) (auto simp: vmcall_exit_def)
  from assms(1) have c0: "vmx_current ?pa m" by (simp add: vmx_ready_def)
  show ?thesis
  proof (rule VmxGuest_run_exit [OF c0, where ex = ex and oc = "env_oc e" and cpuid = "env_cpuid e" and rsp_rip = "env_rsp_rip e" and g = g])
    fix m2
    assume c: "vmx_current ?pa m2" and f: "\<And>f. saved_on_exit f \<Longrightarrow> vmcs_fields m2 ?pa f = ex_fields ex f"
      and run: "VmxGuest_run (env_oc e) (env_cpuid e) (env_rsp_rip e) (GuestExit ex) g m =
        vmx_exit_reason (env_oc e) (env_cpuid e) (g\<lparr>vmx_registers := (ex_gprs ex)\<lparr>rip := ex_fields ex GUEST_RIP,
           rsp := ex_fields ex GUEST_RSP, rflags := ex_fields ex GUEST_RFLAGS\<rparr>\<rparr>) m2"
    have "vmcs_fields m2 ?pa EXIT_REASON = ex_fields ex EXIT_REASON"
      "vmcs_fields m2 ?pa VMEXIT_INSTRUCTION_LEN = ex_fields ex VMEXIT_INSTRUCTION_LEN"
      by (rule f, simp add: saved_on_exit_def get_bits_def)+
    with why len rax show ?thesis
      by (simp add: ev vmx_arch_def run vmx_exit_reason_def vmread_current [OF c] instruction_info_current [OF c])
  qed
qed

lemma vmmcall_run:
  assumes "vmmcall_exit ex"
  shows "\<exists>info g' m'. run (svm_arch e) (vmmcall_rax DEVIRTUALIZE ex) g m = Inr (VmCall info, g', m') \<and> rax (regs (svm_arch e) g') = DEVIRTUALIZE"
proof (rule SvmGuest_run_exit [where oc = "sv_oc e" and cpuid = "sv_cpuid e" and ids = "sv_ids e" and ex = "vmmcall_rax DEVIRTUALIZE ex" and g = g and m = m])
  fix g1 m1
  assume "SvmGuest_run (sv_oc e) (sv_cpuid e) (sv_ids e) (vmmcall_rax DEVIRTUALIZE ex) g m = svm_exit_reason (sv_oc e) (sv_cpuid e) (sv_ids e) (sx_loads (vmmcall_rax DEVIRTUALIZE ex)) g1 m1"
    and "svm_registers g1 = (sx_gprs (vmmcall_rax DEVIRTUALIZE ex))\<lparr>rax := sa_rax (sx_state (vmmcall_rax DEVIRTUALIZE ex)), rip := sa_rip (sx_state (vmmcall_rax DEVIRTUALIZE ex)),
       rsp := sa_rsp (sx_state (vmmcall_rax DEVIRTUALIZE ex)), rflags := sa_rflags (sx_state (vmmcall_rax DEVIRTUALIZE ex))\<rparr>"
    and "control_area (vmcb g1) = (control_after_exit (sx_control (vmmcall_rax DEVIRTUALIZE ex)) (control_area (vmcb g)))
       \<lparr>tlb_control := DO_NOT_FLUSH, vmcb_clean := - 1\<rparr>"
  with assms show ?thesis by (simp add: svm_arch_def svm_exit_reason_def control_after_exit_def vmmcall_exit_def vmmcall_rax_def)
qed

subsection \<open>States of a processor\<close>

text \<open>
  A processor before the hypervisor is loaded: native, not under a hypervisor of this name,
  with distinct, aligned regions on Intel; its hypercall has the VM exit of a hypercall.
\<close>

fun cpu_fresh :: "(u64 \<Rightarrow> u64) \<Rightarrow> 'tss cpu \<Rightarrow> bool" where
  "cpu_fresh pa (IntelCpu e c) \<longleftrightarrow> (\<exists>m. core_mode c = Native m) \<and> \<not> is_our_hypervisor_present (core_cpuid c)
     \<and> aligned_4k (pa (env_vmcs_va e)) \<and> pa (env_vmcs_va e) \<noteq> pa (env_vmxon_va e) \<and> vmcall_exit (core_hypercall c)"
| "cpu_fresh pa (AmdCpu e c) \<longleftrightarrow> (\<exists>m. core_mode c = Native m) \<and> \<not> is_our_hypervisor_present (core_cpuid c)
     \<and> vmmcall_exit (core_hypercall c)"

fun cpu_virtual :: "'tss cpu \<Rightarrow> bool" where
  "cpu_virtual (IntelCpu e c) \<longleftrightarrow> (\<exists>vt g m. core_mode c = Virtual vt g m)"
| "cpu_virtual (AmdCpu e c) \<longleftrightarrow> (\<exists>vt g m. core_mode c = Virtual vt g m)"

text \<open>
  \<open>released p q\<close>: the processor \<open>p\<close>, given back as \<open>q\<close>, is native and differs from \<open>p\<close> in the
  machine state only; its host stack stays allocated. VMX operation is left on Intel; on AMD, EFER is as before.
\<close>

fun released :: "'tss cpu \<Rightarrow> 'tss cpu \<Rightarrow> bool" where
  "released (IntelCpu e c) q \<longleftrightarrow> (\<exists>stack m. q = IntelCpu e (c\<lparr>core_stack := stack, core_mode := Native m\<rparr>) \<and> vmxon_ptr m = None)"
| "released (AmdCpu e c) q \<longleftrightarrow> (\<exists>stack m m0. q = AmdCpu e (c\<lparr>core_stack := stack, core_mode := Native m\<rparr>) \<and> core_mode c = Native m0
     \<and> rdmsr IA32_EFER m = rdmsr IA32_EFER m0)"

lemma cpu_virtualize_devirtualize:
  assumes "virtualize_cpu pa shd xcr0_all p (ids, heap) = Inr (q, ids', heap')" and "cpu_fresh pa p"
  shows "cpu_virtual q \<and> is_our_hypervisor_present (cpu_seen q) \<and> ids' = ids
    \<and> (\<exists>q'. hypercall_devirtualize pa shd xcr0_all q (ids, h) = Inr (q', ids, h) \<and> released p q')"
proof (cases p)
  case (IntelCpu e c)
  let ?e = "intel_env pa shd (core_cpuid c) e"
  from assms(2) IntelCpu obtain m where m: "core_mode c = Native m" and np: "\<not> is_our_hypervisor_present (core_cpuid c)"
    and ok: "aligned_4k (env_pa ?e (env_vmcs_va ?e))" "env_pa ?e (env_vmcs_va ?e) \<noteq> env_pa ?e (env_vmxon_va ?e)"
    and call: "vmcall_exit (core_hypercall c)" by (auto simp: intel_env_def)
  from assms(1) IntelCpu obtain c' where v: "virtualize_current (intel_main pa ids shd xcr0_all e c) c heap = Inr (c', heap')"
    and q: "q = IntelCpu e c'" and ids: "ids' = ids" by (auto simp: rust_simps)
  from virtualize_current_result [OF v m np] obtain vt g m' stack where c': "c' = c\<lparr>core_stack := Some stack, core_mode := Virtual vt g m'\<rparr>"
    and main: "intel_main pa ids shd xcr0_all e c (core_registers c) m = Inr (Running vt g m')" by blast
  from main have vendor: "core_vendor c = Some ''GenuineIntel''"
    and core: "virtualize_core (vmx_arch ?e) (core_cpuid c) xcr0_all ids (core_registers c) (core_exits c) m = Inr (Running vt g m')"
    by (auto simp: intel_main_def by_vendor_def undefined_opcode_def unwrap_def rust_simps split: option.splits if_splits)
  note ready = virtualize_core_ready [OF ok core]
  from vmcall_run [OF ready call] vmx.devirtualize_call [OF ready] obtain r m2 where
    step: "host_step (vmx_arch ?e) (core_cpuid c) xcr0_all (vmcall_rax DEVIRTUALIZE (core_hypercall c)) vt g m' = Inr (Devirtualized r m2)" by blast
  from host_step_disabled [OF step] have "vmxon_ptr m2 = None"
    by (auto simp: vmx_arch_def Vmx_disable_def vmxoff_def vmxoff_instr_def rust_simps split: if_splits)
  with step vendor show ?thesis
    by (auto simp: IntelCpu q c' ids by_vendor_def unwrap_def devirtualize_current_def)
next
  case (AmdCpu e c)
  let ?e = "amd_env pa ids shd (core_cpuid c) e"
  from assms(2) AmdCpu obtain m where m: "core_mode c = Native m" and np: "\<not> is_our_hypervisor_present (core_cpuid c)"
    and call: "vmmcall_exit (core_hypercall c)" by auto
  from assms(1) AmdCpu obtain c' where v: "virtualize_current (amd_main pa ids shd xcr0_all e c) c heap = Inr (c', heap')"
    and q: "q = AmdCpu e c'" and ids: "ids' = ids" by (auto simp: rust_simps)
  from virtualize_current_result [OF v m np] obtain vt g m' stack where c': "c' = c\<lparr>core_stack := Some stack, core_mode := Virtual vt g m'\<rparr>"
    and main: "amd_main pa ids shd xcr0_all e c (core_registers c) m = Inr (Running vt g m')" by blast
  from main obtain s where vendor: "core_vendor c = Some s" "s \<noteq> ''GenuineIntel''"
    and core: "virtualize_core (svm_arch ?e) (core_cpuid c) xcr0_all ids (core_registers c) (core_exits c) m = Inr (Running vt g m')"
    by (auto simp: amd_main_def by_vendor_def undefined_opcode_def unwrap_def rust_simps split: option.splits if_splits)
  from svm_virtualize_core_ready [OF core] have vt: "vt = \<lparr>saved_efer = rdmsr IA32_EFER m\<rparr>" and ready: "svm_ready ?e vt g m'" by blast+
  from vmmcall_run [OF call] svm.devirtualize_call [OF ready] obtain r m2 where
    step: "host_step (svm_arch ?e) (core_cpuid c) xcr0_all (vmmcall_rax DEVIRTUALIZE (core_hypercall c)) vt g m' = Inr (Devirtualized r m2)" by blast
  from host_step_disabled [OF step] have "rdmsr IA32_EFER m2 = rdmsr IA32_EFER m"
    by (auto simp: svm_arch_def Svm_disable_def vt machine_simps)
  with step vendor m show ?thesis
    by (auto simp: AmdCpu q c' ids by_vendor_def unwrap_def devirtualize_current_def)
qed

lemma released_native:
  assumes "released p q" and "cpu_fresh pa p"
  shows "\<not> cpu_virtual q \<and> \<not> is_our_hypervisor_present (cpu_seen q)"
  using assms by (cases p) (auto simp: seen_cpuid_def)

section \<open>All processors there and back\<close>

text \<open>What holds on every platform that meets the contract.\<close>

locale hypervisor_platform = platform ops n
  for ops :: "('tss cpu, statics) platform_ops" and n :: nat
begin

lemma virtualize_system_parts:
  assumes "virtualize_system xcr0_all shared_host sys = Inr sys1" and "PLATFORM_OPS sys = Some ops" and "length (cpus sys) = n"
  obtains ids where "apic_id_init cpu_apic_id (Some ops) (cpus sys) (sys_ids sys, sys_heap sys) = Inr (cpus sys, ids, sys_heap sys)"
    and "PLATFORM_OPS sys1 = Some ops" and "SHARED_HOST_DATA sys1 = call_once shared_host (SHARED_HOST_DATA sys)"
    and "ops_run ops (virtualize_cpu (ops_pa ops) (SHARED_HOST_DATA sys1) xcr0_all) (cpus sys) (ids, sys_heap sys)
           = Inr (cpus sys1, sys_ids sys1, sys_heap sys1)"
proof -
  from assms(1,2) obtain ps ids h where init: "apic_id_init cpu_apic_id (Some ops) (cpus sys) (sys_ids sys, sys_heap sys) = Inr (ps, ids, h)"
    and rest: "SHARED_HOST_DATA sys1 = call_once shared_host (SHARED_HOST_DATA sys)" "PLATFORM_OPS sys1 = Some ops"
    and run: "ops_run ops (virtualize_cpu (ops_pa ops) (SHARED_HOST_DATA sys1) xcr0_all) ps (ids, h)
           = Inr (cpus sys1, sys_ids sys1, sys_heap sys1)"
    by (auto simp: virtualize_system_def Let_def rust_simps)
  have "platform ops (length (cpus sys))" using platform_axioms assms(3) by simp
  from apic_id_init_same [OF init this] that init rest run show ?thesis by auto
qed

lemma run_fixes:
  assumes "ops_run ops (virtualize_cpu pa shd xcr0_all) ps (ids, h) = Inr (ps', ids', h')" and "length ps = n"
  shows "ids' = ids" and "i < n \<Longrightarrow> \<exists>h1 h2. virtualize_cpu pa shd xcr0_all (ps ! i) (ids, h1) = Inr (ps' ! i, ids, h2)"
proof -
  from assms have run: "run_on_all_processors (virtualize_cpu pa shd xcr0_all) ps (ids, h) = Inr (ps', ids', h')"
    by (simp add: run_eq)
  have same: "fst s2 = fst s1" if "virtualize_cpu pa shd xcr0_all p s1 = Inr (p', s2)" for p p' s1 s2
    using that by (cases p; cases s1) (auto simp: rust_simps)
  from run_on_all_states [OF run, of "\<lambda>s. fst s = ids"] same
  show "ids' = ids" and "i < n \<Longrightarrow> \<exists>h1 h2. virtualize_cpu pa shd xcr0_all (ps ! i) (ids, h1) = Inr (ps' ! i, ids, h2)"
    using assms(2) by fastforce+
qed

lemma system_there_and_back:
  assumes "virtualize_system xcr0_all shared_host sys = Inr sys1" and "PLATFORM_OPS sys = Some ops" and "length (cpus sys) = n"
    and "\<forall>p\<in>set (cpus sys). cpu_fresh (ops_pa ops) p" and "current < n"
  shows "length (cpus sys1) = length (cpus sys)
    \<and> (\<forall>p\<in>set (cpus sys1). cpu_virtual p \<and> is_our_hypervisor_present (cpu_seen p))
    \<and> (\<exists>sys2. devirtualize_system xcr0_all current sys1 = Inr sys2 \<and> length (cpus sys2) = length (cpus sys)
        \<and> (\<forall>i<length (cpus sys). released (cpus sys ! i) (cpus sys2 ! i))
        \<and> (\<forall>p\<in>set (cpus sys2). \<not> cpu_virtual p \<and> \<not> is_our_hypervisor_present (cpu_seen p))
        \<and> devirtualize_system xcr0_all current sys2 = Inr sys2)"
proof -
  let ?call = "hypercall_devirtualize (ops_pa ops) (SHARED_HOST_DATA sys1) xcr0_all"
  obtain ids where ops: "PLATFORM_OPS sys1 = Some ops"
    and run: "ops_run ops (virtualize_cpu (ops_pa ops) (SHARED_HOST_DATA sys1) xcr0_all) (cpus sys) (ids, sys_heap sys)
           = Inr (cpus sys1, sys_ids sys1, sys_heap sys1)" using virtualize_system_parts [OF assms(1-3)] .
  from run_each(1) [OF assms(3) run] have len: "length (cpus sys1) = n" .
  have ids: "sys_ids sys1 = ids" using run_fixes(1) [OF run assms(3)] .
  have each: "cpu_virtual (cpus sys1 ! i) \<and> is_our_hypervisor_present (cpu_seen (cpus sys1 ! i))
      \<and> (\<exists>q'. ?call (cpus sys1 ! i) (ids, h) = Inr (q', ids, h) \<and> released (cpus sys ! i) q')" if "i < n" for i h
    using run_fixes(2) [OF run assms(3) that] that assms(3,4) by (meson cpu_virtualize_devirtualize nth_mem)
  then obtain ps where ps: "ops_run ops ?call (cpus sys1) (ids, sys_heap sys1) = Inr (ps, ids, sys_heap sys1)"
    and len2: "length ps = n" and rel: "\<And>i. i < n \<Longrightarrow> released (cpus sys ! i) (ps ! i)"
    using run_pointwise [OF len, of ?call "(ids, sys_heap sys1)" "\<lambda>i. released (cpus sys ! i)"] by blast
  have native: "\<not> cpu_virtual p \<and> \<not> is_our_hypervisor_present (cpu_seen p)" if "p \<in> set ps" for p
    using that rel released_native assms(3,4) len2 by (metis in_set_conv_nth nth_mem)
  have "devirtualize_system xcr0_all current sys1 = Inr (sys1\<lparr>cpus := ps\<rparr>)"
    using each [OF assms(5)] ps by (simp add: devirtualize_system_def ops ids)
  moreover have "devirtualize_system xcr0_all current (sys1\<lparr>cpus := ps\<rparr>) = Inr (sys1\<lparr>cpus := ps\<rparr>)"
    using native assms(5) len2 by (simp add: devirtualize_system_def)
  moreover have "\<forall>p\<in>set (cpus sys1). cpu_virtual p \<and> is_our_hypervisor_present (cpu_seen p)"
    using each len by (auto simp: in_set_conv_nth)
  ultimately show ?thesis using len len2 rel native assms(3) by simp
qed

end

end
