(* ===== verification/System_Properties.thy ===== *)
theory System_Properties
  imports System
begin

text \<open>
  Properties of the whole system on every platform that meets the contract: the invariant of
  its state, in particular that the host stacks of the processors lie in the heap and do not
  overlap, loading and unloading, and that the closure on a processor does not loop.
\<close>

section \<open>Well-formed systems\<close>

definition stack_bytes :: "nat \<Rightarrow> nat set" where
  "stack_bytes stack = {stack + 8 - 0x10000 ..< stack + 8}"

fun cpu_stack :: "'tss cpu \<Rightarrow> nat option" where
  "cpu_stack (IntelCpu e c) = core_stack c"
| "cpu_stack (AmdCpu e c) = core_stack c"

definition stacks_disjoint :: "'tss cpu \<Rightarrow> 'tss cpu \<Rightarrow> bool" where
  "stacks_disjoint p q \<longleftrightarrow>
     (\<forall>a b. cpu_stack p = Some a \<longrightarrow> cpu_stack q = Some b \<longrightarrow> stack_bytes a \<inter> stack_bytes b = {})"

definition wf_stacks :: "metadata option \<Rightarrow> 'tss cpu list \<Rightarrow> bool" where
  "wf_stacks METADATA ps \<longleftrightarrow>
     (case METADATA of
        None \<Rightarrow> \<forall>p\<in>set ps. cpu_stack p = None
      | Some meta \<Rightarrow> wf_meta meta \<and> blocks meta mod 4096 = 0
          \<and> (\<forall>p\<in>set ps. \<forall>a. cpu_stack p = Some a \<longrightarrow> a mod 16 = 8 \<and> stack_bytes a \<subseteq> used_bytes meta)
          \<and> sorted_wrt stacks_disjoint ps)"

text \<open>
  The heap and the stacks are well-formed, the processors are registered in their order or
  not at all, and a processor that runs as a guest has a stack for its host.
\<close>

definition wf_system :: "'tss system \<Rightarrow> bool" where
  "wf_system sys \<longleftrightarrow> wf_stacks (fst (sys_heap sys)) (cpus sys)
     \<and> (registered [] (sys_ids sys) \<or> registered (map cpu_apic_id (cpus sys)) (sys_ids sys))
     \<and> (\<forall>p\<in>set (cpus sys). cpu_virtual p \<longrightarrow> cpu_stack p \<noteq> None)"

text \<open>The APIC ID of a processor is the same natively and as a guest.\<close>

lemma guest_cpuid_ebx [simp]: "ebx (guest_cpuid cpuid 1 0) = ebx (cpuid 1 0)"
proof -
  have "(ucast (ucast w :: u64) :: u32) = w" for w :: u32 by (rule bit_word_eqI) (auto simp: bit_simps)
  then show ?thesis by (simp add: guest_cpuid_def handle_cpuid_def Let_def)
qed

lemma seen_cpuid_ebx [simp]: "ebx (seen_cpuid c 1 0) = ebx (core_cpuid c 1 0)"
  by (simp add: seen_cpuid_def split: mode.splits)

lemma stacks_disjoint_commute: "stacks_disjoint p q \<longleftrightarrow> stacks_disjoint q p"
  by (auto simp: stacks_disjoint_def)

lemma wf_stacks_cong:
  assumes "map cpu_stack ps = map cpu_stack qs"
  shows "wf_stacks h ps = wf_stacks h qs"
proof -
  have set: "(\<forall>p\<in>set ps. Q (cpu_stack p)) = (\<forall>p\<in>set qs. Q (cpu_stack p))" for Q
    using assms by (metis (no_types, lifting) image_iff list.set_map)
  have "sorted_wrt stacks_disjoint ps = sorted_wrt stacks_disjoint qs"
    using assms by (simp add: sorted_wrt_iff_nth_less stacks_disjoint_def list_eq_iff_nth_eq)
  then show ?thesis
    using set [of "\<lambda>x. x = None"] set [of "\<lambda>x. \<forall>a. x = Some a \<longrightarrow> a mod 16 = 8 \<and> stack_bytes a \<subseteq> used_bytes _"]
    by (auto simp: wf_stacks_def split: option.splits)
qed

lemma wf_stacks_new:
  assumes "wf_stacks h (before @ p # rest)" and "jump_with_new_stack (h, mem) = Inr (stack, h', mem')" and "cpu_stack p' = Some stack"
  shows "wf_stacks h' (before @ p' # rest)"
proof (cases h)
  case (Some meta)
  from assms(1) Some have wf: "wf_meta meta" "blocks meta mod 4096 = 0"
    and live: "\<And>q a. q \<in> set before \<union> set rest \<Longrightarrow> cpu_stack q = Some a \<Longrightarrow> a mod 16 = 8 \<and> stack_bytes a \<subseteq> used_bytes meta"
    and dis: "sorted_wrt stacks_disjoint (before @ rest)"
    by (auto simp: wf_stacks_def sorted_wrt_append)
  obtain meta' where m: "h' = Some meta'" "wf_meta meta'" "blocks meta' = blocks meta" "stack mod 16 = 8"
    and fresh: "stack_bytes stack \<inter> used_bytes meta = {}"
    and used: "used_bytes meta' = used_bytes meta \<union> stack_bytes stack"
    using jump_with_new_stack_fresh_stack [OF wf assms(2) [unfolded Some]] unfolding stack_bytes_def by blast
  have new: "stacks_disjoint p' q" if "q \<in> set before \<union> set rest" for q
    unfolding stacks_disjoint_def using live [OF that] fresh assms(3) by auto
  from new have "sorted_wrt stacks_disjoint (before @ p' # rest)"
    using dis stacks_disjoint_commute by (auto simp: sorted_wrt_append)
  then show ?thesis
    using m wf live assms(3) by (auto simp: wf_stacks_def used)
next
  case None
  with assms(2) show ?thesis by (simp add: jump_with_new_stack_def alloc_zeroed_def alloc_def)
qed

text \<open>What the two callbacks do to a processor, apart from its machine.\<close>

lemma virtualize_current_stack:
  assumes "virtualize_current main c heap = Inr (c', heap')"
  shows "core_cpuid c' = core_cpuid c \<and>
     (c' = c \<and> heap' = heap \<or> (\<exists>stack. core_stack c' = Some stack \<and> jump_with_new_stack heap = Inr (stack, heap')))"
  using assms by (auto simp: virtualize_current_def rust_simps Let_def split: if_splits mode.splits)

lemma virtualize_cpu_stack:
  assumes "virtualize_cpu pa shd xcr0_all p (ids, heap) = Inr (q, ids', heap')"
  shows "ids' = ids \<and> cpu_apic_id q = cpu_apic_id p
     \<and> (q = p \<and> heap' = heap \<or> (\<exists>stack. cpu_stack q = Some stack \<and> jump_with_new_stack heap = Inr (stack, heap')))"
  using assms by (cases p) (auto simp: rust_simps cpu_apic_id_def dest!: virtualize_current_stack)

lemma devirtualize_current_same:
  assumes "devirtualize_current arch with_rax xcr0_all c = Inr c'"
  shows "core_cpuid c' = core_cpuid c \<and> core_stack c' = core_stack c \<and> (\<exists>vt g m. core_mode c = Virtual vt g m)"
  using assms by (auto simp: devirtualize_current_def undefined_opcode_def rust_simps split: mode.splits)

lemma hypercall_devirtualize_same:
  assumes "hypercall_devirtualize pa shd xcr0_all p s = Inr (q, s')"
  shows "s' = s \<and> cpu_apic_id q = cpu_apic_id p \<and> cpu_stack q = cpu_stack p \<and> cpu_virtual p"
  using assms
  by (cases p; cases s) (auto simp: by_vendor_def undefined_opcode_def rust_simps cpu_apic_id_def
      dest!: devirtualize_current_same split: if_splits)

context hypervisor_platform
begin

lemma virtualize_keeps_wf:
  assumes "virtualize_system xcr0_all shared_host sys = Inr sys1" and "PLATFORM_OPS sys = Some ops" and "length (cpus sys) = n"
    and "wf_system sys"
  shows "wf_system sys1 \<and> registered (map cpu_apic_id (cpus sys)) (sys_ids sys1)"
proof -
  obtain ids where init: "apic_id_init cpu_apic_id (Some ops) (cpus sys) (sys_ids sys, sys_heap sys) = Inr (cpus sys, ids, sys_heap sys)"
    and run: "ops_run ops (virtualize_cpu (ops_pa ops) (SHARED_HOST_DATA sys1) xcr0_all) (cpus sys) (ids, sys_heap sys)
           = Inr (cpus sys1, sys_ids sys1, sys_heap sys1)" using virtualize_system_parts [OF assms(1-3)] .
  have pl: "platform ops (length (cpus sys))" using platform_axioms assms(3) by simp
  have "PROCESSOR_COUNT (sys_ids sys) = 0"
    by (rule ccontr) (use init in \<open>simp add: apic_id_init_counted\<close>)
  then have "registered [] (sys_ids sys)" using assms(4) by (auto simp: wf_system_def registered_def)
  from apic_id_init_Inr [OF init pl this] have reg: "registered (map cpu_apic_id (cpus sys)) ids" by blast
  define P where "P ps s \<longleftrightarrow> wf_stacks (fst (snd s)) ps \<and> map cpu_apic_id ps = map cpu_apic_id (cpus sys)
     \<and> (\<forall>p\<in>set ps. cpu_virtual p \<longrightarrow> cpu_stack p \<noteq> None) \<and> fst s = ids" for ps :: "'tss cpu list" and s :: statics
  have "P (cpus sys1) (sys_ids sys1, sys_heap sys1)"
  proof (rule run_keeps [OF assms(3) run])
    show "P (cpus sys) (ids, sys_heap sys)" using assms(4) by (simp add: P_def wf_system_def)
    fix before p rest s1 p' s2
    assume P: "P (before @ p # rest) s1" and cb: "virtualize_cpu (ops_pa ops) (SHARED_HOST_DATA sys1) xcr0_all p s1 = Inr (p', s2)"
    obtain ids1 h1 m1 ids2 h2 m2 where s: "s1 = (ids1, h1, m1)" "s2 = (ids2, h2, m2)" by (cases s1; cases s2) auto
    from virtualize_cpu_stack [OF cb [unfolded s]] P wf_stacks_new [of h1 before p rest m1 _ h2 m2 p']
    show "P (before @ p' # rest) s2" by (auto simp: P_def s)
  qed
  with reg show ?thesis by (auto simp: P_def wf_system_def)
qed

lemma devirtualize_keeps_statics:
  assumes "devirtualize_system xcr0_all current sys = Inr sys1" and "PLATFORM_OPS sys = Some ops" and "length (cpus sys) = n"
  shows "sys_ids sys1 = sys_ids sys \<and> sys_heap sys1 = sys_heap sys \<and> map cpu_apic_id (cpus sys1) = map cpu_apic_id (cpus sys)
    \<and> map cpu_stack (cpus sys1) = map cpu_stack (cpus sys) \<and> (\<forall>i<n. cpu_virtual (cpus sys1 ! i) \<longrightarrow> cpu_virtual (cpus sys ! i))"
proof (cases "is_our_hypervisor_present (cpu_seen (cpus sys ! current))")
  case True
  with assms(1,2) have run: "ops_run ops (hypercall_devirtualize (ops_pa ops) (SHARED_HOST_DATA sys) xcr0_all) (cpus sys) (sys_ids sys, sys_heap sys)
      = Inr (cpus sys1, sys_ids sys1, sys_heap sys1)"
    by (auto simp: devirtualize_system_def rust_simps)
  from assms(3) run have "run_on_all_processors (hypercall_devirtualize (ops_pa ops) (SHARED_HOST_DATA sys) xcr0_all) (cpus sys) (sys_ids sys, sys_heap sys)
      = Inr (cpus sys1, sys_ids sys1, sys_heap sys1)" by (simp add: run_eq)
  from run_on_all_states [OF this, of "\<lambda>s. s = (sys_ids sys, sys_heap sys)"] run_each(1) [OF assms(3) run] assms(3)
  show ?thesis by (auto simp: list_eq_iff_nth_eq dest: hypercall_devirtualize_same)
qed (use assms in \<open>auto simp: devirtualize_system_def\<close>)

lemma devirtualize_keeps_wf:
  assumes "devirtualize_system xcr0_all current sys = Inr sys1" and "PLATFORM_OPS sys = Some ops" and "length (cpus sys) = n"
    and "wf_system sys"
  shows "wf_system sys1 \<and> sys_heap sys1 = sys_heap sys"
proof -
  note same = devirtualize_keeps_statics [OF assms(1-3)]
  then have "wf_stacks (fst (sys_heap sys1)) (cpus sys1)"
    using assms(4) wf_stacks_cong [of "cpus sys1" "cpus sys"] by (simp add: wf_system_def)
  moreover have len: "length (cpus sys1) = n" using same assms(3) by (metis length_map)
  moreover have "cpu_stack p \<noteq> None" if "p \<in> set (cpus sys1)" "cpu_virtual p" for p
  proof -
    from that len obtain i where i: "i < n" "p = cpus sys1 ! i" by (auto simp: in_set_conv_nth)
    then have "cpu_virtual (cpus sys ! i)" "cpu_stack p = cpu_stack (cpus sys ! i)"
      using same that(2) len assms(3) by (auto simp: list_eq_iff_nth_eq)
    with i assms(3,4) show ?thesis by (simp add: wf_system_def)
  qed
  ultimately show ?thesis using same assms(4) by (auto simp: wf_system_def)
qed

end

section \<open>The closure does not loop\<close>

text \<open>
  \<open>cpu_starts\<close>: \<open>host::main\<close> on the processor, with these static variables, starts the guest and
  the guest goes on running.
\<close>

fun cpu_starts :: "(u64 \<Rightarrow> u64) \<Rightarrow> apic_ids \<Rightarrow> 'tss shared_host_data option \<Rightarrow> u64 \<Rightarrow> 'tss cpu \<Rightarrow> bool" where
  "cpu_starts pa ids shd xcr0_all (IntelCpu e c) \<longleftrightarrow>
     (\<exists>m vt g m'. core_mode c = Native m \<and> intel_main pa ids shd xcr0_all e c (core_registers c) m = Inr (Running vt g m'))"
| "cpu_starts pa ids shd xcr0_all (AmdCpu e c) \<longleftrightarrow>
     (\<exists>m vt g m'. core_mode c = Native m \<and> amd_main pa ids shd xcr0_all e c (core_registers c) m = Inr (Running vt g m'))"














text \<open>
  Before the guest runs the code does not wait: what cannot be \<open>NoReturn\<close>.
\<close>

definition ends :: "'a rust \<Rightarrow> bool" where
  "ends m \<longleftrightarrow> m \<noteq> Inl NoReturn"

lemma ends_simps [simp]: "ends (Inr x)" "ends (Inl e) \<longleftrightarrow> e \<noteq> NoReturn"
  by (auto simp: ends_def)


















lemma cpu_starts_virtualized:
  assumes "cpu_starts pa ids shd xcr0_all p" and "jump_with_new_stack heap = Inr (stack, heap1)"
  shows "\<exists>q heap2. virtualize_cpu pa shd xcr0_all p (ids, heap) = Inr (q, ids, heap2)"
  using assms by (cases p) (auto simp: virtualize_current_def Let_def)

lemma one_processor_virtualized:
  assumes "platform ops 1" and "PLATFORM_OPS sys = Some ops" and "cpus sys = [p]" and "sys_ids sys = apic_ids_static"
    and "cpu_starts (ops_pa ops) \<lparr>APIC_ID_MAP = [cpu_apic_id p \<mapsto> 0], PROCESSOR_COUNT = 1\<rparr>
           (call_once shared_host (SHARED_HOST_DATA sys)) xcr0_all p"
    and "\<exists>stack heap. jump_with_new_stack (sys_heap sys) = Inr (stack, heap)"
  shows "\<exists>sys1. virtualize_system xcr0_all shared_host sys = Inr sys1"
proof -
  let ?ids = "\<lparr>APIC_ID_MAP = [cpu_apic_id p \<mapsto> 0], PROCESSOR_COUNT = 1\<rparr>"
  have pl: "platform ops (length [p])" using assms(1) by simp
  then have init: "apic_id_init cpu_apic_id (Some ops) [p] (apic_ids_static, sys_heap sys) = Inr ([p], ?ids, sys_heap sys)"
    using apic_id_init_cases [OF _ registered_static, of ops "[p]" cpu_apic_id "sys_heap sys"]
    by (auto simp: registered_single)
  obtain q heap where "virtualize_cpu (ops_pa ops) (call_once shared_host (SHARED_HOST_DATA sys)) xcr0_all p (?ids, sys_heap sys) = Inr (q, ?ids, heap)"
    using cpu_starts_virtualized [OF assms(5)] assms(6) by blast
  then have "ops_run ops (virtualize_cpu (ops_pa ops) (call_once shared_host (SHARED_HOST_DATA sys)) xcr0_all) [p] (?ids, sys_heap sys)
      = Inr ([q], ?ids, heap)"
    by (simp add: platform.run_eq [OF pl] del: One_nat_def)
  with init assms(2-4) show ?thesis
    by (simp add: virtualize_system_def Let_def del: One_nat_def)
qed

section \<open>An example\<close>

text \<open>A system with one Intel processor, for evaluation.\<close>

definition example_core :: "(Vmx, VmxGuest, vmx_event, vmx_machine) core" where
  "example_core = \<lparr>core_vendor = Some ''GenuineIntel'', core_cpuid = env_cpuid example_env, core_registers = Registers_default,
     core_exits = [], core_hypercall = GuestExit (example_exit 18 0), core_stack = None, core_mode = Native tss_machine\<rparr>"

definition example_heap :: "metadata option \<times> memory" where
  "example_heap = (Some \<lparr>blocks = 0x1000, bitmap4096 = replicate NUMBER_OF_BLOCK_4096 False,
     bitmap128 = replicate NUMBER_OF_BLOCK_128 False\<rparr>, \<lambda>_. 0xcc)"

text \<open>The platform that is the contract itself.\<close>

definition reference_ops :: "(u64 \<Rightarrow> u64) \<Rightarrow> ('p, 's) platform_ops" where
  "reference_ops pa = \<lparr>ops_run = run_on_all_processors, ops_pa = pa\<rparr>"

interpretation reference: hypervisor_platform "reference_ops pa" n for pa n
  by unfold_locales (simp add: reference_ops_def)

definition example_system :: "unit system" where
  "example_system = \<lparr>PLATFORM_OPS = Some (reference_ops id), sys_ids = apic_ids_static, SHARED_HOST_DATA = None, sys_heap = example_heap,
     cpus = [IntelCpu example_env example_core]\<rparr>"

definition example_host_data :: "unit shared_host_data" where
  "example_host_data = \<lparr>host_pt = None, host_idt = None, host_gdts = None\<rparr>"

lemma example_heap_stack: "\<exists>stack heap. jump_with_new_stack (fst example_heap, mem) = Inr (stack, heap)"
  using alloc_first_block [of stack_layout "\<lparr>blocks = 0x1000, bitmap4096 = replicate NUMBER_OF_BLOCK_4096 False,
     bitmap128 = replicate NUMBER_OF_BLOCK_128 False\<rparr>"]
  by (auto simp: example_heap_def jump_with_new_stack_def alloc_zeroed_Some
      free_run_def round_up_by_def pool_defs alloc_consts block4096_def stack_layout_def)

lemma example_stack: "\<exists>stack heap. jump_with_new_stack example_heap = Inr (stack, heap)"
  using example_heap_stack by (metis prod.collapse)

lemma example_seen: "seen_cpuid example_core = env_cpuid example_env"
  "\<not> is_our_hypervisor_present (env_cpuid example_env)"
  by (simp_all add: seen_cpuid_def example_core_def example_env_def is_our_hypervisor_present_def OUR_HV_VENDOR_NAME_EBX_def
      from_ne_bytes_def byte_string_def)

lemma example_fresh: "cpu_fresh id (IntelCpu example_env example_core)"
proof -
  have "vmcall_exit (core_hypercall example_core)"
    by (simp add: vmcall_exit_def example_core_def example_exit_def DEVIRTUALIZE_def Registers_default_def)
  then show ?thesis
    using example_seen(2) by (simp add: example_core_def) (simp add: example_env_def aligned_4k_def)
qed

lemma example_starts:
  "cpu_starts id \<lparr>APIC_ID_MAP = [0 \<mapsto> 0], PROCESSOR_COUNT = 1\<rparr> (Some example_host_data) 7 (IntelCpu example_env example_core)"
proof -
  let ?ids = "\<lparr>APIC_ID_MAP = [0 \<mapsto> 0], PROCESSOR_COUNT = 1\<rparr>"
  have env: "intel_env id (Some example_host_data) (env_cpuid example_env) example_env = example_env"
    by (simp add: intel_env_def example_env_def example_host_data_def)
  obtain vt g m1 where core: "virtualize_core (vmx_arch example_env) (env_cpuid example_env) 7 ?ids Registers_default [] tss_machine
      = Inr (Running vt g m1)" using example_virtualized by blast
  have c: "core_vendor example_core = Some ''GenuineIntel''" "core_cpuid example_core = env_cpuid example_env"
    "core_registers example_core = Registers_default" "core_exits example_core = []" "core_mode example_core = Native tss_machine"
    by (simp_all add: example_core_def)
  have "intel_main id ?ids (Some example_host_data) 7 example_env example_core Registers_default tss_machine = Inr (Running vt g m1)"
    unfolding intel_main_def c env core by (simp add: by_vendor_def unwrap_def)
  then show ?thesis by (auto simp: c)
qed

lemma example_apic_id: "cpu_apic_id (IntelCpu example_env example_core) = 0"
  by (simp add: cpu_apic_id_def example_seen apic_id_get_def) (simp add: example_env_def)

lemma example_on_platform:
  assumes "platform ops 1" and "ops_pa ops = id"
  shows "\<exists>sys1. virtualize_system 7 example_host_data (example_system\<lparr>PLATFORM_OPS := Some ops\<rparr>) = Inr sys1"
  by (rule one_processor_virtualized [OF assms(1)])
    (use example_stack example_starts assms(2) in \<open>auto simp: example_system_def example_apic_id call_once_def\<close>)

lemma example_platform: "platform (reference_ops pa) n"
  by unfold_locales (simp add: reference_ops_def)

lemma example_system_virtualized:
  "\<exists>sys1. virtualize_system 7 example_host_data example_system = Inr sys1"
  using example_on_platform [OF example_platform, of id] by (simp add: reference_ops_def example_system_def)

lemma example_wf: "wf_system example_system"
  using registered_static
  by (simp add: wf_system_def wf_stacks_def example_system_def example_heap_def example_core_def wf_meta_def)

section \<open>Properties\<close>

text \<open>
  C1. Loading and unloading the hypervisor on all processors, on any platform whose
  \<open>run_on_all_processors\<close> meets its contract. If \<open>virtualize_system\<close> returns,
  every processor runs as a guest that detects the hypervisor. After any VM exits that the
  hosts have handled, \<open>devirtualize_system\<close>, called on any processor, then returns, and every
  processor is native again: it has left VMX operation, or has its old EFER on AMD, and no
  longer detects the hypervisor. A second \<open>devirtualize_system\<close> changes nothing.
\<close>

theorem system_roundtrip:
  assumes "virtualize_system xcr0_all shared_host sys = Inr sys1" and "PLATFORM_OPS sys = Some ops" and "platform ops (length (cpus sys))"
    and "\<forall>p\<in>set (cpus sys). cpu_fresh (ops_pa ops) p" and "current < length (cpus sys)"
  shows "length (cpus sys1) = length (cpus sys)
    \<and> (\<forall>p\<in>set (cpus sys1). cpu_virtual p \<and> is_our_hypervisor_present (cpu_seen p))
    \<and> (\<exists>sys2. devirtualize_system xcr0_all current sys1 = Inr sys2 \<and> length (cpus sys2) = length (cpus sys)
        \<and> (\<forall>i<length (cpus sys). released (cpus sys ! i) (cpus sys2 ! i))
        \<and> (\<forall>p\<in>set (cpus sys2). \<not> cpu_virtual p \<and> \<not> is_our_hypervisor_present (cpu_seen p))
        \<and> devirtualize_system xcr0_all current sys2 = Inr sys2)"
  using hypervisor_platform.system_there_and_back [OF hypervisor_platform.intro [OF assms(3)] assms(1,2) refl assms(4,5)] .

theorem system_roundtrip_witness:
  "\<exists>sys1 sys2. virtualize_system 7 example_host_data example_system = Inr sys1 \<and> cpu_virtual (cpus sys1 ! 0)
     \<and> devirtualize_system 7 0 sys1 = Inr sys2 \<and> released (IntelCpu example_env example_core) (cpus sys2 ! 0)"
proof -
  obtain sys1 where v: "virtualize_system 7 example_host_data example_system = Inr sys1"
    using example_system_virtualized by blast
  have ops: "PLATFORM_OPS example_system = Some (reference_ops id)" and ps: "cpus example_system = [IntelCpu example_env example_core]"
    by (simp_all add: example_system_def)
  have "\<forall>p\<in>set (cpus example_system). cpu_fresh (ops_pa (reference_ops id)) p"
    using example_fresh by (simp add: ps reference_ops_def)
  from system_roundtrip [OF v ops example_platform this, of 0] v ps show ?thesis by auto
qed

text \<open>
  C29. \<open>virtualize_system\<close> works only once: when it returned on a system with a processor, the
  processors were given the numbers of their order, the host data is that of the first
  caller, and every later call, before or after \<open>devirtualize_system\<close>, panics because the
  processor count is never reset.
\<close>

theorem virtualize_system_once:
  assumes "virtualize_system xcr0_all shared_host sys = Inr sys1" and "cpus sys \<noteq> []" and "sys_ids sys = apic_ids_static"
    and "PLATFORM_OPS sys = Some ops" and "platform ops (length (cpus sys))"
    and "sys2 = sys1 \<or> devirtualize_system xcr0_all current sys1 = Inr sys2"
  shows "distinct (map cpu_apic_id (cpus sys))
    \<and> (\<forall>i<length (cpus sys). processor_id_from (cpu_apic_id (cpus sys ! i)) (sys_ids sys1) = Some i)
    \<and> SHARED_HOST_DATA sys1 = (case SHARED_HOST_DATA sys of None \<Rightarrow> Some shared_host | Some d \<Rightarrow> Some d)
    \<and> virtualize_system xcr0_all other sys2 = Inl (AssertFailed ''PROCESSOR_COUNT == 0'')"
proof -
  note hp = hypervisor_platform.intro [OF assms(5)]
  obtain ids where init: "apic_id_init cpu_apic_id (Some ops) (cpus sys) (sys_ids sys, sys_heap sys) = Inr (cpus sys, ids, sys_heap sys)"
    and shd: "SHARED_HOST_DATA sys1 = call_once shared_host (SHARED_HOST_DATA sys)" and ops1: "PLATFORM_OPS sys1 = Some ops"
    and run: "ops_run ops (virtualize_cpu (ops_pa ops) (SHARED_HOST_DATA sys1) xcr0_all) (cpus sys) (ids, sys_heap sys)
           = Inr (cpus sys1, sys_ids sys1, sys_heap sys1)"
    using hypervisor_platform.virtualize_system_parts [OF hp assms(1,4) refl] .
  from apic_id_init_Inr [OF init assms(5)] registered_static assms(3)
  have reg: "registered (map cpu_apic_id (cpus sys)) ids" by simp
  have ids: "sys_ids sys1 = ids" using hypervisor_platform.run_fixes(1) [OF hp run refl] .
  have "length (cpus sys1) = length (cpus sys)" using platform.run_each(1) [OF assms(5) refl run] .
  then have "platform ops (length (cpus sys1))" using assms(5) by simp
  from hypervisor_platform.devirtualize_keeps_statics [OF hypervisor_platform.intro [OF this] _ ops1 refl] assms(6)
  have "sys_ids sys2 = ids" by (auto simp: ids)
  then have "PROCESSOR_COUNT (sys_ids sys2) \<noteq> 0"
    using reg assms(2) by (simp add: registered_def)
  then have "virtualize_system xcr0_all other sys2 = Inl (AssertFailed ''PROCESSOR_COUNT == 0'')"
    by (simp add: virtualize_system_def apic_id_init_counted)
  moreover have "distinct (map cpu_apic_id (cpus sys))" using reg by (simp add: registered_def)
  moreover have "processor_id_from (cpu_apic_id (cpus sys ! i)) ids = Some i" if "i < length (cpus sys)" for i
    using registered_nth [OF reg, of i] that by simp
  ultimately show ?thesis using shd by (simp add: ids call_once_def)
qed

theorem virtualize_system_once_witness:
  "\<exists>sys1. virtualize_system 7 example_host_data example_system = Inr sys1
     \<and> processor_id_from 0 (sys_ids sys1) = Some 0
     \<and> virtualize_system 7 example_host_data sys1 = Inl (AssertFailed ''PROCESSOR_COUNT == 0'')"
proof -
  obtain sys1 where v: "virtualize_system 7 example_host_data example_system = Inr sys1"
    using example_system_virtualized by blast
  have "cpus example_system = [IntelCpu example_env example_core]" "sys_ids example_system = apic_ids_static"
    "PLATFORM_OPS example_system = Some (reference_ops id)"
    by (simp_all add: example_system_def)
  with virtualize_system_once [OF v _ _ _ example_platform, where ?sys2.0 = sys1] v show ?thesis by (auto simp: example_apic_id)
qed

text \<open>
  C2. The state of the system stays well-formed. The allocator's bitmaps have their sizes,
  the processors are registered in order or not at all, every processor that runs as a guest
  has a host stack, and all host stacks are aligned for a function entry, lie in allocated
  memory and do not overlap. \<open>virtualize_system\<close> and \<open>devirtualize_system\<close> keep this;
  \<open>devirtualize_system\<close> does not free the stacks.
\<close>

theorem system_wf_preserved:
  assumes "wf_system sys" and "PLATFORM_OPS sys = Some ops" and "platform ops (length (cpus sys))"
  shows "(virtualize_system xcr0_all shared_host sys = Inr sys1 \<longrightarrow> wf_system sys1)
    \<and> (devirtualize_system xcr0_all current sys = Inr sys2 \<longrightarrow> wf_system sys2 \<and> sys_heap sys2 = sys_heap sys)"
  using hypervisor_platform.virtualize_keeps_wf [OF hypervisor_platform.intro [OF assms(3)] _ assms(2) refl assms(1)]
    hypervisor_platform.devirtualize_keeps_wf [OF hypervisor_platform.intro [OF assms(3)] _ assms(2) refl assms(1)]
  by blast

theorem system_wf_preserved_witness:
  "\<exists>sys1. virtualize_system 7 example_host_data example_system = Inr sys1 \<and> wf_system sys1"
proof -
  obtain sys1 where v: "virtualize_system 7 example_host_data example_system = Inr sys1"
    using example_system_virtualized by blast
  from system_wf_preserved [OF example_wf, of "reference_ops id" 7 example_host_data sys1] v example_platform show ?thesis
    by (auto simp: example_system_def)
qed



end
