(* ===== verification/Windows.thy ===== *)
theory Windows
  imports System_Properties
begin

unbundle bit_operations_syntax

text \<open>
  The Windows driver, \<open>windows/win_hv/src/lib.rs\<close> and \<open>ops.rs\<close>. The services of the Windows kernel
  are the fields of a record, with their documented results as the locale \<open>windows_kernel\<close>; a
  kernel with these results makes the driver's \<open>WindowsOps\<close> a platform in the sense of the
  hypervisor. Messages to the debugger and the registration of their logger (\<open>logger::init\<close>, whose own
  model is \<open>dbg_logger_init\<close> of the theory \<open>Logging\<close>), the assertion of \<open>PAGED_CODE\<close>, which exists in checked
  builds of the kernel headers only, and the small allocations of the standard library are
  left out.
\<close>

section \<open>Definitions\<close>

subsection \<open>Running on all processors\<close>

text \<open>
  The current thread, and the kernel: the result of \<open>ExAllocatePool2\<close>, the active processors
  (\<open>KeQueryActiveProcessorCountEx\<close>), \<open>KeGetProcessorNumberFromIndex\<close> with \<open>None\<close> for a failure status,
  the processor on which a thread with a group affinity runs, and \<open>MmGetPhysicalAddress\<close>.
\<close>

record thread =
  thread_affinity :: "u16 \<times> u64"
  thread_irql :: nat

record win_kernel =
  wk_pool :: nat
  wk_count :: nat
  wk_number_of :: "nat \<Rightarrow> (u16 \<times> u8) option"
  wk_processor_of :: "u16 \<times> u64 \<Rightarrow> nat"
  wk_pa :: "u64 \<Rightarrow> u64"

definition DISPATCH_LEVEL :: nat where "DISPATCH_LEVEL = 2"

definition windows_on_processor ::
  "bool \<Rightarrow> win_kernel \<Rightarrow> ('p, 's) callback \<Rightarrow> nat \<Rightarrow> 'p list \<times> 's \<times> thread \<Rightarrow> ('p list \<times> 's \<times> thread) rust" where
  "windows_on_processor oc k callback index st =
     (case st of (ps, s, th) \<Rightarrow>
      case wk_number_of k index of
        None \<Rightarrow> Inl (AssertFailed ''NT_SUCCESS(status)'')
      | Some (grp, number) \<Rightarrow>
          and_then (shl_checked oc 1 (unat number)) (\<lambda>mask.
          let old_affinity = thread_affinity th;
              th1 = th\<lparr>thread_affinity := (grp, mask)\<rparr>;
              old_irql = thread_irql th1;
              th2 = th1\<lparr>thread_irql := DISPATCH_LEVEL\<rparr>;
              current = wk_processor_of k (thread_affinity th2) in
          and_then (callback (ps ! current) s) (\<lambda>(p', s').
          let th3 = th2\<lparr>thread_irql := old_irql\<rparr>;
              th4 = th3\<lparr>thread_affinity := old_affinity\<rparr>
          in Inr (ps[current := p'], s', th4))))"

fun windows_loop ::
  "(nat \<Rightarrow> 'st \<Rightarrow> 'st rust) \<Rightarrow> nat list \<Rightarrow> 'st \<Rightarrow> 'st rust" where
  "windows_loop body [] st = Inr st"
| "windows_loop body (index # rest) st = and_then (body index st) (windows_loop body rest)"

definition windows_run_on_all_processors ::
  "bool \<Rightarrow> win_kernel \<Rightarrow> ('p, 's) callback \<Rightarrow> 'p list \<times> 's \<times> thread \<Rightarrow> ('p list \<times> 's \<times> thread) rust" where
  "windows_run_on_all_processors oc k callback st =
     windows_loop (windows_on_processor oc k callback) [0..<wk_count k] st"

text \<open>\<open>WindowsOps\<close>, used on the thread \<open>th\<close>\<close>

definition windows_ops :: "bool \<Rightarrow> win_kernel \<Rightarrow> thread \<Rightarrow> ('p, 's) platform_ops" where
  "windows_ops oc k th =
     \<lparr>ops_run = (\<lambda>callback ps s. and_then (windows_run_on_all_processors oc k callback (ps, s, th)) (\<lambda>(ps', s', th'). Inr (ps', s'))),
      ops_pa = wk_pa k\<rparr>"

subsection \<open>The driver\<close>

definition STATUS_SUCCESS :: u32 where "STATUS_SUCCESS = 0"
definition STATUS_INSUFFICIENT_RESOURCES :: u32 where "STATUS_INSUFFICIENT_RESOURCES = 0xc000009a"

text \<open>\<open>SharedHostData::default()\<close>\<close>

definition SharedHostData_default :: "'tss shared_host_data" where
  "SharedHostData_default = \<lparr>host_pt = None, host_idt = None, host_gdts = None\<rparr>"

definition driver_unload :: "u64 \<Rightarrow> nat \<Rightarrow> 'tss system \<Rightarrow> 'tss system rust" where
  "driver_unload xcr0_all current sys = devirtualize_system xcr0_all current sys"

text \<open>The entry point. The driver object holds the routine that unloads the driver.\<close>

record 'tss driver_object =
  DriverUnload :: "(nat \<Rightarrow> 'tss system \<Rightarrow> 'tss system rust) option"

definition driver_entry ::
  "bool \<Rightarrow> u64 \<Rightarrow> win_kernel \<Rightarrow> thread \<Rightarrow> 'tss driver_object \<Rightarrow> 'tss system \<Rightarrow> (u32 \<times> 'tss driver_object \<times> 'tss system) rust" where
  "driver_entry oc xcr0_all k th driver sys =
     (let driver1 = driver\<lparr>DriverUnload := Some (driver_unload xcr0_all)\<rparr>;
          ptr = wk_pool k in
      if ptr = 0 then Inr (STATUS_INSUFFICIENT_RESOURCES, driver1, sys)
      else
        and_then (Allocator.init ptr (fst (sys_heap sys))) (\<lambda>METADATA.
        let sys1 = sys\<lparr>sys_heap := (METADATA, snd (sys_heap sys)),
                       PLATFORM_OPS := platform_ops_init (windows_ops oc k th) (PLATFORM_OPS sys)\<rparr> in
        and_then (virtualize_system xcr0_all SharedHostData_default sys1) (\<lambda>sys2.
        Inr (STATUS_SUCCESS, driver1, sys2))))"

section \<open>The kernel and the contract of the platform\<close>

text \<open>
  What the driver relies on: every index below the number of active processors has a
  processor number, and a thread bound to it runs on that processor.
\<close>

locale windows_kernel =
  fixes k :: win_kernel
  assumes processors: "i < wk_count k \<Longrightarrow> \<exists>grp number. wk_number_of k i = Some (grp, number) \<and> unat number < 64
             \<and> wk_processor_of k (grp, push_bit (unat number) 1) = i"
begin

lemma windows_step:
  assumes "length before < wk_count k"
  shows "windows_on_processor oc k callback (length before) (before @ p # ps, s, th) =
     and_then (callback p s) (\<lambda>(p', s'). Inr (before @ p' # ps, s', th))"
  using processors [OF assms] by (cases "callback p s") (auto simp: windows_on_processor_def shl_checked_def Let_def)

lemma windows_loop_run:
  assumes "length before + length ps = wk_count k"
  shows "windows_loop (windows_on_processor oc k callback) [length before..<wk_count k] (before @ ps, s, th) =
     and_then (run_on_all_processors callback ps s) (\<lambda>(ps', s'). Inr (before @ ps', s', th))"
  using assms
proof (induction ps arbitrary: before s)
  case (Cons p ps)
  let ?k = "length before"
  from Cons.prems have k: "?k < wk_count k" and upt: "[?k..<wk_count k] = ?k # [Suc ?k..<wk_count k]" by (simp_all add: upt_conv_Cons)
  note step = windows_step [OF k, of oc callback p ps s th]
  show ?case
  proof (cases "callback p s")
    case (Inr res)
    obtain p' s' where res: "res = (p', s')" by (cases res)
    have "windows_loop (windows_on_processor oc k callback) [Suc ?k..<wk_count k] (before @ p' # ps, s', th) =
       and_then (run_on_all_processors callback ps s') (\<lambda>(ps', s''). Inr (before @ p' # ps', s'', th))"
      using Cons.IH [of "before @ [p']" s'] Cons.prems by simp
    with step Inr res show ?thesis by (simp add: upt and_then_assoc split_def)
  next
    case (Inl x)
    with step show ?thesis by (simp add: upt)
  qed
qed simp

lemma windows_run_eq:
  assumes "length ps = wk_count k"
  shows "windows_run_on_all_processors oc k callback (ps, s, th) =
     and_then (run_on_all_processors callback ps s) (\<lambda>(ps', s'). Inr (ps', s', th))"
  using windows_loop_run [of "[]" ps oc callback s th] assms by (simp add: windows_run_on_all_processors_def)

end

sublocale windows_kernel \<subseteq> hypervisor_platform "windows_ops oc k th" "wk_count k" for oc th
  by unfold_locales (simp add: windows_ops_def windows_run_eq and_then_assoc split_def)

context windows_kernel
begin

lemma driver_there_and_back:
  assumes "driver_entry oc xcr0_all k th driver sys = Inr (status, driver1, sys1)" and "PLATFORM_OPS sys = None"
    and "fst (sys_heap sys) = None" and "wk_pool k \<noteq> 0" and "length (cpus sys) = wk_count k"
    and "\<forall>p\<in>set (cpus sys). cpu_fresh (wk_pa k) p" and "current < wk_count k"
  shows "status = STATUS_SUCCESS \<and> wk_pool k mod 8 = 0 \<and> (\<forall>p\<in>set (cpus sys1). cpu_virtual p)
      \<and> (\<exists>sys2. driver_unload xcr0_all current sys1 = Inr sys2
          \<and> (\<forall>i<length (cpus sys). released (cpus sys ! i) (cpus sys2 ! i)))"
proof -
  from assms(1-4) obtain METADATA where i: "Allocator.init (wk_pool k) None = Inr METADATA" and st: "status = STATUS_SUCCESS"
    and v: "virtualize_system xcr0_all SharedHostData_default
        (sys\<lparr>sys_heap := (METADATA, snd (sys_heap sys)), PLATFORM_OPS := Some (windows_ops oc k th)\<rparr>) = Inr sys1"
    by (auto simp: driver_entry_def rust_simps platform_ops_init_def call_once_def Let_def)
  from i have "wk_pool k mod 8 = 0" by (auto simp: Allocator.init_def Metadata_new_def assert_that_def rust_simps split: if_splits)
  with system_there_and_back [OF v, where oc = oc and th = th and current = current] assms(5-7) st show ?thesis
    by (auto simp: driver_unload_def windows_ops_def)
qed

end

text \<open>A kernel with groups of 64 processors, up to 2048 of them.\<close>

definition group_kernel :: "nat \<Rightarrow> win_kernel" where
  "group_kernel pool =
     \<lparr>wk_pool = pool, wk_count = 2048, wk_number_of = (\<lambda>i. Some (of_nat (i div 64), of_nat (i mod 64))),
      wk_processor_of = (\<lambda>(grp, affinity). 64 * unat grp + length (takeWhile (\<lambda>b. \<not> bit affinity b) [0..<64])),
      wk_pa = id\<rparr>"

lemma takeWhile_single_bit:
  assumes "n < 64"
  shows "length (takeWhile (\<lambda>b. \<not> bit (2 ^ n :: u64) b) [0..<64]) = n"
proof -
  have "[0..<64] = [0..<n] @ n # [Suc n..<64]"
    using upt_add_eq_append [of 0 n "64 - n"] assms by (simp add: upt_conv_Cons)
  then show ?thesis using assms by (auto simp: takeWhile_append bit_simps)
qed

interpretation groups: windows_kernel "group_kernel pool" for pool
proof
  fix i assume "i < wk_count (group_kernel pool)"
  then have i: "i div 64 < 2 ^ 16" "i mod 64 < 64" by (simp_all add: group_kernel_def)
  then have "unat (of_nat (i div 64) :: u16) = i div 64" "unat (of_nat (i mod 64) :: u8) = i mod 64"
    by (simp_all add: unat_of_nat)
  then show "\<exists>grp number. wk_number_of (group_kernel pool) i = Some (grp, number) \<and> unat number < 64
      \<and> wk_processor_of (group_kernel pool) (grp, push_bit (unat number) 1) = i"
    using i(2) by (simp add: group_kernel_def takeWhile_single_bit)
qed

section \<open>Properties\<close>

text \<open>
  C30. The Windows implementation of \<open>run_on_all_processors\<close> meets the contract that the
  hypervisor relies on: when the kernel gives every index a processor number and a thread
  bound to it runs there, the callback runs on every processor once, in order, and the
  affinity and the IRQL of the calling thread are as before.
\<close>

theorem windows_runs_on_all:
  assumes "\<And>i. i < wk_count k \<Longrightarrow> \<exists>grp number. wk_number_of k i = Some (grp, number) \<and> unat number < 64
             \<and> wk_processor_of k (grp, push_bit (unat number) 1) = i"
    and "length ps = wk_count k"
  shows "windows_run_on_all_processors oc k callback (ps, s, th) =
     and_then (run_on_all_processors callback ps s) (\<lambda>(ps', s'). Inr (ps', s', th))"
  using windows_kernel.windows_run_eq [OF windows_kernel.intro [OF assms(1)] assms(2)] .

theorem windows_runs_on_all_witness:
  "windows_run_on_all_processors True (group_kernel 0\<lparr>wk_count := 2\<rparr>)
       (\<lambda>p s. Inr (p + 1, s @ [p])) ([10, 20 :: nat], [], \<lparr>thread_affinity = (0, 0xff), thread_irql = 0\<rparr>)
     = Inr ([11, 21], [10, 20], \<lparr>thread_affinity = (0, 0xff), thread_irql = 0\<rparr>)"
proof -
  have "\<exists>grp number. wk_number_of (group_kernel 0\<lparr>wk_count := 2\<rparr>) i = Some (grp, number) \<and> unat number < 64
      \<and> wk_processor_of (group_kernel 0\<lparr>wk_count := 2\<rparr>) (grp, push_bit (unat number) 1) = i"
    if "i < wk_count (group_kernel 0\<lparr>wk_count := 2\<rparr>)" for i
    using that groups.processors [where i = i and pool = 0] by (simp add: group_kernel_def)
  from windows_runs_on_all [OF this, of "[10, 20 :: nat]" True "\<lambda>p s. Inr (p + 1, s @ [p])" "[]"]
  show ?thesis by simp
qed

text \<open>
  C31. Loading and unloading the Windows driver, on a kernel that keeps its contract. Without
  memory the driver fails to load with an error status and changes nothing. When it loads,
  every processor is virtualized on a heap in the memory of the pool; the unload routine that
  it stored in the driver object then returns and makes every processor native again.
\<close>

theorem driver_load_unload:
  assumes "driver_entry oc xcr0_all k th driver sys = Inr (status, driver1, sys1)" and "windows_kernel k"
    and "PLATFORM_OPS sys = None" and "fst (sys_heap sys) = None" and "length (cpus sys) = wk_count k"
    and "\<forall>p\<in>set (cpus sys). cpu_fresh (wk_pa k) p" and "current < wk_count k"
  shows "if wk_pool k = 0 then status = STATUS_INSUFFICIENT_RESOURCES \<and> sys1 = sys
    else status = STATUS_SUCCESS \<and> wk_pool k mod 8 = 0 \<and> (\<forall>p\<in>set (cpus sys1). cpu_virtual p)
      \<and> (\<exists>unload sys2. DriverUnload driver1 = Some unload \<and> unload current sys1 = Inr sys2
          \<and> (\<forall>i<length (cpus sys). released (cpus sys ! i) (cpus sys2 ! i)))"
proof (cases "wk_pool k = 0")
  case True
  with assms(1) show ?thesis by (simp add: driver_entry_def Let_def)
next
  case False
  from assms(1) have "DriverUnload driver1 = Some (driver_unload xcr0_all)"
    using False by (auto simp: driver_entry_def rust_simps Let_def)
  with windows_kernel.driver_there_and_back [OF assms(2,1,3,4) False assms(5-7)] False show ?thesis by simp
qed

text \<open>The example of the theory \<open>System_Properties\<close> under the driver.\<close>

definition example_kernel :: win_kernel where
  "example_kernel = group_kernel 0x1000\<lparr>wk_count := 1\<rparr>"

interpretation example_kernel: windows_kernel example_kernel
  by unfold_locales (use takeWhile_single_bit [of 0] in \<open>simp add: example_kernel_def group_kernel_def\<close>)

theorem driver_load_unload_witness:
  "\<exists>driver1 sys1 unload sys2. driver_entry True 7 example_kernel \<lparr>thread_affinity = (0, 1), thread_irql = 0\<rparr> \<lparr>DriverUnload = None\<rparr>
       (example_system\<lparr>PLATFORM_OPS := None, sys_heap := (None, \<lambda>_. 0xcc)\<rparr>) = Inr (STATUS_SUCCESS, driver1, sys1)
     \<and> DriverUnload driver1 = Some unload \<and> unload 0 sys1 = Inr sys2 \<and> released (IntelCpu example_env example_core) (cpus sys2 ! 0)"
proof -
  let ?sys = "example_system\<lparr>PLATFORM_OPS := None, sys_heap := (None, \<lambda>_. 0xcc)\<rparr>" and ?th = "\<lparr>thread_affinity = (0, 1), thread_irql = 0\<rparr>"
  let ?ops = "windows_ops True example_kernel ?th"
  have k: "wk_pool example_kernel = 0x1000" "wk_count example_kernel = 1" "wk_pa example_kernel = id"
    by (simp_all add: example_kernel_def group_kernel_def)
  have "?sys\<lparr>sys_heap := example_heap, PLATFORM_OPS := Some ?ops\<rparr> = example_system\<lparr>PLATFORM_OPS := Some ?ops\<rparr>"
    by (simp add: example_system_def)
  moreover obtain sys1' where "virtualize_system 7 example_host_data (example_system\<lparr>PLATFORM_OPS := Some ?ops\<rparr>) = Inr sys1'"
    using example_on_platform [of ?ops] example_kernel.platform_axioms [of True ?th] k by (auto simp: windows_ops_def)
  ultimately obtain driver1 where e: "driver_entry True 7 example_kernel ?th \<lparr>DriverUnload = None\<rparr> ?sys = Inr (STATUS_SUCCESS, driver1, sys1')"
    by (auto simp: driver_entry_def Allocator.init_def Metadata_new_def platform_ops_init_def call_once_def
        example_heap_def SharedHostData_default_def example_host_data_def k Let_def)
  have "cpus ?sys = [IntelCpu example_env example_core]" by (simp add: example_system_def)
  with driver_load_unload [OF e example_kernel.windows_kernel_axioms, of 0] e example_fresh k show ?thesis by auto
qed

end
