(* ===== verification/Uefi.thy ===== *)
theory Uefi
  imports System_Properties
begin

unbundle bit_operations_syntax

text \<open>
  The UEFI application, \<open>uefi/uefi_hv/src/main.rs\<close> and \<open>ops.rs\<close>. The boot services are the fields
  of a record, with the results that the multiprocessor services document as the locale
  \<open>uefi_firmware\<close>; such a firmware makes \<open>UefiOps\<close> a platform in the sense of the hypervisor.
  Console output and the registration of the logger (\<open>init_serial_logger\<close>, whose own model is
  \<open>serial_logger_init\<close> of the theory \<open>Logging\<close>) are left out.
\<close>

section \<open>Definitions\<close>

subsection \<open>Running on all processors\<close>

text \<open>
  \<open>run_on_all_processors\<close> of \<open>UefiOps\<close>: the callback on the boot processor, then \<open>startup_all_aps\<close> in
  single thread mode, which runs it on the application processors one by one when it
  returns success. \<open>mp_services\<close> says whether the protocol is found.
\<close>

datatype Status = SUCCESS | NOT_STARTED | Failure u64

definition startup_all_aps ::
  "Status \<Rightarrow> ('p, 's) callback \<Rightarrow> 'p list \<Rightarrow> 's \<Rightarrow> (Status \<times> 'p list \<times> 's) rust" where
  "startup_all_aps status callback aps s =
     (if status = SUCCESS then and_then (run_on_all_processors callback aps s) (\<lambda>(aps', s'). Inr (status, aps', s'))
      else Inr (status, aps, s))"

definition uefi_run_on_all_processors ::
  "unit option \<Rightarrow> Status \<Rightarrow> ('p, 's) callback \<Rightarrow> 'p \<Rightarrow> 'p list \<Rightarrow> 's \<Rightarrow> ('p list \<times> 's) rust" where
  "uefi_run_on_all_processors mp_services status callback bsp aps s =
     and_then (unwrap ''get_handle_for_protocol'' mp_services) (\<lambda>_.
     and_then (callback bsp s) (\<lambda>(bsp', s1).
     and_then (startup_all_aps status callback aps s1) (\<lambda>(res, aps', s2).
     and_then (assert_that (res = SUCCESS \<or> res = NOT_STARTED) ''e.status() == Status::NOT_STARTED'') (\<lambda>_.
     Inr (bsp' # aps', s2)))))"

text \<open>
  The boot services and the \<open>x86\<close> crate: the results of \<open>allocate_pages\<close>, \<open>LoadedImage::info\<close> and the
  multiprocessor services; the addresses of the boxes, those that \<open>main\<close> leaks by the APIC ID
  of the processor, with the GDT first; and the crate's TSS.
\<close>

record 'tss firmware =
  fw_pages :: "Status + nat"
  fw_image :: "Status + u64 \<times> u64"
  fw_mp :: "unit option"
  fw_startup :: Status
  fw_enabled :: "Status + nat"
  fw_gdt_boxes :: "u8 \<Rightarrow> u64 \<times> u64"
  fw_host_boxes :: "nat \<Rightarrow> u64 \<times> u64"
  fw_idt_pt_boxes :: "u64 \<times> u64"
  fw_handler0 :: u64
  fw_read_tss :: "u64 \<Rightarrow> 'tss"
  fw_tss_descriptor :: "u64 \<Rightarrow> u64 \<Rightarrow> u64"
  fw_tss_new :: 'tss

text \<open>\<open>UefiOps\<close>; the first processor of the list is the boot processor.\<close>

definition uefi_ops :: "'tss firmware \<Rightarrow> ('p, 's) platform_ops" where
  "uefi_ops fw =
     \<lparr>ops_run = (\<lambda>callback ps s. uefi_run_on_all_processors (fw_mp fw) (fw_startup fw) callback (hd ps) (tl ps) s),
      ops_pa = (\<lambda>va. va)\<rparr>"

subsection \<open>The parts of main\<close>

text \<open>
  The GDT with a TSS that \<open>main\<close> gives to each Intel processor. The boxed table is leaked, so it
  stays in memory at \<open>gdt_addr\<close>.
\<close>

definition write_table :: "u64 \<Rightarrow> u64 list \<Rightarrow> (u64 \<Rightarrow> u64) \<Rightarrow> u64 \<Rightarrow> u64" where
  "write_table addr xs mem = (\<lambda>a. case find (\<lambda>i. a = addr + of_nat (8 * i)) [0..<length xs] of Some i \<Rightarrow> xs ! i | None \<Rightarrow> mem a)"

definition add_tss ::
  "bool \<Rightarrow> (u64 \<Rightarrow> 'tss) \<Rightarrow> (u64 \<Rightarrow> u64 \<Rightarrow> u64) \<Rightarrow> u64 \<Rightarrow> u64 \<Rightarrow> 'tss \<Rightarrow> 'm machine_scheme \<Rightarrow> 'm machine_scheme rust" where
  "add_tss oc read_tss tss_descriptor gdt_addr tss_addr tss_new m =
     and_then (new_from_current oc read_tss m) (\<lambda>new_gdt.
     let g = append_tss tss_descriptor tss_addr tss_new new_gdt;
         m1 = m\<lparr>mem64 := write_table gdt_addr (gt_gdt g) (mem64 m)\<rparr> in
     case gdt_apply gdt_addr g m1 of
       Inl e \<Rightarrow> Inl (UnwrapFailed ''apply'')
     | Inr m2 \<Rightarrow> Inr m2)"

text \<open>
  \<open>create_shared_host_data\<close>: the boxes lie at the given addresses, \<open>count\<close> is the result of
  \<open>processor_count\<close>. The paging structures themselves are the second part of the result.
\<close>

definition create_shared_host_data ::
  "bool \<Rightarrow> (u64 \<Rightarrow> 'tss) \<Rightarrow> (u64 \<Rightarrow> u64) \<Rightarrow> Status + nat \<Rightarrow> (nat \<Rightarrow> u64 \<times> u64) \<Rightarrow> u64 \<times> u64 \<Rightarrow> u64 \<Rightarrow> 'm machine_scheme
     \<Rightarrow> (Status + 'tss shared_host_data \<times> paging_structures) rust" where
  "create_shared_host_data oc read_tss pa_of count gdt_addrs idt_pt_addrs asm_interrupt_handler0 m =
     and_then (new_from_current oc read_tss m) (\<lambda>gdt_tss.
     case count of
       Inl e \<Rightarrow> Inr (Inl e)
     | Inr n \<Rightarrow>
         let host_gdt_tss = map (\<lambda>i. \<lparr>hg_raw = gdt_tss, hg_gdt_addr = fst (gdt_addrs i), hg_tss_addr = snd (gdt_addrs i)\<rparr>) [0..<n] in
         and_then (gdt_of 0 host_gdt_tss) (\<lambda>first.
         let host_idt = idt_new asm_interrupt_handler0 (gt_cs (hg_raw first));
             host_pt = build_identity pa_of (snd idt_pt_addrs) PagingStructures_new
         in Inr (Inr (\<lparr>host_pt = Some (snd idt_pt_addrs), host_idt = Some (fst idt_pt_addrs, host_idt),
                        host_gdts = Some host_gdt_tss\<rparr>, host_pt))))"

text \<open>The additions are checked like every addition of the source.\<close>

definition zap_relocation_table :: "bool \<Rightarrow> Status + u64 \<times> u64 \<Rightarrow> memory \<Rightarrow> (Status + memory) rust" where
  "zap_relocation_table oc loaded_image mem =
     (case loaded_image of
        Inl e \<Rightarrow> Inr (Inl e)
      | Inr (image_base, image_size) \<Rightarrow>
          and_then (add_checked oc image_base image_size) (\<lambda>image_end.
          and_then (add_checked oc image_base 0x128) (\<lambda>rva.
          and_then (add_checked oc image_base 0x12c) (\<lambda>sz.
          Inr (Inr (zero_bytes (unat sz) 4 (zero_bytes (unat rva) 4 mem)))))))"

text \<open>
  The closure of \<open>main\<close> and \<open>create_shared_host_data\<close> on a processor of either vendor. The
  descriptor tables of a processor that runs as a guest are in the control structures of its
  guest: the application is modelled on native processors.
\<close>

definition native_machine :: "('v, 'g, 'm) mode \<Rightarrow> 'm rust" where
  "native_machine md = (case md of Native m \<Rightarrow> Inr m | Virtual vt g m \<Rightarrow> Inl (ExplicitPanic ''runs as a guest''))"

definition add_tss_core ::
  "bool \<Rightarrow> 'tss firmware \<Rightarrow> u8 \<Rightarrow> ('v, 'g, 'ev, 'm machine_scheme) core \<Rightarrow> ('v, 'g, 'ev, 'm machine_scheme) core rust" where
  "add_tss_core oc fw apic_id c =
     and_then (native_machine (core_mode c)) (\<lambda>m.
     and_then (add_tss oc (fw_read_tss fw) (fw_tss_descriptor fw) (fst (fw_gdt_boxes fw apic_id)) (snd (fw_gdt_boxes fw apic_id)) (fw_tss_new fw) m) (\<lambda>m'.
     Inr (c\<lparr>core_mode := Native m'\<rparr>)))"

fun add_tss_cpu :: "bool \<Rightarrow> 'tss firmware \<Rightarrow> ('tss cpu, statics) callback" where
  "add_tss_cpu oc fw (IntelCpu e c) s =
     and_then (add_tss_core oc fw (cpu_apic_id (IntelCpu e c)) c) (\<lambda>c'. Inr (IntelCpu e c', s))"
| "add_tss_cpu oc fw (AmdCpu e c) s =
     and_then (add_tss_core oc fw (cpu_apic_id (AmdCpu e c)) c) (\<lambda>c'. Inr (AmdCpu e c', s))"

definition host_data_core ::
  "bool \<Rightarrow> 'tss firmware \<Rightarrow> ('v, 'g, 'ev, 'm machine_scheme) core \<Rightarrow> (Status + 'tss shared_host_data \<times> paging_structures) rust" where
  "host_data_core oc fw c =
     and_then (native_machine (core_mode c)) (\<lambda>m.
     create_shared_host_data oc (fw_read_tss fw) (\<lambda>va. va) (fw_enabled fw) (fw_host_boxes fw) (fw_idt_pt_boxes fw) (fw_handler0 fw) m)"

fun host_data_cpu :: "bool \<Rightarrow> 'tss firmware \<Rightarrow> 'tss cpu \<Rightarrow> (Status + 'tss shared_host_data \<times> paging_structures) rust" where
  "host_data_cpu oc fw (IntelCpu e c) = host_data_core oc fw c"
| "host_data_cpu oc fw (AmdCpu e c) = host_data_core oc fw c"

fun cpu_vendor :: "'tss cpu \<Rightarrow> string option" where
  "cpu_vendor (IntelCpu e c) = core_vendor c"
| "cpu_vendor (AmdCpu e c) = core_vendor c"

subsection \<open>The entry point\<close>

text \<open>The TSS for every Intel processor, then the rest of \<open>main\<close>; it runs on the boot processor.\<close>

definition uefi_add_all_tss :: "bool \<Rightarrow> 'tss firmware \<Rightarrow> 'tss system \<Rightarrow> 'tss system rust" where
  "uefi_add_all_tss oc fw sys =
     and_then (unwrap ''get_vendor_info'' (cpu_vendor (hd (cpus sys)))) (\<lambda>vendor.
     if vendor = ''GenuineIntel'' then
       and_then (platform_ops_get (PLATFORM_OPS sys)) (\<lambda>ops.
       and_then (ops_run ops (add_tss_cpu oc fw) (cpus sys) (sys_ids sys, sys_heap sys)) (\<lambda>(ps, ids, heap).
       Inr (sys\<lparr>sys_ids := ids, sys_heap := heap, cpus := ps\<rparr>)))
     else Inr sys)"

definition uefi_main :: "bool \<Rightarrow> u64 \<Rightarrow> 'tss firmware \<Rightarrow> 'tss system \<Rightarrow> (Status \<times> 'tss system) rust" where
  "uefi_main oc xcr0_all fw sys =
     (case fw_pages fw of
        Inl e \<Rightarrow> Inr (e, sys)
      | Inr ptr \<Rightarrow>
          and_then (Allocator.init ptr (fst (sys_heap sys))) (\<lambda>METADATA.
          let sys1 = sys\<lparr>sys_heap := (METADATA, snd (sys_heap sys)), PLATFORM_OPS := platform_ops_init (uefi_ops fw) (PLATFORM_OPS sys)\<rparr> in
          and_then (zap_relocation_table oc (fw_image fw) (snd (sys_heap sys1))) (\<lambda>zapped.
          case zapped of
            Inl e \<Rightarrow> Inr (e, sys1)
          | Inr mem \<Rightarrow>
              let sys2 = sys1\<lparr>sys_heap := (fst (sys_heap sys1), mem)\<rparr> in
              and_then (uefi_add_all_tss oc fw sys2) (\<lambda>sys3.
              and_then (host_data_cpu oc fw (hd (cpus sys3))) (\<lambda>shared.
              case shared of
                Inl e \<Rightarrow> Inr (e, sys3)
              | Inr (shared_host, tables) \<Rightarrow>
                  and_then (virtualize_system xcr0_all shared_host sys3) (\<lambda>sys4. Inr (SUCCESS, sys4)))))))"

section \<open>The firmware and the contract of the platform\<close>

text \<open>\<open>UefiOps\<close> is the reference definition.\<close>

lemma uefi_runs_on_all:
  assumes "status = SUCCESS \<or> status = NOT_STARTED \<and> aps = []"
  shows "uefi_run_on_all_processors (Some ()) status callback bsp aps s = run_on_all_processors callback (bsp # aps) s"
  using assms by (auto simp: uefi_run_on_all_processors_def startup_all_aps_def and_then_assoc split_def unwrap_def)

text \<open>
  What the application relies on: the multiprocessor services exist, and \<open>startup_all_aps\<close>
  succeeds, or reports that there is no application processor.
\<close>

locale uefi_firmware =
  fixes fw :: "'tss firmware" and n :: nat
  assumes mp: "fw_mp fw = Some ()" and boot: "0 < n"
    and startup: "fw_startup fw = SUCCESS \<or> fw_startup fw = NOT_STARTED \<and> n = 1"

sublocale uefi_firmware \<subseteq> hypervisor_platform "uefi_ops fw" n
proof
  fix ps callback s
  assume len: "length ps = n"
  then have "ps \<noteq> []" and "fw_startup fw = SUCCESS \<or> fw_startup fw = NOT_STARTED \<and> tl ps = []"
    using boot startup by (cases ps; auto)+
  with uefi_runs_on_all [of "fw_startup fw" "tl ps" callback "hd ps" s]
  show "ops_run (uefi_ops fw) callback ps s = run_on_all_processors callback ps s"
    by (simp add: uefi_ops_def mp)
qed

section \<open>The GDT of the processors\<close>

lemma write_table_nth:
  assumes "i < length xs" and "8 * length xs < 2 ^ 64"
  shows "write_table addr xs mem (addr + of_nat (8 * i)) = xs ! i"
proof -
  have inj: "(addr + of_nat (8 * i) = addr + of_nat (8 * j)) = (i = j)" if "j < length xs" for j
  proof
    assume "addr + of_nat (8 * i) = addr + of_nat (8 * j)"
    then have "(of_nat (8 * i) :: u64) = of_nat (8 * j)" by simp
    then have "unat (of_nat (8 * i) :: u64) = unat (of_nat (8 * j) :: u64)" by simp
    moreover have "8 * i < 2 ^ 64" "8 * j < 2 ^ 64" using assms that by simp_all
    ultimately show "i = j" by (simp add: unat_of_nat del: of_nat_mult)
  qed simp
  have "find (\<lambda>j. addr + of_nat (8 * i) = addr + of_nat (8 * j)) [0..<length xs] = Some i"
    unfolding find_Some_iff
    by (rule exI [of _ i]) (use assms inj in \<open>simp del: of_nat_mult add_left_cancel\<close>)
  then show ?thesis by (simp add: write_table_def del: of_nat_mult add_left_cancel)
qed

text \<open>
  After \<open>main\<close> has prepared an Intel processor without a TSS, the host finds a TSS through GDTR and
  TR, as the virtualization of the processor needs; its base is the lower half of the address
  of the TSS (see \<open>appended_tss_base\<close>).
\<close>

lemma added_tss_found:
  assumes "tr m = 0" and "7 \<le> unat (dtr_limit (sgdt m))" and "unat (dtr_limit (sgdt m)) < 0xffe0"
    and "tss_descriptor tss_addr TSS_LIMIT = encode_descriptor (ucast tss_addr) 0x67 0x89 0"
  shows "\<exists>m'. add_tss oc read_tss tss_descriptor gdt_addr tss_addr tss_new m = Inr m'
     \<and> tss_base_of oc (sgdt m') (tr m') m' = Inr (take_bit 32 tss_addr)"
proof -
  let ?n = "(unat (dtr_limit (sgdt m)) + 1) div 8"
  let ?new = "\<lparr>gt_gdt = gdt_slice (mem64 m) (dtr_base (sgdt m)) ?n, gt_cs = cs_sel m, gt_tss = None, gt_tr = None\<rparr>"
  have "unat (dtr_limit (sgdt m) + 1) = unat (dtr_limit (sgdt m)) + 1"
    using assms(3) by (simp add: unat_word_ariths)
  with assms(1,3) have new: "new_from_current oc read_tss m = Inr ?new"
    by (simp add: new_from_current_def Let_def)
  define g where "g = append_tss tss_descriptor tss_addr tss_new ?new"
  define m1 where "m1 = m\<lparr>mem64 := write_table gdt_addr (gt_gdt g) (mem64 m)\<rparr>"
  have len: "length (gt_gdt ?new) = ?n" "0 < ?n" "?n + 2 < 2 ^ 13" using assms(2,3) by (simp_all add: gdt_slice_def)
  have glen: "length (gt_gdt g) = ?n + 2" using len(1) by (simp add: g_def append_tss_def Let_def)
  have "\<forall>i<length (gt_gdt g). mem64 m1 (gdt_addr + of_nat (8 * i)) = gt_gdt g ! i"
    using write_table_nth [of _ "gt_gdt g" gdt_addr "mem64 m"] glen len(3) by (simp add: m1_def del: of_nat_mult)
  moreover have "tr m1 = 0" using assms(1) by (simp add: m1_def tr_def)
  ultimately obtain m' d where "gdt_apply gdt_addr g m1 = Inr m'" "try_from_gdtr oc (mem64 m') (sgdt m') (tr m') = Inr (Inr d)"
    "descriptor_base d = Inr (take_bit 32 tss_addr)"
    using appended_tss_base [OF _ _ _ _ assms(4) g_def, where m = m1 and gdt_addr = gdt_addr and oc = oc] len unfolding len(1) by auto
  then show ?thesis
    unfolding add_tss_def new and_then_Inr Let_def g_def [symmetric] m1_def [symmetric] by (simp add: tss_base_of_def)
qed

text \<open>Every processor gets its own copy of the GDT.\<close>

lemma host_data_covers_processors:
  assumes "create_shared_host_data oc read_tss pa_of (Inr n) gdt_addrs idt_pt_addrs handler0 m = Inr (Inr (shd, ps))"
  shows "\<exists>gdts. host_gdts shd = Some gdts \<and> (\<forall>i<n. \<exists>hg. gdt_of i gdts = Inr hg \<and> hg_gdt_addr hg = fst (gdt_addrs i)
     \<and> gt_cs (hg_raw hg) = cs_sel m)"
  using assms
  by (auto simp: create_shared_host_data_def rust_simps Let_def gdt_of_def new_from_current_def split: option.splits sum.splits if_splits)

section \<open>The entry point\<close>

lemma add_tss_cpu_same:
  assumes "add_tss_cpu oc fw p s = Inr (q, s')"
  shows "s' = s \<and> \<not> cpu_virtual q \<and> (cpu_fresh pa p \<longrightarrow> cpu_fresh pa q)"
  using assms by (cases p) (auto simp: add_tss_core_def native_machine_def rust_simps split: mode.splits)

context uefi_firmware
begin

lemma add_all_tss_fresh:
  assumes "uefi_add_all_tss oc fw sys = Inr sys1" and "PLATFORM_OPS sys = Some (uefi_ops fw)" and "length (cpus sys) = n"
    and "\<forall>p\<in>set (cpus sys). cpu_fresh pa p"
  shows "PLATFORM_OPS sys1 = PLATFORM_OPS sys \<and> SHARED_HOST_DATA sys1 = SHARED_HOST_DATA sys \<and> length (cpus sys1) = n
    \<and> (\<forall>p\<in>set (cpus sys1). cpu_fresh pa p)"
proof -
  from assms(1,2) consider "sys1 = sys" | ps ids heap where
    "ops_run (uefi_ops fw) (add_tss_cpu oc fw) (cpus sys) (sys_ids sys, sys_heap sys) = Inr (ps, ids, heap)"
    "sys1 = sys\<lparr>sys_ids := ids, sys_heap := heap, cpus := ps\<rparr>"
    by (auto simp: uefi_add_all_tss_def rust_simps split: if_splits)
  then show ?thesis
  proof cases
    case 2
    from run_each [OF assms(3) 2(1)] have "length ps = n" and each: "\<And>i. i < n \<Longrightarrow> \<exists>s1 s2. add_tss_cpu oc fw (cpus sys ! i) s1 = Inr (ps ! i, s2)" by auto
    moreover have "cpu_fresh pa p" if "p \<in> set ps" for p
      using that each assms(3,4) \<open>length ps = n\<close> add_tss_cpu_same by (metis in_set_conv_nth nth_mem)
    ultimately show ?thesis using 2(2) by simp
  qed (use assms in simp)
qed

lemma all_virtualized:
  assumes "virtualize_system xcr0_all shared_host sys = Inr sys1" and "PLATFORM_OPS sys = Some (uefi_ops fw)" and "length (cpus sys) = n"
    and "\<forall>p\<in>set (cpus sys). cpu_fresh (\<lambda>va. va) p"
  shows "length (cpus sys1) = n \<and> (\<forall>p\<in>set (cpus sys1). cpu_virtual p \<and> is_our_hypervisor_present (cpu_seen p))
    \<and> SHARED_HOST_DATA sys1 = call_once shared_host (SHARED_HOST_DATA sys)"
  using system_there_and_back [OF assms(1-3) _ boot] assms(3,4) virtualize_system_parts [OF assms(1-3)]
  by (auto simp: uefi_ops_def)

end

lemma fresh_not_virtual: "cpu_fresh pa p \<Longrightarrow> \<not> cpu_virtual p"
  by (cases p) auto

text \<open>The GDT and the TSS that a native processor uses.\<close>

definition core_tables :: "bool \<Rightarrow> 'tss firmware \<Rightarrow> ('v, 'g, 'ev, 'm machine_scheme) core \<Rightarrow> 'tss GdtTssRaw rust" where
  "core_tables oc fw c = and_then (native_machine (core_mode c)) (new_from_current oc (fw_read_tss fw))"

fun current_tables :: "bool \<Rightarrow> 'tss firmware \<Rightarrow> 'tss cpu \<Rightarrow> 'tss GdtTssRaw rust" where
  "current_tables oc fw (IntelCpu e c) = core_tables oc fw c"
| "current_tables oc fw (AmdCpu e c) = core_tables oc fw c"

text \<open>
  The host data: page tables, an IDT whose 256 gates lead to their handlers, and for each of
  \<open>k\<close> processors a copy \<open>raw\<close> of the tables of the boot processor, at addresses of their own.
\<close>

definition own_host_tables :: "'tss firmware \<Rightarrow> nat \<Rightarrow> 'tss GdtTssRaw \<Rightarrow> 'tss shared_host_data \<Rightarrow> bool" where
  "own_host_tables fw k raw shd \<longleftrightarrow>
     host_pt shd = Some (snd (fw_idt_pt_boxes fw))
   \<and> (\<exists>idt. host_idt shd = Some (fst (fw_idt_pt_boxes fw), idt) \<and> length idt = 0x100
        \<and> (\<forall>i < 0x100. gate_offset (idt ! i) = fw_handler0 fw + of_nat (16 * i) \<and> idt_selector (idt ! i) = gt_cs raw \<and> gate_type (idt ! i) = 0x8e))
   \<and> (\<exists>gdts. host_gdts shd = Some gdts \<and> length gdts = k
        \<and> (\<forall>i < k. gdts ! i = \<lparr>hg_raw = raw, hg_gdt_addr = fst (fw_host_boxes fw i), hg_tss_addr = snd (fw_host_boxes fw i)\<rparr>))"

lemma created_host_tables:
  assumes "create_shared_host_data oc (fw_read_tss fw) pa_of (fw_enabled fw) (fw_host_boxes fw) (fw_idt_pt_boxes fw) (fw_handler0 fw) m = Inr r"
  shows "case fw_enabled fw of Inl e \<Rightarrow> r = Inl e
    | Inr k \<Rightarrow> \<exists>shd raw. r = Inr (shd, build_identity pa_of (snd (fw_idt_pt_boxes fw)) PagingStructures_new)
        \<and> new_from_current oc (fw_read_tss fw) m = Inr raw \<and> own_host_tables fw k raw shd"
proof (cases "fw_enabled fw")
  case (Inl e)
  with assms show ?thesis by (auto simp: create_shared_host_data_def rust_simps)
next
  case (Inr k)
  obtain raw where raw: "new_from_current oc (fw_read_tss fw) m = Inr raw"
    using assms by (auto simp: create_shared_host_data_def rust_simps)
  let ?gdts = "map (\<lambda>i. \<lparr>hg_raw = raw, hg_gdt_addr = fst (fw_host_boxes fw i), hg_tss_addr = snd (fw_host_boxes fw i)\<rparr>) [0..<k]"
  obtain first where first: "gdt_of 0 ?gdts = Inr first"
    using assms Inr raw by (auto simp: create_shared_host_data_def rust_simps Let_def)
  then have cs: "gt_cs (hg_raw first) = gt_cs raw" by (auto simp: gdt_of_def split: if_splits)
  let ?idt = "idt_new (fw_handler0 fw) (gt_cs raw)"
  let ?shd = "\<lparr>host_pt = Some (snd (fw_idt_pt_boxes fw)), host_idt = Some (fst (fw_idt_pt_boxes fw), ?idt), host_gdts = Some ?gdts\<rparr>"
  have r: "r = Inr (?shd, build_identity pa_of (snd (fw_idt_pt_boxes fw)) PagingStructures_new)"
    using assms Inr raw first cs by (simp add: create_shared_host_data_def Let_def)
  have len: "length ?idt = 0x100" by (simp add: idt_new_def)
  have "gate_offset (?idt ! i) = fw_handler0 fw + of_nat (16 * i) \<and> idt_selector (?idt ! i) = gt_cs raw \<and> gate_type (?idt ! i) = 0x8e"
    if "i < 0x100" for i
    using idt_gates [OF that, of "fw_handler0 fw" "gt_cs raw"] that by (simp add: Let_def idt_new_def idt_entry_new_fields)
  with len have "own_host_tables fw k raw ?shd" by (simp add: own_host_tables_def)
  then show ?thesis using Inr raw r by auto
qed

lemma host_data_cpu_result:
  assumes "host_data_cpu oc fw p = Inr r"
  shows "case fw_enabled fw of Inl e \<Rightarrow> r = Inl e
    | Inr k \<Rightarrow> \<exists>shd raw. r = Inr (shd, build_identity (\<lambda>va. va) (snd (fw_idt_pt_boxes fw)) PagingStructures_new)
        \<and> current_tables oc fw p = Inr raw \<and> own_host_tables fw k raw shd"
proof (cases p)
  case (IntelCpu e c)
  with assms obtain m where m: "native_machine (core_mode c) = Inr m"
    and r: "create_shared_host_data oc (fw_read_tss fw) (\<lambda>va. va) (fw_enabled fw) (fw_host_boxes fw) (fw_idt_pt_boxes fw) (fw_handler0 fw) m = Inr r"
    by (auto simp: host_data_core_def rust_simps)
  from created_host_tables [OF r] m IntelCpu show ?thesis by (auto simp: core_tables_def split: sum.splits)
next
  case (AmdCpu e c)
  with assms obtain m where m: "native_machine (core_mode c) = Inr m"
    and r: "create_shared_host_data oc (fw_read_tss fw) (\<lambda>va. va) (fw_enabled fw) (fw_host_boxes fw) (fw_idt_pt_boxes fw) (fw_handler0 fw) m = Inr r"
    by (auto simp: host_data_core_def rust_simps)
  from created_host_tables [OF r] m AmdCpu show ?thesis by (auto simp: core_tables_def split: sum.splits)
qed

text \<open>When \<open>run_on_all_processors\<close> returns, the multiprocessor services have kept their contract; otherwise it panics.\<close>

lemma uefi_run_returns:
  assumes "ops_run (uefi_ops fw) callback ps s = Inr r" and "0 < length ps" and "fw_startup fw = NOT_STARTED \<longrightarrow> length ps = 1"
  shows "uefi_firmware fw (length ps)"
proof -
  from assms(1) have "fw_mp fw = Some ()"
    by (cases "fw_mp fw") (auto simp: uefi_ops_def uefi_run_on_all_processors_def unwrap_def)
  moreover from assms(1) have "fw_startup fw = SUCCESS \<or> fw_startup fw = NOT_STARTED"
    by (auto simp: uefi_ops_def uefi_run_on_all_processors_def startup_all_aps_def rust_simps assert_that_def split: if_splits)
  ultimately show ?thesis using assms(2,3) by unfold_locales auto
qed

lemma add_all_tss_returns:
  assumes "uefi_add_all_tss oc fw sys = Inr sys1" and "PLATFORM_OPS sys = Some (uefi_ops fw)" and "cpus sys \<noteq> []"
    and "fw_startup fw = NOT_STARTED \<longrightarrow> length (cpus sys) = 1" and "\<forall>p\<in>set (cpus sys). cpu_fresh pa p"
  shows "PLATFORM_OPS sys1 = PLATFORM_OPS sys \<and> SHARED_HOST_DATA sys1 = SHARED_HOST_DATA sys \<and> length (cpus sys1) = length (cpus sys)
    \<and> (\<forall>p\<in>set (cpus sys1). cpu_fresh pa p)"
proof (cases "sys1 = sys")
  case False
  with assms(1,2) obtain r where "ops_run (uefi_ops fw) (add_tss_cpu oc fw) (cpus sys) (sys_ids sys, sys_heap sys) = Inr r"
    by (auto simp: uefi_add_all_tss_def rust_simps split: if_splits)
  from uefi_firmware.add_all_tss_fresh [OF uefi_run_returns [OF this _ assms(4)] assms(1,2) refl assms(5)] assms(3)
  show ?thesis by simp
qed (use assms in simp)

lemma virtualize_system_returns:
  assumes "virtualize_system xcr0_all shd sys = Inr sys1" and "PLATFORM_OPS sys = Some (uefi_ops fw)" and "cpus sys \<noteq> []"
    and "fw_startup fw = NOT_STARTED \<longrightarrow> length (cpus sys) = 1"
  shows "uefi_firmware fw (length (cpus sys))"
proof -
  from assms(1,2) obtain r where "ops_run (uefi_ops fw) (apic_init_closure cpu_apic_id) (cpus sys) (sys_ids sys, sys_heap sys) = Inr r"
    by (auto simp: virtualize_system_def apic_id_init_def platform_ops_get_def rust_simps split: prod.splits)
  from uefi_run_returns [OF this] assms(3,4) show ?thesis by simp
qed

section \<open>Properties\<close>

text \<open>
  C32. Loading the UEFI application, on a firmware that answers \<open>NOT_STARTED\<close> only when there are
  no application processors. When \<open>main\<close> returns: if the allocation of pages, the loaded image or
  the count of the processors failed, that decides the exit status, and no processor is
  virtualized; before the heap is there nothing changes at all. Otherwise the status is
  success, every processor is virtualized, the multiprocessor services were found and did
  not fail (where they are missing or fail otherwise, \<open>run_on_all_processors\<close> panics and
  \<open>main\<close> does not return), and the host has tables of its own: the identity page tables, an IDT with its
  256 gates, and for each usable processor a copy of the GDT and TSS that the boot processor
  has once it was given a TSS.
\<close>

theorem uefi_load:
  assumes "uefi_main oc xcr0_all fw sys = Inr (status, sys1)" and "cpus sys \<noteq> []" and "fw_startup fw = NOT_STARTED \<longrightarrow> length (cpus sys) = 1"
    and "PLATFORM_OPS sys = None" and "SHARED_HOST_DATA sys = None" and "\<forall>p\<in>set (cpus sys). cpu_fresh (\<lambda>va. va) p"
  shows "case fw_pages fw of Inl e \<Rightarrow> status = e \<and> sys1 = sys
    | Inr ptr \<Rightarrow> (case fw_image fw of Inl e \<Rightarrow> status = e \<and> cpus sys1 = cpus sys
      | Inr img \<Rightarrow> (case fw_enabled fw of Inl e \<Rightarrow> status = e \<and> (\<forall>p\<in>set (cpus sys1). \<not> cpu_virtual p)
        | Inr k \<Rightarrow> status = SUCCESS \<and> length (cpus sys1) = length (cpus sys)
            \<and> fw_mp fw = Some () \<and> (fw_startup fw = SUCCESS \<or> fw_startup fw = NOT_STARTED)
            \<and> (\<forall>p\<in>set (cpus sys1). cpu_virtual p \<and> is_our_hypervisor_present (cpu_seen p))
            \<and> (\<exists>heap sys2 raw shd. uefi_add_all_tss oc fw (sys\<lparr>PLATFORM_OPS := Some (uefi_ops fw), sys_heap := heap\<rparr>) = Inr sys2
                \<and> current_tables oc fw (hd (cpus sys2)) = Inr raw
                \<and> host_data_cpu oc fw (hd (cpus sys2)) = Inr (Inr (shd, build_identity (\<lambda>va. va) (snd (fw_idt_pt_boxes fw)) PagingStructures_new))
                \<and> SHARED_HOST_DATA sys1 = Some shd \<and> own_host_tables fw k raw shd)))"
proof (cases "fw_pages fw")
  case (Inl e)
  with assms(1) show ?thesis by (simp add: uefi_main_def)
next
  case (Inr ptr)
  show ?thesis
  proof (cases "fw_image fw")
    case (Inl e)
    with Inr assms(1) show ?thesis by (auto simp: uefi_main_def zap_relocation_table_def rust_simps Let_def)
  next
    case img: (Inr image)
    obtain heap sys3 r where add: "uefi_add_all_tss oc fw (sys\<lparr>PLATFORM_OPS := Some (uefi_ops fw), sys_heap := heap\<rparr>) = Inr sys3"
      and hd: "host_data_cpu oc fw (hd (cpus sys3)) = Inr r"
      and r: "(case r of Inl e \<Rightarrow> Inr (e, sys3)
         | Inr (shared_host, tables) \<Rightarrow> and_then (virtualize_system xcr0_all shared_host sys3) (\<lambda>sys4. Inr (SUCCESS, sys4))) = Inr (status, sys1)"
      using Inr img assms(1,4)
      by (auto simp: uefi_main_def zap_relocation_table_def platform_ops_init_def call_once_def Let_def rust_simps split: prod.splits)
    from add_all_tss_returns [OF add, of "\<lambda>va. va"] assms(2,3,5,6)
    have sys3: "PLATFORM_OPS sys3 = Some (uefi_ops fw)" "SHARED_HOST_DATA sys3 = None" "length (cpus sys3) = length (cpus sys)"
      "\<forall>p\<in>set (cpus sys3). cpu_fresh (\<lambda>va. va) p" "cpus sys3 \<noteq> []" by auto
    show ?thesis
    proof (cases "fw_enabled fw")
      case (Inl e)
      with host_data_cpu_result [OF hd] r \<open>fw_pages fw = Inr ptr\<close> img sys3(4) fresh_not_virtual show ?thesis by auto
    next
      case k: (Inr k)
      let ?tables = "build_identity (\<lambda>va. va) (snd (fw_idt_pt_boxes fw)) PagingStructures_new"
      from host_data_cpu_result [OF hd] k obtain shd raw where shd: "r = Inr (shd, ?tables)"
        and own: "current_tables oc fw (hd (cpus sys3)) = Inr raw" "own_host_tables fw k raw shd" by auto
      from r shd(1) have v: "virtualize_system xcr0_all shd sys3 = Inr sys1" and st: "status = SUCCESS" by (auto simp: rust_simps)
      have fw: "uefi_firmware fw (length (cpus sys3))"
        using virtualize_system_returns [OF v sys3(1,5)] assms(3) sys3(3) by simp
      have mp: "fw_mp fw = Some ()" "fw_startup fw = SUCCESS \<or> fw_startup fw = NOT_STARTED"
        using fw by (auto simp: uefi_firmware_def)
      have all: "\<forall>p\<in>set (cpus sys1). cpu_virtual p \<and> is_our_hypervisor_present (cpu_seen p)" "length (cpus sys1) = length (cpus sys)"
        "SHARED_HOST_DATA sys1 = Some shd"
        using uefi_firmware.all_virtualized [OF fw v sys3(1) refl sys3(4)] sys3 by (simp_all add: call_once_def)
      have "\<exists>heap sys2 raw shd. uefi_add_all_tss oc fw (sys\<lparr>PLATFORM_OPS := Some (uefi_ops fw), sys_heap := heap\<rparr>) = Inr sys2
                \<and> current_tables oc fw (hd (cpus sys2)) = Inr raw \<and> host_data_cpu oc fw (hd (cpus sys2)) = Inr (Inr (shd, ?tables))
                \<and> SHARED_HOST_DATA sys1 = Some shd \<and> own_host_tables fw k raw shd"
        using add own all(3) hd shd by (intro exI conjI) (assumption | simp)+
      with \<open>fw_pages fw = Inr ptr\<close> img k st all(1,2) mp show ?thesis by simp
    qed
  qed
qed

text \<open>A system with one AMD processor, loaded by a firmware without application processors.\<close>

definition amd_core :: "(Svm, SvmGuest, svm_exit, svm_machine) core" where
  "amd_core = \<lparr>core_vendor = Some ''AuthenticAMD'', core_cpuid = sv_cpuid svm_example_env, core_registers = Registers_default,
     core_exits = [], core_hypercall = svm_example_exit 0x81 [], core_stack = None, core_mode = Native svm_example\<rparr>"

definition amd_system :: "unit system" where
  "amd_system = \<lparr>PLATFORM_OPS = None, sys_ids = apic_ids_static, SHARED_HOST_DATA = None, sys_heap = (None, \<lambda>_. 0xcc),
     cpus = [AmdCpu svm_example_env amd_core]\<rparr>"

definition example_firmware :: "unit firmware" where
  "example_firmware = \<lparr>fw_pages = Inr 0x1000, fw_image = Inr (0x400000, 0x20000), fw_mp = Some (), fw_startup = NOT_STARTED,
     fw_enabled = Inr 1, fw_gdt_boxes = (\<lambda>_. (0x500000, 0x501000)), fw_host_boxes = (\<lambda>_. (0x502000, 0x503000)),
     fw_idt_pt_boxes = (0x504000, 0x506000), fw_handler0 = 0x410000, fw_read_tss = (\<lambda>_. ()), fw_tss_descriptor = (\<lambda>_ _. 0),
     fw_tss_new = ()\<rparr>"

interpretation example_firmware: uefi_firmware example_firmware 1
  by unfold_locales (simp_all add: example_firmware_def)

definition amd_host_data :: "unit shared_host_data" where
  "amd_host_data = \<lparr>host_pt = Some 0x506000, host_idt = Some (0x504000, idt_new 0x410000 (cs_sel svm_example)),
     host_gdts = Some [\<lparr>hg_raw = \<lparr>gt_gdt = [], gt_cs = cs_sel svm_example, gt_tss = None, gt_tr = None\<rparr>,
                       hg_gdt_addr = 0x502000, hg_tss_addr = 0x503000\<rparr>]\<rparr>"

lemma amd_host_data_created:
  "\<exists>tables. host_data_cpu True example_firmware (AmdCpu svm_example_env amd_core) = Inr (Inr (amd_host_data, tables))"
proof -
  have "new_from_current True (\<lambda>_. ()) svm_example = Inr \<lparr>gt_gdt = [], gt_cs = cs_sel svm_example, gt_tss = None, gt_tr = None\<rparr>"
    by (simp add: new_from_current_def svm_example_def blank_machine_def machine_simps gdt_slice_def Let_def)
  then show ?thesis
    by (simp add: host_data_core_def native_machine_def amd_core_def create_shared_host_data_def example_firmware_def gdt_of_def
        amd_host_data_def Let_def)
qed

lemma idt_idtr_new: "\<exists>d. idt_idtr base (idt_new handler0 cs) = Inr d"
  by (simp add: idt_idtr_def idt_new_def Let_def)

lemma svm_initialize_guest_id: "svm_id (svm_initialize_guest g m) = svm_id g"
  by (simp add: svm_initialize_guest_def Let_def)

lemma amd_starts:
  "cpu_starts (\<lambda>va. va) \<lparr>APIC_ID_MAP = [0 \<mapsto> 0], PROCESSOR_COUNT = 1\<rparr> (Some amd_host_data) 7 (AmdCpu svm_example_env amd_core)"
proof -
  let ?ids = "\<lparr>APIC_ID_MAP = [0 \<mapsto> 0], PROCESSOR_COUNT = 1\<rparr>"
  let ?e = "amd_env (\<lambda>va. va) ?ids (Some amd_host_data) (sv_cpuid svm_example_env) svm_example_env"
  obtain d where d: "idt_idtr 0x504000 (idt_new 0x410000 (cs_sel svm_example)) = Inr d" using idt_idtr_new by blast
  have tr: "tr_sel svm_example = 0" and len: "activity_states svm_example \<noteq> []"
    using svm_example_simps(1) by (fastforce simp: svm_example_def blank_machine_def)+
  have "\<exists>vt g m'. virtualize_core (svm_arch ?e) (sv_cpuid svm_example_env) 7 ?ids Registers_default [] svm_example = Inr (Running vt g m')"
    using d tr len
    by (simp add: virtualize_core_def svm_arch_def amd_env_def svm_example_env_def apic_id_get_def processor_id_from_def Svm_enable_def
        SvmGuest_new_def SvmGuest_activate_def SvmGuest_initialize_def svm_initialize_control_def svm_initialize_host_def Let_def wrmsr_def
        amd_host_data_def gdt_of_def gdt_apply_def tr_def machine_simps svm_initialize_guest_id)
  then show ?thesis by (simp add: amd_core_def amd_main_def by_vendor_def)
qed

lemma amd_fresh: "cpu_fresh (\<lambda>va. va) (AmdCpu svm_example_env amd_core)"
  by (simp add: amd_core_def is_our_hypervisor_present_def svm_example_env_def vmmcall_exit_def svm_example_exit_def
      OUR_HV_VENDOR_NAME_EBX_def from_ne_bytes_def byte_string_def StateSaveArea_zeroed_def DEVIRTUALIZE_def)

lemma amd_apic_id: "cpu_apic_id (AmdCpu svm_example_env amd_core) = 0"
  by (simp add: cpu_apic_id_def apic_id_get_def amd_core_def seen_cpuid_def svm_example_env_def)

lemma amd_loaded: "\<exists>sys1. uefi_main True 7 example_firmware amd_system = Inr (SUCCESS, sys1)"
proof -
  have z: "\<exists>mem'. zap_relocation_table True (Inr (0x400000, 0x20000)) mem = Inr (Inr mem')" for mem
    by (simp add: zap_relocation_table_def add_checked_def)
  obtain mem where mem: "zap_relocation_table True (fw_image example_firmware) (\<lambda>_. 0xcc) = Inr (Inr mem)"
    using z by (auto simp: example_firmware_def)
  let ?sys = "amd_system\<lparr>PLATFORM_OPS := Some (uefi_ops example_firmware), sys_heap := (fst example_heap, mem)\<rparr>"
  have sys: "cpus ?sys = [AmdCpu svm_example_env amd_core]" by (simp add: amd_system_def)
  have tss: "uefi_add_all_tss True example_firmware ?sys = Inr ?sys"
    by (simp add: uefi_add_all_tss_def sys) (simp add: amd_core_def)
  have "\<exists>sys1. virtualize_system 7 amd_host_data ?sys = Inr sys1"
    by (rule one_processor_virtualized [OF example_firmware.platform_axioms])
      (use example_heap_stack amd_starts in \<open>auto simp: amd_system_def amd_apic_id call_once_def uefi_ops_def\<close>)
  then obtain sys1 where v: "virtualize_system 7 amd_host_data ?sys = Inr sys1" by blast
  obtain tables where "host_data_cpu True example_firmware (AmdCpu svm_example_env amd_core) = Inr (Inr (amd_host_data, tables))"
    using amd_host_data_created by blast
  moreover have "fw_pages example_firmware = Inr 0x1000" "sys_heap amd_system = (None, \<lambda>_. 0xcc)" "PLATFORM_OPS amd_system = None"
    "Allocator.init 0x1000 None = Inr (fst example_heap)"
    by (simp_all add: example_firmware_def amd_system_def Allocator.init_def Metadata_new_def example_heap_def)
  ultimately show ?thesis
    using mem tss v sys by (simp add: uefi_main_def platform_ops_init_def call_once_def Let_def)
qed

theorem uefi_load_witness:
  "\<exists>sys1. uefi_main True 7 example_firmware amd_system = Inr (SUCCESS, sys1) \<and> cpu_virtual (cpus sys1 ! 0)"
proof -
  obtain sys1 where m: "uefi_main True 7 example_firmware amd_system = Inr (SUCCESS, sys1)" using amd_loaded by blast
  have "cpus amd_system = [AmdCpu svm_example_env amd_core]" by (simp add: amd_system_def)
  with uefi_load [OF m] amd_fresh have "cpu_virtual (cpus sys1 ! 0)"
    by (force simp: amd_system_def example_firmware_def)
  with m show ?thesis by blast
qed

end
