(* ===== verification/Logging.thy ===== *)
theory Logging
  imports Support Apic_Id
begin

unbundle bit_operations_syntax

text \<open>
  The two loggers: the serial port logger of \<open>hypervisor/serial_logger.rs\<close> and the kernel
  debugger logger of the Windows driver (\<open>windows/win_hv/src/logger.rs\<close>, \<open>eprintln.rs\<close>).

  The state of the serial port is the sequence of port writes so far and the values that
  the coming reads of the line status register give; when the latter are used up the busy
  wait goes on, \<open>NoReturn\<close>. \<open>write_fmt\<close> of the standard library calls \<open>write_str\<close> for the pieces
  of the formatted text in order and stops at the first error.

  \<open>SerialLogger_log\<close> is the function on one processor. For several processors at a time the same
  function is the sequence of its single accesses to the mutex and the port, \<open>log_actions\<close>, and
  \<open>log_step\<close> interleaves the sequences; run alone, a sequence has the effect of \<open>SerialLogger_log\<close>.
\<close>

section \<open>Definitions\<close>

subsection \<open>The serial port\<close>

datatype SerialPort = Com1 | Com2 | Com3 | Com4

fun SerialPort_code :: "SerialPort \<Rightarrow> u16" where
  "SerialPort_code Com1 = 0x3f8"
| "SerialPort_code Com2 = 0x2f8"
| "SerialPort_code Com3 = 0x3e8"
| "SerialPort_code Com4 = 0x2e8"

record serial =
  sent :: "(u16 \<times> u8) list"
  line_status :: "u8 list"

record Uart =
  uart_port :: u16

definition outb :: "u16 \<Rightarrow> u8 \<Rightarrow> serial \<Rightarrow> serial" where
  "outb port data s = s\<lparr>sent := sent s @ [(port, data)]\<rparr>"

text \<open>\<open>outb(port + offset, data)\<close>\<close>

definition outb_at :: "bool \<Rightarrow> u16 \<Rightarrow> u16 \<Rightarrow> u8 \<Rightarrow> serial \<Rightarrow> serial rust" where
  "outb_at oc port offset data s = and_then (add_checked oc port offset) (\<lambda>p. Inr (outb p data s))"

definition Uart_init :: "bool \<Rightarrow> u16 \<Rightarrow> u64 \<Rightarrow> serial \<Rightarrow> serial rust" where
  "Uart_init oc port baud_rate s =
     and_then (outb_at oc port 1 0 s) (\<lambda>s.
     and_then (outb_at oc port 3 0x80 s) (\<lambda>s.
     and_then (if baud_rate = 0 then Inl (ExplicitPanic ''attempt to divide by zero'') else Inr (115200 div baud_rate)) (\<lambda>divider.
     let dlab_low = ucast divider;
         dlab_high = ucast (drop_bit 8 divider) in
     and_then (outb_at oc port 0 dlab_low s) (\<lambda>s.
     and_then (outb_at oc port 1 dlab_high s) (\<lambda>s.
     and_then (outb_at oc port 3 0x3 s) (\<lambda>s.
     and_then (outb_at oc port 2 0xc7 s) (\<lambda>s.
     and_then (outb_at oc port 4 0xb s) (\<lambda>s.
     outb_at oc port 1 0x1 s))))))))"

definition Uart_new :: "bool \<Rightarrow> SerialPort \<Rightarrow> u64 \<Rightarrow> serial \<Rightarrow> (Uart \<times> serial) rust" where
  "Uart_new oc port baud_rate s =
     and_then (Uart_init oc (SerialPort_code port) baud_rate s) (\<lambda>s1. Inr (\<lparr>uart_port = SerialPort_code port\<rparr>, s1))"

text \<open>The busy wait for an empty transmitter holding register, bit 5 of the line status.\<close>

definition THRE :: "u8 \<Rightarrow> bool" where
  "THRE status \<longleftrightarrow> status AND push_bit 5 1 \<noteq> 0"

fun wait_transmitter :: "u8 list \<Rightarrow> u8 list option" where
  "wait_transmitter [] = None"
| "wait_transmitter (status # rest) = (if THRE status then Some rest else wait_transmitter rest)"

fun Uart_write_str :: "Uart \<Rightarrow> u8 list \<Rightarrow> serial \<Rightarrow> serial rust" where
  "Uart_write_str uart [] s = Inr s"
| "Uart_write_str uart (data # msg) s =
     (case wait_transmitter (line_status s) of
        None \<Rightarrow> Inl NoReturn
      | Some rest \<Rightarrow> Uart_write_str uart msg (outb (uart_port uart) data (s\<lparr>line_status := rest\<rparr>)))"

fun Uart_write_fmt :: "Uart \<Rightarrow> u8 list list \<Rightarrow> serial \<Rightarrow> serial rust" where
  "Uart_write_fmt uart [] s = Inr s"
| "Uart_write_fmt uart (piece # pieces) s = and_then (Uart_write_str uart piece s) (Uart_write_fmt uart pieces)"

subsection \<open>The text of a log line\<close>

datatype Level = Error | Warn | Info | Debug | Trace

fun level_name :: "Level \<Rightarrow> string" where
  "level_name Error = ''ERROR''"
| "level_name Warn = ''WARN''"
| "level_name Info = ''INFO''"
| "level_name Debug = ''DEBUG''"
| "level_name Trace = ''TRACE''"

text \<open>
  The order of the levels, from \<open>Error\<close> to \<open>Trace\<close>, is a linear order. A \<open>LevelFilter\<close> is \<open>Off\<close>, here
  \<open>None\<close>, or a level, and a level passes the filters at least as high.
\<close>

fun level_rank :: "Level \<Rightarrow> nat" where
  "level_rank Error = 1"
| "level_rank Warn = 2"
| "level_rank Info = 3"
| "level_rank Debug = 4"
| "level_rank Trace = 5"

instantiation Level :: linorder
begin

definition less_eq_Level :: "Level \<Rightarrow> Level \<Rightarrow> bool" where
  "less_eq_Level a b \<longleftrightarrow> level_rank a \<le> level_rank b"

definition less_Level :: "Level \<Rightarrow> Level \<Rightarrow> bool" where
  "less_Level a b \<longleftrightarrow> level_rank a < level_rank b"

instance
proof
  fix a b :: Level
  show "a \<le> b \<Longrightarrow> b \<le> a \<Longrightarrow> a = b" by (cases a; cases b) (simp_all add: less_eq_Level_def)
qed (auto simp: less_eq_Level_def less_Level_def)

end

type_synonym LevelFilter = "Level option"

definition passes :: "Level \<Rightarrow> LevelFilter \<Rightarrow> bool" where
  "passes level lf = (case lf of None \<Rightarrow> False | Some f \<Rightarrow> level \<le> f)"

text \<open>\<open>{}\<close> for an unsigned integer, and \<open>{:5}\<close> for a text.\<close>

fun decimal :: "nat \<Rightarrow> string" where
  "decimal n = (if n < 10 then [] else decimal (n div 10)) @ [char_of (48 + n mod 10)]"

declare decimal.simps [simp del]

definition pad5 :: "string \<Rightarrow> string" where
  "pad5 s = s @ replicate (5 - length s) (CHR '' '')"

text \<open>The pieces of \<open>"#{id}:{:5}: {}\n"\<close>; \<open>args\<close> is the text of the message.\<close>

definition log_pieces :: "u8 \<Rightarrow> Level \<Rightarrow> u8 list \<Rightarrow> u8 list list" where
  "log_pieces apic_id level args =
     [map of_char ''#'', map of_char (decimal (unat apic_id)), map of_char '':'', map of_char (pad5 (level_name level)),
      map of_char '': '', args, [0x0a]]"

subsection \<open>The serial logger\<close>

text \<open>\<open>metadata.level() <= log::Level::Trace\<close>\<close>

definition serial_enabled :: "Level \<Rightarrow> bool" where
  "serial_enabled level \<longleftrightarrow> level \<le> Trace"

text \<open>
  \<open>SerialLogger::log\<close> on a processor with the given interrupt flag and \<open>cpuid!(1).ebx\<close>, once the
  mutex is held.
\<close>

definition SerialLogger_log ::
  "u32 \<Rightarrow> Uart \<Rightarrow> Level \<Rightarrow> u8 list \<Rightarrow> bool \<times> serial \<Rightarrow> (bool \<times> serial) rust" where
  "SerialLogger_log cpuid_1_ebx uart level args st =
     (case st of (rflags_if, s) \<Rightarrow>
      if serial_enabled level then
        case InterruptGuard_new rflags_if of (guard, flag) \<Rightarrow>
        and_then (Uart_write_fmt uart (log_pieces (apic_id_get cpuid_1_ebx) level args) s) (\<lambda>s1.
        Inr (InterruptGuard_drop guard flag, s1))
      else Inr st)"

text \<open>
  The same function as the sequence of its accesses to what the processors share, for calls
  on several processors at a time. \<open>lock\<close> of the spin mutex tries again until the mutex is free, the
  busy wait for the transmitter until the line status says so; the two port accesses for a
  byte are separate. At the end of the scope the mutex guard is dropped before the interrupt
  guard, in the reverse order of their declarations.
\<close>

datatype log_action =
    Disable_interrupts
  | Lock
  | Wait_transmitter
  | Out u8
  | Unlock
  | Drop_guard

definition write_str_actions :: "u8 list \<Rightarrow> log_action list" where
  "write_str_actions msg = concat (map (\<lambda>data. [Wait_transmitter, Out data]) msg)"

definition write_fmt_actions :: "u8 list list \<Rightarrow> log_action list" where
  "write_fmt_actions pieces = concat (map write_str_actions pieces)"

definition log_actions :: "u32 \<Rightarrow> Level \<Rightarrow> u8 list \<Rightarrow> log_action list" where
  "log_actions cpuid_1_ebx level args =
     (if serial_enabled level
      then [Disable_interrupts, Lock] @ write_fmt_actions (log_pieces (apic_id_get cpuid_1_ebx) level args) @ [Unlock, Drop_guard]
      else [])"

text \<open>
  One access, on the interrupt guard and flag of the processor, the mutex and the port: whether
  the processor goes on to the next one, and the new state. \<open>None\<close> stands for a status
  register that gives no further value.
\<close>

type_synonym log_local = "interrupt_guard \<times> bool"

fun do_action :: "Uart \<Rightarrow> log_action \<Rightarrow> log_local \<times> bool \<times> serial \<Rightarrow> (bool \<times> log_local \<times> bool \<times> serial) option" where
  "do_action uart Disable_interrupts ((g, f), locked, s) = Some (True, InterruptGuard_new f, locked, s)"
| "do_action uart Lock (l, locked, s) = Some (\<not> locked, l, True, s)"
| "do_action uart Wait_transmitter (l, locked, s) =
     (case line_status s of [] \<Rightarrow> None | status # rest \<Rightarrow> Some (THRE status, l, locked, s\<lparr>line_status := rest\<rparr>))"
| "do_action uart (Out data) (l, locked, s) = Some (True, l, locked, outb (uart_port uart) data s)"
| "do_action uart Unlock (l, locked, s) = Some (True, l, False, s)"
| "do_action uart Drop_guard ((g, f), locked, s) = Some (True, (g, InterruptGuard_drop g f), locked, s)"

lemma again_shorter:
  "do_action uart a st = Some (False, st') \<Longrightarrow> st' \<noteq> st \<Longrightarrow> length (line_status (snd (snd st'))) < length (line_status (snd (snd st)))"
  by (induction uart a st rule: do_action.induct) (auto split: list.splits)

text \<open>A sequence of accesses without interference; waiting for a mutex that nobody releases does not return.\<close>

function run_alone :: "Uart \<Rightarrow> log_action list \<Rightarrow> log_local \<times> bool \<times> serial \<Rightarrow> (log_local \<times> bool \<times> serial) rust" where
  "run_alone uart [] st = Inr st"
| "run_alone uart (a # acts) st =
     (case do_action uart a st of
        None \<Rightarrow> Inl NoReturn
      | Some (True, st') \<Rightarrow> run_alone uart acts st'
      | Some (False, st') \<Rightarrow> if st' = st then Inl NoReturn else run_alone uart (a # acts) st')"
  by pat_completeness auto

termination
  by (relation "measures [\<lambda>(uart, acts, st). length acts, \<lambda>(uart, acts, st). length (line_status (snd (snd st)))]")
    (auto dest: again_shorter)

text \<open>
  All processors: the accesses that the current call of each still has to make, the record it
  logs, its interrupt guard and flag; the mutex and the port. A processor starts a call
  when it is in none; any processor may make its next access at any time.
\<close>

record log_system =
  progs :: "nat \<Rightarrow> log_action list"
  records :: "nat \<Rightarrow> Level \<times> u8 list"
  locals :: "nat \<Rightarrow> log_local"
  locked :: bool
  port :: serial

inductive log_step :: "Uart \<Rightarrow> (nat \<Rightarrow> u32) \<Rightarrow> log_system \<Rightarrow> (nat \<times> Level \<times> u8 list) list \<Rightarrow> log_system \<Rightarrow> bool"
  for uart :: Uart and ebx :: "nat \<Rightarrow> u32" where
  call: "progs s i = [] \<Longrightarrow>
     log_step uart ebx s [] (s\<lparr>progs := (progs s)(i := log_actions (ebx i) level args), records := (records s)(i := (level, args))\<rparr>)"
| act: "progs s i = a # acts \<Longrightarrow> do_action uart a (locals s i, locked s, port s) = Some (go, l, lk, p) \<Longrightarrow>
     log_step uart ebx s (if a = Lock \<and> go then [(i, records s i)] else [])
       (s\<lparr>progs := (progs s)(i := if go then acts else a # acts), locals := (locals s)(i := l), locked := lk, port := p\<rparr>)"

text \<open>The states that are reached from \<open>s0\<close>, with the calls that have got the mutex, in that order.\<close>

inductive log_run :: "Uart \<Rightarrow> (nat \<Rightarrow> u32) \<Rightarrow> log_system \<Rightarrow> (nat \<times> Level \<times> u8 list) list \<Rightarrow> log_system \<Rightarrow> bool"
  for uart :: Uart and ebx :: "nat \<Rightarrow> u32" and s0 :: log_system where
  start: "log_run uart ebx s0 [] s0"
| step: "log_run uart ebx s0 calls s \<Longrightarrow> log_step uart ebx s new s' \<Longrightarrow> log_run uart ebx s0 (calls @ new) s'"

subsection \<open>The kernel debugger output of the Windows driver\<close>

text \<open>
  \<open>DbgPrintEx\<close> with the format \<open>%s\<close> prints the buffer up to its first zero byte; \<open>printed\<close> is what
  the debugger has shown so far. The result of \<open>write_str\<close> is \<open>False\<close> for \<open>Err\<close>.
\<close>

definition DbgOutput_write_str :: "u8 list \<Rightarrow> u8 list \<Rightarrow> (bool \<times> u8 list) rust" where
  "DbgOutput_write_str msg printed =
     (if \<not> list_all (\<lambda>b. b < 0x80) msg then Inr (False, printed)
      else
        let buffer = replicate 256 (0 :: u8);
            len = min (length buffer - 1) (length msg) in
        if length msg \<noteq> len then Inl LengthMismatch
        else Inr (True, printed @ takeWhile (\<lambda>b. b \<noteq> 0) (msg @ drop len buffer)))"

fun DbgOutput_write_fmt :: "u8 list list \<Rightarrow> u8 list \<Rightarrow> (bool \<times> u8 list) rust" where
  "DbgOutput_write_fmt [] printed = Inr (True, printed)"
| "DbgOutput_write_fmt (piece # pieces) printed =
     and_then (DbgOutput_write_str piece printed) (\<lambda>(ok, printed1).
     if ok then DbgOutput_write_fmt pieces printed1 else Inr (False, printed1))"

definition dbg_print :: "u8 list list \<Rightarrow> u8 list \<Rightarrow> u8 list rust" where
  "dbg_print pieces printed =
     and_then (DbgOutput_write_fmt pieces printed) (\<lambda>(ok, printed1).
     if ok then Inr printed1 else Inl (UnwrapFailed ''write_fmt''))"

text \<open>\<open>max_level\<close> is \<open>log::max_level()\<close>.\<close>

definition DbgLogger_log :: "LevelFilter \<Rightarrow> u32 \<Rightarrow> Level \<Rightarrow> u8 list \<Rightarrow> u8 list \<Rightarrow> u8 list rust" where
  "DbgLogger_log max_level cpuid_1_ebx level args printed =
     (if passes level max_level
      then dbg_print (log_pieces (apic_id_get cpuid_1_ebx) level args) printed else Inr printed)"

subsection \<open>Registration\<close>

text \<open>
  The state of the \<open>log\<close> crate: the logger, which \<open>set_logger\<close> accepts once, and the maximum level.
  \<open>log!\<close> of a level passes the message to the logger when the level passes the maximum.
\<close>

record 'l log_facade =
  facade_logger :: "'l option"
  facade_max_level :: LevelFilter

definition set_logger :: "'l \<Rightarrow> 'l log_facade \<Rightarrow> 'l log_facade option" where
  "set_logger l f = (case facade_logger f of None \<Rightarrow> Some (f\<lparr>facade_logger := Some l\<rparr>) | Some _ \<Rightarrow> None)"

text \<open>\<open>init\<close> of the serial logger: the static \<open>LOGGER\<close>, the facade and the port.\<close>

definition SerialLogger_new :: "bool \<Rightarrow> serial \<Rightarrow> (Uart \<times> serial) rust" where
  "SerialLogger_new oc s = Uart_new oc Com1 115200 s"

definition serial_logger_init ::
  "bool \<Rightarrow> LevelFilter \<Rightarrow> Uart option \<times> Uart log_facade \<times> serial \<Rightarrow> (Uart option \<times> Uart log_facade \<times> serial) rust" where
  "serial_logger_init oc level st =
     (case st of (LOGGER, f, s) \<Rightarrow>
      and_then (case LOGGER of None \<Rightarrow> SerialLogger_new oc s | Some uart \<Rightarrow> Inr (uart, s)) (\<lambda>(logger, s1).
      and_then (unwrap ''set_logger'' (set_logger logger f)) (\<lambda>f1.
      Inr (Some logger, f1\<lparr>facade_max_level := level\<rparr>, s1))))"

text \<open>\<open>init\<close> of the logger of the Windows driver, which has no state of its own.\<close>

definition dbg_logger_init :: "LevelFilter \<Rightarrow> unit option \<times> unit log_facade \<Rightarrow> (unit option \<times> unit log_facade) rust" where
  "dbg_logger_init level st =
     (case st of (LOGGER, f) \<Rightarrow>
      let LOGGER1 = call_once () LOGGER in
      and_then (unwrap ''set_logger'' (set_logger () f)) (\<lambda>f1.
      Inr (LOGGER1, f1\<lparr>facade_max_level := level\<rparr>)))"

text \<open>
  \<open>panic_impl\<close> of \<open>hypervisor/panic.rs\<close> under the serial logger: an error message, then the
  processor is halted with interrupts disabled, for ever; \<open>info\<close> is the text of the panic. The
  result is the state in which it halts.
\<close>

definition panic_impl ::
  "u32 \<Rightarrow> Uart log_facade \<Rightarrow> u8 list \<Rightarrow> bool \<times> serial \<Rightarrow> (bool \<times> serial) rust" where
  "panic_impl cpuid_1_ebx f info st =
     and_then
       (if passes Error (facade_max_level f)
        then case facade_logger f of None \<Rightarrow> Inr st | Some uart \<Rightarrow> SerialLogger_log cpuid_1_ebx uart Error info st
        else Inr st) (\<lambda>(rflags_if, s).
     Inr (False, s))"

section \<open>Sending bytes\<close>

lemma wait_transmitter_Some:
  "wait_transmitter ss = Some rest \<Longrightarrow> length (filter THRE ss) = Suc (length (filter THRE rest))"
  by (induction ss) (auto split: if_splits)

lemma wait_transmitter_None: "wait_transmitter ss = None \<longleftrightarrow> filter THRE ss = []"
  by (induction ss) auto

lemma write_str_outcome:
  "if length msg \<le> length (filter THRE (line_status s))
   then \<exists>rest. Uart_write_str uart msg s = Inr (s\<lparr>sent := sent s @ map (Pair (uart_port uart)) msg, line_status := rest\<rparr>)
          \<and> length (filter THRE (line_status s)) = length msg + length (filter THRE rest)
   else Uart_write_str uart msg s = Inl NoReturn"
proof (induction msg arbitrary: s)
  case (Cons data msg)
  show ?case
  proof (cases "wait_transmitter (line_status s)")
    case None
    then show ?thesis using wait_transmitter_None [of "line_status s"] by simp
  next
    case (Some rest)
    with wait_transmitter_Some [OF Some] Cons.IH [of "outb (uart_port uart) data (s\<lparr>line_status := rest\<rparr>)"]
    show ?thesis by (auto simp: outb_def split: if_splits)
  qed
next
  case Nil
  show ?case by simp (rule exI [of _ "line_status s"], simp)
qed

lemma write_str_append:
  "Uart_write_str uart (xs @ ys) s = and_then (Uart_write_str uart xs s) (Uart_write_str uart ys)"
  by (induction xs arbitrary: s) (auto split: option.splits)

text \<open>Formatted output sends the concatenation of its pieces.\<close>

lemma write_fmt_concat: "Uart_write_fmt uart pieces s = Uart_write_str uart (concat pieces) s"
proof (induction pieces arbitrary: s)
  case (Cons piece pieces)
  then have "Uart_write_fmt uart pieces = Uart_write_str uart (concat pieces)" by (intro ext)
  then show ?case by (simp add: write_str_append)
qed simp

lemma dbg_write_str_short:
  assumes "list_all (\<lambda>b. b < 0x80 \<and> b \<noteq> 0) msg" and "length msg \<le> 255"
  shows "DbgOutput_write_str msg printed = Inr (True, printed @ msg)"
proof -
  have ascii: "list_all (\<lambda>b. b < 0x80) msg" and nz: "\<forall>b\<in>set msg. b \<noteq> 0" using assms(1) by (auto simp: list_all_iff)
  have "drop (length msg) (replicate 256 (0 :: u8)) = 0 # replicate (255 - length msg) 0"
    using assms(2) by (simp add: drop_replicate Suc_diff_le flip: replicate_Suc)
  with nz have "takeWhile (\<lambda>b. b \<noteq> 0) (msg @ drop (length msg) (replicate 256 0)) = msg"
    by (simp add: takeWhile_append2)
  with ascii assms(2) show ?thesis by (simp add: DbgOutput_write_str_def Let_def)
qed

section \<open>Calls on several processors\<close>

lemma run_alone_append: "run_alone uart (acts @ acts') st = and_then (run_alone uart acts st) (run_alone uart acts')"
  by (induction uart acts st rule: run_alone.induct) (auto split: option.splits bool.splits)

lemma run_alone_wait:
  "run_alone uart [Wait_transmitter] (l, lk, s) =
     (case wait_transmitter (line_status s) of None \<Rightarrow> Inl NoReturn | Some rest \<Rightarrow> Inr (l, lk, s\<lparr>line_status := rest\<rparr>))"
proof (induction "line_status s" arbitrary: s)
  case (Cons status rest)
  from Cons.hyps(1) [of "s\<lparr>line_status := rest\<rparr>"] Cons.hyps(2) [symmetric]
  have "s\<lparr>line_status := rest\<rparr> \<noteq> s" by (metis list.simps(3) not_Cons_self2 serial.select_convs(2) serial.surjective serial.update_convs(2))
  moreover have "run_alone uart [Wait_transmitter] (l, lk, s\<lparr>line_status := rest\<rparr>) =
      (case wait_transmitter rest of None \<Rightarrow> Inl NoReturn | Some rest' \<Rightarrow> Inr (l, lk, s\<lparr>line_status := rest'\<rparr>))"
    using Cons.hyps(1) [of "s\<lparr>line_status := rest\<rparr>"] by (auto split: option.splits)
  ultimately show ?case using Cons.hyps(2) [symmetric] by (simp del: run_alone.simps) (simp add: run_alone.simps(2) [of uart Wait_transmitter "[]" "(l, lk, s)"] del: run_alone.simps(2))
qed simp

lemma run_alone_write_str:
  "run_alone uart (write_str_actions msg) (l, lk, s) = and_then (Uart_write_str uart msg s) (\<lambda>s'. Inr (l, lk, s'))"
proof (induction msg arbitrary: s)
  case (Cons data msg)
  have "write_str_actions (data # msg) = [Wait_transmitter] @ Out data # write_str_actions msg" by (simp add: write_str_actions_def)
  then show ?case
    by (simp only: run_alone_append run_alone_wait) (auto simp: Cons.IH split: option.splits)
qed (simp add: write_str_actions_def)

lemma write_fmt_actions_concat: "write_fmt_actions pieces = write_str_actions (concat pieces)"
  by (induction pieces) (simp_all add: write_fmt_actions_def write_str_actions_def)

text \<open>Without interference the accesses amount to the call.\<close>

lemma run_alone_log:
  "and_then (run_alone uart (log_actions ebx level args) ((g, f), False, s)) (\<lambda>((g', f'), lk, s'). Inr (f', lk, s')) =
     and_then (SerialLogger_log ebx uart level args (f, s)) (\<lambda>(f', s'). Inr (f', False, s'))"
proof (cases "serial_enabled level")
  case True
  let ?msg = "concat (log_pieces (apic_id_get ebx) level args)"
  have "run_alone uart (log_actions ebx level args) ((g, f), False, s) =
      and_then (run_alone uart (write_str_actions ?msg) ((\<lparr>enabled = f\<rparr>, False), True, s)) (run_alone uart [Unlock, Drop_guard])"
    by (simp add: log_actions_def True write_fmt_actions_concat run_alone_append InterruptGuard_new_def)
  also have "\<dots> = and_then (Uart_write_str uart ?msg s) (\<lambda>s'. Inr ((\<lparr>enabled = f\<rparr>, InterruptGuard_drop \<lparr>enabled = f\<rparr> False), False, s'))"
    unfolding run_alone_write_str by (cases "Uart_write_str uart ?msg s") simp_all
  finally show ?thesis
    by (cases "Uart_write_str uart ?msg s") (simp_all add: SerialLogger_log_def True InterruptGuard_new_def write_fmt_concat)
qed (simp add: log_actions_def SerialLogger_log_def)

text \<open>The bytes that a sequence of accesses sends, and the line of a call.\<close>

fun out_bytes :: "log_action list \<Rightarrow> u8 list" where
  "out_bytes [] = []"
| "out_bytes (Out data # acts) = data # out_bytes acts"
| "out_bytes (_ # acts) = out_bytes acts"

definition log_line :: "(nat \<Rightarrow> u32) \<Rightarrow> nat \<times> Level \<times> u8 list \<Rightarrow> u8 list" where
  "log_line ebx c = (case c of (i, level, args) \<Rightarrow> concat (log_pieces (apic_id_get (ebx i)) level args))"

lemma log_line_eq: "log_line ebx (i, r) = concat (log_pieces (apic_id_get (ebx i)) (fst r) (snd r))"
  by (cases r) (simp add: log_line_def)

lemma out_bytes_append [simp]: "out_bytes (acts @ acts') = out_bytes acts @ out_bytes acts'"
  by (induction acts rule: out_bytes.induct) simp_all

lemma out_bytes_write_str [simp]: "out_bytes (write_str_actions msg) = msg"
  by (induction msg) (simp_all add: write_str_actions_def)

text \<open>Where a processor is: behind \<open>lock\<close> and before the mutex guard is dropped, or elsewhere.\<close>

definition sending :: "log_action list \<Rightarrow> bool" where
  "sending acts \<longleftrightarrow> (\<exists>q. acts = q @ [Unlock, Drop_guard] \<and> set q \<subseteq> insert Wait_transmitter (range Out))"

definition idle :: "u32 \<Rightarrow> Level \<times> u8 list \<Rightarrow> log_action list \<Rightarrow> bool" where
  "idle e r acts \<longleftrightarrow> acts = [] \<or> acts = [Drop_guard]
     \<or> (\<exists>rest. acts \<in> {Lock # rest, Disable_interrupts # Lock # rest} \<and> sending rest
          \<and> out_bytes rest = concat (log_pieces (apic_id_get e) (fst r) (snd r)))"

lemma sending_body: "sending (write_str_actions msg @ [Unlock, Drop_guard])"
  unfolding sending_def by (intro exI [of _ "write_str_actions msg"]) (auto simp: write_str_actions_def)

lemma idle_log_actions: "idle e (level, args) (log_actions e level args)"
  using sending_body [of "concat (log_pieces (apic_id_get e) level args)"]
  by (auto simp: idle_def log_actions_def write_fmt_actions_concat)

lemma sendingE:
  assumes "sending (a # acts)"
  obtains "a = Wait_transmitter" and "sending acts" | b where "a = Out b" and "sending acts"
    | "a = Unlock" and "acts = [Drop_guard]"
proof -
  from assms obtain q where q: "a # acts = q @ [Unlock, Drop_guard]" "set q \<subseteq> insert Wait_transmitter (range Out)"
    by (auto simp: sending_def)
  show thesis
  proof (cases q)
    case Nil
    with q that(3) show thesis by simp
  next
    case (Cons b q')
    with q have "sending acts" "a = Wait_transmitter \<or> (\<exists>b. a = Out b)" by (auto simp: sending_def)
    with that show thesis by blast
  qed
qed

lemma idleE:
  assumes "idle e r (a # acts)"
  obtains "a = Drop_guard" and "acts = []" | "a = Disable_interrupts" and "idle e r acts"
    | "a = Lock" and "sending acts" and "out_bytes acts = concat (log_pieces (apic_id_get e) (fst r) (snd r))"
  using assms by (auto simp: idle_def)

lemma idle_not_sending: "idle e r acts \<Longrightarrow> \<not> sending acts"
  by (auto simp: idle_def sending_def Cons_eq_append_conv)

lemma idle_drop: "idle e r []" "idle e r [Drop_guard]"
  by (simp_all add: idle_def)

text \<open>
  The invariant: while the mutex is taken exactly one processor is sending, that of the last
  call in the list, and what it has sent and what it still has to send make up its line.
\<close>

definition log_inv :: "Uart \<Rightarrow> (nat \<Rightarrow> u32) \<Rightarrow> log_system \<Rightarrow> (nat \<times> Level \<times> u8 list) list \<Rightarrow> log_system \<Rightarrow> bool" where
  "log_inv uart ebx s0 calls s \<longleftrightarrow>
     (if locked s
      then \<exists>i before pre. sending (progs s i) \<and> (\<forall>j. j \<noteq> i \<longrightarrow> idle (ebx j) (records s j) (progs s j))
             \<and> calls = before @ [(i, records s i)] \<and> pre @ out_bytes (progs s i) = log_line ebx (i, records s i)
             \<and> sent (port s) = sent (port s0) @ map (Pair (uart_port uart)) (concat (map (log_line ebx) before) @ pre)
      else (\<forall>j. idle (ebx j) (records s j) (progs s j))
         \<and> sent (port s) = sent (port s0) @ map (Pair (uart_port uart)) (concat (map (log_line ebx) calls)))"

lemma log_inv_call:
  assumes "log_inv uart ebx s0 calls s" and "progs s i = []"
  shows "log_inv uart ebx s0 calls
    (s\<lparr>progs := (progs s)(i := log_actions (ebx i) level args), records := (records s)(i := (level, args))\<rparr>)"
proof (cases "locked s")
  case True
  with assms(1) obtain k before pre where k: "sending (progs s k)" "\<forall>j. j \<noteq> k \<longrightarrow> idle (ebx j) (records s j) (progs s j)"
    "calls = before @ [(k, records s k)]" "pre @ out_bytes (progs s k) = log_line ebx (k, records s k)"
    "sent (port s) = sent (port s0) @ map (Pair (uart_port uart)) (concat (map (log_line ebx) before) @ pre)"
    by (auto simp: log_inv_def)
  have "k \<noteq> i" using k(1) assms(2) by (auto simp: sending_def)
  with True k idle_log_actions show ?thesis
    unfolding log_inv_def by simp (intro exI [of _ k] conjI exI [of _ before] exI [of _ pre]; simp)
next
  case False
  with assms idle_log_actions show ?thesis by (simp add: log_inv_def)
qed

lemma log_inv_act_sending:
  assumes inv: "log_inv uart ebx s0 calls s" and p: "progs s i = a # acts" and "locked s" and s: "sending (a # acts)"
    and d: "do_action uart a (locals s i, locked s, port s) = Some (go, l, lk, q)"
  shows "log_inv uart ebx s0 calls
    (s\<lparr>progs := (progs s)(i := if go then acts else a # acts), locals := (locals s)(i := l), locked := lk, port := q\<rparr>) \<and> a \<noteq> Lock"
proof -
  from inv assms(3) obtain k before pre where k: "\<forall>j. j \<noteq> k \<longrightarrow> idle (ebx j) (records s j) (progs s j)"
    "calls = before @ [(k, records s k)]" "pre @ out_bytes (progs s k) = log_line ebx (k, records s k)"
    "sent (port s) = sent (port s0) @ map (Pair (uart_port uart)) (concat (map (log_line ebx) before) @ pre)"
    by (auto simp: log_inv_def)
  have "k = i" using k(1) s p idle_not_sending by fastforce
  note k = k [unfolded this p]
  from s show ?thesis
  proof (cases rule: sendingE)
    case 1
    with assms(3) d k s show ?thesis
      unfolding log_inv_def by (intro conjI; simp split: list.splits)
        (intro exI [of _ i] conjI exI [of _ before] exI [of _ pre]; auto split: list.splits)
  next
    case (2 b)
    with assms(3) d k s show ?thesis
      unfolding log_inv_def by (intro conjI; simp add: outb_def)
        (intro exI [of _ i] conjI exI [of _ before] exI [of _ "pre @ [b]"]; auto simp: outb_def)
  next
    case 3
    with assms(3) d k show ?thesis by (auto simp: log_inv_def idle_drop)
  qed
qed

lemma log_inv_act_idle:
  assumes inv: "log_inv uart ebx s0 calls s" and p: "progs s i = a # acts" and idl: "idle (ebx i) (records s i) (a # acts)"
    and d: "do_action uart a (locals s i, locked s, port s) = Some (go, l, lk, q)"
  shows "log_inv uart ebx s0 (calls @ (if a = Lock \<and> go then [(i, records s i)] else []))
    (s\<lparr>progs := (progs s)(i := if go then acts else a # acts), locals := (locals s)(i := l), locked := lk, port := q\<rparr>)"
proof -
  obtain g f where li: "locals s i = (g, f)" by fastforce
  have other: "log_inv uart ebx s0 calls (s\<lparr>progs := (progs s)(i := acts'), locals := l', locked := lk', port := port s\<rparr>)"
    if "idle (ebx i) (records s i) acts'" and "lk' = locked s" for acts' l' lk'
  proof (cases "locked s")
    case True
    with inv obtain k before pre where k: "sending (progs s k)" "\<forall>j. j \<noteq> k \<longrightarrow> idle (ebx j) (records s j) (progs s j)"
      "calls = before @ [(k, records s k)]" "pre @ out_bytes (progs s k) = log_line ebx (k, records s k)"
      "sent (port s) = sent (port s0) @ map (Pair (uart_port uart)) (concat (map (log_line ebx) before) @ pre)"
      by (auto simp: log_inv_def)
    have "k \<noteq> i" using k(1) p idl idle_not_sending by fastforce
    with True k that show ?thesis
      unfolding log_inv_def by simp (intro exI [of _ k] conjI exI [of _ before] exI [of _ pre]; simp)
  next
    case False
    with inv that show ?thesis by (simp add: log_inv_def)
  qed
  from idl show ?thesis
  proof (cases rule: idleE)
    case 1
    with d other [OF idle_drop(1) refl] show ?thesis by (simp add: li)
  next
    case 2
    with d other [OF _ refl, of acts] show ?thesis by (simp add: li)
  next
    case 3
    show ?thesis
    proof (cases "locked s")
      case True
      with 3 d other [OF idl] show ?thesis by (simp add: li)
    next
      case False
      with 3 d inv show ?thesis
        unfolding log_inv_def by (simp add: li log_line_eq)
    qed
  qed
qed

lemma log_inv_act:
  assumes inv: "log_inv uart ebx s0 calls s" and p: "progs s i = a # acts"
    and d: "do_action uart a (locals s i, locked s, port s) = Some (go, l, lk, q)"
  shows "log_inv uart ebx s0 (calls @ (if a = Lock \<and> go then [(i, records s i)] else []))
    (s\<lparr>progs := (progs s)(i := if go then acts else a # acts), locals := (locals s)(i := l), locked := lk, port := q\<rparr>)"
proof (cases "locked s \<and> sending (a # acts)")
  case True
  with log_inv_act_sending [OF inv p _ _ d] show ?thesis by simp
next
  case False
  have "idle (ebx i) (records s i) (progs s i)"
  proof (cases "locked s")
    case True
    with inv obtain k where "sending (progs s k)" "\<forall>j. j \<noteq> k \<longrightarrow> idle (ebx j) (records s j) (progs s j)"
      by (auto simp: log_inv_def)
    moreover have "\<not> sending (progs s i)" using True False p by simp
    ultimately show ?thesis by metis
  qed (use inv in \<open>simp add: log_inv_def\<close>)
  with log_inv_act_idle [OF inv p _ d] p show ?thesis by simp
qed

lemma log_run_inv:
  assumes "log_run uart ebx s0 calls s" and "progs s0 = (\<lambda>_. [])" and "\<not> locked s0"
  shows "log_inv uart ebx s0 calls s"
  using assms(1)
proof (induction rule: log_run.induct)
  case start
  then show ?case using assms(2,3) by (simp add: log_inv_def idle_drop)
next
  case (step calls s new s')
  from step.hyps(2) show ?case
    by (cases rule: log_step.cases) (use log_inv_call [OF step.IH] log_inv_act [OF step.IH] in auto)
qed

section \<open>Properties\<close>

text \<open>
  C39. A log line on the serial port. \<open>log\<close> returns exactly when the transmitter becomes
  ready often enough; it then has sent the bytes of
  \<open>#<APIC ID>:<level, five columns>: <message>\<close> and a newline, in order, to the port and
  nowhere else, and the interrupt flag is as before.
\<close>

theorem serial_log_line:
  assumes "line = concat (log_pieces (apic_id_get ebx) level args)"
  shows "if length line \<le> length (filter THRE (line_status s))
    then \<exists>s'. SerialLogger_log ebx uart level args (rflags_if, s) = Inr (rflags_if, s')
           \<and> sent s' = sent s @ map (Pair (uart_port uart)) line
    else SerialLogger_log ebx uart level args (rflags_if, s) = Inl NoReturn"
proof -
  have on: "serial_enabled level" by (cases level) (simp_all add: serial_enabled_def less_eq_Level_def)
  then have log: "SerialLogger_log ebx uart level args (rflags_if, s) =
      and_then (Uart_write_str uart line s) (\<lambda>s1. Inr (rflags_if, s1))"
    by (simp add: SerialLogger_log_def InterruptGuard_new_def InterruptGuard_drop_def write_fmt_concat assms)
  then show ?thesis using write_str_outcome [of line s uart] by (auto split: if_splits)
qed

theorem serial_log_line_witness:
  "\<exists>s'. SerialLogger_log 0x0c000000 \<lparr>uart_port = 0x3f8\<rparr> Info [0x68, 0x69] (True, \<lparr>sent = [], line_status = concat (replicate 14 [0, 0x60])\<rparr>)
       = Inr (True, s')
     \<and> map snd (sent s') = map of_char ''#12:INFO : hi'' @ [0x0a]"
proof -
  have pieces: "concat (log_pieces (apic_id_get 0x0c000000) Info [0x68, 0x69]) = map of_char ''#12:INFO : hi'' @ [0x0a]"
    by (simp add: log_pieces_def apic_id_get_def decimal.simps pad5_def of_char_def char_of_def bit_0)
  have "\<not> THRE 0" "THRE 0x60" by (simp_all add: THRE_def)
  then have "length (filter THRE (concat (replicate 14 [0, 0x60]))) = 14" by (simp add: eval_nat_numeral)
  then show ?thesis
    using serial_log_line [OF pieces [symmetric], of "\<lparr>sent = [], line_status = concat (replicate 14 [0, 0x60])\<rparr>" "\<lparr>uart_port = 0x3f8\<rparr>" True]
    by (auto simp: comp_def)
qed

text \<open>
  C40. Log lines of different processors are not mixed. Under every interleaving of the single
  accesses of any number of calls of \<open>log\<close>, the bytes that have been sent are the complete lines of the calls in
  the order in which they got the mutex, and, while the mutex is taken, a part of the line of the
  last of them. Without interference, the accesses of a call amount to \<open>SerialLogger_log\<close>.
\<close>

theorem log_lines_not_interleaved:
  assumes "log_run uart ebx s0 calls s" and "progs s0 = (\<lambda>_. [])" and "\<not> locked s0"
  shows "(if locked s
      then \<exists>before c pre rest. calls = before @ [c] \<and> log_line ebx c = pre @ rest
        \<and> sent (port s) = sent (port s0) @ map (Pair (uart_port uart)) (concat (map (log_line ebx) before) @ pre)
      else sent (port s) = sent (port s0) @ map (Pair (uart_port uart)) (concat (map (log_line ebx) calls)))
    \<and> and_then (run_alone uart (log_actions e level args) ((g, f), False, sp)) (\<lambda>((g', f'), lk, sp'). Inr (f', lk, sp')) =
        and_then (SerialLogger_log e uart level args (f, sp)) (\<lambda>(f', sp'). Inr (f', False, sp'))"
proof (rule conjI)
  note inv = log_run_inv [OF assms, unfolded log_inv_def]
  show "if locked s
      then \<exists>before c pre rest. calls = before @ [c] \<and> log_line ebx c = pre @ rest
        \<and> sent (port s) = sent (port s0) @ map (Pair (uart_port uart)) (concat (map (log_line ebx) before) @ pre)
      else sent (port s) = sent (port s0) @ map (Pair (uart_port uart)) (concat (map (log_line ebx) calls))"
  proof (cases "locked s")
    case True
    from inv obtain i before pre where "calls = before @ [(i, records s i)]"
      "pre @ out_bytes (progs s i) = log_line ebx (i, records s i)"
      "sent (port s) = sent (port s0) @ map (Pair (uart_port uart)) (concat (map (log_line ebx) before) @ pre)"
      unfolding if_P [OF True] by (elim exE conjE)
    then show ?thesis unfolding if_P [OF True] by (intro exI conjI) (assumption, erule sym, assumption)
  qed (use inv in simp)
qed (rule run_alone_log)

text \<open>Two processors call \<open>log\<close>; the first gets the mutex, then the second tries in vain.\<close>

definition log_example :: log_system where
  "log_example = \<lparr>progs = (\<lambda>_. []), records = (\<lambda>_. (Info, [])), locals = (\<lambda>_. (\<lparr>enabled = False\<rparr>, True)), locked = False,
     port = \<lparr>sent = [], line_status = []\<rparr>\<rparr>"

theorem log_lines_not_interleaved_witness:
  "\<exists>s. log_run \<lparr>uart_port = 0x3f8\<rparr> (\<lambda>_. 0) log_example [(1, Info, [0x61])] s \<and> locked s
     \<and> (\<exists>before c pre rest. [(1, Info, [0x61])] = before @ [c] \<and> log_line (\<lambda>_. 0) c = pre @ rest
          \<and> sent (port s) = map (Pair 0x3f8) (concat (map (log_line (\<lambda>_. 0)) before) @ pre))"
proof -
  let ?u = "\<lparr>uart_port = 0x3f8\<rparr>" and ?e = "(\<lambda>_. 0) :: nat \<Rightarrow> u32"
  have on: "serial_enabled Info" by (simp add: serial_enabled_def less_eq_Level_def)
  define body where "body = write_fmt_actions (log_pieces (apic_id_get 0) Info [0x61]) @ [Unlock, Drop_guard]"
  have prog: "log_actions 0 Info [0x61] = Disable_interrupts # Lock # body" by (simp add: log_actions_def on body_def)
  define s1 where "s1 = log_example\<lparr>progs := (progs log_example)(1 := Disable_interrupts # Lock # body), records := (records log_example)(1 := (Info, [0x61]))\<rparr>"
  have "log_run ?u ?e log_example ([] @ []) s1"
    using step [OF start call [of log_example 1 ?u ?e Info "[0x61]"]] prog by (simp add: s1_def log_example_def)
  moreover obtain s2 where step2: "log_step ?u ?e s1 [] s2" and s2: "progs s2 1 = Lock # body" "locked s2 = False" "records s2 1 = (Info, [0x61])"
    using act [of s1 1 Disable_interrupts "Lock # body" ?u True "(\<lparr>enabled = True\<rparr>, False)" False "port s1" ?e]
    by (auto simp: s1_def log_example_def InterruptGuard_new_def)
  moreover obtain s3 where step3: "log_step ?u ?e s2 [(1, Info, [0x61])] s3" and lk: "locked s3"
    using act [of s2 1 Lock body ?u True "locals s2 1" True "port s2" ?e] s2 by auto
  ultimately have r: "log_run ?u ?e log_example [(1, Info, [0x61])] s3" using step [OF step [OF _ step2] step3] by fastforce
  moreover have "progs log_example = (\<lambda>_. [])" "\<not> locked log_example" "sent (port log_example) = []" by (simp_all add: log_example_def)
  ultimately show ?thesis using log_lines_not_interleaved [OF r] lk by (intro exI [of _ s3]) simp
qed

text \<open>
  The debugger output: pieces of ASCII text without zero bytes and of at most 255 bytes are
  printed completely, and a longer piece panics instead of being cut off.
\<close>

lemma dbg_print_short:
  "\<forall>p\<in>set pieces. length p \<le> 255 \<and> list_all (\<lambda>b. b < 0x80 \<and> b \<noteq> 0) p \<Longrightarrow>
     dbg_print pieces printed = Inr (printed @ concat pieces)"
  by (induction pieces arbitrary: printed) (auto simp: dbg_print_def dbg_write_str_short)

lemma dbg_print_long_panics:
  "255 < length p \<Longrightarrow> list_all (\<lambda>b. b < 0x80) p \<Longrightarrow> dbg_print (p # pieces) printed = Inl LengthMismatch"
  by (simp add: dbg_print_def DbgOutput_write_str_def Let_def)

text \<open>
  \<open>init\<close> programs the port COM1 for 115200 baud, 8 data bits, no parity and one stop bit, in the
  order that the divisor latch requires, and registers the logger; a second \<open>init\<close> panics.
\<close>

lemma serial_logger_init_programs:
  "\<exists>s1. serial_logger_init oc level (None, \<lparr>facade_logger = None, facade_max_level = None\<rparr>, s) =
      Inr (Some \<lparr>uart_port = 0x3f8\<rparr>, \<lparr>facade_logger = Some \<lparr>uart_port = 0x3f8\<rparr>, facade_max_level = level\<rparr>, s1)
    \<and> sent s1 = sent s @ [(0x3f9, 0), (0x3fb, 0x80), (0x3f8, 1), (0x3f9, 0), (0x3fb, 3), (0x3fa, 0xc7), (0x3fc, 0xb), (0x3f9, 1)]
    \<and> line_status s1 = line_status s"
  by (simp add: serial_logger_init_def SerialLogger_new_def Uart_new_def Uart_init_def outb_at_def outb_def add_checked_def set_logger_def Let_def)

lemma serial_logger_init_twice:
  assumes "serial_logger_init oc level st = Inr st'"
  shows "serial_logger_init oc' level' st' = Inl (UnwrapFailed ''set_logger'')"
  using assms
  by (auto simp: serial_logger_init_def set_logger_def rust_simps split: prod.splits option.splits)

text \<open>A panic after the logger was set up reports itself, unless the port never becomes ready, and leaves interrupts off.\<close>

lemma panic_impl_reports:
  assumes "facade_logger f = Some uart" and "facade_max_level f = Some level"
    and "length line \<le> length (filter THRE (line_status s))" and "line = concat (log_pieces (apic_id_get ebx) Error info)"
  shows "\<exists>s'. panic_impl ebx f info (rflags_if, s) = Inr (False, s') \<and> sent s' = sent s @ map (Pair (uart_port uart)) line"
proof -
  have "passes Error (Some level)" "serial_enabled Error"
    by (cases level; simp add: passes_def serial_enabled_def less_eq_Level_def)+
  with write_str_outcome [of line s uart] assms show ?thesis
    by (auto simp: panic_impl_def SerialLogger_log_def InterruptGuard_new_def InterruptGuard_drop_def write_fmt_concat)
qed

end
