(* ===== verification/Vendor_Check.thy ===== *)
theory Vendor_Check
  imports Uefi Logging
begin

unbundle bit_operations_syntax

text \<open>
  The two programs that print the hypervisor name of every processor,
  \<open>uefi/check_hv_vendor/src/main.rs\<close> and \<open>windows/check_hv_vendor/src/main.rs\<close>. They execute CPUID
  as software on the processor sees it, \<open>cpu_seen\<close>. The text that is printed is a list of bytes.
\<close>

section \<open>Definitions\<close>

subsection \<open>The name\<close>

definition to_le_bytes :: "u32 \<Rightarrow> u8 list" where
  "to_le_bytes w = [ucast w, ucast (drop_bit 8 w), ucast (drop_bit 16 w), ucast (drop_bit 24 w)]"

definition vendor_bytes :: "cpuid_result \<Rightarrow> u8 list" where
  "vendor_bytes r = to_le_bytes (ebx r) @ to_le_bytes (ecx r) @ to_le_bytes (edx r)"

text \<open>
  UEFI: the bytes when they are all printable. Printable bytes are ASCII, so that
  \<open>String::from_utf8\<close> accepts them.
\<close>

definition vendor_text :: "u8 list \<Rightarrow> u8 list" where
  "vendor_text vec = (if list_all (\<lambda>byte. 0x20 \<le> byte \<and> byte \<le> 0x7e) vec then vec else [])"

text \<open>\<open>CPU{:2}: {}\<close> and a newline; numbers are aligned to the right.\<close>

definition cpu_line :: "nat \<Rightarrow> u8 list \<Rightarrow> u8 list" where
  "cpu_line core_id vendor =
     map of_char (''CPU'' @ replicate (2 - length (decimal core_id)) (CHR '' '') @ decimal core_id @ '': '') @ vendor @ [0x0a]"

definition check_title :: "u8 list" where
  "check_title = map of_char ''Executing CPUID(0x40000000) on all logical processors'' @ [0x0a]"

subsection \<open>UEFI\<close>

text \<open>The closure of \<open>main\<close>; the static variables are \<open>PROCESSOR_COUNT\<close> and the console.\<close>

definition check_closure :: "('p \<Rightarrow> cpuid_fun) \<Rightarrow> ('p, nat \<times> u8 list) callback" where
  "check_closure seen p st =
     (case st of (count0, console) \<Rightarrow>
      let core_id = count0;
          r = seen p 0x40000000 0;
          vendor = vendor_text (vendor_bytes r)
      in Inr (p, count0 + 1, console @ cpu_line core_id vendor))"

text \<open>
  \<open>run_on_all_processors\<close> of the checker, which returns errors instead of panicking. The boot
  services are the results of \<open>helpers::init\<close> and of finding the protocol, the status of
  \<open>startup_all_aps\<close> and the text of an error.
\<close>

record check_services =
  ck_init :: "Status option"
  ck_mp :: "Status option"
  ck_startup :: Status
  ck_error_text :: "Status \<Rightarrow> u8 list"

definition check_run_on_all_processors ::
  "check_services \<Rightarrow> ('p, 's) callback \<Rightarrow> 'p list \<Rightarrow> 's \<Rightarrow> (Status option \<times> 'p list \<times> 's) rust" where
  "check_run_on_all_processors ck callback ps s =
     (case ck_mp ck of
        Some e \<Rightarrow> Inr (Some e, ps, s)
      | None \<Rightarrow>
          and_then (callback (hd ps) s) (\<lambda>(bsp, s1).
          and_then (startup_all_aps (ck_startup ck) callback (tl ps) s1) (\<lambda>(res, aps, s2).
          Inr (if res \<noteq> SUCCESS \<and> res \<noteq> NOT_STARTED then Some res else None, bsp # aps, s2))))"

definition uefi_check_main :: "check_services \<Rightarrow> ('p \<Rightarrow> cpuid_fun) \<Rightarrow> 'p list \<Rightarrow> nat \<times> u8 list \<Rightarrow> (Status \<times> nat \<times> u8 list) rust" where
  "uefi_check_main ck seen ps st =
     (case ck_init ck of
        Some e \<Rightarrow> Inr (e, st)
      | None \<Rightarrow>
          (case st of (count0, console) \<Rightarrow>
           and_then (check_run_on_all_processors ck (check_closure seen) ps (count0, console @ check_title)) (\<lambda>(res, ps', count, console1).
           case res of
             Some e \<Rightarrow> Inr (e, count, console1 @ ck_error_text ck e @ [0x0a])
           | None \<Rightarrow> Inr (SUCCESS, count, console1))))"

subsection \<open>Windows\<close>

text \<open>
  \<open>String::from_utf8_lossy\<close>: the longest valid beginning of a character, as the standard library
  reads it, is kept when the character is complete and replaced with U+FFFD, the
  bytes EF BF BD, when it is not. Behind the end of the slice the library reads zeros.
\<close>

definition byte_at :: "u8 list \<Rightarrow> nat \<Rightarrow> u8" where
  "byte_at bs i = (if i < length bs then bs ! i else 0)"

definition continuation :: "u8 \<Rightarrow> bool" where
  "continuation b \<longleftrightarrow> 0x80 \<le> b \<and> b \<le> 0xbf"

text \<open>The second byte of a character of three or four bytes.\<close>

definition second_byte :: "u8 \<Rightarrow> u8 \<Rightarrow> bool" where
  "second_byte b c \<longleftrightarrow>
     (if b = 0xe0 then 0xa0 \<le> c \<and> c \<le> 0xbf else if b = 0xed then 0x80 \<le> c \<and> c \<le> 0x9f
      else if b = 0xf0 then 0x90 \<le> c \<and> c \<le> 0xbf else if b = 0xf4 then 0x80 \<le> c \<and> c \<le> 0x8f
      else continuation c)"

text \<open>Whether a character is complete, and the bytes that are consumed.\<close>

definition utf8_char :: "u8 list \<Rightarrow> bool \<times> nat" where
  "utf8_char bs =
     (let b = byte_at bs 0 in
      if b < 0x80 then (True, 1)
      else if 0xc2 \<le> b \<and> b \<le> 0xdf then
        (if continuation (byte_at bs 1) then (True, 2) else (False, 1))
      else if 0xe0 \<le> b \<and> b \<le> 0xef then
        (if \<not> second_byte b (byte_at bs 1) then (False, 1)
         else if \<not> continuation (byte_at bs 2) then (False, 2) else (True, 3))
      else if 0xf0 \<le> b \<and> b \<le> 0xf4 then
        (if \<not> second_byte b (byte_at bs 1) then (False, 1)
         else if \<not> continuation (byte_at bs 2) then (False, 2)
         else if \<not> continuation (byte_at bs 3) then (False, 3) else (True, 4))
      else (False, 1))"

lemma utf8_char_consumes: "0 < snd (utf8_char bs)"
  by (simp add: utf8_char_def Let_def)

lemma utf8_char_pos: "(ok, n) = utf8_char bs \<Longrightarrow> 0 < n"
  using utf8_char_consumes [of bs] by (metis snd_conv)

function from_utf8_lossy :: "u8 list \<Rightarrow> u8 list" where
  "from_utf8_lossy bs =
     (if bs = [] then []
      else case utf8_char bs of (ok, n) \<Rightarrow> (if ok then take n bs else [0xef, 0xbf, 0xbd]) @ from_utf8_lossy (drop n bs))"
  by pat_completeness auto

termination
  by (relation "measure length") (auto dest: utf8_char_pos)

declare from_utf8_lossy.simps [simp del]

text \<open>
  The processors that \<open>get_core_ids\<close> names and the processor on which the thread runs after
  \<open>set_for_current\<close> (\<open>None\<close> when it fails), functions of the crate \<open>core_affinity\<close>, are arguments.
\<close>

fun windows_check_loop ::
  "(nat \<Rightarrow> 'p option) \<Rightarrow> ('p \<Rightarrow> cpuid_fun) \<Rightarrow> nat list \<Rightarrow> u8 list \<Rightarrow> u8 list rust" where
  "windows_check_loop set_for_current seen [] out = Inr out"
| "windows_check_loop set_for_current seen (core_id # rest) out =
     (case set_for_current core_id of
        None \<Rightarrow> Inl (AssertFailed ''set_for_current(core_id)'')
      | Some p \<Rightarrow>
          let r = seen p 0x40000000 0
          in windows_check_loop set_for_current seen rest (out @ cpu_line core_id (from_utf8_lossy (vendor_bytes r))))"

definition windows_check_main ::
  "nat list option \<Rightarrow> (nat \<Rightarrow> 'p option) \<Rightarrow> ('p \<Rightarrow> cpuid_fun) \<Rightarrow> u8 list \<Rightarrow> u8 list rust" where
  "windows_check_main core_ids set_for_current seen out =
     and_then (unwrap ''get_core_ids'' core_ids) (\<lambda>ids.
     windows_check_loop set_for_current seen ids (out @ check_title))"

section \<open>The name\<close>

lemma to_le_bytes_inject: "to_le_bytes v = to_le_bytes w \<longleftrightarrow> v = w"
proof
  assume eq: "to_le_bytes v = to_le_bytes w"
  show "v = w"
  proof (rule bit_word_eqI)
    fix n assume n: "n < LENGTH(32)"
    have byte: "bit v (8 * k + i) = bit w (8 * k + i)" if "k < 4" "i < 8" for k i
    proof -
      have "(ucast (drop_bit (8 * k) v) :: u8) = ucast (drop_bit (8 * k) w)"
        using eq that(1) by (auto simp: to_le_bytes_def less_Suc_eq numeral_eq_Suc)
      then have "bit (ucast (drop_bit (8 * k) v) :: u8) i = bit (ucast (drop_bit (8 * k) w) :: u8) i" by simp
      with that(2) show ?thesis by (simp add: bit_simps)
    qed
    show "bit v n = bit w n" using byte [of "n div 8" "n mod 8"] n by simp
  qed
qed simp

definition barevisor :: "u8 list" where
  "barevisor = map of_char ''Barevisor!  ''"

lemma byte_of_or:
  fixes b :: u8 and acc :: u32
  shows "ucast (ucast b OR push_bit 8 acc :: u32) = b"
    and "drop_bit 8 (ucast b OR push_bit 8 acc :: u32) = take_bit 24 acc"
  by (rule bit_word_eqI, auto simp: bit_simps dest: bit_imp_le_length)+

lemma byte_of_take:
  fixes w :: u32
  shows "k + 8 \<le> n \<Longrightarrow> (ucast (drop_bit k (take_bit n w)) :: u8) = ucast (drop_bit k w)"
  by (rule bit_word_eqI) (auto simp: bit_simps)

lemma to_le_from_ne_bytes: "to_le_bytes (from_ne_bytes [a, b, c, d]) = [a, b, c, d]"
proof -
  let ?w3 = "ucast d OR push_bit 8 0 :: u32"
  let ?w2 = "ucast c OR push_bit 8 ?w3" let ?w1 = "ucast b OR push_bit 8 ?w2" let ?w0 = "ucast a OR push_bit 8 ?w1"
  have w: "from_ne_bytes [a, b, c, d] = ?w0" unfolding from_ne_bytes_def by simp
  have "drop_bit 16 ?w0 = drop_bit 8 (drop_bit 8 ?w0)" "drop_bit 24 ?w0 = drop_bit 16 (drop_bit 8 ?w0)" by simp_all
  then have "(ucast (drop_bit 8 ?w0) :: u8) = ucast ?w1" "(ucast (drop_bit 16 ?w0) :: u8) = ucast (drop_bit 8 ?w1)"
    "(ucast (drop_bit 24 ?w0) :: u8) = ucast (drop_bit 16 ?w1)"
    unfolding byte_of_or(2) [of a ?w1] using byte_of_take [of 0 24 ?w1] byte_of_take [of 8 24 ?w1] byte_of_take [of 16 24 ?w1] by simp_all
  moreover have "drop_bit 16 ?w1 = drop_bit 8 (drop_bit 8 ?w1)" by simp
  then have "(ucast (drop_bit 8 ?w1) :: u8) = ucast ?w2" "(ucast (drop_bit 16 ?w1) :: u8) = ucast (drop_bit 8 ?w2)"
    unfolding byte_of_or(2) [of b ?w2] using byte_of_take [of 0 24 ?w2] byte_of_take [of 8 24 ?w2] by simp_all
  moreover have "(ucast (drop_bit 8 ?w2) :: u8) = ucast ?w3"
    unfolding byte_of_or(2) [of c ?w3] using byte_of_take [of 0 24 ?w3] by simp
  ultimately show ?thesis unfolding w to_le_bytes_def by (simp only: byte_of_or(1))
qed

lemma barevisor_bytes:
  "barevisor = to_le_bytes OUR_HV_VENDOR_NAME_EBX @ to_le_bytes OUR_HV_VENDOR_NAME_ECX @ to_le_bytes OUR_HV_VENDOR_NAME_EDX"
  by (simp add: barevisor_def OUR_HV_VENDOR_NAME_EBX_def OUR_HV_VENDOR_NAME_ECX_def OUR_HV_VENDOR_NAME_EDX_def byte_string_def
      to_le_from_ne_bytes)

lemma length_to_le_bytes [simp]: "length (to_le_bytes w) = 4"
  by (simp add: to_le_bytes_def)

lemma vendor_bytes_barevisor: "vendor_bytes (cpuid 0x40000000 0) = barevisor \<longleftrightarrow> is_our_hypervisor_present cpuid"
  by (simp add: vendor_bytes_def barevisor_bytes is_our_hypervisor_present_def to_le_bytes_inject HV_CPUID_VENDOR_AND_MAX_FUNCTIONS_def Let_def)

lemma vendor_text_barevisor: "vendor_text (vendor_bytes (cpuid 0x40000000 0)) = barevisor \<longleftrightarrow> is_our_hypervisor_present cpuid"
proof -
  have "list_all (\<lambda>b. 0x20 \<le> b \<and> b \<le> 0x7e) barevisor" "barevisor \<noteq> []" by (simp_all add: barevisor_def)
  then show ?thesis by (auto simp: vendor_text_def vendor_bytes_barevisor [symmetric])
qed

section \<open>The output\<close>

text \<open>The lines for processors with the given names, from the number \<open>n\<close>.\<close>

fun check_lines :: "nat \<Rightarrow> u8 list list \<Rightarrow> u8 list" where
  "check_lines n [] = []"
| "check_lines n (vendor # rest) = cpu_line n vendor @ check_lines (n + 1) rest"

definition names_of :: "('p \<Rightarrow> cpuid_fun) \<Rightarrow> 'p list \<Rightarrow> u8 list list" where
  "names_of seen ps = map (\<lambda>p. vendor_text (vendor_bytes (seen p 0x40000000 0))) ps"

lemma check_closure_run:
  "run_on_all_processors (check_closure seen) ps (n, out) = Inr (ps, n + length ps, out @ check_lines n (names_of seen ps))"
  by (induction ps arbitrary: n out) (simp_all add: check_closure_def names_of_def Let_def)

lemma uefi_check_output:
  assumes "ck_init ck = None" and "ck_mp ck = None" and "ps \<noteq> []"
    and "ck_startup ck = SUCCESS \<or> ck_startup ck = NOT_STARTED \<and> length ps = 1"
  shows "uefi_check_main ck seen ps (0, out) = Inr (SUCCESS, length ps, out @ check_title @ check_lines 0 (names_of seen ps))"
proof -
  have "check_run_on_all_processors ck (check_closure seen) ps s =
      and_then (run_on_all_processors (check_closure seen) ps s) (\<lambda>(ps', s'). Inr (None, ps', s'))" for s
    using assms by (cases ps) (auto simp: check_run_on_all_processors_def startup_all_aps_def and_then_assoc split_def)
  then show ?thesis by (simp add: uefi_check_main_def assms check_closure_run)
qed

definition windows_names_of :: "('p \<Rightarrow> cpuid_fun) \<Rightarrow> 'p list \<Rightarrow> u8 list list" where
  "windows_names_of seen ps = map (\<lambda>p. from_utf8_lossy (vendor_bytes (seen p 0x40000000 0))) ps"

lemma windows_check_output:
  assumes "\<And>i. i < length ps \<Longrightarrow> set_for_current (n + i) = Some (ps ! i)"
  shows "windows_check_loop set_for_current seen [n..<n + length ps] out = Inr (out @ check_lines n (windows_names_of seen ps))"
  using assms
proof (induction ps arbitrary: n out)
  case (Cons p ps)
  have upt: "[n..<n + length (p # ps)] = n # [Suc n..<Suc n + length ps]" using upt_conv_Cons [of n "n + length (p # ps)"] by simp
  have "set_for_current n = Some p" using Cons.prems(1) [of 0] by simp
  moreover have "windows_check_loop set_for_current seen [Suc n..<Suc n + length ps] out' = Inr (out' @ check_lines (Suc n) (windows_names_of seen ps))" for out'
  proof (rule Cons.IH)
    show "set_for_current (Suc n + i) = Some (ps ! i)" if "i < length ps" for i
      using Cons.prems(1) [of "Suc i"] that by simp
  qed
  ultimately show ?case unfolding upt by (simp add: Let_def windows_names_of_def)
qed (simp add: windows_names_of_def)

lemma windows_check_all:
  "windows_check_main (Some [0..<length ps]) (\<lambda>i. Some (ps ! i)) seen [] = Inr (check_title @ check_lines 0 (windows_names_of seen ps))"
  using windows_check_output [of ps "\<lambda>i. Some (ps ! i)" 0 seen check_title] by (simp add: windows_check_main_def)

text \<open>ASCII text is printed as it is, and no other text is printed as ASCII.\<close>

lemma lossy_ascii: "list_all (\<lambda>b. b < 0x80) bs \<Longrightarrow> from_utf8_lossy bs = bs"
proof (induction bs)
  case (Cons b bs)
  then have "utf8_char (b # bs) = (True, 1)" by (simp add: utf8_char_def byte_at_def)
  with Cons show ?case by (simp add: from_utf8_lossy.simps [of "b # bs"])
qed (simp add: from_utf8_lossy.simps)

lemma lossy_not_ascii: "\<not> list_all (\<lambda>b. b < 0x80) bs \<Longrightarrow> \<not> list_all (\<lambda>b. b < 0x80) (from_utf8_lossy bs)"
proof (induction bs)
  case (Cons b bs)
  show ?case
  proof (cases "b < 0x80")
    case True
    then have "utf8_char (b # bs) = (True, 1)" by (simp add: utf8_char_def byte_at_def)
    with Cons True show ?thesis by (simp add: from_utf8_lossy.simps [of "b # bs"])
  next
    case False
    obtain ok n where u: "utf8_char (b # bs) = (ok, Suc n)" using utf8_char_consumes [of "b # bs"] by (metis gr0_implies_Suc surj_pair snd_conv)
    then show ?thesis using False by (simp add: from_utf8_lossy.simps [of "b # bs"])
  qed
qed simp

lemma lossy_barevisor: "from_utf8_lossy bs = barevisor \<longleftrightarrow> bs = barevisor"
proof -
  have "list_all (\<lambda>b. b < 0x80) barevisor" by (simp add: barevisor_def)
  then show ?thesis using lossy_ascii lossy_not_ascii by metis
qed

lemma names_barevisor:
  "(\<forall>p\<in>set ps. is_our_hypervisor_present (seen p)) \<longleftrightarrow> names_of seen ps = replicate (length ps) barevisor"
  by (simp add: names_of_def vendor_text_barevisor [symmetric] list_eq_iff_nth_eq all_set_conv_all_nth)

lemma windows_names_barevisor:
  "(\<forall>p\<in>set ps. is_our_hypervisor_present (seen p)) \<longleftrightarrow> windows_names_of seen ps = replicate (length ps) barevisor"
  by (induction ps) (auto simp: windows_names_of_def lossy_barevisor vendor_bytes_barevisor)

text \<open>Where the hypervisor is not there, neither list of names has its name.\<close>

lemma names_without_hypervisor:
  assumes "\<And>p. p \<in> set ps \<Longrightarrow> \<not> is_our_hypervisor_present (seen p)"
  shows "barevisor \<notin> set (names_of seen ps)" and "barevisor \<notin> set (windows_names_of seen ps)"
  using assms by (auto simp: names_of_def windows_names_of_def vendor_text_barevisor lossy_barevisor vendor_bytes_barevisor
      dest: sym [of barevisor])

section \<open>Properties\<close>

text \<open>
  C33. The vendor checkers. After \<open>virtualize_system\<close>, on any platform that meets its
  contract, both checkers, run on all processors, print the name \<open>Barevisor!\<close> for every
  processor; \<open>devirtualize_system\<close> then succeeds, and after it neither checker prints the name for any
  processor. The boot services of the UEFI checker succeed, the Windows checker can run on
  every processor.
\<close>

theorem checkers_report_barevisor:
  assumes "virtualize_system xcr0_all shared_host sys = Inr sys1" and "PLATFORM_OPS sys = Some ops" and "platform ops (length (cpus sys))"
    and "\<forall>p\<in>set (cpus sys). cpu_fresh (ops_pa ops) p" and "current < length (cpus sys)"
    and "ck_init ck = None" and "ck_mp ck = None" and "ck_startup ck = SUCCESS"
  shows "uefi_check_main ck cpu_seen (cpus sys1) (0, []) =
      Inr (SUCCESS, length (cpus sys), check_title @ check_lines 0 (replicate (length (cpus sys)) barevisor))
    \<and> windows_check_main (Some [0..<length (cpus sys)]) (\<lambda>i. Some (cpus sys1 ! i)) cpu_seen [] =
      Inr (check_title @ check_lines 0 (replicate (length (cpus sys)) barevisor))
    \<and> (\<exists>sys2 names names'. devirtualize_system xcr0_all current sys1 = Inr sys2
        \<and> length names = length (cpus sys) \<and> barevisor \<notin> set names
        \<and> uefi_check_main ck cpu_seen (cpus sys2) (0, []) = Inr (SUCCESS, length (cpus sys), check_title @ check_lines 0 names)
        \<and> length names' = length (cpus sys) \<and> barevisor \<notin> set names'
        \<and> windows_check_main (Some [0..<length (cpus sys)]) (\<lambda>i. Some (cpus sys2 ! i)) cpu_seen [] = Inr (check_title @ check_lines 0 names'))"
proof -
  note both = hypervisor_platform.system_there_and_back [OF hypervisor_platform.intro [OF assms(3)] assms(1,2) refl assms(4,5)]
  have len: "length (cpus sys1) = length (cpus sys)" and here: "\<forall>p\<in>set (cpus sys1). is_our_hypervisor_present (cpu_seen p)"
    using both by blast+
  obtain sys2 where d: "devirtualize_system xcr0_all current sys1 = Inr sys2" and len2: "length (cpus sys2) = length (cpus sys)"
    and gone: "\<And>p. p \<in> set (cpus sys2) \<Longrightarrow> \<not> is_our_hypervisor_present (cpu_seen p)" using both by blast
  have names: "names_of cpu_seen (cpus sys1) = replicate (length (cpus sys)) barevisor"
      "windows_names_of cpu_seen (cpus sys1) = replicate (length (cpus sys)) barevisor"
    using here names_barevisor windows_names_barevisor len by metis+
  have "cpus sys1 \<noteq> []" "cpus sys2 \<noteq> []" using len len2 assms(5) by auto
  note uefi = uefi_check_output [OF assms(6,7) this(1), of cpu_seen "[]"] uefi_check_output [OF assms(6,7) this(2), of cpu_seen "[]"]
  note win = windows_check_all [of "cpus sys1" cpu_seen] windows_check_all [of "cpus sys2" cpu_seen]
  have lens: "length (names_of cpu_seen (cpus sys2)) = length (cpus sys)" "length (windows_names_of cpu_seen (cpus sys2)) = length (cpus sys)"
    by (simp_all add: names_of_def windows_names_of_def len2)
  have "uefi_check_main ck cpu_seen (cpus sys1) (0, []) =
      Inr (SUCCESS, length (cpus sys), check_title @ check_lines 0 (replicate (length (cpus sys)) barevisor))"
    using uefi(1) assms(8) len names by simp
  moreover have "uefi_check_main ck cpu_seen (cpus sys2) (0, []) =
      Inr (SUCCESS, length (cpus sys), check_title @ check_lines 0 (names_of cpu_seen (cpus sys2)))"
    using uefi(2) assms(8) len2 by simp
  ultimately show ?thesis
    using win d names lens names_without_hypervisor [of "cpus sys2" cpu_seen] gone unfolding len len2 by auto
qed

text \<open>The example system, checked.\<close>

theorem checkers_report_barevisor_witness:
  "\<exists>sys1. virtualize_system 7 example_host_data example_system = Inr sys1
     \<and> uefi_check_main \<lparr>ck_init = None, ck_mp = None, ck_startup = SUCCESS, ck_error_text = (\<lambda>_. [])\<rparr> cpu_seen (cpus sys1) (0, [])
         = Inr (SUCCESS, 1, check_title @ map of_char ''CPU 0: Barevisor!  '' @ [0x0a])"
proof -
  let ?ck = "\<lparr>ck_init = None, ck_mp = None, ck_startup = SUCCESS, ck_error_text = (\<lambda>_. [])\<rparr>"
  obtain sys1 where v: "virtualize_system 7 example_host_data example_system = Inr sys1"
    using example_system_virtualized by blast
  have sys: "PLATFORM_OPS example_system = Some (reference_ops id)" "cpus example_system = [IntelCpu example_env example_core]"
    by (simp_all add: example_system_def)
  have "\<forall>p\<in>set (cpus example_system). cpu_fresh (ops_pa (reference_ops id)) p"
    using example_fresh by (simp add: sys reference_ops_def)
  from checkers_report_barevisor [OF v sys(1) example_platform this, of 0 ?ck]
  have "uefi_check_main ?ck cpu_seen (cpus sys1) (0, []) = Inr (SUCCESS, 1, check_title @ cpu_line 0 barevisor)" by (simp add: sys)
  with v show ?thesis by (simp add: cpu_line_def barevisor_def decimal.simps of_char_def char_of_def bit_0)
qed

end
