(* ===== verification/Xtask.thy ===== *)
theory Xtask
  imports Logging
begin

text \<open>
  The build and test tool, \<open>uefi/xtask/src\<close>. The programs that it starts are the argument
  \<open>run_command\<close>: whether a command can be started, its exit status, what it prints, and the file
  system that it leaves behind. The state records every command in the order of the
  calls, so that a property can say what was run before an error. A function returns a value,
  an error of \<open>anyhow\<close> or a panic, together with the state in each case. Paths are the lists of
  their components.
\<close>

section \<open>The environment of the tool\<close>

type_synonym path = "string list"

record command =
  program :: string
  arguments :: "string list"
  directory :: "path option"

datatype action =
    Ran command
  | Spawned command
  | Connected string
  | KeyEvent bool nat
  | Disconnected
  | Printed string

datatype node = File "u8 list" | Directory

text \<open>
  \<open>os\<close> is \<open>env::consts::OS\<close>, \<open>wsl\<close> the result of \<open>wsl::is_wsl\<close>. The output of a command is its text
  when it is UTF-8. The wait for a file is given the file systems that its tests \<open>observe\<close>. Of the
  operations on the VNC connection, \<open>vnc_accepts\<close> succeed before one fails; \<open>interrupted\<close> tells
  whether the handler of CTRL + C can be set and its message arrives.
\<close>

record xtask_env =
  os :: string
  wsl :: bool
  CARGO :: "string option"
  CARGO_MANIFEST_DIR :: path
  canonicalize :: "path \<Rightarrow> (path \<Rightarrow> node option) \<Rightarrow> path option"
  run_command :: "command \<Rightarrow> (path \<Rightarrow> node option) \<Rightarrow> (bool \<times> string option) option \<times> (path \<Rightarrow> node option)"
  observe :: "(path \<Rightarrow> node option) list"
  vnc_accepts :: nat
  interrupted :: bool

record world =
  fs :: "path \<Rightarrow> node option"
  history :: "action list"

datatype 'a outcome = Ok 'a | Err string | Panicked panic

type_synonym 'a task = "world \<Rightarrow> 'a outcome \<times> world"

definition return :: "'a \<Rightarrow> 'a task" where
  "return x = (\<lambda>w. (Ok x, w))"

definition fail :: "string \<Rightarrow> 'a task" where
  "fail e = (\<lambda>w. (Err e, w))"

definition panic_task :: "panic \<Rightarrow> 'a task" where
  "panic_task p = (\<lambda>w. (Panicked p, w))"

definition bind_task :: "'a task \<Rightarrow> ('a \<Rightarrow> 'b task) \<Rightarrow> 'b task" where
  "bind_task f g = (\<lambda>w.
     case f w of (Ok x, w') \<Rightarrow> g x w' | (Err e, w') \<Rightarrow> (Err e, w') | (Panicked p, w') \<Rightarrow> (Panicked p, w'))"

definition ensure :: "bool \<Rightarrow> string \<Rightarrow> unit task" where
  "ensure ok e = (if ok then return () else fail e)"

definition unwrap_task :: "string \<Rightarrow> 'a option \<Rightarrow> 'a task" where
  "unwrap_task what x = (case x of Some v \<Rightarrow> return v | None \<Rightarrow> panic_task (UnwrapFailed what))"

text \<open>Starting a command and waiting for it; the result is \<open>None\<close> when it cannot be started.\<close>

definition execute :: "xtask_env \<Rightarrow> command \<Rightarrow> (bool \<times> string option) option task" where
  "execute env c = (\<lambda>w. case run_command env c (fs w) of (res, fs') \<Rightarrow> (Ok res, w\<lparr>fs := fs', history := history w @ [Ran c]\<rparr>))"

text \<open>\<open>command.output()?\<close> and \<open>command.status()?\<close>\<close>

definition try_execute :: "xtask_env \<Rightarrow> command \<Rightarrow> (bool \<times> string option) task" where
  "try_execute env c = bind_task (execute env c) (\<lambda>res. case res of Some r \<Rightarrow> return r | None \<Rightarrow> fail ''cannot start'')"

definition record_action :: "action \<Rightarrow> unit task" where
  "record_action a = (\<lambda>w. (Ok (), w\<lparr>history := history w @ [a]\<rparr>))"

definition exists_path :: "path \<Rightarrow> bool task" where
  "exists_path p = (\<lambda>w. (Ok (fs w p \<noteq> None), w))"

text \<open>\<open>fs::read(path)?\<close>, \<open>fs::write(path, data)?\<close> on a file, and \<open>fs::remove_file(path)?\<close>\<close>

definition read_file :: "path \<Rightarrow> u8 list task" where
  "read_file p = (\<lambda>w. case fs w p of Some (File data) \<Rightarrow> (Ok data, w) | _ \<Rightarrow> (Err ''read'', w))"

definition write_file :: "path \<Rightarrow> u8 list \<Rightarrow> unit task" where
  "write_file p data = (\<lambda>w. if fs w p = Some Directory then (Err ''write'', w) else (Ok (), w\<lparr>fs := (fs w)(p \<mapsto> File data)\<rparr>))"

definition remove_file :: "path \<Rightarrow> unit task" where
  "remove_file p = (\<lambda>w. case fs w p of Some (File data) \<Rightarrow> (Ok (), w\<lparr>fs := (fs w)(p := None)\<rparr>) | _ \<Rightarrow> (Err ''remove'', w))"

text \<open>The text of a path: components between separators.\<close>

definition separator :: "xtask_env \<Rightarrow> string" where
  "separator env = (if os env = ''windows'' then [CHR 0x5c] else ''/'')"

fun join_with :: "string \<Rightarrow> string list \<Rightarrow> string" where
  "join_with sep [] = ''''"
| "join_with sep [c] = c"
| "join_with sep (c # rest) = c @ sep @ join_with sep rest"

definition to_str :: "xtask_env \<Rightarrow> path \<Rightarrow> string" where
  "to_str env p = join_with (separator env) p"

definition white :: "char \<Rightarrow> bool" where
  "white c \<longleftrightarrow> c \<in> {CHR '' '', CHR 0x09, CHR 0x0a, CHR 0x0b, CHR 0x0c, CHR 0x0d}"

definition trim :: "string \<Rightarrow> string" where
  "trim s = rev (dropWhile white (rev (dropWhile white s)))"

section \<open>Definitions\<close>

subsection \<open>main.rs: directories\<close>

definition project_root_dir :: "xtask_env \<Rightarrow> path task" where
  "project_root_dir env =
     bind_task (unwrap_task ''ancestors'' (if CARGO_MANIFEST_DIR env = [] then None else Some (butlast (CARGO_MANIFEST_DIR env)))) (\<lambda>root_dir.
     \<lambda>w. unwrap_task ''canonicalize'' (canonicalize env root_dir (fs w)) w)"

definition output_dir :: "xtask_env \<Rightarrow> bool \<Rightarrow> path task" where
  "output_dir env release =
     bind_task (project_root_dir env) (\<lambda>root.
     let out_dir = root @ [''target'', ''x86_64-unknown-uefi''] @ (if release then [''release''] else [''debug''])
     in (\<lambda>w. unwrap_task ''canonicalize'' (canonicalize env out_dir (fs w)) w))"

subsection \<open>cargo.rs\<close>

datatype Action = Build | Clippy
datatype Package = Hypervisor | CheckHvVendor | XtaskPackage
datatype Profile = Debug | Release

fun package_name :: "Package \<Rightarrow> string" where
  "package_name Hypervisor = ''uefi_hv''"
| "package_name CheckHvVendor = ''check_hv_vendor''"
| "package_name XtaskPackage = ''xtask''"

definition uefi_target :: "Package \<Rightarrow> bool" where
  "uefi_target package \<longleftrightarrow> package = Hypervisor \<or> package = CheckHvVendor"

definition transmute_to_runtime_driver :: "path \<Rightarrow> unit task" where
  "transmute_to_runtime_driver p =
     bind_task (read_file p) (\<lambda>data.
     if length data \<le> 0xd4 then panic_task IndexOutOfBounds
     else write_file p (data[0xd4 := 0xc]))"

definition cargo_command :: "xtask_env \<Rightarrow> Action \<Rightarrow> Package \<Rightarrow> Profile \<Rightarrow> path \<Rightarrow> command" where
  "cargo_command env action package profile root =
     \<lparr>program = (case CARGO env of Some c \<Rightarrow> c | None \<Rightarrow> ''cargo''),
      arguments = (case action of Build \<Rightarrow> [''build''] | Clippy \<Rightarrow> [''clippy''])
        @ (if uefi_target package then [''--target'', ''x86_64-unknown-uefi''] else [])
        @ [''--package'', package_name package]
        @ (if profile = Release then [''--release''] else []),
      directory = Some root\<rparr>"

definition cargo_run :: "xtask_env \<Rightarrow> Action \<Rightarrow> Package \<Rightarrow> Profile \<Rightarrow> unit task" where
  "cargo_run env action package profile =
     (let release = (profile = Release) in
      bind_task (project_root_dir env) (\<lambda>root.
      bind_task (try_execute env (cargo_command env action package profile root)) (\<lambda>(ok, out).
      bind_task (ensure ok ''cargo build failed'') (\<lambda>_.
      if action = Build \<and> package = Hypervisor then
        bind_task (output_dir env release) (\<lambda>dir.
        transmute_to_runtime_driver (dir @ [package_name package @ ''.efi'']))
      else return ()))))"

subsection \<open>main.rs: build and clippy\<close>

definition build :: "xtask_env \<Rightarrow> bool \<Rightarrow> unit task" where
  "build env release =
     (let profile = (if release then Release else Debug) in
      bind_task (cargo_run env Build Hypervisor profile) (\<lambda>_.
      cargo_run env Build CheckHvVendor profile))"

definition clippy :: "xtask_env \<Rightarrow> unit task" where
  "clippy env =
     bind_task (cargo_run env Clippy Hypervisor Debug) (\<lambda>_.
     bind_task (cargo_run env Clippy CheckHvVendor Debug) (\<lambda>_.
     cargo_run env Clippy XtaskPackage Debug))"

subsection \<open>vmtest/mod.rs\<close>

record test_vm =
  deploy :: "bool \<Rightarrow> unit task"
  run_vm :: "unit task"

text \<open>On Windows a command of Unix is run through \<open>wsl\<close>.\<close>

definition UnixCommand :: "xtask_env \<Rightarrow> string \<Rightarrow> string list \<Rightarrow> command" where
  "UnixCommand env prog args =
     (if os env = ''windows'' then \<lparr>program = ''wsl'', arguments = prog # args, directory = None\<rparr>
      else \<lparr>program = prog, arguments = args, directory = None\<rparr>)"

text \<open>\<open>output().unwrap()\<close> and the trimmed text of the output\<close>

definition stdout_of :: "xtask_env \<Rightarrow> bool \<Rightarrow> command \<Rightarrow> string task" where
  "stdout_of env must_succeed c =
     bind_task (execute env c) (\<lambda>res.
     bind_task (unwrap_task ''output'' res) (\<lambda>(ok, out).
     if must_succeed \<and> \<not> ok then panic_task (AssertFailed ''output.status.success()'')
     else bind_task (unwrap_task ''from_utf8'' out) (\<lambda>text. return (trim text))))"

definition unix_path :: "xtask_env \<Rightarrow> path \<Rightarrow> string task" where
  "unix_path env p =
     (if os env = ''windows'' then
        let path_str = concat (map (\<lambda>c. if c = CHR 0x5c then [CHR 0x5c, CHR 0x5c] else [c]) (to_str env p))
        in stdout_of env False (UnixCommand env ''wslpath'' [''-a'', path_str])
      else return (to_str env p))"

text \<open>A command whose failure is reported.\<close>

definition run_checked :: "xtask_env \<Rightarrow> command \<Rightarrow> string \<Rightarrow> unit task" where
  "run_checked env c e = bind_task (try_execute env c) (\<lambda>(ok, out). ensure ok e)"

fun copy_loop :: "xtask_env \<Rightarrow> string \<Rightarrow> string list \<Rightarrow> unit task" where
  "copy_loop env img [] = return ()"
| "copy_loop env img (file # rest) =
     bind_task (run_checked env (UnixCommand env ''mcopy'' [''-o'', ''-i'', img, file, ''::/'']) ''mcopy failed'') (\<lambda>_.
     copy_loop env img rest)"

definition copy_artifacts_to :: "xtask_env \<Rightarrow> string \<Rightarrow> bool \<Rightarrow> unit task" where
  "copy_artifacts_to env img release =
     bind_task (output_dir env release) (\<lambda>d1.
     bind_task (unix_path env d1) (\<lambda>out1.
     bind_task (output_dir env release) (\<lambda>d2.
     bind_task (unix_path env d2) (\<lambda>out2.
     bind_task (project_root_dir env) (\<lambda>d3.
     bind_task (unix_path env d3) (\<lambda>root.
     copy_loop env img
       [out1 @ ''/'' @ package_name Hypervisor @ ''.efi'', out2 @ ''/'' @ package_name CheckHvVendor @ ''.efi'',
        root @ ''/tests/startup.nsh'']))))))"

definition extract_samples :: "xtask_env \<Rightarrow> unit task" where
  "extract_samples env =
     bind_task (exists_path [''.'', ''tests'', ''samples'']) (\<lambda>ex.
     if ex then return ()
     else
       bind_task (record_action (Printed ''Extracting sample files...'')) (\<lambda>_.
       run_checked env (UnixCommand env ''7z'' [''x'', ''-o./tests/'', ''./tests/samples.7z'']) ''7z failed''))"

definition vmtest_run :: "xtask_env \<Rightarrow> test_vm \<Rightarrow> bool \<Rightarrow> unit task" where
  "vmtest_run env vm release =
     bind_task (build env release) (\<lambda>_.
     bind_task (extract_samples env) (\<lambda>_.
     bind_task (deploy vm release) (\<lambda>_.
     run_vm vm)))"

text \<open>Both machines run until CTRL + C.\<close>

definition wait_for_interrupt :: "xtask_env \<Rightarrow> unit task" where
  "wait_for_interrupt env = (if interrupted env then return () else fail ''ctrlc'')"

subsection \<open>vmtest/bochs.rs\<close>

datatype Cpu = Intel | Amd

fun Cpu_fmt :: "Cpu \<Rightarrow> string" where
  "Cpu_fmt Intel = ''Intel''"
| "Cpu_fmt Amd = ''Amd''"

definition to_lowercase :: "string \<Rightarrow> string" where
  "to_lowercase s = map (\<lambda>c. if (65 :: nat) \<le> of_char c \<and> of_char c \<le> (90 :: nat) then char_of (of_char c + 32 :: nat) else c) s"

text \<open>
  The two threads: one connects to the serial port of the machine again and again, the other
  runs Bochs in the directory of the tests. What they read is printed.
\<close>

definition bochs_nc :: "xtask_env \<Rightarrow> command" where
  "bochs_nc env = UnixCommand env ''nc'' [''localhost'', ''14449'']"

definition bochs_command :: "xtask_env \<Rightarrow> Cpu \<Rightarrow> command" where
  "bochs_command env c =
     (let cpu_type = to_lowercase (Cpu_fmt c);
          os_type = (if os env = ''windows'' then ''linux'' else os env);
          bxrc = ''./bochs/'' @ os_type @ ''_'' @ cpu_type @ ''.bxrc''
      in (UnixCommand env ''bochs'' [''-q'', ''-unlock'', ''-f'', bxrc])\<lparr>directory := Some [''.'', ''tests'']\<rparr>)"

text \<open>
  What a thread prints of the lines that it reads: each with the seconds since its start, as
  \<open>{:>4}: {line}\r\<close>, up to the first line that cannot be read. The thread of \<open>nc\<close> does this for one
  connection after the other.
\<close>

definition timed_line :: "nat \<Rightarrow> string \<Rightarrow> string" where
  "timed_line secs line =
     replicate (4 - length (decimal secs)) (CHR '' '') @ decimal secs @ '': '' @ line @ [CHR 0x0d, CHR 0x0a]"

definition print_lines :: "(nat \<times> string option) list \<Rightarrow> string" where
  "print_lines ls = concat (map (\<lambda>(secs, line). timed_line secs (the line)) (takeWhile (\<lambda>(secs, line). line \<noteq> None) ls))"

definition nc_thread :: "(nat \<times> string option) list list \<Rightarrow> string" where
  "nc_thread connections = concat (map print_lines connections)"

definition Bochs_deploy :: "xtask_env \<Rightarrow> bool \<Rightarrow> unit task" where
  "Bochs_deploy env release = copy_artifacts_to env ''./tests/samples/bochs_disk.img'' release"

definition Bochs_run :: "xtask_env \<Rightarrow> Cpu \<Rightarrow> unit task" where
  "Bochs_run env c =
     bind_task (record_action (Spawned (bochs_nc env))) (\<lambda>_.
     bind_task (record_action (Spawned (bochs_command env c))) (\<lambda>_.
     wait_for_interrupt env))"

definition Bochs :: "xtask_env \<Rightarrow> Cpu \<Rightarrow> test_vm" where
  "Bochs env c = \<lparr>deploy = Bochs_deploy env, run_vm = Bochs_run env c\<rparr>"

subsection \<open>vmtest/vmware.rs\<close>

definition Vmware_deploy :: "xtask_env \<Rightarrow> bool \<Rightarrow> unit task" where
  "Vmware_deploy env release =
     bind_task (run_checked env (UnixCommand env ''dd''
       [''if=/dev/zero'', ''of=/tmp/vmware_cd.img'', ''bs=1k'', ''count=2880'']) ''dd failed'') (\<lambda>_.
     bind_task (run_checked env (UnixCommand env ''mformat''
       [''-i'', ''/tmp/vmware_cd.img'', ''-f'', ''2880'', ''::'']) ''mformat failed'') (\<lambda>_.
     bind_task (copy_artifacts_to env ''/tmp/vmware_cd.img'' release) (\<lambda>_.
     run_checked env (UnixCommand env ''mkisofs''
       [''-eltorito-boot'', ''vmware_cd.img'', ''-no-emul-boot'', ''-o'', ''/tmp/vmware_cd.iso'', ''/tmp/vmware_cd.img'']) ''mkisofs failed'')))"

definition windows_path :: "xtask_env \<Rightarrow> string \<Rightarrow> string task" where
  "windows_path env p =
     (if wsl env then stdout_of env True (UnixCommand env ''wslpath'' [''-a'', ''-w'', p]) else return p)"

definition vmrun_program :: "xtask_env \<Rightarrow> string" where
  "vmrun_program env =
     (if os env = ''windows'' then
        join_with [CHR 0x5c] [''C:'', ''Program Files'', ''VMware'', ''VMware Workstation'', ''vmrun.exe'']
      else if wsl env then ''/mnt/c/Program Files/VMware/VMware Workstation/vmrun.exe''
      else ''vmrun'')"

definition vmx_file :: "xtask_env \<Rightarrow> path" where
  "vmx_file env = [''.'', ''tests'', ''samples'', ''vmware'', ''NoOS_'' @ (if wsl env then ''windows'' else os env) @ ''.vmx'']"

definition serial_log :: "xtask_env \<Rightarrow> path" where
  "serial_log env =
     (if os env = ''windows'' then ['''', '''', ''wsl$'', ''Ubuntu'', ''tmp'', ''serial.log''] else ['''', ''tmp'', ''serial.log''])"

text \<open>\<open>BufRead::lines\<close>: a line is ended by a newline, with or without a carriage return, or by the end of the file.\<close>

fun split_lines :: "u8 list \<Rightarrow> u8 list \<Rightarrow> u8 list list" where
  "split_lines line [] = (if line = [] then [] else [line])"
| "split_lines line (b # rest) =
     (if b = 0x0a then (if line \<noteq> [] \<and> last line = 0x0d then butlast line else line) # split_lines [] rest
      else split_lines (line @ [b]) rest)"

text \<open>Well-formed UTF-8. (Unicode standard, table 3-7)\<close>

definition continues :: "u8 \<Rightarrow> bool" where
  "continues b \<longleftrightarrow> 0x80 \<le> b \<and> b \<le> 0xbf"

fun valid_utf8 :: "u8 list \<Rightarrow> bool" where
  "valid_utf8 [] \<longleftrightarrow> True"
| "valid_utf8 (b # rest) \<longleftrightarrow>
     (if b \<le> 0x7f then valid_utf8 rest
      else case rest of
        c1 # rest1 \<Rightarrow>
          if 0xc2 \<le> b \<and> b \<le> 0xdf then continues c1 \<and> valid_utf8 rest1
          else (case rest1 of
            c2 # rest2 \<Rightarrow>
              if 0xe0 \<le> b \<and> b \<le> 0xef then
                continues c1 \<and> (b = 0xe0 \<longrightarrow> 0xa0 \<le> c1) \<and> (b = 0xed \<longrightarrow> c1 \<le> 0x9f) \<and> continues c2 \<and> valid_utf8 rest2
              else (case rest2 of
                c3 # rest3 \<Rightarrow>
                  0xf0 \<le> b \<and> b \<le> 0xf4 \<and> continues c1 \<and> (b = 0xf0 \<longrightarrow> 0x90 \<le> c1) \<and> (b = 0xf4 \<longrightarrow> c1 \<le> 0x8f)
                  \<and> continues c2 \<and> continues c3 \<and> valid_utf8 rest3
              | [] \<Rightarrow> False)
          | [] \<Rightarrow> False)
      | [] \<Rightarrow> False)"

text \<open>\<open>any(|line| line.unwrap().starts_with(entry_name))\<close>\<close>

fun any_starts_with :: "u8 list \<Rightarrow> u8 list list \<Rightarrow> bool task" where
  "any_starts_with entry [] = return False"
| "any_starts_with entry (line # rest) =
     (if \<not> valid_utf8 line then panic_task (UnwrapFailed ''line'')
      else if take (length entry) line = entry then return True
      else any_starts_with entry rest)"

definition entry_name :: "u8 list" where
  "entry_name = map of_char ''bios.forceSetupOnce''"

definition entry_line :: "u8 list" where
  "entry_line = entry_name @ map of_char '' = '' @ [0x22] @ map of_char ''TRUE'' @ [0x22, 0x0a]"

definition force_setup_once :: "path \<Rightarrow> unit task" where
  "force_setup_once vmx_path =
     bind_task (read_file vmx_path) (\<lambda>data.
     bind_task (any_starts_with entry_name (split_lines [] data)) (\<lambda>entry_exists.
     if entry_exists then return ()
     else bind_task (read_file vmx_path) (\<lambda>data. write_file vmx_path (data @ entry_line))))"

text \<open>The wait for the log file, with the file systems that the tests observe.\<close>

fun wait_for_file :: "path \<Rightarrow> (path \<Rightarrow> node option) list \<Rightarrow> unit task" where
  "wait_for_file p [] w = (if fs w p \<noteq> None then (Ok (), w) else (Panicked NoReturn, w))"
| "wait_for_file p (fs' # rest) w = (if fs w p \<noteq> None then (Ok (), w) else wait_for_file p rest (w\<lparr>fs := fs'\<rparr>))"

definition vnc_keys :: "nat list" where
  "vnc_keys = [0xff54, 0xff54, 0xff54, 0xff54, 0xff54, 0xff0d, 0xff0d]"

fun vnc_send :: "nat \<Rightarrow> action list \<Rightarrow> unit task" where
  "vnc_send n [] = return ()"
| "vnc_send 0 (a # rest) = fail ''vnc''"
| "vnc_send (Suc n) (a # rest) = bind_task (record_action a) (\<lambda>_. vnc_send n rest)"

definition vnc_session :: "action list" where
  "vnc_session = [Connected ''localhost:5900''] @ concat (map (\<lambda>k. [KeyEvent True k, KeyEvent False k]) vnc_keys) @ [Disconnected]"

definition vmrun :: "xtask_env \<Rightarrow> string list \<Rightarrow> command" where
  "vmrun env args = \<lparr>program = vmrun_program env, arguments = args, directory = None\<rparr>"

text \<open>The clock symbol and the carriage return of the two messages are left out; the thread of \<open>tail\<close> prints like \<open>print_lines\<close>.\<close>

definition Vmware_run :: "xtask_env \<Rightarrow> unit task" where
  "Vmware_run env =
     (let vmx_path = vmx_file env; vmx_text = join_with ''/'' vmx_path; log_file = serial_log env in
      bind_task (if wsl env then windows_path env vmx_text else return vmx_text) (\<lambda>vmx_path_for_vmrun.
      bind_task (try_execute env (vmrun env [''stop'', vmx_path_for_vmrun])) (\<lambda>_.
      bind_task (exists_path log_file) (\<lambda>ex.
      bind_task (if ex then remove_file log_file else return ()) (\<lambda>_.
      bind_task (force_setup_once vmx_path) (\<lambda>_.
      bind_task (record_action (Printed ''Starting the VMware VM'')) (\<lambda>_.
      let product_type = (if os env = ''macos'' then ''fusion'' else ''ws'') in
      bind_task (run_checked env (vmrun env [''-T'', product_type, ''start'', vmx_path_for_vmrun]) ''vmrun failed'') (\<lambda>_.
      bind_task (wait_for_file log_file (observe env)) (\<lambda>_.
      bind_task (record_action (Spawned (UnixCommand env ''tail'' [''-f'', ''/tmp/serial.log'']))) (\<lambda>_.
      bind_task (vnc_send (vnc_accepts env) vnc_session) (\<lambda>_.
      bind_task (wait_for_interrupt env) (\<lambda>_.
      bind_task (record_action (Printed ''Shutting down the VM'')) (\<lambda>_.
      bind_task (try_execute env (vmrun env [''stop'', vmx_path_for_vmrun])) (\<lambda>_.
      return ()))))))))))))))"

definition Vmware :: "xtask_env \<Rightarrow> test_vm" where
  "Vmware env = \<lparr>deploy = Vmware_deploy env, run_vm = Vmware_run env\<rparr>"

subsection \<open>main.rs: main\<close>

datatype Commands = BuildCommand | ClippyCommand | BochsIntel | BochsAmd | VmwareCommand

record Cli =
  cli_release :: bool
  cli_command :: Commands

definition xtask_main :: "xtask_env \<Rightarrow> Cli \<Rightarrow> unit task" where
  "xtask_main env cli =
     (case cli_command cli of
        BuildCommand \<Rightarrow> build env (cli_release cli)
      | ClippyCommand \<Rightarrow> clippy env
      | BochsIntel \<Rightarrow> vmtest_run env (Bochs env Intel) (cli_release cli)
      | BochsAmd \<Rightarrow> vmtest_run env (Bochs env Amd) (cli_release cli)
      | VmwareCommand \<Rightarrow> vmtest_run env (Vmware env) (cli_release cli))"

section \<open>Tasks\<close>

named_theorems task_simps "the operations of a task"

lemma bind_task_simps [task_simps]:
  "f w = (Ok x, w') \<Longrightarrow> bind_task f g w = g x w'"
  "f w = (Err e, w') \<Longrightarrow> bind_task f g w = (Err e, w')"
  "f w = (Panicked p, w') \<Longrightarrow> bind_task f g w = (Panicked p, w')"
  by (simp_all add: bind_task_def)

lemma basic_tasks [task_simps]:
  "return x w = (Ok x, w)" "fail e w = (Err e, w)" "panic_task p w = (Panicked p, w)"
  "ensure True e w = (Ok (), w)" "ensure False e w = (Err e, w)"
  "unwrap_task what (Some v) w = (Ok v, w)" "unwrap_task what None w = (Panicked (UnwrapFailed what), w)"
  by (simp_all add: return_def fail_def panic_task_def ensure_def unwrap_task_def)

lemma try_execute_result:
  "run_command env c (fs w) = (Some r, fs') \<Longrightarrow> try_execute env c w = (Ok r, w\<lparr>fs := fs', history := history w @ [Ran c]\<rparr>)"
  "run_command env c (fs w) = (None, fs') \<Longrightarrow> try_execute env c w = (Err ''cannot start'', w\<lparr>fs := fs', history := history w @ [Ran c]\<rparr>)"
  by (simp_all add: try_execute_def execute_def bind_task_def return_def fail_def)

text \<open>
  From the state \<open>w\<close> a task follows a plan when the actions that it adds to the history are a
  prefix of the plan, and all of it when the task succeeds.
\<close>

definition follows :: "world \<Rightarrow> action list \<Rightarrow> 'a task \<Rightarrow> bool" where
  "follows w plan f \<longleftrightarrow>
     (\<exists>n. history (snd (f w)) = history w @ take n plan \<and> (\<forall>x. fst (f w) = Ok x \<longrightarrow> length plan \<le> n))"

named_theorems follows_intros "tasks that follow a plan"

lemma follows_all: "history (snd (f w)) = history w @ plan \<Longrightarrow> follows w plan f"
  unfolding follows_def by (intro exI [of _ "length plan"]) simp

lemma follows_silent [follows_intros]:
  "follows w [] (return x)" "follows w [] (fail e)" "follows w [] (panic_task why)" "follows w [] (ensure b e)"
  "follows w [] (exists_path p)" "follows w [] (read_file p)" "follows w [] (write_file p data)"
  by (rule follows_all; auto simp: return_def fail_def panic_task_def ensure_def exists_path_def read_file_def
      write_file_def split: option.splits node.splits)+

lemma follows_action [follows_intros]: "follows w [a] (record_action a)"
  by (rule follows_all) (simp add: record_action_def)

lemma follows_execute [follows_intros]: "follows w [Ran c] (try_execute env c)"
proof (rule follows_all)
  obtain res fs' where "run_command env c (fs w) = (res, fs')" by force
  then show "history (snd (try_execute env c w)) = history w @ [Ran c]"
    by (cases res) (simp_all add: try_execute_result)
qed

lemma follows_bind:
  assumes f: "follows w p f" and g: "\<And>x w'. f w = (Ok x, w') \<Longrightarrow> follows w' q (g x)"
  shows "follows w (p @ q) (bind_task f g)"
proof -
  obtain r w' where fw: "f w = (r, w')" by force
  with f obtain n where n: "history w' = history w @ take n p" and ok: "\<And>x. r = Ok x \<Longrightarrow> length p \<le> n"
    by (auto simp: follows_def)
  have stop: ?thesis if "bind_task f g w = (r', w')" "\<And>x. r' \<noteq> Ok x" for r'
    unfolding follows_def using that n by (intro exI [of _ "min n (length p)"]) (simp add: min_def)
  show ?thesis
  proof (cases r)
    case (Ok x)
    from g [OF fw [unfolded Ok]] obtain k where k: "history (snd (g x w')) = history w' @ take k q"
      "\<forall>y. fst (g x w') = Ok y \<longrightarrow> length q \<le> k" by (auto simp: follows_def)
    moreover have "bind_task f g w = g x w'" using fw Ok by (simp add: task_simps)
    ultimately show ?thesis unfolding follows_def using n ok [OF Ok] by (intro exI [of _ "length p + k"]) simp
  qed (use fw stop in \<open>simp_all add: task_simps\<close>)
qed

lemma follows_then [follows_intros]: "follows w p f \<Longrightarrow> (\<And>x w'. follows w' [] (g x)) \<Longrightarrow> follows w p (bind_task f g)"
  using follows_bind [of w p f "[]" g] by simp

lemma follows_after: "follows w [] f \<Longrightarrow> (\<And>x w'. f w = (Ok x, w') \<Longrightarrow> follows w' p (g x)) \<Longrightarrow> follows w p (bind_task f g)"
  using follows_bind [of w "[]" f p g] by simp

lemma follows_Cons: "follows w [a] f \<Longrightarrow> (\<And>x w'. follows w' p (g x)) \<Longrightarrow> follows w (a # p) (bind_task f g)"
  using follows_bind [of w "[a]" f p g] by simp

lemma bind_known: "(\<And>w. f w = (Ok x, w)) \<Longrightarrow> bind_task f g = g x"
  by (rule ext) (simp add: bind_task_def)

lemma follows_run_checked [follows_intros]: "follows w [Ran c] (run_checked env c e)"
  unfolding run_checked_def by (auto intro!: follows_intros split: prod.splits)

lemma follows_transmute [follows_intros]: "follows w [] (transmute_to_runtime_driver p)"
  unfolding transmute_to_runtime_driver_def by (auto intro!: follows_intros)

lemma print_lines_read: "print_lines (map (\<lambda>(secs, line). (secs, Some line)) ls) = concat (map (\<lambda>(secs, line). timed_line secs line) ls)"
  by (induction ls) (auto simp: print_lines_def)

lemma print_lines_stops: "print_lines (ls @ (secs, None) # rest) = print_lines ls"
  by (induction ls) (auto simp: print_lines_def)

section \<open>The plan of a test\<close>

text \<open>The directories do not change while the tool runs.\<close>

definition directories :: "xtask_env \<Rightarrow> bool \<Rightarrow> path \<Rightarrow> path \<Rightarrow> bool" where
  "directories env release root out \<longleftrightarrow>
     CARGO_MANIFEST_DIR env \<noteq> [] \<and> (\<forall>f. canonicalize env (butlast (CARGO_MANIFEST_DIR env)) f = Some root)
     \<and> (\<forall>f. canonicalize env (root @ [''target'', ''x86_64-unknown-uefi'', if release then ''release'' else ''debug'']) f = Some out)"

lemma directories_known:
  assumes "directories env release root out"
  shows "bind_task (project_root_dir env) g = g root" and "bind_task (output_dir env release) h = h out"
proof -
  have root: "project_root_dir env w = (Ok root, w)" for w
    using assms by (simp add: directories_def project_root_dir_def task_simps)
  show "bind_task (project_root_dir env) g = g root" by (rule bind_known) (rule root)
  have "output_dir env release w = (Ok out, w)" for w
    unfolding output_dir_def bind_known [OF root] Let_def using assms by (cases release) (simp_all add: directories_def task_simps)
  then show "bind_task (output_dir env release) h = h out" by (rule bind_known)
qed

definition profile_of :: "bool \<Rightarrow> Profile" where
  "profile_of release = (if release then Release else Debug)"

definition build_plan :: "xtask_env \<Rightarrow> bool \<Rightarrow> path \<Rightarrow> action list" where
  "build_plan env release root =
     map (\<lambda>package. Ran (cargo_command env Build package (profile_of release) root)) [Hypervisor, CheckHvVendor]"

definition samples_plan :: "xtask_env \<Rightarrow> action list" where
  "samples_plan env =
     [Printed ''Extracting sample files...'', Ran (UnixCommand env ''7z'' [''x'', ''-o./tests/'', ''./tests/samples.7z''])]"

definition copy_plan :: "xtask_env \<Rightarrow> string \<Rightarrow> path \<Rightarrow> path \<Rightarrow> action list" where
  "copy_plan env img root out =
     map (\<lambda>file. Ran (UnixCommand env ''mcopy'' [''-o'', ''-i'', img, file, ''::/'']))
       [to_str env out @ ''/uefi_hv.efi'', to_str env out @ ''/check_hv_vendor.efi'', to_str env root @ ''/tests/startup.nsh'']"

lemma follows_cargo_run:
  assumes "directories env release root out"
  shows "follows w [Ran (cargo_command env action package (profile_of release) root)] (cargo_run env action package (profile_of release))"
proof -
  have "(profile_of release = Release) = release" by (simp add: profile_of_def)
  then show ?thesis
    unfolding cargo_run_def Let_def directories_known [OF assms]
    by (auto intro!: follows_intros split: prod.splits simp: directories_known [OF assms])
qed

lemma follows_build:
  assumes "directories env release root out"
  shows "follows w (build_plan env release root) (build env release)"
  unfolding build_def build_plan_def Let_def profile_of_def [symmetric] list.map
  by (rule follows_Cons) (rule follows_cargo_run [OF assms])+

lemma follows_copy_loop:
  "follows w (map (\<lambda>file. Ran (UnixCommand env ''mcopy'' [''-o'', ''-i'', img, file, ''::/''])) files) (copy_loop env img files)"
  by (induction files arbitrary: w) (auto intro!: follows_intros follows_Cons)

lemma follows_copy:
  assumes "directories env release root out" and "os env \<noteq> ''windows''"
  shows "follows w (copy_plan env img root out) (copy_artifacts_to env img release)"
proof -
  have "bind_task (unix_path env p) g = g (to_str env p)" for p and g :: "string \<Rightarrow> unit task"
    by (rule bind_known) (simp add: unix_path_def assms(2) task_simps)
  then show ?thesis
    unfolding copy_artifacts_to_def directories_known [OF assms(1)] copy_plan_def package_name.simps append.simps
    by (simp only: follows_copy_loop)
qed

lemma follows_samples:
  obtains mid where "mid = [] \<or> mid = samples_plan env" and "follows w mid (extract_samples env)"
proof (cases "fs w [''.'', ''tests'', ''samples''] = None")
  case True
  have "follows w (samples_plan env) (extract_samples env)"
    unfolding extract_samples_def samples_plan_def
  proof (rule follows_after [OF follows_silent(5)])
    fix ex w' assume "exists_path [''.'', ''tests'', ''samples''] w = (Ok ex, w')"
    with True have "\<not> ex" by (simp add: exists_path_def)
    then show "follows w' [Printed ''Extracting sample files...'', Ran (UnixCommand env ''7z'' [''x'', ''-o./tests/'', ''./tests/samples.7z''])]
        (if ex then return () else bind_task (record_action (Printed ''Extracting sample files...''))
          (\<lambda>_. run_checked env (UnixCommand env ''7z'' [''x'', ''-o./tests/'', ''./tests/samples.7z'']) ''7z failed''))"
      by (simp add: follows_Cons follows_intros)
  qed
  then show ?thesis using that by blast
next
  case False
  have "follows w [] (extract_samples env)"
    unfolding extract_samples_def
  proof (rule follows_after [OF follows_silent(5)])
    fix ex w' assume "exists_path [''.'', ''tests'', ''samples''] w = (Ok ex, w')"
    with False have ex by (simp add: exists_path_def)
    then show "follows w' [] (if ex then return () else bind_task (record_action (Printed ''Extracting sample files...''))
          (\<lambda>_. run_checked env (UnixCommand env ''7z'' [''x'', ''-o./tests/'', ''./tests/samples.7z'']) ''7z failed''))"
      by (simp add: follows_intros)
  qed
  then show ?thesis using that by blast
qed

text \<open>
  A test with Bochs runs its commands in a fixed order, each only after the ones before it
  have succeeded: both builds, the extraction of the samples if they are missing, the copies to
  the disk image, and the two threads.
\<close>

lemma bochs_test_plan:
  assumes dirs: "directories env release root out" and os: "os env \<noteq> ''windows''"
  shows "\<exists>mid. (mid = [] \<or> mid = samples_plan env)
    \<and> follows w (build_plan env release root @ mid @ copy_plan env ''./tests/samples/bochs_disk.img'' root out
        @ [Spawned (bochs_nc env), Spawned (bochs_command env c)]) (vmtest_run env (Bochs env c) release)"
proof -
  have run: "follows w [Spawned (bochs_nc env), Spawned (bochs_command env c)] (Bochs_run env c)" for w
    unfolding Bochs_run_def by (auto intro!: follows_intros follows_Cons simp: wait_for_interrupt_def)
  have copy: "follows w (copy_plan env ''./tests/samples/bochs_disk.img'' root out) (Bochs_deploy env release)" for w
    unfolding Bochs_deploy_def by (rule follows_copy [OF dirs os])
  define w1 where "w1 = snd (build env release w)"
  obtain mid where mid: "mid = [] \<or> mid = samples_plan env" and ex: "follows w1 mid (extract_samples env)"
    by (rule follows_samples)
  have "follows w (build_plan env release root @ mid @ copy_plan env ''./tests/samples/bochs_disk.img'' root out
        @ [Spawned (bochs_nc env), Spawned (bochs_command env c)]) (vmtest_run env (Bochs env c) release)"
    unfolding vmtest_run_def Bochs_def test_vm.simps
  proof (rule follows_bind [OF follows_build [OF dirs]])
    fix x w' assume "build env release w = (Ok x, w')"
    then have "w' = w1" by (simp add: w1_def)
    with ex have "follows w' mid (extract_samples env)" by simp
    then show "follows w' (mid @ copy_plan env ''./tests/samples/bochs_disk.img'' root out @ [Spawned (bochs_nc env), Spawned (bochs_command env c)])
        (bind_task (extract_samples env) (\<lambda>_. bind_task (Bochs_deploy env release) (\<lambda>_. Bochs_run env c)))"
      by (rule follows_bind) (rule follows_bind [OF copy run])
  qed
  with mid show ?thesis by blast
qed

section \<open>The image\<close>

text \<open>
  Fields of a PE image: \<open>n\<close> bytes at an offset, least significant first; the offset of the header is
  at 0x3c, and \<open>Subsystem\<close> lies 0x5c bytes behind the start of the header. (Microsoft PE format)
\<close>

definition field_at :: "nat \<Rightarrow> nat \<Rightarrow> u8 list \<Rightarrow> nat option" where
  "field_at off n data = (if off + n \<le> length data then Some (foldr (\<lambda>b acc. unat b + 256 * acc) (take n (drop off data)) 0) else None)"

definition pe_header :: "u8 list \<Rightarrow> nat option" where
  "pe_header data = field_at 0x3c 4 data"

definition pe_subsystem :: "u8 list \<Rightarrow> nat option" where
  "pe_subsystem data = Option.bind (pe_header data) (\<lambda>e. field_at (e + 0x5c) 2 data)"

lemma field_at_update:
  assumes "i < off \<or> off + n \<le> i"
  shows "field_at off n (data[i := b]) = field_at off n data"
proof -
  have "take n (drop off (data[i := b])) = take n (drop off data)"
  proof (cases "i < off")
    case True
    then show ?thesis by simp
  next
    case False
    with assms have "n \<le> i - off" by simp
    with False show ?thesis by (simp add: drop_update_swap)
  qed
  then show ?thesis by (simp add: field_at_def)
qed

lemma field_2: "off + 2 \<le> length data \<Longrightarrow> field_at off 2 data = Some (unat (data ! off) + 256 * unat (data ! Suc off))"
  by (simp add: field_at_def numeral_2_eq_2 take_Suc_conv_app_nth nth_append)

lemma transmuted_header: "pe_header (data[0xd4 := b]) = pe_header data"
  unfolding pe_header_def by (rule field_at_update) simp

lemma transmuted_subsystem:
  assumes "pe_header data = Some 0x78" and "pe_subsystem data = Some s" and "s < 256"
  shows "pe_subsystem (data[0xd4 := 0xc]) = Some 12"
proof -
  have f: "field_at 0xd4 2 data = Some s" using assms(1,2) by (simp add: pe_subsystem_def)
  then have len: "0xd4 + 2 \<le> length data" by (auto simp: field_at_def split: if_splits)
  have "unat (data ! 0xd5) = 0" using f field_2 [OF len] assms(3) by simp
  moreover have "pe_subsystem (data[0xd4 := 0xc]) = field_at 0xd4 2 (data[0xd4 := 0xc])"
    using assms(1) transmuted_header [of data] by (simp add: pe_subsystem_def)
  ultimately show ?thesis using len field_2 [of "0xd4" "data[0xd4 := 0xc]"] by simp
qed

lemma transmuted_elsewhere:
  assumes "pe_header data = Some e" and "e \<notin> {0x77, 0x78}"
  shows "pe_subsystem (data[0xd4 := 0xc]) = pe_subsystem data"
proof -
  from assms(2) have "e < 0x77 \<or> 0x78 < e" by auto
  then have "field_at (e + 0x5c) 2 (data[0xd4 := 0xc]) = field_at (e + 0x5c) 2 data"
    by (intro field_at_update) auto
  with assms(1) transmuted_header [of data] show ?thesis by (simp add: pe_subsystem_def)
qed

lemma transmute_file:
  "fs w p = Some (File data) \<Longrightarrow> length data \<le> 0xd4 \<Longrightarrow> transmute_to_runtime_driver p w = (Panicked IndexOutOfBounds, w)"
  "fs w p = Some (File data) \<Longrightarrow> 0xd4 < length data \<Longrightarrow>
     transmute_to_runtime_driver p w = (Ok (), w\<lparr>fs := (fs w)(p \<mapsto> File (data[0xd4 := 0xc]))\<rparr>)"
  by (simp_all add: transmute_to_runtime_driver_def bind_task_def read_file_def write_file_def panic_task_def)

lemma cargo_run_started:
  assumes "directories env release root out"
    and "run_command env (cargo_command env action package (profile_of release) root) (fs w) = (Some (True, text), fs1)"
  shows "cargo_run env action package (profile_of release) w =
     (if action = Build \<and> package = Hypervisor then transmute_to_runtime_driver (out @ [''uefi_hv.efi'']) else return ())
       (w\<lparr>fs := fs1, history := history w @ [Ran (cargo_command env action package (profile_of release) root)]\<rparr>)"
proof -
  have eq: "(profile_of release = Release) = release" by (simp add: profile_of_def)
  show ?thesis
    unfolding cargo_run_def Let_def eq directories_known [OF assms(1)]
    using assms(2) by (simp add: bind_task_def try_execute_result task_simps)
qed

lemma cargo_run_failed:
  assumes "directories env release root out"
    and "run_command env (cargo_command env action package (profile_of release) root) (fs w) = (res, fs1)"
    and "res = None \<or> res = Some (False, text)"
  shows "\<exists>e. cargo_run env action package (profile_of release) w =
     (Err e, w\<lparr>fs := fs1, history := history w @ [Ran (cargo_command env action package (profile_of release) root)]\<rparr>)"
  unfolding cargo_run_def Let_def directories_known [OF assms(1)]
  using assms(2,3) by (auto simp: bind_task_def try_execute_result task_simps)

section \<open>The entry of the VMware configuration\<close>

lemma split_lines_append:
  "data = [] \<and> l = [] \<or> data \<noteq> [] \<and> last data = 0x0a \<Longrightarrow> split_lines l (data @ xs) = split_lines l data @ split_lines [] xs"
proof (induction data arbitrary: l)
  case (Cons b rest)
  then show ?case by (cases "rest = []") (auto split: if_splits)
qed simp

lemma entry_line_lines: "split_lines [] entry_line = [butlast entry_line]"
  by (simp add: entry_line_def entry_name_def)

lemma entry_line_found:
  "valid_utf8 (butlast entry_line)" "take (length entry_name) (butlast entry_line) = entry_name"
  by (simp_all add: entry_line_def entry_name_def)

definition has_entry :: "u8 list list \<Rightarrow> bool" where
  "has_entry ls \<longleftrightarrow> (\<exists>line\<in>set ls. take (length entry_name) line = entry_name)"

lemma any_starts_with_valid: "list_all valid_utf8 ls \<Longrightarrow> any_starts_with entry_name ls = return (has_entry ls)"
  by (induction ls) (auto simp: has_entry_def)

text \<open>
  The entry is added at most once, if the lines of the file are text and the last one is
  ended. (An entry that is added to an unended line is not found the next time.)
\<close>

lemma force_setup_once_idempotent:
  assumes there: "fs w p = Some (File data)" and valid: "list_all valid_utf8 (split_lines [] data)" and ended: "data = [] \<or> last data = 0x0a"
  obtains w1 data1 where "force_setup_once p w = (Ok (), w1)" and "force_setup_once p w1 = (Ok (), w1)"
    and "fs w1 p = Some (File data1)" and "has_entry (split_lines [] data1)"
proof (cases "has_entry (split_lines [] data)")
  case True
  then have "force_setup_once p w = (Ok (), w)"
    by (simp add: force_setup_once_def any_starts_with_valid [OF valid] bind_task_def read_file_def there return_def)
  then show ?thesis using that [of w data] there True by simp
next
  case False
  let ?data1 = "data @ entry_line" and ?w1 = "w\<lparr>fs := (fs w)(p \<mapsto> File (data @ entry_line))\<rparr>"
  have split: "split_lines [] ?data1 = split_lines [] data @ [butlast entry_line]"
    using split_lines_append [of data "[]" entry_line] ended by (auto simp: entry_line_lines)
  then have found: "has_entry (split_lines [] ?data1)" using entry_line_found(2) by (simp add: has_entry_def)
  have "list_all valid_utf8 (split_lines [] ?data1)" using valid entry_line_found(1) by (simp add: split)
  note again = any_starts_with_valid [OF this]
  show ?thesis
  proof (rule that [of ?w1 ?data1])
    show "force_setup_once p w = (Ok (), ?w1)"
      using False by (simp add: force_setup_once_def any_starts_with_valid [OF valid] bind_task_def read_file_def write_file_def there return_def)
    show "force_setup_once p ?w1 = (Ok (), ?w1)"
      using found by (simp add: force_setup_once_def again bind_task_def read_file_def return_def)
  qed (use found in simp_all)
qed

section \<open>Properties\<close>

text \<open>
  C34. \<open>cargo xtask build\<close>. When the build of the hypervisor leaves an image, the tool turns it
  into a runtime driver before it builds the vendor checker: the checker is built on a file
  system in which only the byte 0xd4 of the image is different, and the subsystem of an EFI
  application whose header is at 0x78 is then that of an EFI runtime driver. The tool succeeds
  when both builds do. An image that is too short makes it panic, and a failed build is an
  error; in both cases nothing is changed and nothing more is run.
\<close>

theorem build_makes_runtime_driver:
  assumes "directories env release root out" and "img = out @ [''uefi_hv.efi'']"
    and "c = cargo_command env Build Hypervisor (profile_of release) root"
    and "d = cargo_command env Build CheckHvVendor (profile_of release) root"
    and "run_command env c (fs w) = (res, fs1)" and "fs1 img = Some (File data)"
    and "run_command env d (fs1(img \<mapsto> File (data[0xd4 := 0xc]))) = (res2, fs2)"
  shows "(case res of
      Some (True, text) \<Rightarrow>
        if length data \<le> 0xd4
        then build env release w = (Panicked IndexOutOfBounds, w\<lparr>fs := fs1, history := history w @ [Ran c]\<rparr>)
        else snd (build env release w) = w\<lparr>fs := fs2, history := history w @ [Ran c, Ran d]\<rparr>
          \<and> (fst (build env release w) = Ok () \<longleftrightarrow> (\<exists>text2. res2 = Some (True, text2)))
    | _ \<Rightarrow> \<exists>e. build env release w = (Err e, w\<lparr>fs := fs1, history := history w @ [Ran c]\<rparr>))
    \<and> (pe_header data = Some 0x78 \<and> pe_subsystem data = Some 10 \<longrightarrow> pe_subsystem (data[0xd4 := 0xc]) = Some 12)"
proof -
  let ?p = "profile_of release" and ?w1 = "w\<lparr>fs := fs1, history := history w @ [Ran c]\<rparr>"
  have b: "build env release = bind_task (cargo_run env Build Hypervisor ?p) (\<lambda>_. cargo_run env Build CheckHvVendor ?p)"
    by (simp add: build_def profile_of_def Let_def)
  have failed: "\<exists>e. build env release w = (Err e, ?w1)" if "res = None \<or> res = Some (False, t)" for t
    using cargo_run_failed [OF assms(1) assms(5) [unfolded assms(3)] that] unfolding b assms(3) by (auto simp: bind_task_simps)
  have started: "cargo_run env Build Hypervisor ?p w = transmute_to_runtime_driver img ?w1" if "res = Some (True, t)" for t
    using cargo_run_started [OF assms(1) assms(5) [unfolded assms(3) that]] assms(2,3) by simp
  have short: "build env release w = (Panicked IndexOutOfBounds, ?w1)" if "res = Some (True, t)" "length data \<le> 0xd4" for t
    using started [OF that(1)] transmute_file(1) [of ?w1 img data] that(2) assms(6) unfolding b by (simp add: bind_task_simps)
  have long: "snd (build env release w) = w\<lparr>fs := fs2, history := history w @ [Ran c, Ran d]\<rparr>
      \<and> (fst (build env release w) = Ok () \<longleftrightarrow> (\<exists>text2. res2 = Some (True, text2)))"
    if "res = Some (True, t)" "0xd4 < length data" for t
  proof -
    define w2 where "w2 = ?w1\<lparr>fs := fs1(img \<mapsto> File (data[0xd4 := 0xc]))\<rparr>"
    have second: "build env release w = cargo_run env Build CheckHvVendor ?p w2"
      using started [OF that(1)] transmute_file(2) [of ?w1 img data] that(2) assms(6) unfolding b by (simp add: bind_task_simps w2_def)
    have run2: "run_command env (cargo_command env Build CheckHvVendor ?p root) (fs w2) = (res2, fs2)"
      using assms(4,7) by (simp add: w2_def)
    consider t where "res2 = Some (True, t)" | t where "res2 = None \<or> res2 = Some (False, t)" by (cases res2) auto
    then show ?thesis
    proof cases
      case (1 t)
      with cargo_run_started [OF assms(1) run2 [unfolded 1]] show ?thesis
        unfolding second by (simp add: task_simps w2_def assms(4))
    next
      case (2 t)
      with cargo_run_failed [OF assms(1) run2 2] show ?thesis unfolding second by (auto simp: w2_def assms(4))
    qed
  qed
  show ?thesis
    using failed short long transmuted_subsystem [of data 10] by (auto split: option.splits prod.splits bool.splits)
qed

definition example_image :: "u8 list" where
  "example_image = replicate 0x3c 0 @ [0x78, 0, 0, 0] @ replicate 0x94 0 @ [10, 0]"

lemma example_image_fields:
  "length example_image = 0xd6" "pe_header example_image = Some 0x78" "pe_subsystem example_image = Some 10"
proof -
  show len: "length example_image = 0xd6" by (simp add: example_image_def)
  have "drop 0x3c example_image = [0x78, 0, 0, 0] @ replicate 0x94 0 @ [10, 0]" by (simp add: example_image_def)
  then show header: "pe_header example_image = Some 0x78" by (simp add: pe_header_def field_at_def len)
  have "drop 0xd4 example_image = [10, 0]" by (simp add: example_image_def)
  then show "pe_subsystem example_image = Some 10" by (simp add: pe_subsystem_def header field_at_def len)
qed

definition example_out :: path where
  "example_out = ['''', ''hv'', ''target'', ''x86_64-unknown-uefi'', ''debug'']"

definition example_xtask :: xtask_env where
  "example_xtask =
     \<lparr>os = ''linux'', wsl = False, CARGO = None, CARGO_MANIFEST_DIR = ['''', ''hv'', ''xtask''], canonicalize = (\<lambda>p f. Some p),
      run_command = (\<lambda>c f. (Some (True, None), if ''uefi_hv'' \<in> set (arguments c) then f(example_out @ [''uefi_hv.efi''] \<mapsto> File example_image) else f)),
      observe = [], vnc_accepts = 0, interrupted = True\<rparr>"

theorem build_makes_runtime_driver_witness:
  "\<exists>w'. build example_xtask False \<lparr>fs = (\<lambda>_. None), history = []\<rparr> = (Ok (), w')
     \<and> fs w' (example_out @ [''uefi_hv.efi'']) = Some (File (example_image[0xd4 := 0xc]))
     \<and> pe_subsystem (example_image[0xd4 := 0xc]) = Some 12"
proof -
  let ?w = "\<lparr>fs = (\<lambda>_. None), history = []\<rparr>" and ?img = "example_out @ [''uefi_hv.efi'']"
  let ?c = "\<lambda>package. cargo_command example_xtask Build package (profile_of False) ['''', ''hv'']"
  let ?fs2 = "(\<lambda>_. None)(?img \<mapsto> File (example_image[0xd4 := 0xc]))"
  have dirs: "directories example_xtask False ['''', ''hv''] example_out"
    by (simp add: directories_def example_xtask_def example_out_def)
  have "run_command example_xtask (?c Hypervisor) (fs ?w) = (Some (True, None), (\<lambda>_. None)(?img \<mapsto> File example_image))"
    by (simp add: example_xtask_def cargo_command_def)
  moreover have "run_command example_xtask (?c CheckHvVendor) ?fs2 = (Some (True, None), ?fs2)"
    by (simp add: example_xtask_def cargo_command_def uefi_target_def profile_of_def)
  ultimately have "snd (build example_xtask False ?w) = ?w\<lparr>fs := ?fs2, history := history ?w @ [Ran (?c Hypervisor), Ran (?c CheckHvVendor)]\<rparr>
      \<and> fst (build example_xtask False ?w) = Ok () \<and> pe_subsystem (example_image[0xd4 := 0xc]) = Some 12"
    using build_makes_runtime_driver [OF dirs refl refl refl, of ?w "Some (True, None)" "(\<lambda>_. None)(?img \<mapsto> File example_image)"
        example_image "Some (True, None)" ?fs2] by (simp add: example_image_fields)
  then show ?thesis by (intro exI [of _ "snd (build example_xtask False ?w)"]) (simp add: prod_eq_iff)
qed

end
