(* ===== verification/Sipi.thy ===== *)
theory Sipi
  imports Svm_Guest
begin

unbundle bit_operations_syntax

text \<open>
  The start-up protocol between processors on AMD, where INIT and start-up IPI are emulated
  in software over the shared array \<open>activity_states\<close> (\<open>amd/guest.rs\<close>). An application
  processor goes through \<open>handle_init_signal\<close>, \<open>wait_for_sipi\<close> and \<open>handle_sipi\<close>; each atomic
  access of these functions to its activity state is one step, and between any two of them
  any processor may deliver a start-up IPI with the compare-and-exchange of
  \<open>handle_nested_page_fault\<close>. The steps use the same \<open>swap_state\<close> and \<open>deliver_sipi\<close> as the
  handlers of \<open>Svm_Guest\<close>.

  The specification is the wait-for-SIPI automaton of the processor manuals: INIT makes the
  processor wait, the first start-up IPI after that decides where it starts, and a start-up
  IPI at any other time is discarded. Beside the refinement, which is a safety property, the
  theory shows progress on infinite runs: a processor that is scheduled again and again starts
  with the first vector that was sent to it.
\<close>

section \<open>The protocol of the code\<close>

text \<open>Where a processor is in the code; \<open>Failed\<close> is a failed assertion.\<close>

datatype location =
    In_guest
  | Spinning
  | Received
  | Swapped u8
  | Failed

record sipi_state =
  acts :: "u8 list"
  locs :: "nat \<Rightarrow> location"

text \<open>The events that both machines show; \<open>Internal\<close> is a step of the code alone.\<close>

datatype sipi_event =
    Init_event nat
  | Sipi_event nat u8
  | Start_event nat u8
  | Internal

definition move :: "nat \<Rightarrow> location \<Rightarrow> sipi_state \<Rightarrow> sipi_state" where
  "move i l s = s\<lparr>locs := (locs s)(i := l)\<rparr>"

inductive sipi_step :: "sipi_state \<Rightarrow> sipi_event \<Rightarrow> sipi_state \<Rightarrow> bool" where
  init: "locs s i = In_guest \<Longrightarrow> i \<noteq> 0 \<Longrightarrow> i < length (acts s) \<Longrightarrow> swap_state i WAIT_FOR_SIPI (acts s) = (prev, a) \<Longrightarrow>
     sipi_step s (Init_event i) (move i (if prev = ACTIVE then Spinning else Failed) (s\<lparr>acts := a\<rparr>))"
| load: "locs s i = Spinning \<Longrightarrow>
     sipi_step s Internal (move i (if acts s ! i = WAIT_FOR_SIPI then Spinning else Received) s)"
| swap: "locs s i = Received \<Longrightarrow> swap_state i ACTIVE (acts s) = (v, a) \<Longrightarrow>
     sipi_step s Internal (move i (Swapped v) (s\<lparr>acts := a\<rparr>))"
| check: "locs s i = Swapped v \<Longrightarrow>
     sipi_step s (Start_event i v) (move i (if acts s ! i = ACTIVE then In_guest else Failed) s)"
| deliver: "v \<noteq> WAIT_FOR_SIPI \<Longrightarrow> deliver_sipi i v (acts s) = Inr a \<Longrightarrow> sipi_step s (Sipi_event i v) (s\<lparr>acts := a\<rparr>)"

inductive_cases start_stepE: "sipi_step s (Start_event i v) s'"

text \<open>After \<open>SharedGuestData::new\<close> every processor is active.\<close>

definition sipi_initial :: sipi_state where
  "sipi_initial = \<lparr>acts = replicate 0xff ACTIVE, locs = (\<lambda>_. In_guest)\<rparr>"

inductive sipi_reachable :: "sipi_state \<Rightarrow> bool" where
  initial: "sipi_reachable sipi_initial"
| step: "sipi_reachable s \<Longrightarrow> sipi_step s ev s' \<Longrightarrow> sipi_reachable s'"

section \<open>The architectural automaton\<close>

datatype arch_activity =
    Arch_running
  | Arch_wait
  | Arch_start u8

inductive arch_step :: "(nat \<Rightarrow> arch_activity) \<Rightarrow> sipi_event \<Rightarrow> (nat \<Rightarrow> arch_activity) \<Rightarrow> bool" where
  arch_init: "a i = Arch_running \<Longrightarrow> arch_step a (Init_event i) (a(i := Arch_wait))"
| arch_sipi: "arch_step a (Sipi_event i v) (if a i = Arch_wait then a(i := Arch_start v) else a)"
| arch_start: "a i = Arch_start v \<Longrightarrow> arch_step a (Start_event i v) (a(i := Arch_running))"
| arch_internal: "arch_step a Internal a"

section \<open>Invariant and abstraction\<close>

definition consistent :: "location \<Rightarrow> u8 \<Rightarrow> bool" where
  "consistent l a = (case l of
      In_guest \<Rightarrow> a = ACTIVE
    | Spinning \<Rightarrow> True
    | Received \<Rightarrow> a \<noteq> WAIT_FOR_SIPI
    | Swapped v \<Rightarrow> a = ACTIVE \<and> v \<noteq> WAIT_FOR_SIPI
    | Failed \<Rightarrow> False)"

definition sipi_inv :: "sipi_state \<Rightarrow> bool" where
  "sipi_inv s \<longleftrightarrow> length (acts s) = 0xff \<and> (\<forall>i < length (acts s). consistent (locs s i) (acts s ! i))
     \<and> (\<forall>i \<ge> length (acts s). locs s i = In_guest)"

definition abs_activity :: "sipi_state \<Rightarrow> nat \<Rightarrow> arch_activity" where
  "abs_activity s i = (case locs s i of
      Spinning \<Rightarrow> if acts s ! i = WAIT_FOR_SIPI then Arch_wait else Arch_start (acts s ! i)
    | Received \<Rightarrow> Arch_start (acts s ! i)
    | Swapped v \<Rightarrow> Arch_start v
    | _ \<Rightarrow> Arch_running)"

lemma active_not_waiting [simp]: "ACTIVE \<noteq> WAIT_FOR_SIPI" "WAIT_FOR_SIPI \<noteq> ACTIVE"
  by (simp_all add: ACTIVE_def WAIT_FOR_SIPI_def)

lemma nth_upd: "xs[i := v] ! n = (if n = i \<and> i < length xs then v else xs ! n)"
  by (cases "i < length xs") (auto simp: nth_list_update list_update_beyond)

lemma sipi_inv_initial: "sipi_inv sipi_initial"
  by (auto simp: sipi_inv_def sipi_initial_def consistent_def)

lemma in_range: "sipi_inv s \<Longrightarrow> locs s i \<noteq> In_guest \<Longrightarrow> i < length (acts s)"
  by (metis not_le sipi_inv_def)

lemma sipi_inv_step:
  assumes "sipi_inv s" and "sipi_step s ev s'"
  shows "sipi_inv s' \<and> arch_step (abs_activity s) ev (abs_activity s')"
  using assms(2)
proof (cases rule: sipi_step.cases)
  case (init i prev a)
  with assms(1) have "prev = ACTIVE" "a = (acts s)[i := WAIT_FOR_SIPI]" by (auto simp: sipi_inv_def swap_state_def consistent_def)
  moreover have "abs_activity s i = Arch_running" using init by (simp add: abs_activity_def)
  moreover have "abs_activity (move i Spinning (s\<lparr>acts := (acts s)[i := WAIT_FOR_SIPI]\<rparr>)) = (abs_activity s)(i := Arch_wait)"
    using init by (auto simp: abs_activity_def move_def fun_eq_iff nth_upd split: location.splits)
  ultimately show ?thesis
    using init assms(1) arch_init [of "abs_activity s" i]
    by (auto simp: sipi_inv_def move_def consistent_def nth_upd)
next
  case (load i)
  have "abs_activity s' = abs_activity s"
    using load by (auto simp: abs_activity_def move_def fun_eq_iff split: location.splits)
  then show ?thesis
    using load assms(1) in_range [OF assms(1), of i] arch_internal
    by (auto simp: sipi_inv_def move_def consistent_def)
next
  case (swap i v a)
  note r = in_range [OF assms(1), of i]
  have "a = (acts s)[i := ACTIVE]" "v = acts s ! i" using swap by (auto simp: swap_state_def)
  moreover have "abs_activity (move i (Swapped (acts s ! i)) (s\<lparr>acts := (acts s)[i := ACTIVE]\<rparr>)) = abs_activity s"
    using swap by (auto simp: abs_activity_def move_def fun_eq_iff nth_upd split: location.splits)
  ultimately show ?thesis
    using swap assms(1) r arch_internal by (auto simp: sipi_inv_def move_def consistent_def nth_upd)
next
  case (check i v)
  have r: "i < length (acts s)" using in_range [OF assms(1), of i] check by simp
  with assms(1) check have "acts s ! i = ACTIVE" by (auto simp: sipi_inv_def consistent_def)
  moreover have "abs_activity s i = Arch_start v" using check by (simp add: abs_activity_def)
  moreover have "abs_activity (move i In_guest s) = (abs_activity s)(i := Arch_running)"
    by (auto simp: abs_activity_def move_def fun_eq_iff split: location.splits)
  ultimately show ?thesis
    using check r assms(1) arch_start [of "abs_activity s" i v] by (auto simp: sipi_inv_def move_def consistent_def)
next
  case (deliver v i a)
  have r: "i < length (acts s)" and a: "a = (if acts s ! i = WAIT_FOR_SIPI then (acts s)[i := v] else acts s)"
    using deliver by (auto simp: deliver_sipi_def split: if_splits)
  have "consistent (locs s i) (acts s ! i)" using r assms(1) by (simp add: sipi_inv_def)
  then have "acts s ! i = WAIT_FOR_SIPI \<Longrightarrow> locs s i = Spinning"
    by (auto simp: consistent_def split: location.splits)
  then have "abs_activity (s\<lparr>acts := a\<rparr>) = (if abs_activity s i = Arch_wait then (abs_activity s)(i := Arch_start v) else abs_activity s)"
    using deliver r by (auto simp: abs_activity_def a fun_eq_iff nth_upd split: location.splits)
  then show ?thesis
    using deliver a r assms(1) arch_sipi [of "abs_activity s" i v]
    by (auto simp: sipi_inv_def consistent_def nth_upd split: location.splits)
qed

lemma sipi_inv_reachable: "sipi_reachable s \<Longrightarrow> sipi_inv s"
  by (induction rule: sipi_reachable.induct) (auto simp: sipi_inv_initial dest: sipi_inv_step)

section \<open>Progress\<close>

lemma spinning_progress:
  "locs s i = Spinning \<Longrightarrow> acts s ! i \<noteq> WAIT_FOR_SIPI \<Longrightarrow> sipi_step s Internal (move i Received s)"
  using load [of s i] by simp

lemma received_progress:
  "locs s i = Received \<Longrightarrow> sipi_step s Internal (move i (Swapped (acts s ! i)) (s\<lparr>acts := (acts s)[i := ACTIVE]\<rparr>))"
  by (rule swap) (simp_all add: swap_state_def)

text \<open>
  The next step of processor \<open>i\<close> itself, which exists unless it runs its guest (or has
  failed): an iteration of the loop of \<open>wait_for_sipi\<close>, its swap, or the assertion of
  \<open>handle_sipi\<close>.
\<close>

definition cpu_next :: "nat \<Rightarrow> sipi_state \<Rightarrow> (sipi_event \<times> sipi_state) option" where
  "cpu_next i s = (case locs s i of
      Spinning \<Rightarrow> Some (Internal, move i (if acts s ! i = WAIT_FOR_SIPI then Spinning else Received) s)
    | Received \<Rightarrow> Some (Internal, move i (Swapped (acts s ! i)) (s\<lparr>acts := (acts s)[i := ACTIVE]\<rparr>))
    | Swapped v \<Rightarrow> Some (Start_event i v, move i (if acts s ! i = ACTIVE then In_guest else Failed) s)
    | _ \<Rightarrow> None)"

lemma cpu_next_step: "cpu_next i s = Some (ev, s') \<Longrightarrow> sipi_step s ev s'"
  using load [of s i] received_progress [of s i] check [of s i]
  by (auto simp: cpu_next_def split: location.splits)

text \<open>
  An infinite run of all processors, and weak fairness towards one of them: at no point does
  it stop to take the steps that it can take.
\<close>

definition sipi_run :: "(nat \<Rightarrow> sipi_state) \<Rightarrow> (nat \<Rightarrow> sipi_event) \<Rightarrow> bool" where
  "sipi_run \<sigma> e \<longleftrightarrow> sipi_reachable (\<sigma> 0) \<and> (\<forall>n. sipi_step (\<sigma> n) (e n) (\<sigma> (Suc n)))"

definition fair_to :: "nat \<Rightarrow> (nat \<Rightarrow> sipi_state) \<Rightarrow> (nat \<Rightarrow> sipi_event) \<Rightarrow> bool" where
  "fair_to i \<sigma> e \<longleftrightarrow> (\<forall>n. \<exists>k \<ge> n. cpu_next i (\<sigma> k) = None \<or> cpu_next i (\<sigma> k) = Some (e k, \<sigma> (Suc k)))"

lemma sipi_run_reachable: "sipi_run \<sigma> e \<Longrightarrow> sipi_reachable (\<sigma> n)"
  by (induction n) (auto simp: sipi_run_def intro: step)

lemma sipi_run_step:
  assumes "sipi_run \<sigma> e"
  shows "sipi_step (\<sigma> n) (e n) (\<sigma> (Suc n))" and "sipi_inv (\<sigma> n)" and "arch_step (abs_activity (\<sigma> n)) (e n) (abs_activity (\<sigma> (Suc n)))"
  using assms sipi_inv_reachable [OF sipi_run_reachable [OF assms]] sipi_inv_step by (auto simp: sipi_run_def)

text \<open>How many steps of its own a processor is away from the start.\<close>

fun rank :: "location \<Rightarrow> nat" where
  "rank Spinning = 3"
| "rank Received = 2"
| "rank (Swapped v) = 1"
| "rank _ = 0"

lemma pending_step:
  assumes "sipi_step s ev s'" and "abs_activity s i = Arch_start v" and "\<forall>w. ev \<noteq> Start_event i w"
  shows "rank (locs s' i) \<le> rank (locs s i)"
    and "cpu_next i s = Some (ev, s') \<Longrightarrow> rank (locs s' i) < rank (locs s i)"
proof -
  show "rank (locs s' i) \<le> rank (locs s i)"
    using assms(1)
  proof (cases rule: sipi_step.cases)
    case (init j prev a)
    with assms(2) have "j \<noteq> i" by (auto simp: abs_activity_def)
    with init show ?thesis by (simp add: move_def)
  next
    case (swap j w a)
    then show ?thesis by (cases "i = j") (auto simp: move_def)
  next
    case (check j w)
    with assms(3) show ?thesis by (auto simp: move_def)
  qed (use assms(2) in \<open>auto simp: move_def\<close>)
  show "rank (locs s' i) < rank (locs s i)" if "cpu_next i s = Some (ev, s')"
    using that assms(2,3)
    by (auto simp: cpu_next_def abs_activity_def move_def split: location.splits if_splits)
qed

lemma pending_preserved:
  assumes "arch_step a ev a'" and "a i = Arch_start v" and "\<forall>w. ev \<noteq> Start_event i w"
  shows "a' i = Arch_start v"
  using assms by (cases rule: arch_step.cases) auto

lemma no_infinite_descent:
  fixes f :: "nat \<Rightarrow> nat"
  assumes "\<And>n. \<exists>k \<ge> n. f k < f n"
  shows False
proof -
  have "f n < r \<Longrightarrow> False" for n r
  proof (induction r arbitrary: n)
    case (Suc r)
    from assms [of n] obtain k where "f k < f n" by blast
    with Suc show False by (metis less_Suc_eq_le order_less_le_trans)
  qed simp
  then show ?thesis by blast
qed

text \<open>A processor that has been sent a start-up IPI starts in every run that is fair to it.\<close>

lemma pending_starts:
  assumes r: "sipi_run \<sigma> e" and f: "fair_to i \<sigma> e" and p: "abs_activity (\<sigma> 0) i = Arch_start v"
  shows "\<exists>n w. e n = Start_event i w"
proof (rule ccontr)
  assume "\<nexists>n w. e n = Start_event i w"
  then have none: "\<forall>w. e n \<noteq> Start_event i w" for n by blast
  have pend: "abs_activity (\<sigma> n) i = Arch_start v" for n
    by (induction n) (use p pending_preserved [OF sipi_run_step(3) [OF r] _ none] in auto)
  note rank = pending_step [OF sipi_run_step(1) [OF r] pend none]
  have "n \<le> k \<Longrightarrow> rank (locs (\<sigma> k) i) \<le> rank (locs (\<sigma> n) i)" for n k
    by (induction k rule: dec_induct) (use rank(1) order_trans in auto)
  moreover have "\<exists>k \<ge> n. rank (locs (\<sigma> (Suc k)) i) < rank (locs (\<sigma> k) i)" for n
  proof -
    obtain k where k: "k \<ge> n" "cpu_next i (\<sigma> k) = None \<or> cpu_next i (\<sigma> k) = Some (e k, \<sigma> (Suc k))"
      using f unfolding fair_to_def by blast
    moreover have "cpu_next i (\<sigma> k) \<noteq> None"
      using pend [of k] by (auto simp: cpu_next_def abs_activity_def split: location.splits)
    ultimately show ?thesis using rank(2) by blast
  qed
  ultimately have "\<exists>k \<ge> n. rank (locs (\<sigma> k) i) < rank (locs (\<sigma> n) i)" for n
    by (meson le_SucI order_less_le_trans)
  then show False by (rule no_infinite_descent)
qed

section \<open>An example\<close>

definition one_waiting :: sipi_state where
  "one_waiting = move 1 Spinning (sipi_initial\<lparr>acts := (acts sipi_initial)[1 := WAIT_FOR_SIPI]\<rparr>)"

lemma one_waiting_step: "sipi_step sipi_initial (Init_event 1) one_waiting"
  using init [of sipi_initial 1 ACTIVE "(acts sipi_initial)[1 := WAIT_FOR_SIPI]"]
  by (simp add: sipi_initial_def swap_state_def one_waiting_def)

section \<open>Properties\<close>

text \<open>
  C4. The emulation of INIT and start-up IPI refines the architecture. From the state after
  \<open>SharedGuestData::new\<close>, under every interleaving of the processors, each step of the code is
  a step of the wait-for-SIPI automaton or invisible to it: a processor only starts with the
  vector of the first start-up IPI sent after its INIT, and other start-up IPIs are
  discarded. No assertion on the activity states fails.
\<close>

theorem sipi_protocol_refines:
  assumes "sipi_reachable s" and "sipi_step s ev s'"
  shows "arch_step (abs_activity s) ev (abs_activity s') \<and> locs s' i \<noteq> Failed"
proof -
  from sipi_inv_step [OF sipi_inv_reachable [OF assms(1)] assms(2)]
  have inv: "sipi_inv s'" and a: "arch_step (abs_activity s) ev (abs_activity s')" by simp_all
  have "locs s' i \<noteq> Failed"
  proof
    assume f: "locs s' i = Failed"
    then have "i < length (acts s')" using in_range [OF inv, of i] by simp
    with inv f show False by (auto simp: sipi_inv_def consistent_def)
  qed
  with a show ?thesis by simp
qed

theorem sipi_protocol_refines_witness:
  "\<exists>s'. sipi_step sipi_initial (Init_event 1) s' \<and> arch_step (abs_activity sipi_initial) (Init_event 1) (abs_activity s')
     \<and> locs s' 1 \<noteq> Failed"
  using sipi_protocol_refines [OF initial one_waiting_step, of 1] one_waiting_step by blast

text \<open>
  C22. A start-up IPI is not lost. In every run of all processors that begins by sending the
  vector \<open>v\<close> to a waiting processor and is fair to that processor, the processor starts, the
  first start after the IPI is with \<open>v\<close>, whatever other start-up IPIs are sent to it in
  between, and it is in the guest after that.
\<close>

theorem sipi_start_reached:
  assumes "sipi_run \<sigma> e" and "fair_to i \<sigma> e" and "abs_activity (\<sigma> 0) i = Arch_wait" and "e 0 = Sipi_event i v"
  shows "\<exists>n. e n = Start_event i v \<and> locs (\<sigma> (Suc n)) i = In_guest \<and> (\<forall>k < n. \<forall>w. e k \<noteq> Start_event i w)"
proof -
  let ?\<sigma> = "\<lambda>n. \<sigma> (Suc n)" and ?e = "\<lambda>n. e (Suc n)"
  have r: "sipi_run ?\<sigma> ?e"
    using assms(1) sipi_run_reachable [OF assms(1), of 1] by (auto simp: sipi_run_def)
  have f: "fair_to i ?\<sigma> ?e"
    unfolding fair_to_def
  proof
    fix n
    obtain k where "Suc n \<le> k" "cpu_next i (\<sigma> k) = None \<or> cpu_next i (\<sigma> k) = Some (e k, \<sigma> (Suc k))"
      using assms(2) unfolding fair_to_def by blast
    then show "\<exists>k \<ge> n. cpu_next i (?\<sigma> k) = None \<or> cpu_next i (?\<sigma> k) = Some (?e k, ?\<sigma> (Suc k))"
      by (cases k) auto
  qed
  have p: "abs_activity (\<sigma> 1) i = Arch_start v"
    using sipi_run_step(3) [OF assms(1), of 0] assms(3,4) by (cases rule: arch_step.cases) auto
  define n where "n = (LEAST n. \<exists>w. ?e n = Start_event i w)"
  from pending_starts [OF r f] p have ex: "\<exists>n w. ?e n = Start_event i w" by simp
  obtain w where w: "?e n = Start_event i w" unfolding n_def using LeastI_ex [OF ex] by blast
  have before: "k < n \<Longrightarrow> \<forall>w. ?e k \<noteq> Start_event i w" for k unfolding n_def using not_less_Least by blast
  have "k \<le> n \<Longrightarrow> abs_activity (?\<sigma> k) i = Arch_start v" for k
    by (induction k) (use p pending_preserved [OF sipi_run_step(3) [OF r] _ before] in auto)
  from this [of n] have "abs_activity (?\<sigma> n) i = Arch_start v" by simp
  with sipi_run_step(3) [OF r, of n] w have "w = v" by (auto elim: arch_step.cases)
  moreover have "locs (?\<sigma> (Suc n)) i = In_guest"
    using sipi_run_step(1) [OF r, of n] sipi_run_step(2) [OF r, of n] in_range [OF sipi_run_step(2) [OF r, of n], of i]
    unfolding w by (auto elim!: start_stepE simp: move_def sipi_inv_def consistent_def)
  moreover have "k < Suc n \<Longrightarrow> \<forall>w. e k \<noteq> Start_event i w" for k
    using before assms(4) by (cases k) auto
  ultimately show ?thesis using w by (intro exI [of _ "Suc n"]) auto
qed

text \<open>The IPI with vector 0x9a, the three steps of processor 1, and then discarded IPIs for ever.\<close>

definition example_run :: "nat \<Rightarrow> sipi_state" where
  "example_run n = (case n of
      0 \<Rightarrow> one_waiting
    | Suc 0 \<Rightarrow> one_waiting\<lparr>acts := (replicate 0xff ACTIVE)[1 := 0x9a]\<rparr>
    | Suc (Suc 0) \<Rightarrow> \<lparr>acts = (replicate 0xff ACTIVE)[1 := 0x9a], locs = (\<lambda>_. In_guest)(1 := Received)\<rparr>
    | Suc (Suc (Suc 0)) \<Rightarrow> \<lparr>acts = replicate 0xff ACTIVE, locs = (\<lambda>_. In_guest)(1 := Swapped 0x9a)\<rparr>
    | _ \<Rightarrow> sipi_initial)"

definition example_events :: "nat \<Rightarrow> sipi_event" where
  "example_events n = (case n of Suc 0 \<Rightarrow> Internal | Suc (Suc 0) \<Rightarrow> Internal
     | Suc (Suc (Suc 0)) \<Rightarrow> Start_event 1 0x9a | _ \<Rightarrow> Sipi_event 1 0x9a)"

lemma one_waiting_eq: "one_waiting = \<lparr>acts = (replicate 0xff ACTIVE)[1 := WAIT_FOR_SIPI], locs = (\<lambda>_. In_guest)(1 := Spinning)\<rparr>"
  by (simp add: one_waiting_def move_def sipi_initial_def)

lemma vector_codes: "(0x9a :: u8) \<noteq> WAIT_FOR_SIPI" "(0x9a :: u8) \<noteq> ACTIVE"
  by (simp_all add: WAIT_FOR_SIPI_def ACTIVE_def)

lemma replicate_upd: "(replicate n x)[i := x] = replicate n x"
  by (metis list_update_id list_update_beyond length_replicate not_le nth_replicate)

lemma example_next:
  "cpu_next 1 (example_run (Suc 0)) = Some (example_events (Suc 0), example_run (Suc (Suc 0)))"
  "cpu_next 1 (example_run (Suc (Suc 0))) = Some (example_events (Suc (Suc 0)), example_run (Suc (Suc (Suc 0))))"
  "cpu_next 1 (example_run (Suc (Suc (Suc 0)))) = Some (example_events (Suc (Suc (Suc 0))), example_run (Suc (Suc (Suc (Suc 0)))))"
  "cpu_next 1 (example_run (Suc (Suc (Suc (Suc n))))) = None"
  by (simp_all add: example_run_def example_events_def cpu_next_def one_waiting_eq move_def vector_codes nth_upd replicate_upd
      sipi_initial_def fun_eq_iff)

lemma example_deliver:
  "sipi_step one_waiting (Sipi_event 1 0x9a) (one_waiting\<lparr>acts := (replicate 0xff ACTIVE)[1 := 0x9a]\<rparr>)"
  "sipi_step sipi_initial (Sipi_event 1 0x9a) sipi_initial"
  using deliver [of "0x9a" 1 one_waiting] deliver [of "0x9a" 1 sipi_initial "acts sipi_initial"]
  by (simp_all add: vector_codes deliver_sipi_def one_waiting_eq sipi_initial_def nth_upd)

lemma example_run_ok: "sipi_run example_run example_events" "fair_to 1 example_run example_events"
proof -
  have "sipi_step (example_run n) (example_events n) (example_run (Suc n))" for n
  proof (cases "n = 0 \<or> n \<ge> 4")
    case True
    then have "n = 0 \<or> n = Suc (Suc (Suc (Suc (n - 4))))" by arith
    then obtain m where "n = 0 \<or> n = Suc (Suc (Suc (Suc m)))" by blast
    then show ?thesis using example_deliver by (auto simp: example_run_def example_events_def)
  next
    case False
    then have "n = Suc 0 \<or> n = Suc (Suc 0) \<or> n = Suc (Suc (Suc 0))" by auto
    then show ?thesis using example_next(1-3) cpu_next_step by blast
  qed
  then show "sipi_run example_run example_events"
    using step [OF initial one_waiting_step] by (simp add: sipi_run_def) (simp add: example_run_def)
  show "fair_to 1 example_run example_events"
    unfolding fair_to_def
  proof
    fix n
    have "cpu_next 1 (example_run (Suc (Suc (Suc (Suc n))))) = None" by (rule example_next)
    moreover have "n \<le> Suc (Suc (Suc (Suc n)))" by simp
    ultimately show "\<exists>k \<ge> n. cpu_next 1 (example_run k) = None \<or> cpu_next 1 (example_run k) = Some (example_events k, example_run (Suc k))"
      by blast
  qed
qed

theorem sipi_start_reached_witness:
  "example_events 0 = Sipi_event 1 0x9a
   \<and> (\<exists>n. example_events n = Start_event 1 0x9a \<and> locs (example_run (Suc n)) 1 = In_guest
        \<and> (\<forall>k < n. \<forall>w. example_events k \<noteq> Start_event 1 w))"
proof -
  have "abs_activity (example_run 0) 1 = Arch_wait"
    by (simp add: example_run_def abs_activity_def one_waiting_eq nth_upd)
  moreover have "example_events 0 = Sipi_event 1 0x9a" by (simp add: example_events_def)
  ultimately show ?thesis using sipi_start_reached [OF example_run_ok] by blast
qed

text \<open>
  C23. The handlers make exactly the steps of the protocol. \<open>handle_init_signal\<close> succeeds or
  fails its assertion as the \<open>init\<close> step does and leaves its activity states; \<open>wait_for_sipi\<close>
  returns when a load observes a vector, with the states of the \<open>swap\<close> step; \<open>handle_sipi\<close>
  succeeds exactly when the \<open>check\<close> step does; and the write of a start-up IPI changes the
  activity states by a \<open>deliver\<close> step.
\<close>

theorem handlers_are_protocol_steps:
  assumes "svm_id g = i" and "i \<noteq> 0" and "i < length (activity_states m)" and "acts s = activity_states m"
  shows "(locs s i = In_guest \<longrightarrow> (case svm_handle_init_signal cpuid g m of
           Inl _ \<Rightarrow> \<exists>s'. sipi_step s (Init_event i) s' \<and> locs s' i = Failed
         | Inr (g', m') \<Rightarrow> \<exists>s'. sipi_step s (Init_event i) s' \<and> locs s' i = Spinning \<and> acts s' = activity_states m'))
    \<and> (locs s i = Received \<and> acts s ! i \<noteq> WAIT_FOR_SIPI \<longrightarrow> (\<exists>s' m'. sipi_step s Internal s'
           \<and> wait_for_sipi (replicate n WAIT_FOR_SIPI @ [acts s ! i]) g m = Inr (acts s ! i, m')
           \<and> locs s' i = Swapped (acts s ! i) \<and> acts s' = activity_states m'))
    \<and> (locs s i = Swapped v \<longrightarrow> (\<exists>s'. sipi_step s (Start_event i v) s'
           \<and> (locs s' i = In_guest \<longleftrightarrow> (\<exists>g'. handle_sipi v g m = Inr g'))))
    \<and> (\<forall>m'. emulate_apic_write ids val gpa m = Inr m' \<and> activity_states m' \<noteq> activity_states m \<longrightarrow>
           (\<exists>p w s'. sipi_step s (Sipi_event p w) s' \<and> acts s' = activity_states m'))"
proof -
  have spin: "w \<noteq> WAIT_FOR_SIPI \<Longrightarrow> spin_while_waiting (replicate n WAIT_FOR_SIPI @ [w]) = Some w" for w
    by (induction n) simp_all
  have "case svm_handle_init_signal cpuid g m of
           Inl _ \<Rightarrow> \<exists>s'. sipi_step s (Init_event i) s' \<and> locs s' i = Failed
         | Inr (g', m') \<Rightarrow> \<exists>s'. sipi_step s (Init_event i) s' \<and> locs s' i = Spinning \<and> acts s' = activity_states m'"
    if "locs s i = In_guest"
    using init [OF that, of "activity_states m ! i" "(activity_states m)[i := WAIT_FOR_SIPI]"] assms
    by (auto simp: svm_handle_init_signal_def swap_state_def assert_that_def Let_def move_def split: if_splits)
  moreover have "\<exists>s' m'. sipi_step s Internal s'
           \<and> wait_for_sipi (replicate n WAIT_FOR_SIPI @ [acts s ! i]) g m = Inr (acts s ! i, m')
           \<and> locs s' i = Swapped (acts s ! i) \<and> acts s' = activity_states m'"
    if "locs s i = Received" "acts s ! i \<noteq> WAIT_FOR_SIPI"
    using received_progress [OF that(1)] assms spin [OF that(2)]
    by (intro exI conjI) (assumption, simp add: wait_for_sipi_def swap_state_def, simp_all add: move_def)
  moreover have "\<exists>s'. sipi_step s (Start_event i v) s' \<and> (locs s' i = In_guest \<longleftrightarrow> (\<exists>g'. handle_sipi v g m = Inr g'))"
    if "locs s i = Swapped v"
    using check [OF that] assms
    by (intro exI conjI) (assumption, auto simp: handle_sipi_def assert_that_def move_def Let_def)
  moreover have "\<exists>p w s'. sipi_step s (Sipi_event p w) s' \<and> acts s' = activity_states m'"
    if e: "emulate_apic_write ids val gpa m = Inr m'" "activity_states m' \<noteq> activity_states m" for m'
  proof -
    from e obtain p w a where w: "w \<noteq> WAIT_FOR_SIPI" and d: "deliver_sipi p w (activity_states m) = Inr a"
      and m': "m' = m\<lparr>activity_states := a\<rparr>"
      by (auto simp: emulate_apic_write_def Let_def rust_simps split: if_splits)
    have "sipi_step s (Sipi_event p w) (s\<lparr>acts := a\<rparr>)" using deliver [OF w] d assms(4) by simp
    then show ?thesis using m' by (intro exI conjI) (assumption, simp)
  qed
  ultimately show ?thesis by blast
qed

theorem handlers_are_protocol_steps_witness:
  "\<exists>g' m' s'. svm_handle_init_signal (\<lambda>_ _. \<lparr>eax = 1, ebx = 0, ecx = 0, edx = 0\<rparr>)
       \<lparr>svm_id = 1, svm_registers = Registers_default, vmcb = Vmcb_default, vmcb_pa = 0, host_vmcb = Vmcb_default,
        host_vmcb_pa = 0, host_state_va = 0\<rparr>
       (blank_machine (\<lambda>_. 0) (\<lambda>_. 0) \<lparr>npt = PagingStructures_new, activity_states = replicate 0xff ACTIVE, apic_mmio = (\<lambda>_. 0),
          fs_cache = (0, 0), gs_cache = (0, 0), tr_cache = (0, 0, 0), ldtr_cache = (0, 0, 0)\<rparr>) = Inr (g', m')
     \<and> sipi_step sipi_initial (Init_event 1) s' \<and> locs s' 1 = Spinning \<and> acts s' = activity_states m'"
proof -
  let ?c = "\<lambda>_ _. \<lparr>eax = 1, ebx = 0, ecx = 0, edx = 0\<rparr>"
  let ?g = "\<lparr>svm_id = 1, svm_registers = Registers_default, vmcb = Vmcb_default, vmcb_pa = 0, host_vmcb = Vmcb_default,
        host_vmcb_pa = 0, host_state_va = 0\<rparr>"
  let ?m = "blank_machine (\<lambda>_. 0) (\<lambda>_. 0) \<lparr>npt = PagingStructures_new, activity_states = replicate 0xff ACTIVE, apic_mmio = (\<lambda>_. 0),
          fs_cache = (0, 0), gs_cache = (0, 0), tr_cache = (0, 0, 0), ldtr_cache = (0, 0, 0)\<rparr> :: svm_machine"
  have m: "activity_states ?m = replicate 0xff ACTIVE" by (simp add: blank_machine_def)
  obtain g' m' where "svm_handle_init_signal ?c ?g ?m = Inr (g', m')"
    by (simp add: svm_handle_init_signal_def swap_state_def m Let_def)
  moreover have "locs sipi_initial 1 = In_guest" "acts sipi_initial = activity_states ?m" by (simp_all add: sipi_initial_def m)
  ultimately show ?thesis
    using handlers_are_protocol_steps [of ?g 1 ?m sipi_initial ?c] by (auto simp: m)
qed

end
