(* ===== verification/Assembly.thy ===== *)
theory Assembly
  imports Svm_Guest Vmx_Guest Interrupts
begin

unbundle bit_operations_syntax

text \<open>
  The assembly files: \<open>capture_registers.S\<close>, \<open>restore_registers.S\<close>, \<open>switch_stack\<close>, \<open>interrupt_handlers.S\<close>
  and the two \<open>run_guest.S\<close>, as lists of instructions that are executed one after the other. Memory
  is a function from the address of an 8-byte word to its value; an access that is not aligned to 8
  bytes is outside of the model (\<open>Unaligned\<close>), a MOVAPS that is not aligned to 16 bytes is a
  general protection fault. The flags that an arithmetic instruction leaves are an arbitrary
  function \<open>alu\<close>. VMLOAD and VMSAVE do not touch this part of the state (their effect is in the theory
  \<open>Svm_Guest\<close>), and \<open>xchg bx, bx\<close> is \<open>Nop\<close>. What the processor does between VM entry and VM exit is a function of the
  state at VM entry.
\<close>

section \<open>Instructions\<close>

datatype reg = RAX | RBX | RCX | RDX | RDI | RSI | RBP | R8 | R9 | R10 | R11 | R12 | R13 | R14 | R15 | RSP

record cpu_state =
  gpr :: "reg \<Rightarrow> u64"
  xmms :: "nat \<Rightarrow> xmm"
  eflags :: u64
  ram :: "u64 \<Rightarrow> u64"
  ip :: u64

datatype asm_fault = Unaligned | GeneralProtection

datatype instr =
    Push reg | PushImm u64 | PushMem reg u64 | Pop reg | Pushf | Popf
  | Mov reg reg | MovImm reg u64 | Load reg reg u64 | Store reg u64 reg | XchgMem reg reg
  | LoadX nat reg u64 | StoreX reg u64 nat
  | Lea reg reg u64 | AddImm reg u64 | SubImm reg u64 | AndImm reg u64 | CmpImm reg u64
  | Ret | JmpReg reg | Nop | Vmload reg | Vmsave reg

definition aligned :: "nat \<Rightarrow> u64 \<Rightarrow> bool" where
  "aligned n a \<longleftrightarrow> take_bit n a = 0"

definition load :: "u64 \<Rightarrow> cpu_state \<Rightarrow> asm_fault + u64" where
  "load a s = (if aligned 3 a then Inr (ram s a) else Inl Unaligned)"

definition store :: "u64 \<Rightarrow> u64 \<Rightarrow> cpu_state \<Rightarrow> asm_fault + cpu_state" where
  "store a v s = (if aligned 3 a then Inr (s\<lparr>ram := (ram s)(a := v)\<rparr>) else Inl Unaligned)"

definition set_gpr :: "reg \<Rightarrow> u64 \<Rightarrow> cpu_state \<Rightarrow> cpu_state" where
  "set_gpr r v s = s\<lparr>gpr := (gpr s)(r := v)\<rparr>"

definition asm_then :: "asm_fault + 'a \<Rightarrow> ('a \<Rightarrow> asm_fault + 'b) \<Rightarrow> asm_fault + 'b" where
  "asm_then m f = (case m of Inl e \<Rightarrow> Inl e | Inr x \<Rightarrow> f x)"

definition push :: "u64 \<Rightarrow> cpu_state \<Rightarrow> asm_fault + cpu_state" where
  "push v s = (let a = gpr s RSP - 8 in asm_then (store a v s) (\<lambda>s1. Inr (set_gpr RSP a s1)))"

definition pop :: "cpu_state \<Rightarrow> asm_fault + u64 \<times> cpu_state" where
  "pop s = asm_then (load (gpr s RSP) s) (\<lambda>v. Inr (v, set_gpr RSP (gpr s RSP + 8) s))"

text \<open>
  PUSHFQ clears VM and RF in the pushed value. POPFQ at privilege level 0 loads the arithmetic
  flags, TF, IF, DF, IOPL, NT, AC and ID and clears RF. (Intel SDM, POPF and PUSHF)
\<close>

definition PUSHED_FLAGS :: u64 where "PUSHED_FLAGS = NOT 0x30000"
definition POPPED_FLAGS :: u64 where "POPPED_FLAGS = 0x247fd5"

definition popped :: "u64 \<Rightarrow> u64 \<Rightarrow> u64" where
  "popped v old = (v AND POPPED_FLAGS) OR (old AND NOT (POPPED_FLAGS OR 0x10000))"

fun exec1 :: "(instr \<Rightarrow> cpu_state \<Rightarrow> u64) \<Rightarrow> instr \<Rightarrow> cpu_state \<Rightarrow> asm_fault + cpu_state" where
  "exec1 alu (Push r) s = push (gpr s r) s"
| "exec1 alu (PushImm v) s = push v s"
| "exec1 alu (PushMem b off) s = asm_then (load (gpr s b + off) s) (\<lambda>v. push v s)"
| "exec1 alu (Pop r) s = asm_then (pop s) (\<lambda>(v, s1). Inr (set_gpr r v s1))"
| "exec1 alu Pushf s = push (eflags s AND PUSHED_FLAGS) s"
| "exec1 alu Popf s = asm_then (pop s) (\<lambda>(v, s1). Inr (s1\<lparr>eflags := popped v (eflags s)\<rparr>))"
| "exec1 alu (Mov d r) s = Inr (set_gpr d (gpr s r) s)"
| "exec1 alu (MovImm d v) s = Inr (set_gpr d v s)"
| "exec1 alu (Load d b off) s = asm_then (load (gpr s b + off) s) (\<lambda>v. Inr (set_gpr d v s))"
| "exec1 alu (Store b off r) s = store (gpr s b + off) (gpr s r) s"
| "exec1 alu (XchgMem r b) s =
     asm_then (load (gpr s b) s) (\<lambda>v. asm_then (store (gpr s b) (gpr s r) s) (\<lambda>s1. Inr (set_gpr r v s1)))"
| "exec1 alu (LoadX i b off) s =
     (let a = gpr s b + off in
      if aligned 4 a then Inr (s\<lparr>xmms := (xmms s)(i := \<lparr>xmm_low = ram s a, xmm_high = ram s (a + 8)\<rparr>)\<rparr>) else Inl GeneralProtection)"
| "exec1 alu (StoreX b off i) s =
     (let a = gpr s b + off in
      if aligned 4 a then Inr (s\<lparr>ram := (ram s)(a := xmm_low (xmms s i), a + 8 := xmm_high (xmms s i))\<rparr>) else Inl GeneralProtection)"
| "exec1 alu (Lea d b off) s = Inr (set_gpr d (gpr s b + off) s)"
| "exec1 alu (AddImm d v) s = Inr ((set_gpr d (gpr s d + v) s)\<lparr>eflags := alu (AddImm d v) s\<rparr>)"
| "exec1 alu (SubImm d v) s = Inr ((set_gpr d (gpr s d - v) s)\<lparr>eflags := alu (SubImm d v) s\<rparr>)"
| "exec1 alu (AndImm d v) s = Inr ((set_gpr d (gpr s d AND v) s)\<lparr>eflags := alu (AndImm d v) s\<rparr>)"
| "exec1 alu (CmpImm r v) s = Inr (s\<lparr>eflags := alu (CmpImm r v) s\<rparr>)"
| "exec1 alu Ret s = asm_then (pop s) (\<lambda>(v, s1). Inr (s1\<lparr>ip := v\<rparr>))"
| "exec1 alu (JmpReg r) s = Inr (s\<lparr>ip := gpr s r\<rparr>)"
| "exec1 alu Nop s = Inr s"
| "exec1 alu (Vmload r) s = Inr s"
| "exec1 alu (Vmsave r) s = Inr s"

fun exec :: "(instr \<Rightarrow> cpu_state \<Rightarrow> u64) \<Rightarrow> instr list \<Rightarrow> cpu_state \<Rightarrow> asm_fault + cpu_state" where
  "exec alu [] s = Inr s"
| "exec alu (i # is) s = asm_then (exec1 alu i s) (exec alu is)"

section \<open>The code\<close>

subsection \<open>capture_registers.inc\<close>

fun reg_offset :: "reg \<Rightarrow> u64" where
  "reg_offset RAX = 0x0" | "reg_offset RBX = 0x8" | "reg_offset RCX = 0x10" | "reg_offset RDX = 0x18"
| "reg_offset RDI = 0x20" | "reg_offset RSI = 0x28" | "reg_offset RBP = 0x30" | "reg_offset R8 = 0x38"
| "reg_offset R9 = 0x40" | "reg_offset R10 = 0x48" | "reg_offset R11 = 0x50" | "reg_offset R12 = 0x58"
| "reg_offset R13 = 0x60" | "reg_offset R14 = 0x68" | "reg_offset R15 = 0x70" | "reg_offset RSP = 0x80"

definition registers_rflags :: u64 where "registers_rflags = 0x78"
definition registers_rip :: u64 where "registers_rip = 0x88"

fun xmm_offset :: "nat \<Rightarrow> u64" where
  "xmm_offset i = [0x90, 0xa0, 0xb0, 0xc0, 0xd0, 0xe0] ! i"

text \<open>Moves of several registers to or from the structure at a base register, in the given order.\<close>

definition stores :: "reg \<Rightarrow> reg list \<Rightarrow> instr list" where
  "stores b rs = map (\<lambda>r. Store b (reg_offset r) r) rs"

definition loads :: "reg \<Rightarrow> reg list \<Rightarrow> instr list" where
  "loads b rs = map (\<lambda>r. Load r b (reg_offset r)) rs"

definition xmm_stores :: "reg \<Rightarrow> (nat \<Rightarrow> u64) \<Rightarrow> nat list \<Rightarrow> instr list" where
  "xmm_stores b off is = map (\<lambda>i. StoreX b (off i) i) is"

definition xmm_loads :: "reg \<Rightarrow> (nat \<Rightarrow> u64) \<Rightarrow> nat list \<Rightarrow> instr list" where
  "xmm_loads b off is = map (\<lambda>i. LoadX i b (off i)) is"

subsection \<open>capture_registers.S and restore_registers.S\<close>

definition capture_registers :: "instr list" where
  "capture_registers =
     stores RCX [RAX, RBX, RCX, RDX, RSI, RDI, RBP, R8, R9, R10, R11, R12, R13, R14, R15]
     @ xmm_stores RCX xmm_offset [0, 1, 2, 3, 4, 5]
     @ [Pushf, Pop RAX, Store RCX registers_rflags RAX,
        Mov RAX RSP, AddImm RAX 8, Store RCX (reg_offset RSP) RAX,
        Load RAX RSP 0, Store RCX registers_rip RAX,
        Ret]"

definition restore_registers :: "instr list" where
  "restore_registers =
     [Push R11, Mov R10 RCX,
      PushMem R10 (reg_offset RSP), PushMem R10 registers_rip, PushMem R10 (reg_offset RAX), PushMem R10 (reg_offset R11)]
     @ xmm_loads R10 xmm_offset [0, 1, 2, 3, 4, 5]
     @ loads R10 [R15, R14, R13, R12, RDI, RSI, RBP, RBX]
     @ [Load RAX R10 registers_rflags, Push RAX, Popf,
        Pop R11, Pop RAX, Pop R8, Pop R9]
     @ loads R10 [RCX, RDX]
     @ [Lea RSP R9 (- 8), Store RSP 0 R8]
     @ loads R10 [R8, R9, R10]
     @ [Ret]"

text \<open>
  \<open>Registers::capture_current\<close> and \<open>Registers::restore\<close>: the call with its argument in RCX and a return
  address \<open>ret\<close>. The structure lies at \<open>p\<close>; \<open>capture_current\<close> fills its 30 words with zeros first.
\<close>

definition asm_call :: "(instr \<Rightarrow> cpu_state \<Rightarrow> u64) \<Rightarrow> u64 \<Rightarrow> instr list \<Rightarrow> cpu_state \<Rightarrow> asm_fault + cpu_state" where
  "asm_call alu ret code s = asm_then (push ret s) (exec alu code)"

definition capture_current :: "(instr \<Rightarrow> cpu_state \<Rightarrow> u64) \<Rightarrow> u64 \<Rightarrow> u64 \<Rightarrow> cpu_state \<Rightarrow> asm_fault + cpu_state" where
  "capture_current alu ret p s =
     asm_call alu ret capture_registers
       (set_gpr RCX p (s\<lparr>ram := (\<lambda>a. if a \<in> (\<lambda>i. p + of_nat (8 * i)) ` {..<30} then 0 else ram s a)\<rparr>))"

definition restore :: "(instr \<Rightarrow> cpu_state \<Rightarrow> u64) \<Rightarrow> u64 \<Rightarrow> u64 \<Rightarrow> cpu_state \<Rightarrow> asm_fault + cpu_state" where
  "restore alu ret p s = asm_call alu ret restore_registers (set_gpr RCX p s)"

subsection \<open>switch_stack\<close>

definition switch_stack :: "instr list" where
  "switch_stack = [Nop, Mov RSP R8, JmpReg RDX]"

subsection \<open>amd/run_guest.S\<close>

text \<open>The part before VMRUN and the part behind it.\<close>

definition svm_host_regs :: "reg list" where
  "svm_host_regs = [RAX, RCX, RDX, RBX, RBP, RSI, RDI, R8, R9, R10, R11, R12, R13, R14, R15]"

fun stack_xmm :: "nat \<Rightarrow> u64" where
  "stack_xmm i = [0, 0x10, 0x20, 0x30, 0x40, 0x50] ! i"

definition svm_enter :: "instr list" where
  "svm_enter =
     [Nop] @ map Push svm_host_regs
     @ [SubImm RSP 0x60] @ xmm_stores RSP stack_xmm [0, 1, 2, 3, 4, 5]
     @ [Mov R15 RCX, Mov RAX RDX, Push RCX]
     @ xmm_loads R15 xmm_offset [0, 1, 2, 3, 4, 5]
     @ loads R15 [RBX, RCX, RDX, RDI, RSI, RBP, R8, R9, R10, R11, R12, R13, R14, R15]
     @ [Vmload RAX]"

definition svm_leave :: "instr list" where
  "svm_leave =
     [Vmsave RAX, Nop, XchgMem R15 RSP]
     @ stores R15 [RBX, RCX, RDX, RSI, RDI, RBP, R8, R9, R10, R11, R12, R13, R14]
     @ [Load RAX RSP 0, Store R15 (reg_offset R15) RAX]
     @ xmm_stores R15 xmm_offset [0, 1, 2, 3, 4, 5]
     @ [Pop RAX] @ xmm_loads RSP stack_xmm [5, 4, 3, 2, 1, 0] @ [AddImm RSP 0x60]
     @ map Pop (rev svm_host_regs)
     @ [Mov RAX R8, Vmload RAX, Ret]"

text \<open>\<open>vmrun\<close> is what the processor does from VMRUN until it is back behind it.\<close>

definition run_svm_guest_asm ::
  "(instr \<Rightarrow> cpu_state \<Rightarrow> u64) \<Rightarrow> (cpu_state \<Rightarrow> cpu_state) \<Rightarrow> cpu_state \<Rightarrow> asm_fault + cpu_state" where
  "run_svm_guest_asm alu vmrun s = asm_then (exec alu svm_enter s) (\<lambda>s1. exec alu svm_leave (vmrun s1))"

subsection \<open>intel/run_guest.S\<close>

definition vmx_host_regs :: "reg list" where
  "vmx_host_regs = [RCX, RDX, RBX, RBP, RSI, RDI, R8, R9, R10, R11, R12, R13, R14, R15]"

definition vmx_enter :: "instr list" where
  "vmx_enter =
     [Nop] @ map Push vmx_host_regs
     @ [SubImm RSP 0x68] @ xmm_stores RSP stack_xmm [0, 1, 2, 3, 4, 5]
     @ [Mov R15 RCX, Push RCX]
     @ xmm_loads R15 xmm_offset [0, 1, 2, 3, 4, 5]
     @ loads R15 [RAX, RBX, RCX, RDX, RDI, RSI, RBP, R8, R9, R10, R11, R12, R13, R14, R15]"

text \<open>
  Behind a failed VMRESUME. VMREAD gives the VM-instruction error, or leaves R15 as it is when
  there is no current VMCS (\<open>None\<close>). For the error 5 the result has the values of RSP and of the
  address of \<open>.VmExit\<close> that are written to the VMCS, and the state at VMLAUNCH.
\<close>

definition vmx_resume_failed ::
  "(instr \<Rightarrow> cpu_state \<Rightarrow> u64) \<Rightarrow> u64 option \<Rightarrow> u64 \<Rightarrow> cpu_state \<Rightarrow> asm_fault + (u64 \<times> u64) option \<times> cpu_state" where
  "vmx_resume_failed alu instruction_error label_VmExit s =
     asm_then (exec alu [Pushf, MovImm R15 0x4400] s) (\<lambda>s1.
     let s2 = (case instruction_error of Some n \<Rightarrow> set_gpr R15 n s1 | None \<Rightarrow> s1) in
     asm_then (exec alu [CmpImm R15 5] s2) (\<lambda>s3.
     if gpr s2 R15 = 5 then
       asm_then (exec alu [Pop R15, Nop, MovImm R15 0x6c14] s3) (\<lambda>s4.
       asm_then (exec alu [MovImm R14 label_VmExit, MovImm R15 0x6c16] s4) (\<lambda>s5.
       asm_then (exec alu (Load R15 RSP 0 # loads R15 [R14, R15]) s5) (\<lambda>s6.
       Inr (Some (gpr s4 RSP, gpr s5 R14), s6))))
     else asm_then (exec alu [Popf] s3) (\<lambda>s4. Inr (None, s4))))"

definition vmx_VmExit :: "instr list" where
  "vmx_VmExit =
     [Nop, XchgMem R15 RSP]
     @ stores R15 [RAX, RBX, RCX, RDX, RSI, RDI, RBP, R8, R9, R10, R11, R12, R13, R14]
     @ [Load RAX RSP 0, Store R15 (reg_offset R15) RAX]
     @ xmm_stores R15 xmm_offset [0, 1, 2, 3, 4, 5]"

definition vmx_Exit :: "instr list" where
  "vmx_Exit =
     [Pop RAX, Pushf, Pop RAX] @ xmm_loads RSP stack_xmm [5, 4, 3, 2, 1, 0] @ [AddImm RSP 0x68]
     @ map Pop (rev vmx_host_regs)
     @ [Ret]"

text \<open>A VM entry fails and leaves flags (\<open>Inl\<close>), or ends with a VM exit at \<open>.VmExit\<close> (\<open>Inr\<close>).\<close>

definition run_vmx_guest_asm ::
  "(instr \<Rightarrow> cpu_state \<Rightarrow> u64) \<Rightarrow> (cpu_state \<Rightarrow> u64 + cpu_state) \<Rightarrow> u64 option \<Rightarrow> u64
     \<Rightarrow> (u64 \<times> u64 \<Rightarrow> cpu_state \<Rightarrow> u64 + cpu_state) \<Rightarrow> cpu_state \<Rightarrow> asm_fault + cpu_state" where
  "run_vmx_guest_asm alu vmresume instruction_error label_VmExit vmlaunch s =
     asm_then (exec alu vmx_enter s) (\<lambda>s1.
     case vmresume s1 of
       Inr s2 \<Rightarrow> asm_then (exec alu vmx_VmExit s2) (exec alu vmx_Exit)
     | Inl fl \<Rightarrow>
         asm_then (vmx_resume_failed alu instruction_error label_VmExit (s1\<lparr>eflags := fl\<rparr>)) (\<lambda>(host, s2).
         case host of
           None \<Rightarrow> exec alu vmx_Exit s2
         | Some host_rsp_rip \<Rightarrow>
             (case vmlaunch host_rsp_rip s2 of
                Inr s3 \<Rightarrow> asm_then (exec alu vmx_VmExit s3) (exec alu vmx_Exit)
              | Inl fl2 \<Rightarrow> exec alu vmx_Exit (s2\<lparr>eflags := fl2\<rparr>))))"

subsection \<open>interrupt_handlers.S\<close>

text \<open>The vectors for which the file has a handler that expects an error code.\<close>

definition with_error_code :: "nat \<Rightarrow> bool" where
  "with_error_code n \<longleftrightarrow> n = 8 \<or> (10 \<le> n \<and> n \<le> 14) \<or> n = 17 \<or> n = 21"

definition asm_interrupt_handler :: "nat \<Rightarrow> instr list" where
  "asm_interrupt_handler n = (if with_error_code n then [PushImm (of_nat n)] else [PushImm 0, PushImm (of_nat n)])"

text \<open>The common handler up to the call of \<open>handle_host_exception\<close>, which does not return.\<close>

definition asm_interrupt_handler_common :: "instr list" where
  "asm_interrupt_handler_common =
     map Push [RAX, RCX, RDX, RBX, RBP, RSI, RDI, R8, R9, R10, R11, R12, R13, R14, R15]
     @ [Mov RCX RSP, Mov R15 RSP, AndImm RSP 0xfffffffffffffff0, SubImm RSP 0x60]
     @ xmm_stores RSP stack_xmm [0, 1, 2, 3, 4, 5]
     @ [SubImm RSP 0x20]"

end
