(* ===== verification/Assembly_Properties.thy ===== *)
theory Assembly_Properties
  imports Assembly
begin

unbundle bit_operations_syntax

text \<open>
  What the assembly files do. The blocks of moves, pushes and pops are lemmas about lists of any
  length; the properties put them together.
\<close>

section \<open>Addresses\<close>

named_theorems aligned_intros "aligned addresses"

lemma aligned_uint: "aligned n a \<longleftrightarrow> take_bit n (uint a) = 0"
  unfolding aligned_def by (metis unsigned_0 unsigned_take_bit_eq unsigned_word_eqI)

lemma take_bit_uint: "n \<le> 64 \<Longrightarrow> take_bit n (uint (word_of_int k :: u64)) = take_bit n k"
  by (simp add: unsigned_of_int min_def)

lemma aligned_add: "n \<le> 64 \<Longrightarrow> aligned n a \<Longrightarrow> aligned n b \<Longrightarrow> aligned n (a + b)"
  unfolding aligned_uint using take_bit_uint [of n "uint a + uint b"] take_bit_add [of n "uint a" "uint b"] by simp

lemma aligned_diff: "n \<le> 64 \<Longrightarrow> aligned n a \<Longrightarrow> aligned n b \<Longrightarrow> aligned n (a - b)"
  unfolding aligned_uint using take_bit_uint [of n "uint a - uint b"] take_bit_diff [of n "uint a" "uint b"] by simp

lemmas aligned_3 [aligned_intros] = aligned_add [of 3] aligned_diff [of 3]
lemmas aligned_4 [aligned_intros] = aligned_add [of 4] aligned_diff [of 4]

lemma aligned_4_3: "aligned 4 a \<Longrightarrow> aligned 3 a"
  unfolding aligned_def
proof -
  assume "take_bit 4 a = 0"
  then have "take_bit 3 (take_bit 4 a) = 0" by simp
  then show "take_bit 3 a = 0" by simp
qed

lemma aligned_push_bit: "n \<le> k \<Longrightarrow> aligned n (push_bit k a)"
  unfolding aligned_def by (rule bit_word_eqI) (auto simp: bit_simps)

text \<open>The size of \<open>n\<close> words in bytes.\<close>

definition off8 :: "nat \<Rightarrow> u64" where
  "off8 n = of_nat (8 * n)"

lemma off8_simps: "off8 0 = 0" "off8 1 = 8" "off8 2 = 16" "off8 (Suc n) = off8 n + 8"
  by (simp_all add: off8_def)

lemma off8_add: "off8 (m + n) = off8 m + off8 n"
  by (simp add: off8_def algebra_simps)

lemma off8_inject: "m < 1000 \<Longrightarrow> n < 1000 \<Longrightarrow> off8 m = off8 n \<longleftrightarrow> m = n"
proof -
  assume "m < 1000" "n < 1000"
  then have "unat (off8 m) = 8 * m" "unat (off8 n) = 8 * n"
    unfolding off8_def by (simp_all only: unat_of_nat) (simp_all add: take_bit_nat_eq_self)
  then show "off8 m = off8 n \<longleftrightarrow> m = n" by (metis mult_left_cancel zero_neq_numeral)
qed

lemma aligned_off8 [aligned_intros]: "aligned 3 (off8 k)" "even k \<Longrightarrow> aligned 4 (off8 k)"
proof -
  have "off8 k = push_bit 3 (of_nat k)" by (simp add: off8_def push_bit_eq_mult ac_simps)
  then show "aligned 3 (off8 k)" by (simp add: aligned_push_bit)
next
  assume "even k"
  then obtain j where "k = 2 * j" by blast
  then have "off8 k = push_bit 4 (of_nat j)" by (simp add: off8_def push_bit_eq_mult ac_simps)
  then show "aligned 4 (off8 k)" by (simp add: aligned_push_bit)
qed

definition words_from :: "u64 \<Rightarrow> nat \<Rightarrow> u64 set" where
  "words_from a n = (\<lambda>i. a + off8 i) ` {..<n}"

definition slot :: "u64 \<Rightarrow> nat \<Rightarrow> u64" where
  "slot sp i = sp - off8 (Suc i)"

lemma slot_inject: "i < 900 \<Longrightarrow> j < 900 \<Longrightarrow> slot sp i = slot sp j \<longleftrightarrow> i = j"
  unfolding slot_def using off8_inject [of "Suc i" "Suc j"] by auto

lemma frame_slot: "j < n \<Longrightarrow> sp - off8 n + off8 j = slot sp (n - Suc j)"
proof -
  assume "j < n"
  then have "off8 n = off8 j + off8 (Suc (n - Suc j))" by (simp only: off8_add [symmetric]) simp
  then show ?thesis by (simp add: slot_def)
qed

lemma slot_in_frame: "i < n \<Longrightarrow> slot sp i \<in> words_from (sp - off8 n) n"
  unfolding words_from_def using frame_slot [of "n - Suc i" n sp] by (intro image_eqI [of _ _ "n - Suc i"]) auto

lemma words_from_mono: "m \<le> n \<Longrightarrow> words_from a m \<subseteq> words_from a n"
  unfolding words_from_def by auto

lemma words_from_sub: "k + m \<le> n \<Longrightarrow> words_from (a + off8 k) m \<subseteq> words_from a n"
proof
  fix x assume le: "k + m \<le> n" and "x \<in> words_from (a + off8 k) m"
  then obtain i where i: "i < m" "x = a + off8 (k + i)" by (auto simp: words_from_def off8_add add.assoc)
  then show "x \<in> words_from a n" unfolding words_from_def using le by (intro image_eqI [of _ _ "k + i"]) auto
qed

section \<open>Blocks\<close>

lemma asm_then_simps [simp]: "asm_then (Inr x) f = f x" "asm_then (Inl e) f = Inl e"
  by (simp_all add: asm_then_def)

lemma exec_append: "exec alu (xs @ ys) s = asm_then (exec alu xs s) (exec alu ys)"
  by (induction xs arbitrary: s) (simp_all add: asm_then_def split: sum.splits)

lemma exec_seq: "exec alu xs s = Inr s1 \<Longrightarrow> exec alu ys s1 = r \<Longrightarrow> exec alu (xs @ ys) s = r"
  by (simp add: exec_append)

lemma set_gpr_simps [simp]:
  "gpr (set_gpr r v s) = (gpr s)(r := v)" "xmms (set_gpr r v s) = xmms s" "eflags (set_gpr r v s) = eflags s"
  "ram (set_gpr r v s) = ram s" "ip (set_gpr r v s) = ip s"
  by (simp_all add: set_gpr_def)

lemma push_aligned: "aligned 3 (gpr s RSP) \<Longrightarrow> push v s = Inr (set_gpr RSP (gpr s RSP - 8) (s\<lparr>ram := (ram s)(gpr s RSP - 8 := v)\<rparr>))"
  using aligned_diff [OF _ _ aligned_off8(1) [of 1]] by (simp add: push_def store_def Let_def off8_simps)

lemma pop_aligned: "aligned 3 (gpr s RSP) \<Longrightarrow> pop s = Inr (ram s (gpr s RSP), set_gpr RSP (gpr s RSP + 8) s)"
  by (simp add: pop_def load_def)

lemma exec_pushes:
  assumes "aligned 3 (gpr s RSP)" and "RSP \<notin> set rs" and "length rs < 900"
  obtains s' where "exec alu (map Push rs) s = Inr s'" and "gpr s' = (gpr s)(RSP := gpr s RSP - off8 (length rs))"
    and "xmms s' = xmms s" and "eflags s' = eflags s" and "ip s' = ip s"
    and "\<And>i. i < length rs \<Longrightarrow> ram s' (slot (gpr s RSP) i) = gpr s (rs ! i)"
    and "\<And>a. a \<notin> slot (gpr s RSP) ` {..<length rs} \<Longrightarrow> ram s' a = ram s a"
proof -
  let ?sp = "gpr s RSP"
  have "\<exists>s'. exec alu (map Push rs) s = Inr s' \<and> gpr s' = (gpr s)(RSP := ?sp - off8 (length rs))
      \<and> xmms s' = xmms s \<and> eflags s' = eflags s \<and> ip s' = ip s
      \<and> (\<forall>i < length rs. ram s' (slot ?sp i) = gpr s (rs ! i)) \<and> (\<forall>a. a \<notin> slot ?sp ` {..<length rs} \<longrightarrow> ram s' a = ram s a)"
    using assms(2,3)
  proof (induction rs rule: rev_induct)
    case (snoc r rs)
    let ?n = "length rs"
    from snoc obtain s1 where s1: "exec alu (map Push rs) s = Inr s1" "gpr s1 = (gpr s)(RSP := ?sp - off8 ?n)"
      "xmms s1 = xmms s" "eflags s1 = eflags s" "ip s1 = ip s"
      "\<forall>i < ?n. ram s1 (slot ?sp i) = gpr s (rs ! i)" "\<forall>a. a \<notin> slot ?sp ` {..<?n} \<longrightarrow> ram s1 a = ram s a" by force
    have al: "aligned 3 (gpr s1 RSP)" using assms(1) by (simp add: s1 aligned_intros)
    have sl: "gpr s1 RSP - 8 = slot ?sp ?n" by (simp add: s1 slot_def off8_simps)
    define s2 where "s2 = set_gpr RSP (slot ?sp ?n) (s1\<lparr>ram := (ram s1)(slot ?sp ?n := gpr s r)\<rparr>)"
    have "r \<noteq> RSP" using snoc.prems(1) by auto
    then have "exec alu (map Push (rs @ [r])) s = Inr s2"
      using push_aligned [OF al, of "gpr s r"] by (simp add: exec_append s1(1,2) s2_def sl [symmetric] s1(2))
    moreover have "gpr s2 = (gpr s)(RSP := ?sp - off8 (length (rs @ [r])))" by (simp add: s2_def s1 slot_def)
    moreover have "ram s2 (slot ?sp i) = gpr s ((rs @ [r]) ! i)" if "i < length (rs @ [r])" for i
      using that s1(6) slot_inject [of i ?n ?sp] snoc.prems(2) by (auto simp: s2_def nth_append less_Suc_eq)
    moreover have "ram s2 a = ram s a" if "a \<notin> slot ?sp ` {..<length (rs @ [r])}" for a
      using that s1(7) by (auto simp: s2_def lessThan_Suc)
    ultimately show ?case using s1 by (intro exI [of _ s2]) (simp add: s2_def)
  qed (simp add: off8_simps(1))
  then show ?thesis using that by blast
qed

lemma exec_pops:
  assumes "aligned 3 (gpr s RSP)" and "RSP \<notin> set rs" and "distinct rs"
    and "\<And>i. i < length rs \<Longrightarrow> ram s (gpr s RSP + off8 i) = f (rs ! i)"
  shows "exec alu (map Pop rs) s =
     Inr (s\<lparr>gpr := (\<lambda>r. if r \<in> set rs then f r else if r = RSP then gpr s RSP + off8 (length rs) else gpr s r)\<rparr>)"
  using assms
proof (induction rs arbitrary: s)
  case Nil
  have "(\<lambda>r. if r \<in> set [] then f r else if r = RSP then gpr s RSP + off8 (length []) else gpr s r) = gpr s"
    by (auto simp: off8_simps(1))
  then show ?case by (simp add: off8_simps(1) cong: if_cong)
next
  case (Cons r rs)
  define s1 where "s1 = set_gpr r (ram s (gpr s RSP)) (set_gpr RSP (gpr s RSP + 8) s)"
  have r: "r \<noteq> RSP" using Cons.prems(2) by auto
  have e: "exec1 alu (Pop r) s = Inr s1" using pop_aligned [OF Cons.prems(1)] by (simp add: s1_def)
  have sp: "gpr s1 RSP = gpr s RSP + 8" using r by (simp add: s1_def)
  have "exec alu (map Pop rs) s1 =
      Inr (s1\<lparr>gpr := (\<lambda>r. if r \<in> set rs then f r else if r = RSP then gpr s1 RSP + off8 (length rs) else gpr s1 r)\<rparr>)"
  proof (rule Cons.IH)
    show "aligned 3 (gpr s1 RSP)" using aligned_add [OF _ Cons.prems(1) aligned_off8(1) [of 1]] by (simp add: sp off8_simps)
    show "ram s1 (gpr s1 RSP + off8 i) = f (rs ! i)" if "i < length rs" for i
      using Cons.prems(4) [of "Suc i"] that unfolding sp by (simp add: s1_def off8_simps algebra_simps)
  qed (use Cons.prems in auto)
  moreover have "f r = ram s (gpr s RSP)" using Cons.prems(4) [of 0] by (simp add: off8_simps(1))
  ultimately show ?case
    using e r Cons.prems(3) by (auto simp: s1_def set_gpr_def off8_simps algebra_simps fun_eq_iff intro!: cpu_state.fold_congs)
qed

subsection \<open>The structure\<close>

text \<open>The index of the word of a register in the structure.\<close>

fun reg_index :: "reg \<Rightarrow> nat" where
  "reg_index RAX = 0" | "reg_index RBX = 1" | "reg_index RCX = 2" | "reg_index RDX = 3" | "reg_index RDI = 4"
| "reg_index RSI = 5" | "reg_index RBP = 6" | "reg_index R8 = 7" | "reg_index R9 = 8" | "reg_index R10 = 9"
| "reg_index R11 = 10" | "reg_index R12 = 11" | "reg_index R13 = 12" | "reg_index R14 = 13" | "reg_index R15 = 14"
| "reg_index RSP = 16"

lemma offsets:
  "reg_offset r = off8 (reg_index r)" "registers_rflags = off8 15" "registers_rip = off8 17"
  "i < 6 \<Longrightarrow> xmm_offset i = off8 18 + off8 (2 * i)" "i < 6 \<Longrightarrow> stack_xmm i = off8 (2 * i)"
proof -
  show "reg_offset r = off8 (reg_index r)" by (cases r) (simp_all add: off8_def)
  show "registers_rflags = off8 15" "registers_rip = off8 17" by (simp_all add: off8_def registers_rflags_def registers_rip_def)
  show "xmm_offset i = off8 18 + off8 (2 * i)" "stack_xmm i = off8 (2 * i)" if "i < 6"
    using that by (auto simp: off8_def less_Suc_eq numeral_eq_Suc)
qed

lemma reg_index_inject: "reg_index r = reg_index r' \<longleftrightarrow> r = r'"
  by (cases r; cases r'; simp)

lemma reg_index_bounds: "reg_index r < 17" "reg_index r \<noteq> 15" "reg_index r \<noteq> 17"
  by (cases r; simp)+

lemma field_inject: "i < 900 \<Longrightarrow> j < 900 \<Longrightarrow> p + off8 i = p + off8 j \<longleftrightarrow> i = j"
  using off8_inject [of i j] by simp

lemma in_words_from: "i < n \<Longrightarrow> p + off8 i \<in> words_from p n"
  by (auto simp: words_from_def)

lemma exec_stores:
  assumes "aligned 3 p" and "gpr s b = p"
  obtains s' where "exec alu (stores b rs) s = Inr s'" and "gpr s' = gpr s" and "xmms s' = xmms s" and "eflags s' = eflags s" and "ip s' = ip s"
    and "\<And>r. r \<in> set rs \<Longrightarrow> ram s' (p + off8 (reg_index r)) = gpr s r"
    and "\<And>a. a \<notin> (\<lambda>r. p + off8 (reg_index r)) ` set rs \<Longrightarrow> ram s' a = ram s a"
proof -
  have "\<exists>s'. exec alu (stores b rs) s = Inr s' \<and> gpr s' = gpr s \<and> xmms s' = xmms s \<and> eflags s' = eflags s \<and> ip s' = ip s
      \<and> (\<forall>r\<in>set rs. ram s' (p + off8 (reg_index r)) = gpr s r)
      \<and> (\<forall>a. a \<notin> (\<lambda>r. p + off8 (reg_index r)) ` set rs \<longrightarrow> ram s' a = ram s a)"
  proof (induction rs rule: rev_induct)
    case (snoc r rs)
    then obtain s1 where s1: "exec alu (stores b rs) s = Inr s1" "gpr s1 = gpr s" "xmms s1 = xmms s" "eflags s1 = eflags s" "ip s1 = ip s"
      "\<forall>r\<in>set rs. ram s1 (p + off8 (reg_index r)) = gpr s r" "\<forall>a. a \<notin> (\<lambda>r. p + off8 (reg_index r)) ` set rs \<longrightarrow> ram s1 a = ram s a"
      by blast
    define s2 where "s2 = s1\<lparr>ram := (ram s1)(p + off8 (reg_index r) := gpr s r)\<rparr>"
    have "aligned 3 (p + off8 (reg_index r))" using assms(1) by (simp add: aligned_intros)
    then have "exec alu (stores b (rs @ [r])) s = Inr s2"
      using s1(1,2) assms(2) by (simp add: stores_def exec_append store_def offsets s2_def)
    moreover have "ram s2 (p + off8 (reg_index q)) = gpr s q" if "q \<in> set (rs @ [r])" for q
      using that s1(6) reg_index_bounds [of q] reg_index_bounds [of r] by (auto simp: s2_def off8_inject reg_index_inject)
    moreover have "ram s2 a = ram s a" if "a \<notin> (\<lambda>r. p + off8 (reg_index r)) ` set (rs @ [r])" for a
      using that s1(7) by (auto simp: s2_def)
    ultimately show ?case using s1 by (intro exI [of _ s2]) (simp add: s2_def)
  qed (simp add: stores_def)
  then show ?thesis using that by blast
qed

lemma exec_loads:
  assumes "aligned 3 p" and "gpr s b = p" and "b \<notin> set rs"
  shows "exec alu (loads b rs) s = Inr (s\<lparr>gpr := (\<lambda>r. if r \<in> set rs then ram s (p + off8 (reg_index r)) else gpr s r)\<rparr>)"
  using assms(3)
proof (induction rs rule: rev_induct)
  case (snoc r rs)
  have "aligned 3 (p + off8 (reg_index r))" using assms(1) by (simp add: aligned_intros)
  with snoc assms(2) show ?case
    by (auto simp: loads_def exec_append load_def offsets set_gpr_def fun_eq_iff intro!: cpu_state.fold_congs)
qed (simp add: loads_def)

definition xmm_at :: "(u64 \<Rightarrow> u64) \<Rightarrow> u64 \<Rightarrow> nat \<Rightarrow> xmm" where
  "xmm_at w q i = \<lparr>xmm_low = w (q + off8 (2 * i)), xmm_high = w (q + off8 (2 * i + 1))\<rparr>"

lemma exec_xmm_stores:
  assumes "aligned 4 q" and "\<And>i. i \<in> set is \<Longrightarrow> i < 6 \<and> gpr s b + off i = q + off8 (2 * i)"
  obtains s' where "exec alu (xmm_stores b off is) s = Inr s'" and "gpr s' = gpr s" and "xmms s' = xmms s" and "eflags s' = eflags s" and "ip s' = ip s"
    and "\<And>i. i \<in> set is \<Longrightarrow> xmm_at (ram s') q i = xmms s i" and "\<And>a. a \<notin> words_from q 12 \<Longrightarrow> ram s' a = ram s a"
proof -
  have "\<exists>s'. exec alu (xmm_stores b off is) s = Inr s' \<and> gpr s' = gpr s \<and> xmms s' = xmms s \<and> eflags s' = eflags s \<and> ip s' = ip s
      \<and> (\<forall>i\<in>set is. xmm_at (ram s') q i = xmms s i) \<and> (\<forall>a. a \<notin> words_from q 12 \<longrightarrow> ram s' a = ram s a)"
    using assms(2)
  proof (induction "is" rule: rev_induct)
    case (snoc i "is")
    then have "\<exists>s'. exec alu (xmm_stores b off is) s = Inr s' \<and> gpr s' = gpr s \<and> xmms s' = xmms s \<and> eflags s' = eflags s \<and> ip s' = ip s
      \<and> (\<forall>i\<in>set is. xmm_at (ram s') q i = xmms s i) \<and> (\<forall>a. a \<notin> words_from q 12 \<longrightarrow> ram s' a = ram s a)" by simp
    then obtain s1 where s1: "exec alu (xmm_stores b off is) s = Inr s1" "gpr s1 = gpr s" "xmms s1 = xmms s" "eflags s1 = eflags s" "ip s1 = ip s"
      "\<forall>i\<in>set is. xmm_at (ram s1) q i = xmms s i" "\<forall>a. a \<notin> words_from q 12 \<longrightarrow> ram s1 a = ram s a" by blast
    have i: "i < 6" "gpr s b + off i = q + off8 (2 * i)" using snoc.prems [of i] by simp_all
    have less: "j < 6" if "j \<in> set is" for j using snoc.prems [of j] that by simp
    define s2 where "s2 = s1\<lparr>ram := (ram s1)(q + off8 (2 * i) := xmm_low (xmms s i), q + off8 (2 * i + 1) := xmm_high (xmms s i))\<rparr>"
    have "aligned 4 (q + off8 (2 * i))" using assms(1) by (simp add: aligned_intros)
    then have "exec alu (xmm_stores b off (is @ [i])) s = Inr s2"
      using s1(1-3) i(2) by (simp add: xmm_stores_def exec_append s2_def Let_def off8_simps(4) add.assoc)
    moreover have "xmm_at (ram s2) q j = xmms s j" if "j \<in> set (is @ [i])" for j
    proof -
      have "j < 6" using that i(1) less by auto
      then show ?thesis using that s1(6) i(1) by (cases "j = i") (auto simp: s2_def xmm_at_def off8_inject)
    qed
    moreover have "ram s2 a = ram s a" if "a \<notin> words_from q 12" for a
      using that s1(7) i(1) in_words_from [of "2 * i" 12 q] in_words_from [of "2 * i + 1" 12 q] by (auto simp: s2_def)
    moreover have "gpr s2 = gpr s" "xmms s2 = xmms s" "eflags s2 = eflags s" "ip s2 = ip s" by (simp_all add: s2_def s1)
    ultimately show ?case by blast
  qed (simp add: xmm_stores_def)
  then show ?thesis using that by blast
qed

lemma exec_xmm_loads:
  assumes "aligned 4 q" and "\<And>i. i \<in> set is \<Longrightarrow> i < 6 \<and> gpr s b + off i = q + off8 (2 * i)"
  shows "exec alu (xmm_loads b off is) s = Inr (s\<lparr>xmms := (\<lambda>i. if i \<in> set is then xmm_at (ram s) q i else xmms s i)\<rparr>)"
  using assms(2)
proof (induction "is" rule: rev_induct)
  case (snoc i "is")
  then have i: "gpr s b + off i = q + off8 (2 * i)" by simp
  have "aligned 4 (q + off8 (2 * i))" using assms(1) by (simp add: aligned_intros)
  moreover have "exec alu (xmm_loads b off is) s = Inr (s\<lparr>xmms := (\<lambda>i. if i \<in> set is then xmm_at (ram s) q i else xmms s i)\<rparr>)"
    using snoc by simp
  ultimately show ?case using i
    by (auto simp: xmm_loads_def exec_append Let_def xmm_at_def off8_simps(4) add.assoc fun_eq_iff intro!: cpu_state.fold_congs)
qed (simp add: xmm_loads_def)

text \<open>The structure \<open>Registers\<close> that lies in memory at \<open>p\<close>.\<close>

definition make_registers :: "(reg \<Rightarrow> u64) \<Rightarrow> (nat \<Rightarrow> xmm) \<Rightarrow> u64 \<Rightarrow> u64 \<Rightarrow> registers" where
  "make_registers f x fl pc =
     \<lparr>rax = f RAX, rbx = f RBX, rcx = f RCX, rdx = f RDX, rdi = f RDI, rsi = f RSI, rbp = f RBP, r8 = f R8, r9 = f R9,
      r10 = f R10, r11 = f R11, r12 = f R12, r13 = f R13, r14 = f R14, r15 = f R15, rflags = fl, rsp = f RSP, rip = pc,
      xmm0 = x 0, xmm1 = x 1, xmm2 = x 2, xmm3 = x 3, xmm4 = x 4, xmm5 = x 5\<rparr>"

definition registers_at :: "(u64 \<Rightarrow> u64) \<Rightarrow> u64 \<Rightarrow> registers" where
  "registers_at w p = make_registers (\<lambda>r. w (p + off8 (reg_index r))) (xmm_at w (p + off8 18)) (w (p + off8 15)) (w (p + off8 17))"

lemma make_registers_eqI:
  assumes "\<And>r. f r = f' r" and "\<And>i. i < 6 \<Longrightarrow> x i = x' i" and "fl = fl'" and "pc = pc'"
  shows "make_registers f x fl pc = make_registers f' x' fl' pc'"
  using assms by (simp add: make_registers_def)

lemma make_registers_eqD:
  assumes "make_registers f x fl pc = make_registers f' x' fl' pc'"
  shows "f r = f' r" and "i < 6 \<Longrightarrow> x i = x' i" and "fl = fl'" and "pc = pc'"
proof -
  show "f r = f' r" using assms by (cases r) (simp_all add: make_registers_def)
  show "x i = x' i" if "i < 6" using assms that by (auto simp: make_registers_def less_Suc_eq numeral_eq_Suc)
qed (use assms in \<open>simp_all add: make_registers_def\<close>)

section \<open>Capturing and restoring\<close>

lemma not_in_xmm_area: "k < 18 \<Longrightarrow> p + off8 k \<notin> words_from (p + off8 18) 12"
  by (auto simp: words_from_def add.assoc off8_add [symmetric] off8_inject)

lemma xmm_at_field: "xmm_at w (p + off8 18) i = \<lparr>xmm_low = w (p + off8 (18 + 2 * i)), xmm_high = w (p + off8 (19 + 2 * i))\<rparr>"
  by (simp add: xmm_at_def off8_def add.assoc)

lemma xmm_area: "words_from (p + off8 18) 12 \<subseteq> words_from p 30"
  by (rule words_from_sub) simp

lemma reg_area: "(\<lambda>r. p + off8 (reg_index r)) ` R \<subseteq> words_from p 30"
proof
  fix a assume "a \<in> (\<lambda>r. p + off8 (reg_index r)) ` R"
  then obtain r where "a = p + off8 (reg_index r)" by blast
  then show "a \<in> words_from p 30" using in_words_from [of "reg_index r" 30 p] reg_index_bounds(1) [of r] by simp
qed

lemma not_field: "a \<notin> words_from p n \<Longrightarrow> k < n \<Longrightarrow> a \<noteq> p + off8 k"
  by (auto simp: words_from_def)

lemma registers_at_cong: "(\<And>a. a \<in> words_from p 30 \<Longrightarrow> w a = w' a) \<Longrightarrow> registers_at w p = registers_at w' p"
proof -
  assume "\<And>a. a \<in> words_from p 30 \<Longrightarrow> w a = w' a"
  then have f: "w (p + off8 k) = w' (p + off8 k)" if "k < 30" for k using in_words_from [OF that, of p] by blast
  show ?thesis unfolding registers_at_def
  proof (rule make_registers_eqI)
    show "w (p + off8 (reg_index r)) = w' (p + off8 (reg_index r))" for r using f [of "reg_index r"] reg_index_bounds(1) [of r] by simp
    show "xmm_at w (p + off8 18) i = xmm_at w' (p + off8 18) i" if "i < 6" for i
      using f [of "18 + 2 * i"] f [of "19 + 2 * i"] that by (simp add: xmm_at_field)
  qed (simp_all add: f)
qed

lemma xmm_base: "i < 6 \<Longrightarrow> p + xmm_offset i = p + off8 18 + off8 (2 * i)"
  using offsets(4) [of i] by (simp add: add.assoc)

lemma aligned_fields: "aligned 4 p \<Longrightarrow> aligned 3 p" "aligned 4 p \<Longrightarrow> aligned 4 (p + off8 18)" "aligned 4 p \<Longrightarrow> aligned 3 (p + off8 k)"
  using aligned_4_3 by (simp_all add: aligned_intros)

lemma aligned_step: "aligned 3 a \<Longrightarrow> aligned 3 (a - 8)" "aligned 3 a \<Longrightarrow> aligned 3 (a + 8)"
  using aligned_intros(1,2) [OF _ _ aligned_off8(1) [of 1]] by (simp_all add: off8_simps)

lemma capture_tail:
  assumes p: "gpr s RCX = p" "aligned 4 p" and sp: "gpr s RSP = sp" "aligned 3 sp" and sep: "sp \<notin> words_from p 30" "sp - 8 \<notin> words_from p 30"
  obtains s' where "exec alu [Pushf, Pop RAX, Store RCX registers_rflags RAX, Mov RAX RSP, AddImm RAX 8, Store RCX (reg_offset RSP) RAX,
        Load RAX RSP 0, Store RCX registers_rip RAX, Ret] s = Inr s'"
    and "gpr s' = (gpr s)(RAX := ram s sp, RSP := sp + 8)" and "xmms s' = xmms s" and "ip s' = ram s sp"
    and "ram s' = (ram s)(sp - 8 := eflags s AND PUSHED_FLAGS, p + off8 15 := eflags s AND PUSHED_FLAGS, p + off8 16 := sp + 8, p + off8 17 := ram s sp)"
proof -
  have al: "aligned 3 (p + off8 15)" "aligned 3 (p + off8 16)" "aligned 3 (p + off8 17)" "aligned 3 (sp - 8)"
    using p(2) sp(2) by (simp_all add: aligned_fields aligned_step)
  have ne: "sp \<noteq> p + off8 15" "sp \<noteq> p + off8 16" "sp \<noteq> p + off8 17" "sp - 8 \<noteq> p + off8 15" "sp - 8 \<noteq> p + off8 16" "sp - 8 \<noteq> p + off8 17" "sp \<noteq> sp - 8"
    using not_field [OF sep(1)] not_field [OF sep(2)] by simp_all
  have "\<exists>s'. exec alu [Pushf, Pop RAX, Store RCX registers_rflags RAX, Mov RAX RSP, AddImm RAX 8, Store RCX (reg_offset RSP) RAX,
        Load RAX RSP 0, Store RCX registers_rip RAX, Ret] s = Inr s' \<and> gpr s' = (gpr s)(RAX := ram s sp, RSP := sp + 8)
      \<and> xmms s' = xmms s \<and> ip s' = ram s sp
      \<and> ram s' = (ram s)(sp - 8 := eflags s AND PUSHED_FLAGS, p + off8 15 := eflags s AND PUSHED_FLAGS, p + off8 16 := sp + 8, p + off8 17 := ram s sp)"
    by (simp add: offsets(1-3) push_aligned pop_aligned store_def load_def p(1) sp al ne set_gpr_def)
  then show ?thesis using that by blast
qed

lemma capture_registers_effect:
  assumes p: "gpr s RCX = p" "aligned 4 p" and sp: "gpr s RSP = sp" "aligned 3 sp" and sep: "sp \<notin> words_from p 30" "sp - 8 \<notin> words_from p 30"
  obtains s' where "exec alu capture_registers s = Inr s'"
    and "registers_at (ram s') p = make_registers ((gpr s)(RSP := sp + 8)) (xmms s) (eflags s AND PUSHED_FLAGS) (ram s sp)"
    and "gpr s' = (gpr s)(RAX := ram s sp, RSP := sp + 8)" and "xmms s' = xmms s" and "ip s' = ram s sp"
    and "\<And>a. a \<notin> words_from p 30 \<Longrightarrow> a \<noteq> sp - 8 \<Longrightarrow> ram s' a = ram s a"
proof -
  let ?rs = "[RAX, RBX, RCX, RDX, RSI, RDI, RBP, R8, R9, R10, R11, R12, R13, R14, R15]" and ?is = "[0, 1, 2, 3, 4, 5] :: nat list"
  have rs: "r \<in> set ?rs \<longleftrightarrow> r \<noteq> RSP" for r by (cases r) simp_all
  obtain s1 where s1: "exec alu (stores RCX ?rs) s = Inr s1" "gpr s1 = gpr s" "xmms s1 = xmms s" "eflags s1 = eflags s"
    and r1: "\<And>r. r \<noteq> RSP \<Longrightarrow> ram s1 (p + off8 (reg_index r)) = gpr s r" and o1: "\<And>a. a \<notin> words_from p 30 \<Longrightarrow> ram s1 a = ram s a"
  proof (rule exec_stores [OF aligned_fields(1) [OF p(2)] p(1), of alu ?rs])
    fix s' assume s': "exec alu (stores RCX ?rs) s = Inr s'" "gpr s' = gpr s" "xmms s' = xmms s" "eflags s' = eflags s"
      and r: "\<And>r. r \<in> set ?rs \<Longrightarrow> ram s' (p + off8 (reg_index r)) = gpr s r"
      and o: "\<And>a. a \<notin> (\<lambda>r. p + off8 (reg_index r)) ` set ?rs \<Longrightarrow> ram s' a = ram s a"
    show thesis
    proof (rule that [OF s'])
      show "ram s' (p + off8 (reg_index r)) = gpr s r" if "r \<noteq> RSP" for r using r [of r] that rs by blast
      show "ram s' a = ram s a" if "a \<notin> words_from p 30" for a using o [of a] that reg_area [of p "set ?rs"] by blast
    qed
  qed
  obtain s2 where s2: "exec alu (xmm_stores RCX xmm_offset ?is) s1 = Inr s2" "gpr s2 = gpr s1" "xmms s2 = xmms s1" "eflags s2 = eflags s1"
    and x2: "\<And>i. i \<in> set ?is \<Longrightarrow> xmm_at (ram s2) (p + off8 18) i = xmms s1 i" and o2: "\<And>a. a \<notin> words_from (p + off8 18) 12 \<Longrightarrow> ram s2 a = ram s1 a"
    by (rule exec_xmm_stores [OF aligned_fields(2) [OF p(2)], of ?is s1 RCX xmm_offset alu])
      (use p(1) xmm_base s1(2) in \<open>auto simp del: xmm_offset.simps\<close>)
  have c: "gpr s2 RCX = p" "gpr s2 RSP = sp" by (simp_all add: s1 s2 p sp)
  obtain s3 where s3: "exec alu [Pushf, Pop RAX, Store RCX registers_rflags RAX, Mov RAX RSP, AddImm RAX 8, Store RCX (reg_offset RSP) RAX,
        Load RAX RSP 0, Store RCX registers_rip RAX, Ret] s2 = Inr s3"
    "gpr s3 = (gpr s2)(RAX := ram s2 sp, RSP := sp + 8)" "xmms s3 = xmms s2" "ip s3 = ram s2 sp"
    "ram s3 = (ram s2)(sp - 8 := eflags s2 AND PUSHED_FLAGS, p + off8 15 := eflags s2 AND PUSHED_FLAGS, p + off8 16 := sp + 8, p + off8 17 := ram s2 sp)"
    by (rule capture_tail [OF c(1) p(2) c(2) sp(2) sep])
  have out: "ram s2 a = ram s a" if "a \<notin> words_from p 30" for a
    using o1 [OF that] o2 [of a] that xmm_area [of p] by auto
  have field: "ram s3 (p + off8 k) = ram s2 (p + off8 k)" if "k < 30" "k \<notin> {15, 16, 17}" for k
    using that not_field [OF sep(2) that(1)] by (auto simp: s3(5) off8_inject)
  show ?thesis
  proof (rule that [of s3])
    show "exec alu capture_registers s = Inr s3" by (simp only: capture_registers_def exec_append s1(1) s2(1) s3(1) asm_then_simps)
    show "registers_at (ram s3) p = make_registers ((gpr s)(RSP := sp + 8)) (xmms s) (eflags s AND PUSHED_FLAGS) (ram s sp)"
      unfolding registers_at_def
    proof (rule make_registers_eqI)
      show "ram s3 (p + off8 (reg_index r)) = ((gpr s)(RSP := sp + 8)) r" for r
      proof (cases "r = RSP")
        case False
        then have "reg_index r < 15" using reg_index_bounds [of r] reg_index_inject [of r RSP] by (cases r) auto
        then show ?thesis using False field [of "reg_index r"] o2 [OF not_in_xmm_area] r1 by simp
      qed (simp add: s3(5) off8_inject)
      show "xmm_at (ram s3) (p + off8 18) i = xmms s i" if "i < 6" for i
      proof -
        have "xmm_at (ram s3) (p + off8 18) i = xmm_at (ram s2) (p + off8 18) i"
          using field [of "18 + 2 * i"] field [of "19 + 2 * i"] that by (simp add: xmm_at_field)
        then show ?thesis using x2 [of i] that s1(3) by (auto simp: less_Suc_eq numeral_eq_Suc)
      qed
    qed (simp_all add: s3(5) off8_inject s2 s1 out [OF sep(1)])
    show "gpr s3 = (gpr s)(RAX := ram s sp, RSP := sp + 8)" by (simp add: s3 s2 s1 out [OF sep(1)])
    show "xmms s3 = xmms s" "ip s3 = ram s sp" by (simp_all add: s3 s2 s1 out [OF sep(1)])
    show "ram s3 a = ram s a" if "a \<notin> words_from p 30" "a \<noteq> sp - 8" for a
      using that not_field [OF that(1)] out by (simp add: s3(5))
  qed
qed

lemma frame_6:
  assumes "words_from (sp - 48) 6 \<inter> words_from p 30 = {}"
  shows "sp - 8 \<notin> words_from p 30" "sp - 16 \<notin> words_from p 30" "sp - 24 \<notin> words_from p 30" "sp - 32 \<notin> words_from p 30"
    "sp - 40 \<notin> words_from p 30" "sp - 48 \<notin> words_from p 30"
proof -
  have "sp - 48 + off8 k \<notin> words_from p 30" if "k < 6" for k
    using assms in_words_from [OF that, of "sp - 48"] by blast
  from this [of 5] this [of 4] this [of 3] this [of 2] this [of 1] this [of 0]
  show "sp - 8 \<notin> words_from p 30" "sp - 16 \<notin> words_from p 30" "sp - 24 \<notin> words_from p 30" "sp - 32 \<notin> words_from p 30"
    "sp - 40 \<notin> words_from p 30" "sp - 48 \<notin> words_from p 30"
    by (simp_all add: off8_def)
qed

lemma aligned_frame: "aligned 3 sp \<Longrightarrow> aligned 3 (sp - 8) \<and> aligned 3 (sp - 16) \<and> aligned 3 (sp - 24) \<and> aligned 3 (sp - 32) \<and> aligned 3 (sp - 40) \<and> aligned 3 (sp - 48)"
  using aligned_intros(2) [OF _ _ aligned_off8(1), of sp 1] aligned_intros(2) [OF _ _ aligned_off8(1), of sp 2] aligned_intros(2) [OF _ _ aligned_off8(1), of sp 3]
    aligned_intros(2) [OF _ _ aligned_off8(1), of sp 4] aligned_intros(2) [OF _ _ aligned_off8(1), of sp 5] aligned_intros(2) [OF _ _ aligned_off8(1), of sp 6]
  by (simp add: off8_def)

lemma restore_stash:
  assumes p: "gpr s RCX = p" "aligned 4 p" and sp: "gpr s RSP = sp" "aligned 3 sp" and sep: "words_from (sp - 48) 6 \<inter> words_from p 30 = {}"
  obtains s1 where "exec alu [Push R11, Mov R10 RCX, PushMem R10 (reg_offset RSP), PushMem R10 registers_rip, PushMem R10 (reg_offset RAX),
        PushMem R10 (reg_offset R11)] s = Inr s1"
    and "gpr s1 = (gpr s)(R10 := p, RSP := sp - 40)" and "eflags s1 = eflags s"
    and "ram s1 = (ram s)(sp - 8 := gpr s R11, sp - 16 := ram s (p + off8 16), sp - 24 := ram s (p + off8 17), sp - 32 := ram s (p + off8 0), sp - 40 := ram s (p + off8 10))"
proof -
  have al: "aligned 3 (p + off8 k)" for k using p(2) by (simp add: aligned_fields)
  note ne = frame_6 [OF sep, THEN not_field]
  have ne': "p + off8 k \<noteq> sp - 8" "p + off8 k \<noteq> sp - 16" "p + off8 k \<noteq> sp - 24" "p + off8 k \<noteq> sp - 32" if "k < 30" for k
    using ne [OF that] by metis+
  have "\<exists>s1. exec alu [Push R11, Mov R10 RCX, PushMem R10 (reg_offset RSP), PushMem R10 registers_rip, PushMem R10 (reg_offset RAX),
        PushMem R10 (reg_offset R11)] s = Inr s1 \<and> gpr s1 = (gpr s)(R10 := p, RSP := sp - 40) \<and> eflags s1 = eflags s
      \<and> ram s1 = (ram s)(sp - 8 := gpr s R11, sp - 16 := ram s (p + off8 16), sp - 24 := ram s (p + off8 17), sp - 32 := ram s (p + off8 0), sp - 40 := ram s (p + off8 10))"
    using aligned_frame [OF sp(2)] by (simp add: offsets(1-3) push_aligned load_def p(1) sp al ne' set_gpr_def del: reg_offset.simps)
  then show ?thesis using that by blast
qed

lemma restore_flags:
  assumes p: "gpr s R10 = p" "aligned 4 p" and sp: "gpr s RSP = sp - 40" "aligned 3 sp" and sep: "words_from (sp - 48) 6 \<inter> words_from p 30 = {}"
  obtains s1 where "exec alu [Load RAX R10 registers_rflags, Push RAX, Popf, Pop R11, Pop RAX, Pop R8, Pop R9] s = Inr s1"
    and "gpr s1 = (gpr s)(R11 := ram s (sp - 40), RAX := ram s (sp - 32), R8 := ram s (sp - 24), R9 := ram s (sp - 16), RSP := sp - 8)"
    and "eflags s1 = popped (ram s (p + off8 15)) (eflags s)" and "xmms s1 = xmms s" and "ram s1 = (ram s)(sp - 48 := ram s (p + off8 15))"
proof -
  have al: "aligned 3 (p + off8 15)" using p(2) by (simp add: aligned_fields)
  have "\<exists>s1. exec alu [Load RAX R10 registers_rflags, Push RAX, Popf, Pop R11, Pop RAX, Pop R8, Pop R9] s = Inr s1
      \<and> gpr s1 = (gpr s)(R11 := ram s (sp - 40), RAX := ram s (sp - 32), R8 := ram s (sp - 24), R9 := ram s (sp - 16), RSP := sp - 8)
      \<and> eflags s1 = popped (ram s (p + off8 15)) (eflags s) \<and> xmms s1 = xmms s \<and> ram s1 = (ram s)(sp - 48 := ram s (p + off8 15))"
    using aligned_frame [OF sp(2)] by (simp add: offsets(1-3) push_aligned pop_aligned load_def p(1) sp al set_gpr_def fun_upd_twist)
  then show ?thesis using that by blast
qed

text \<open>The first part reads all fields but those of R8, R9 and R10, which still hold RIP, RSP and the structure.\<close>

definition restore_first :: "instr list" where
  "restore_first =
     [Push R11, Mov R10 RCX, PushMem R10 (reg_offset RSP), PushMem R10 registers_rip, PushMem R10 (reg_offset RAX), PushMem R10 (reg_offset R11)]
     @ xmm_loads R10 xmm_offset [0, 1, 2, 3, 4, 5] @ loads R10 [R15, R14, R13, R12, RDI, RSI, RBP, RBX]
     @ [Load RAX R10 registers_rflags, Push RAX, Popf, Pop R11, Pop RAX, Pop R8, Pop R9] @ loads R10 [RCX, RDX]"

definition restore_last :: "instr list" where
  "restore_last = [Lea RSP R9 (- 8), Store RSP 0 R8] @ loads R10 [R8, R9] @ [Load R10 R10 (reg_offset R10), Ret]"

lemma restore_registers_parts: "restore_registers = restore_first @ restore_last"
  by (simp add: restore_registers_def restore_first_def restore_last_def loads_def)

lemma restore_first_effect:
  assumes p: "gpr s RCX = p" "aligned 4 p" and sp: "gpr s RSP = sp" "aligned 3 sp" and sep: "words_from (sp - 48) 6 \<inter> words_from p 30 = {}"
    and at: "registers_at (ram s) p = make_registers f x fl pc"
  obtains s5 where "exec alu restore_first s = Inr s5" and "gpr s5 R10 = p" and "gpr s5 R8 = pc" and "gpr s5 R9 = f RSP"
    and "\<And>r. r \<notin> {R8, R9, R10, RSP} \<Longrightarrow> gpr s5 r = f r" and "\<And>i. i < 6 \<Longrightarrow> xmms s5 i = x i" and "eflags s5 = popped fl (eflags s)"
    and "\<And>a. a \<notin> words_from (sp - 48) 6 \<Longrightarrow> ram s5 a = ram s a"
proof -
  note at' = make_registers_eqD [OF at [unfolded registers_at_def]]
  have word: "ram s (p + off8 (reg_index r)) = f r" for r by (rule at'(1))
  note ne = frame_6 [OF sep, THEN not_field]
  obtain s1 where s1: "exec alu [Push R11, Mov R10 RCX, PushMem R10 (reg_offset RSP), PushMem R10 registers_rip, PushMem R10 (reg_offset RAX),
        PushMem R10 (reg_offset R11)] s = Inr s1" "gpr s1 = (gpr s)(R10 := p, RSP := sp - 40)" "eflags s1 = eflags s"
    "ram s1 = (ram s)(sp - 8 := gpr s R11, sp - 16 := ram s (p + off8 16), sp - 24 := ram s (p + off8 17), sp - 32 := ram s (p + off8 0), sp - 40 := ram s (p + off8 10))"
    by (rule restore_stash [OF p sp sep])
  have f1: "ram s1 (p + off8 k) = ram s (p + off8 k)" if "k < 30" for k using ne [OF that, symmetric] by (simp add: s1(4))
  define s2 where "s2 = s1\<lparr>xmms := (\<lambda>i. if i \<in> set [0, 1, 2, 3, 4, 5] then xmm_at (ram s1) (p + off8 18) i else xmms s1 i)\<rparr>"
  have e2: "exec alu (xmm_loads R10 xmm_offset [0, 1, 2, 3, 4, 5]) s1 = Inr s2" unfolding s2_def
    by (rule exec_xmm_loads) (use aligned_fields(2) [OF p(2)] xmm_base in \<open>auto simp: s1(2) simp del: xmm_offset.simps\<close>)
  define s3 where "s3 = s2\<lparr>gpr := (\<lambda>r. if r \<in> set [R15, R14, R13, R12, RDI, RSI, RBP, RBX] then ram s2 (p + off8 (reg_index r)) else gpr s2 r)\<rparr>"
  have e3: "exec alu (loads R10 [R15, R14, R13, R12, RDI, RSI, RBP, RBX]) s2 = Inr s3" unfolding s3_def
    by (rule exec_loads [OF aligned_fields(1) [OF p(2)]]) (simp_all add: s2_def s1(2))
  have c3: "gpr s3 R10 = p" "gpr s3 RSP = sp - 40" by (simp_all add: s3_def s2_def s1(2))
  obtain s4 where s4: "exec alu [Load RAX R10 registers_rflags, Push RAX, Popf, Pop R11, Pop RAX, Pop R8, Pop R9] s3 = Inr s4"
    "gpr s4 = (gpr s3)(R11 := ram s3 (sp - 40), RAX := ram s3 (sp - 32), R8 := ram s3 (sp - 24), R9 := ram s3 (sp - 16), RSP := sp - 8)"
    "eflags s4 = popped (ram s3 (p + off8 15)) (eflags s3)" "xmms s4 = xmms s3" "ram s4 = (ram s3)(sp - 48 := ram s3 (p + off8 15))"
    by (rule restore_flags [OF c3(1) p(2) c3(2) sp(2) sep])
  have r3: "ram s3 = ram s1" by (simp add: s3_def s2_def)
  have f4: "ram s4 (p + off8 k) = ram s (p + off8 k)" if "k < 30" for k using ne(6) [OF that, symmetric] f1 [OF that] by (simp add: s4(5) r3)
  define s5 where "s5 = s4\<lparr>gpr := (\<lambda>r. if r \<in> set [RCX, RDX] then ram s4 (p + off8 (reg_index r)) else gpr s4 r)\<rparr>"
  have e5: "exec alu (loads R10 [RCX, RDX]) s4 = Inr s5" unfolding s5_def
    by (rule exec_loads [OF aligned_fields(1) [OF p(2)]]) (simp_all add: s4(2) s3_def s2_def s1(2))
  show ?thesis
  proof (rule that [of s5])
    show "exec alu restore_first s = Inr s5" by (simp only: restore_first_def exec_append s1(1) e2 e3 s4(1) e5 asm_then_simps)
    show "gpr s5 R10 = p" by (simp add: s5_def s4(2) c3)
    show "gpr s5 R8 = pc" "gpr s5 R9 = f RSP" using word [of RSP] at'(4) by (simp_all add: s5_def s4(2) r3 s1(4))
    show "gpr s5 r = f r" if "r \<notin> {R8, R9, R10, RSP}" for r
      using that word [of r] f4 [of "reg_index r"] f1 [of "reg_index r"] by (cases r) (simp_all add: s5_def s4(2) r3 s3_def s2_def s1)
    show "xmms s5 i = x i" if "i < 6" for i
    proof -
      have "xmms s5 i = xmm_at (ram s1) (p + off8 18) i" using that by (auto simp: s5_def s4(4) s3_def s2_def less_Suc_eq numeral_eq_Suc)
      also have "\<dots> = xmm_at (ram s) (p + off8 18) i" using f1 [of "18 + 2 * i"] f1 [of "19 + 2 * i"] that by (simp add: xmm_at_field)
      finally show ?thesis using at'(2) [OF that] by simp
    qed
    show "eflags s5 = popped fl (eflags s)" using at'(3) f1 [of 15] by (simp add: s5_def s4(3) s3_def s2_def s1(3))
    show "ram s5 b = ram s b" if "b \<notin> words_from (sp - 48) 6" for b
      using not_field [OF that, of 5] not_field [OF that, of 4] not_field [OF that, of 3] not_field [OF that, of 2]
        not_field [OF that, of 1] not_field [OF that, of 0] by (simp add: s5_def s4(5) r3 s1(4) off8_def)
  qed
qed

lemma restore_last_effect:
  assumes r: "gpr s R10 = p" "gpr s R8 = pc" "gpr s R9 = f RSP" "\<And>r. r \<notin> {R8, R9, R10, RSP} \<Longrightarrow> gpr s r = f r" and p: "aligned 4 p"
    and word: "\<And>r. ram s (p + off8 (reg_index r)) = f r" and new: "aligned 3 (f RSP)" "f RSP - 8 \<notin> words_from p 30"
  shows "exec alu restore_last s = Inr (s\<lparr>gpr := f, ram := (ram s)(f RSP - 8 := pc), ip := pc\<rparr>)"
proof -
  define a where "a = f RSP - 8"
  have al: "aligned 3 a" using aligned_step(1) [OF new(1)] by (simp add: a_def)
  define s6 where "s6 = s\<lparr>gpr := (gpr s)(RSP := a), ram := (ram s)(a := pc)\<rparr>"
  have e6: "exec alu [Lea RSP R9 (- 8), Store RSP 0 R8] s = Inr s6" by (simp add: s6_def store_def set_gpr_def r(2,3) a_def al [unfolded a_def])
  have w6: "ram s6 (p + off8 (reg_index q)) = f q" for q
    using not_field [OF new(2), of "reg_index q"] reg_index_bounds(1) [of q] word [of q] by (simp add: s6_def a_def)
  define s7 where "s7 = s6\<lparr>gpr := (\<lambda>r. if r \<in> set [R8, R9] then ram s6 (p + off8 (reg_index r)) else gpr s6 r)\<rparr>"
  have p6: "gpr s6 R10 = p" by (simp add: s6_def r(1))
  have e7: "exec alu (loads R10 [R8, R9]) s6 = Inr s7" unfolding s7_def by (rule exec_loads [OF aligned_fields(1) [OF p] p6]) simp
  have top: "ram s7 a = pc" "gpr s7 RSP = a" by (simp_all add: s7_def s6_def)
  have e8: "exec alu [Load R10 R10 (reg_offset R10), Ret] s7 = Inr (s7\<lparr>gpr := (gpr s7)(R10 := f R10, RSP := f RSP), ip := pc\<rparr>)"
    using w6 [of R10] al aligned_fields(3) [OF p, of 9] p6 top
    by (simp add: load_def pop_aligned set_gpr_def offsets(1) s7_def a_def fun_upd_twist del: reg_offset.simps)
  have "((gpr s7)(R10 := f R10, RSP := f RSP)) q = f q" for q
    using w6 [of R8] w6 [of R9] r(4) [of q] by (cases q) (simp_all add: s7_def s6_def)
  then have "s7\<lparr>gpr := (gpr s7)(R10 := f R10, RSP := f RSP), ip := pc\<rparr> = s\<lparr>gpr := f, ram := (ram s)(a := pc), ip := pc\<rparr>"
    by (intro cpu_state.equality) (auto simp: s7_def s6_def)
  then show ?thesis by (simp only: restore_last_def exec_append e6 e7 e8 asm_then_simps a_def)
qed

lemma restore_registers_effect:
  assumes p: "gpr s RCX = p" "aligned 4 p" and sp: "gpr s RSP = sp" "aligned 3 sp" and sep: "words_from (sp - 48) 6 \<inter> words_from p 30 = {}"
    and at: "registers_at (ram s) p = make_registers f x fl pc" and new: "aligned 3 (f RSP)" "f RSP - 8 \<notin> words_from p 30"
  obtains s' where "exec alu restore_registers s = Inr s'" and "gpr s' = f" and "\<And>i. i < 6 \<Longrightarrow> xmms s' i = x i"
    and "eflags s' = popped fl (eflags s)" and "ip s' = pc"
    and "\<And>a. a \<notin> words_from (sp - 48) 6 \<Longrightarrow> a \<noteq> f RSP - 8 \<Longrightarrow> ram s' a = ram s a"
proof (rule restore_first_effect [OF p sp sep at, of alu])
  fix s5 assume e: "exec alu restore_first s = Inr s5" and r: "gpr s5 R10 = p" "gpr s5 R8 = pc" "gpr s5 R9 = f RSP"
      "\<And>r. r \<notin> {R8, R9, R10, RSP} \<Longrightarrow> gpr s5 r = f r" and x: "\<And>i. i < 6 \<Longrightarrow> xmms s5 i = x i" "eflags s5 = popped fl (eflags s)"
    and keep: "\<And>a. a \<notin> words_from (sp - 48) 6 \<Longrightarrow> ram s5 a = ram s a"
  have word: "ram s5 (p + off8 (reg_index q)) = f q" for q
  proof -
    have "p + off8 (reg_index q) \<in> words_from p 30" using reg_index_bounds(1) [of q] by (intro in_words_from) simp
    then have "ram s5 (p + off8 (reg_index q)) = ram s (p + off8 (reg_index q))" using keep sep by blast
    then show ?thesis using make_registers_eqD(1) [OF at [unfolded registers_at_def], of q] by simp
  qed
  have last: "exec alu restore_last s5 = Inr (s5\<lparr>gpr := f, ram := (ram s5)(f RSP - 8 := pc), ip := pc\<rparr>)"
    by (rule restore_last_effect [where p = p]) (fact r p(2) word new)+
  show thesis
    by (rule that [of "s5\<lparr>gpr := f, ram := (ram s5)(f RSP - 8 := pc), ip := pc\<rparr>"]) (simp_all add: restore_registers_parts exec_seq [OF e last] x keep)
qed

lemma popped_restores: "popped (fl AND PUSHED_FLAGS) old AND POPPED_FLAGS = fl AND POPPED_FLAGS"
proof -
  have m: "PUSHED_FLAGS AND POPPED_FLAGS = POPPED_FLAGS" by (simp add: PUSHED_FLAGS_def POPPED_FLAGS_def)
  have "popped v old AND POPPED_FLAGS = v AND POPPED_FLAGS" for v
    unfolding popped_def by (rule bit_word_eqI) (auto simp: bit_simps)
  then show ?thesis using m by (simp add: and.assoc)
qed

text \<open>The call pushes the return address; the captured RSP is the one of the caller.\<close>

lemma capture_current_effect:
  assumes p: "aligned 4 p" and sp: "aligned 3 (gpr s RSP)" and sep: "words_from (gpr s RSP - 16) 2 \<inter> words_from p 30 = {}"
  obtains s1 where "capture_current alu ret p s = Inr s1" and "ip s1 = ret" and "gpr s1 = (gpr s)(RCX := p, RAX := ret)"
    and "registers_at (ram s1) p = make_registers ((gpr s)(RCX := p)) (xmms s) (eflags s AND PUSHED_FLAGS) ret"
proof -
  let ?sp = "gpr s RSP"
  have ne: "?sp - 8 \<notin> words_from p 30" "?sp - 8 - 8 \<notin> words_from p 30"
    using sep in_words_from [of 0 2 "?sp - 16"] in_words_from [of 1 2 "?sp - 16"] by (auto simp: off8_def)
  define s0 where "s0 = set_gpr RCX p (s\<lparr>ram := (\<lambda>a. if a \<in> (\<lambda>i. p + of_nat (8 * i)) ` {..<30} then 0 else ram s a)\<rparr>)"
  define t where "t = set_gpr RSP (?sp - 8) (s0\<lparr>ram := (ram s0)(?sp - 8 := ret)\<rparr>)"
  have "push ret s0 = Inr t" using push_aligned [of s0 ret] sp by (simp add: t_def s0_def)
  then have e: "capture_current alu ret p s = exec alu capture_registers t"
    by (simp only: capture_current_def asm_call_def s0_def [symmetric] asm_then_simps)
  have t: "gpr t RCX = p" "gpr t RSP = ?sp - 8" "xmms t = xmms s" "eflags t = eflags s" "ram t (?sp - 8) = ret"
    "gpr t = (gpr s)(RCX := p, RSP := ?sp - 8)" by (simp_all add: t_def s0_def)
  obtain s1 where s1: "exec alu capture_registers t = Inr s1"
    "registers_at (ram s1) p = make_registers ((gpr t)(RSP := ?sp - 8 + 8)) (xmms t) (eflags t AND PUSHED_FLAGS) (ram t (?sp - 8))"
    "gpr s1 = (gpr t)(RAX := ram t (?sp - 8), RSP := ?sp - 8 + 8)" "ip s1 = ram t (?sp - 8)"
    by (rule capture_registers_effect [OF t(1) p t(2) aligned_step(1) [OF sp] ne, of alu]) (rule that)
  have same: "((gpr s)(RCX := p, RSP := ?sp - 8))(RSP := ?sp - 8 + 8) = (gpr s)(RCX := p)"
    "((gpr s)(RCX := p, RSP := ?sp - 8))(RAX := ret, RSP := ?sp - 8 + 8) = (gpr s)(RCX := p, RAX := ret)" by auto
  show ?thesis by (rule that [of s1]) (simp_all only: e s1 t same)
qed

text \<open>
  C12. \<open>capture_current\<close> and \<open>restore\<close> are a setjmp and a longjmp: when
  \<open>restore\<close> runs later, in any state and on any other stack, on a structure with the
  captured contents, execution continues behind the call of \<open>capture_registers\<close>
  with every general purpose register as it was at that call, RSP included, with the same XMM0 to XMM5
  and the same flags (all but RF, VM, VIF and VIP); memory changes only in the seven words below the stack pointer of the
  restoring code and in the word below the captured stack pointer.\<close>

theorem capture_restore_roundtrip:
  assumes "aligned 4 p" and "aligned 3 (gpr s RSP)" and "words_from (gpr s RSP - 16) 2 \<inter> words_from p 30 = {}"
    and "capture_current alu ret p s = Inr s1"
    and "aligned 4 q" and "aligned 3 (gpr t RSP)" and "words_from (gpr t RSP - 56) 7 \<inter> words_from q 30 = {}"
    and "gpr s RSP - 8 \<notin> words_from q 30" and "registers_at (ram t) q = registers_at (ram s1) p"
  shows "\<exists>t1. restore alu ret2 q t = Inr t1 \<and> ip t1 = ret \<and> gpr t1 = (gpr s)(RCX := p) \<and> (\<forall>i<6. xmms t1 i = xmms s i)
    \<and> eflags t1 AND POPPED_FLAGS = eflags s AND POPPED_FLAGS
    \<and> (\<forall>a. a \<notin> words_from (gpr t RSP - 56) 7 \<and> a \<noteq> gpr s RSP - 8 \<longrightarrow> ram t1 a = ram t a)"
proof -
  let ?f = "(gpr s)(RCX := p)" and ?sp = "gpr t RSP"
  have at: "registers_at (ram s1) p = make_registers ?f (xmms s) (eflags s AND PUSHED_FLAGS) ret"
    using capture_current_effect [OF assms(1-3), of alu ret] assms(4) by (metis sum.inject(2))
  define t' where "t' = set_gpr RCX q (set_gpr RSP (?sp - 8) (t\<lparr>ram := (ram t)(?sp - 8 := ret2)\<rparr>))"
  have "push ret2 (set_gpr RCX q t) = Inr (set_gpr RSP (?sp - 8) ((set_gpr RCX q t)\<lparr>ram := (ram t)(?sp - 8 := ret2)\<rparr>))"
    using push_aligned [of "set_gpr RCX q t" ret2] assms(6) by simp
  also have "\<dots> = Inr t'" by (simp add: t'_def set_gpr_def fun_upd_twist)
  finally have e: "restore alu ret2 q t = exec alu restore_registers t'" by (simp only: restore_def asm_call_def asm_then_simps)
  have eq: "?sp - 8 - 48 = ?sp - 56" "?sp - 8 = ?sp - 56 + off8 6" by (simp_all add: off8_def)
  have sub: "words_from (?sp - 56) 6 \<subseteq> words_from (?sp - 56) 7" by (rule words_from_mono) simp
  have top: "?sp - 8 \<in> words_from (?sp - 56) 7" unfolding eq(2) by (rule in_words_from) simp
  have sep: "words_from (?sp - 8 - 48) 6 \<inter> words_from q 30 = {}" using assms(7) sub unfolding eq(1) by blast
  have t: "gpr t' RCX = q" "gpr t' RSP = ?sp - 8" "eflags t' = eflags t" "ram t' = (ram t)(?sp - 8 := ret2)" by (simp_all add: t'_def)
  have "registers_at (ram t') q = registers_at (ram t) q" by (rule registers_at_cong) (use top assms(7) in \<open>auto simp: t(4)\<close>)
  then have at': "registers_at (ram t') q = make_registers ?f (xmms s) (eflags s AND PUSHED_FLAGS) ret" using assms(9) at by simp
  have new: "aligned 3 (?f RSP)" "?f RSP - 8 \<notin> words_from q 30" using assms(2,8) by simp_all
  obtain t1 where t1: "exec alu restore_registers t' = Inr t1" "gpr t1 = ?f" "\<And>i. i < 6 \<Longrightarrow> xmms t1 i = xmms s i"
    "eflags t1 = popped (eflags s AND PUSHED_FLAGS) (eflags t')" "ip t1 = ret"
    "\<And>a. a \<notin> words_from (?sp - 8 - 48) 6 \<Longrightarrow> a \<noteq> ?f RSP - 8 \<Longrightarrow> ram t1 a = ram t' a"
    by (rule restore_registers_effect [OF t(1) assms(5) t(2) aligned_step(1) [OF assms(6)] sep at' new, of alu]) (rule that)
  have "ram t1 a = ram t a" if "a \<notin> words_from (?sp - 56) 7" "a \<noteq> gpr s RSP - 8" for a
  proof -
    have "a \<notin> words_from (?sp - 8 - 48) 6" "a \<noteq> ?sp - 8" using that(1) sub top unfolding eq(1) by blast+
    then show ?thesis using t1(6) [of a] that(2) by (simp add: t(4))
  qed
  then show ?thesis using t1 popped_restores [of "eflags s" "eflags t'"] by (intro exI [of _ t1]) (simp add: e)
qed

definition sample_state :: cpu_state where
  "sample_state = \<lparr>gpr = (\<lambda>r. off8 (reg_index r))(RCX := 0x1000, RSP := 0x8008), xmms = (\<lambda>i. \<lparr>xmm_low = of_nat i, xmm_high = 7\<rparr>),
     eflags = 0x202, ram = (\<lambda>a. a + 1), ip = 0x400\<rparr>"

theorem capture_restore_roundtrip_witness:
  "\<exists>s1 t1. capture_current (\<lambda>_ _. 2) 0x444 0x1000 sample_state = Inr s1
     \<and> restore (\<lambda>_ _. 2) 0x555 0x1000 (s1\<lparr>gpr := (\<lambda>_. 0)(RSP := 0x20000), eflags := 2\<rparr>) = Inr t1
     \<and> ip t1 = 0x444 \<and> gpr t1 RSP = 0x8008 \<and> gpr t1 R15 = 0x70 \<and> eflags t1 AND POPPED_FLAGS = 0x200"
proof -
  let ?s = sample_state
  have al: "aligned 4 (0x1000)" "aligned 3 (gpr ?s RSP)" by (simp_all add: sample_state_def aligned_def)
  have sep: "words_from (gpr ?s RSP - 16) 2 \<inter> words_from 0x1000 30 = {}" "gpr ?s RSP - 8 \<notin> words_from 0x1000 30" by code_simp+
  have sep2: "words_from (0x20000 - 56) 7 \<inter> words_from 0x1000 30 = {}" by code_simp
  have c: "gpr ?s RSP = 0x8008" "gpr ?s R15 = 0x70" "eflags ?s AND POPPED_FLAGS = 0x200"
    by (simp_all add: sample_state_def off8_def POPPED_FLAGS_def)
  obtain s1 where s1: "capture_current (\<lambda>_ _. 2) 0x444 0x1000 ?s = Inr s1" using capture_current_effect [OF al sep(1)] by metis
  let ?t = "s1\<lparr>gpr := (\<lambda>_. 0)(RSP := 0x20000), eflags := 2\<rparr>"
  have t: "aligned 3 (gpr ?t RSP)" "words_from (gpr ?t RSP - 56) 7 \<inter> words_from 0x1000 30 = {}" "registers_at (ram ?t) 0x1000 = registers_at (ram s1) 0x1000"
    using sep2 by (simp_all add: aligned_def)
  obtain t1 where "restore (\<lambda>_ _. 2) 0x555 0x1000 ?t = Inr t1" "ip t1 = 0x444" "gpr t1 = (gpr ?s)(RCX := 0x1000)"
    "eflags t1 AND POPPED_FLAGS = eflags ?s AND POPPED_FLAGS"
    using capture_restore_roundtrip [OF al sep(1) s1 al(1) t(1,2) sep(2) t(3), of "0x555"] by blast
  then show ?thesis using s1 by (auto simp: c)
qed

lemma switch_stack_effect: "exec alu switch_stack s = Inr (s\<lparr>gpr := (gpr s)(RSP := gpr s R8), ip := gpr s RDX\<rparr>)"
  by (simp add: switch_stack_def set_gpr_def)

end
