(* ===== verification/Assembly_Guest.thy ===== *)
theory Assembly_Guest
  imports Assembly_Properties
begin

unbundle bit_operations_syntax

text \<open>
  The two \<open>run_guest.S\<close>. Both save the host registers in a frame of 28 words below the return
  address: the general purpose registers, the XMM registers 27 words below, and at the top the address of the
  structure with the guest registers. The frame and the four blocks that the two files share come
  first.
\<close>

section \<open>The frame\<close>

lemma frame_aligned:
  assumes "aligned 4 (sp - 8)"
  shows "aligned 3 sp" and "aligned 4 (sp - off8 27)" and "aligned 3 (sp - off8 k)"
proof -
  show sp: "aligned 3 sp" using aligned_step(2) [OF aligned_4_3 [OF assms]] by simp
  show "aligned 3 (sp - off8 k)" using sp by (simp add: aligned_intros)
  have "sp - 8 - off8 26 = sp - off8 27" by (simp add: off8_def)
  moreover have "aligned 4 (sp - 8 - off8 26)" by (intro aligned_diff [of 4] assms aligned_off8(2)) simp_all
  ultimately show "aligned 4 (sp - off8 27)" by (simp only:)
qed

lemma slot_not_xmm: "i < 15 \<Longrightarrow> slot sp i \<notin> words_from (sp - off8 27) 12"
proof -
  assume i: "i < 15"
  have "slot sp i \<noteq> sp - off8 27 + off8 j" if "j < 12" for j
    using frame_slot [of j 27 sp] slot_inject [of i "27 - Suc j" sp] i that by simp
  then show ?thesis by (auto simp: words_from_def)
qed

lemma slots_in_frame: "n \<le> 27 \<Longrightarrow> slot sp ` {..<n} \<subseteq> words_from (sp - off8 27) 27"
  using slot_in_frame by fastforce

text \<open>The host registers \<open>f\<close> (those of \<open>rs\<close>) and \<open>x\<close> are in the frame below \<open>sp\<close>.\<close>

definition saved_host :: "reg list \<Rightarrow> (reg \<Rightarrow> u64) \<Rightarrow> (nat \<Rightarrow> xmm) \<Rightarrow> u64 \<Rightarrow> (u64 \<Rightarrow> u64) \<Rightarrow> bool" where
  "saved_host rs f x sp w \<longleftrightarrow>
     (\<forall>i < length rs. w (slot sp i) = f (rs ! i)) \<and> (\<forall>i < 6. xmm_at w (sp - off8 27) i = x i)"

lemma xmm_at_cong: "(\<And>a. a \<in> words_from q 12 \<Longrightarrow> w a = w' a) \<Longrightarrow> i < 6 \<Longrightarrow> xmm_at w q i = xmm_at w' q i"
  using in_words_from [of "2 * i" 12 q] in_words_from [of "2 * i + 1" 12 q] by (simp add: xmm_at_def)

lemma saved_host_cong:
  assumes "\<And>a. a \<in> words_from (sp - off8 27) 27 \<Longrightarrow> w a = w' a" and "length rs \<le> 15"
  shows "saved_host rs f x sp w \<longleftrightarrow> saved_host rs f x sp w'"
proof -
  have "w (slot sp i) = w' (slot sp i)" if "i < length rs" for i using assms that slot_in_frame [of i 27 sp] by simp
  moreover have "xmm_at w (sp - off8 27) i = xmm_at w' (sp - off8 27) i" if "i < 6" for i
    by (rule xmm_at_cong [OF assms(1) that]) (use words_from_mono [of 12 27 "sp - off8 27"] in auto)
  ultimately show ?thesis by (simp add: saved_host_def)
qed

lemma stack_xmm_base: "i < 6 \<Longrightarrow> q + stack_xmm i = q + off8 (2 * i)"
  using offsets(5) [of i] by simp

lemma six: "i \<in> set [0, 1, 2, 3, 4, 5] \<longleftrightarrow> i < 6" "i \<in> set [5, 4, 3, 2, 1, 0] \<longleftrightarrow> i < 6" for i :: nat
  by (auto simp: less_Suc_eq numeral_eq_Suc)

lemma save_host:
  assumes sp: "gpr s RSP = sp" "aligned 4 (sp - 8)" and rs: "RSP \<notin> set rs" "length rs \<le> 15" and d: "d = off8 (27 - length rs)"
  obtains s1 where "exec alu (map Push rs @ SubImm RSP d # xmm_stores RSP stack_xmm [0, 1, 2, 3, 4, 5]) s = Inr s1"
    and "gpr s1 = (gpr s)(RSP := sp - off8 27)" and "saved_host rs (gpr s) (xmms s) sp (ram s1)"
    and "\<And>a. a \<notin> words_from (sp - off8 27) 27 \<Longrightarrow> ram s1 a = ram s a"
proof -
  let ?is = "[0, 1, 2, 3, 4, 5] :: nat list"
  have al: "aligned 3 (gpr s RSP)" and len: "length rs < 900" using frame_aligned(1) [OF sp(2)] sp(1) rs(2) by simp_all
  obtain s1 where s1: "exec alu (map Push rs) s = Inr s1" "gpr s1 = (gpr s)(RSP := gpr s RSP - off8 (length rs))" "xmms s1 = xmms s"
    and w1: "\<And>i. i < length rs \<Longrightarrow> ram s1 (slot (gpr s RSP) i) = gpr s (rs ! i)"
    and o1: "\<And>a. a \<notin> slot (gpr s RSP) ` {..<length rs} \<Longrightarrow> ram s1 a = ram s a"
    by (rule exec_pushes [OF al rs(1) len, of alu]) (rule that)
  define s2 where "s2 = (set_gpr RSP (gpr s1 RSP - d) s1)\<lparr>eflags := alu (SubImm RSP d) s1\<rparr>"
  have "off8 27 = off8 (length rs) + d" using rs(2) by (simp add: d off8_add [symmetric])
  then have g2: "gpr s2 = (gpr s)(RSP := sp - off8 27)" by (simp add: s2_def s1(2) sp(1) diff_diff_add)
  have r2: "ram s2 = ram s1" "xmms s2 = xmms s" by (simp_all add: s2_def s1)
  have base: "i < 6 \<and> gpr s2 RSP + stack_xmm i = sp - off8 27 + off8 (2 * i)" if "i \<in> set ?is" for i
    using that stack_xmm_base [of i "sp - off8 27"] unfolding six g2 by (simp del: stack_xmm.simps)
  obtain s3 where s3: "exec alu (xmm_stores RSP stack_xmm ?is) s2 = Inr s3" "gpr s3 = gpr s2"
    and x3: "\<And>i. i \<in> set ?is \<Longrightarrow> xmm_at (ram s3) (sp - off8 27) i = xmms s2 i" and o3: "\<And>a. a \<notin> words_from (sp - off8 27) 12 \<Longrightarrow> ram s3 a = ram s2 a"
    by (rule exec_xmm_stores [OF frame_aligned(2) [OF sp(2)], of ?is s2 RSP stack_xmm alu]) (erule base, rule that)
  have w3: "ram s3 (slot sp i) = gpr s (rs ! i)" if "i < length rs" for i
    using o3 [OF slot_not_xmm] w1 [OF that] that rs(2) sp(1) by (simp add: r2)
  show ?thesis
  proof (rule that [of s3])
    show "exec alu (map Push rs @ SubImm RSP d # xmm_stores RSP stack_xmm ?is) s = Inr s3"
      by (simp only: exec_append exec.simps(2) exec1.simps s1(1) s2_def [symmetric] s3(1) asm_then_simps)
    show "gpr s3 = (gpr s)(RSP := sp - off8 27)" by (simp add: s3(2) g2)
    show "saved_host rs (gpr s) (xmms s) sp (ram s3)" using w3 x3 [unfolded six] by (simp add: saved_host_def r2(2))
    show "ram s3 a = ram s a" if "a \<notin> words_from (sp - off8 27) 27" for a
    proof -
      have "ram s3 a = ram s1 a" using o3 words_from_mono [of 12 27 "sp - off8 27"] that unfolding r2 by auto
      also have "\<dots> = ram s a" using o1 slots_in_frame [of "length rs" sp] rs(2) that unfolding sp(1) by auto
      finally show ?thesis .
    qed
  qed
qed

lemma restore_host:
  assumes sp: "gpr s RSP = sp - off8 27" "aligned 4 (sp - 8)" and rs: "RSP \<notin> set rs" "length rs \<le> 15" "distinct rs"
    and d: "d = off8 (27 - length rs)" and saved: "saved_host rs f x sp (ram s)"
  obtains s1 where "exec alu (xmm_loads RSP stack_xmm [5, 4, 3, 2, 1, 0] @ AddImm RSP d # map Pop (rev rs)) s = Inr s1"
    and "gpr s1 = (\<lambda>r. if r \<in> set rs then f r else if r = RSP then sp else gpr s r)" and "\<And>i. i < 6 \<Longrightarrow> xmms s1 i = x i"
    and "ram s1 = ram s"
proof -
  let ?is = "[5, 4, 3, 2, 1, 0] :: nat list"
  define s1 where "s1 = s\<lparr>xmms := (\<lambda>i. if i \<in> set ?is then xmm_at (ram s) (sp - off8 27) i else xmms s i)\<rparr>"
  have base: "i < 6 \<and> gpr s RSP + stack_xmm i = sp - off8 27 + off8 (2 * i)" if "i \<in> set ?is" for i
    using that stack_xmm_base [of i "sp - off8 27"] unfolding six sp(1) by (simp del: stack_xmm.simps)
  have e1: "exec alu (xmm_loads RSP stack_xmm ?is) s = Inr s1" unfolding s1_def
    by (rule exec_xmm_loads [OF frame_aligned(2) [OF sp(2)] base])
  define s2 where "s2 = (set_gpr RSP (sp - off8 (length rs)) s1)\<lparr>eflags := alu (AddImm RSP d) s1\<rparr>"
  have "off8 27 = off8 (length rs) + d" using rs(2) by (simp add: d off8_add [symmetric])
  then have e2: "exec1 alu (AddImm RSP d) s1 = Inr s2" by (simp add: s2_def s1_def sp(1))
  have g2: "gpr s2 RSP = sp - off8 (length rs)" "ram s2 = ram s" by (simp_all add: s2_def s1_def)
  define s3 where "s3 = s2\<lparr>gpr := (\<lambda>r. if r \<in> set (rev rs) then f r else if r = RSP then gpr s2 RSP + off8 (length (rev rs)) else gpr s2 r)\<rparr>"
  have e3: "exec alu (map Pop (rev rs)) s2 = Inr s3" unfolding s3_def
  proof (rule exec_pops)
    show "aligned 3 (gpr s2 RSP)" using frame_aligned(3) [OF sp(2)] by (simp add: g2)
    show "ram s2 (gpr s2 RSP + off8 i) = f (rev rs ! i)" if "i < length (rev rs)" for i
      using saved that frame_slot [of i "length rs" sp] by (simp add: g2 saved_host_def rev_nth)
  qed (use rs in simp_all)
  show ?thesis
  proof (rule that [of s3])
    show "exec alu (xmm_loads RSP stack_xmm ?is @ AddImm RSP d # map Pop (rev rs)) s = Inr s3"
      by (simp only: exec_append e1 exec.simps(2) e2 e3 asm_then_simps)
    show "gpr s3 = (\<lambda>r. if r \<in> set rs then f r else if r = RSP then sp else gpr s r)"
      by (auto simp: s3_def g2 s2_def s1_def)
    show "xmms s3 i = x i" if "i < 6" for i
      using saved that six(2) [of i] by (simp add: s3_def s2_def s1_def saved_host_def del: list.set)
    show "ram s3 = ram s" by (simp add: s3_def g2)
  qed
qed

lemma load_guest:
  assumes p: "gpr s R15 = p" "aligned 4 p" and rs: "R15 \<notin> set rs"
  shows "exec alu (xmm_loads R15 xmm_offset [0, 1, 2, 3, 4, 5] @ loads R15 (rs @ [R15])) s =
    Inr (s\<lparr>gpr := (\<lambda>r. if r \<in> set (R15 # rs) then ram s (p + off8 (reg_index r)) else gpr s r),
           xmms := (\<lambda>i. if i < 6 then xmm_at (ram s) (p + off8 18) i else xmms s i)\<rparr>)"
proof -
  let ?is = "[0, 1, 2, 3, 4, 5] :: nat list"
  define s1 where "s1 = s\<lparr>xmms := (\<lambda>i. if i < 6 then xmm_at (ram s) (p + off8 18) i else xmms s i)\<rparr>"
  have base: "i < 6 \<and> gpr s R15 + xmm_offset i = p + off8 18 + off8 (2 * i)" if "i \<in> set ?is" for i
    using that xmm_base [of i p] unfolding six p(1) by simp
  have e1: "exec alu (xmm_loads R15 xmm_offset ?is) s = Inr s1"
  proof -
    have "exec alu (xmm_loads R15 xmm_offset ?is) s = Inr (s\<lparr>xmms := (\<lambda>i. if i \<in> set ?is then xmm_at (ram s) (p + off8 18) i else xmms s i)\<rparr>)"
      by (rule exec_xmm_loads [OF aligned_fields(2) [OF p(2)] base])
    then show ?thesis by (simp only: s1_def six)
  qed
  have p1: "gpr s1 R15 = p" "ram s1 = ram s" by (simp_all add: s1_def p)
  define s2 where "s2 = s1\<lparr>gpr := (\<lambda>r. if r \<in> set rs then ram s1 (p + off8 (reg_index r)) else gpr s1 r)\<rparr>"
  have e2: "exec alu (loads R15 rs) s1 = Inr s2" unfolding s2_def by (rule exec_loads [OF aligned_fields(1) [OF p(2)] p1(1) rs])
  have e3: "exec alu (loads R15 [R15]) s2 = Inr (set_gpr R15 (ram s (p + off8 (reg_index R15))) s2)"
    using aligned_fields(3) [OF p(2), of "reg_index R15"] p1 rs
    by (simp add: loads_def load_def offsets(1) s2_def del: reg_offset.simps reg_index.simps)
  have app: "loads R15 (rs @ [R15]) = loads R15 rs @ loads R15 [R15]" by (simp add: loads_def)
  have "set_gpr R15 (ram s (p + off8 (reg_index R15))) s2 =
      s\<lparr>gpr := (\<lambda>r. if r \<in> set (R15 # rs) then ram s (p + off8 (reg_index r)) else gpr s r),
        xmms := (\<lambda>i. if i < 6 then xmm_at (ram s) (p + off8 18) i else xmms s i)\<rparr>"
    by (rule cpu_state.equality) (auto simp: s2_def s1_def fun_eq_iff)
  then show ?thesis by (simp only: app exec_append e1 e2 e3 asm_then_simps)
qed

lemma registers_at_stored:
  assumes stored: "\<And>r. r \<in> R \<Longrightarrow> w (p + off8 (reg_index r)) = f r"
    and other: "\<And>k. k < 18 \<Longrightarrow> (\<And>r. r \<in> R \<Longrightarrow> reg_index r \<noteq> k) \<Longrightarrow> w (p + off8 k) = w0 (p + off8 k)"
    and xmm: "\<And>i. i < 6 \<Longrightarrow> xmm_at w (p + off8 18) i = x i"
  shows "registers_at w p = make_registers (\<lambda>r. if r \<in> R then f r else w0 (p + off8 (reg_index r))) x (w0 (p + off8 15)) (w0 (p + off8 17))"
  unfolding registers_at_def
proof (rule make_registers_eqI)
  show "w (p + off8 (reg_index r)) = (if r \<in> R then f r else w0 (p + off8 (reg_index r)))" for r
    using stored [of r] other [of "reg_index r"] reg_index_bounds(1) [of r] reg_index_inject by fastforce
  show "w (p + off8 15) = w0 (p + off8 15)" by (rule other) (use reg_index_bounds(2) in auto)
  show "w (p + off8 17) = w0 (p + off8 17)" by (rule other) (use reg_index_bounds(3) in auto)
qed (rule xmm)

lemma save_guest:
  assumes b: "gpr s RSP = b" "aligned 3 b" "b \<notin> words_from p 30" and p: "ram s b = p" "aligned 4 p" and rs: "R15 \<notin> set rs"
  obtains s1 where "exec alu ([Nop, XchgMem R15 RSP] @ stores R15 rs @ [Load RAX RSP 0, Store R15 (reg_offset R15) RAX]
        @ xmm_stores R15 xmm_offset [0, 1, 2, 3, 4, 5]) s = Inr s1"
    and "gpr s1 RSP = b" and "eflags s1 = eflags s"
    and "registers_at (ram s1) p = make_registers (\<lambda>r. if r \<in> set (R15 # rs) then gpr s r else ram s (p + off8 (reg_index r))) (xmms s)
           (ram s (p + off8 15)) (ram s (p + off8 17))"
    and "\<And>a. a \<notin> words_from p 30 \<Longrightarrow> a \<noteq> b \<Longrightarrow> ram s1 a = ram s a"
proof -
  let ?is = "[0, 1, 2, 3, 4, 5] :: nat list"
  define s1 where "s1 = set_gpr R15 p (s\<lparr>ram := (ram s)(b := gpr s R15)\<rparr>)"
  have e1: "exec alu [Nop, XchgMem R15 RSP] s = Inr s1" by (simp add: b load_def store_def p s1_def)
  have p1: "gpr s1 R15 = p" by (simp add: s1_def)
  obtain s2 where s2: "exec alu (stores R15 rs) s1 = Inr s2" "gpr s2 = gpr s1" "xmms s2 = xmms s1" "eflags s2 = eflags s1"
    and r2: "\<And>r. r \<in> set rs \<Longrightarrow> ram s2 (p + off8 (reg_index r)) = gpr s1 r"
    and o2: "\<And>a. a \<notin> (\<lambda>r. p + off8 (reg_index r)) ` set rs \<Longrightarrow> ram s2 a = ram s1 a"
    by (rule exec_stores [OF aligned_fields(1) [OF p(2)] p1, of alu rs]) (rule that)
  have b2: "ram s2 b = gpr s R15" using o2 [of b] reg_area [of p "set rs"] b(3) by (auto simp: s1_def)
  define s3 where "s3 = (set_gpr RAX (gpr s R15) s2)\<lparr>ram := (ram s2)(p + off8 (reg_index R15) := gpr s R15)\<rparr>"
  have e3: "exec alu [Load RAX RSP 0, Store R15 (reg_offset R15) RAX] s2 = Inr s3"
    using aligned_fields(3) [OF p(2), of "reg_index R15"] b(1,2) b2
    by (simp add: load_def store_def offsets(1) s3_def s2(2) s1_def set_gpr_def del: reg_offset.simps reg_index.simps)
  have g3: "gpr s3 R15 = p" "gpr s3 RSP = b" by (simp_all add: s3_def s2(2) s1_def b(1))
  have base: "i < 6 \<and> gpr s3 R15 + xmm_offset i = p + off8 18 + off8 (2 * i)" if "i \<in> set ?is" for i
    using that xmm_base [of i p] unfolding six g3(1) by simp
  obtain s4 where s4: "exec alu (xmm_stores R15 xmm_offset ?is) s3 = Inr s4" "gpr s4 = gpr s3" "eflags s4 = eflags s3"
    and x4: "\<And>i. i \<in> set ?is \<Longrightarrow> xmm_at (ram s4) (p + off8 18) i = xmms s3 i" and o4: "\<And>a. a \<notin> words_from (p + off8 18) 12 \<Longrightarrow> ram s4 a = ram s3 a"
    by (rule exec_xmm_stores [OF aligned_fields(2) [OF p(2)], of ?is s3 R15 xmm_offset alu]) (erule base, rule that)
  have o1: "ram s1 (p + off8 k) = ram s (p + off8 k)" if "k < 30" for k using not_field [OF b(3) that] by (simp add: s1_def)
  have other: "ram s4 (p + off8 k) = ram s (p + off8 k)" if "k < 18" "\<And>r. r \<in> set (R15 # rs) \<Longrightarrow> reg_index r \<noteq> k" for k
  proof -
    have "p + off8 k \<noteq> p + off8 (reg_index r)" if "r \<in> set (R15 # rs)" for r
      using \<open>k < 18\<close> that reg_index_bounds(1) [of r] field_inject [of k "reg_index r" p] \<open>\<And>r. r \<in> set (R15 # rs) \<Longrightarrow> reg_index r \<noteq> k\<close> [OF that] by simp
    then have "p + off8 k \<notin> (\<lambda>r. p + off8 (reg_index r)) ` set (R15 # rs)" by blast
    then show ?thesis using o4 [OF not_in_xmm_area [OF that(1)]] o2 o1 [of k] that(1) by (auto simp: s3_def simp del: reg_index.simps)
  qed
  show ?thesis
  proof (rule that [of s4])
    show "exec alu ([Nop, XchgMem R15 RSP] @ stores R15 rs @ [Load RAX RSP 0, Store R15 (reg_offset R15) RAX] @ xmm_stores R15 xmm_offset ?is) s = Inr s4"
      by (simp only: exec_append e1 s2(1) e3 s4(1) asm_then_simps)
    show "gpr s4 RSP = b" "eflags s4 = eflags s" by (simp_all add: s4 g3) (simp add: s3_def s2 s1_def)
    show "ram s4 a = ram s a" if "a \<notin> words_from p 30" "a \<noteq> b" for a
    proof -
      have "ram s4 a = ram s3 a" using o4 xmm_area [of p] that(1) by blast
      also have "\<dots> = ram s2 a" using not_field [OF that(1), of 14] by (simp add: s3_def)
      also have "\<dots> = ram s1 a" using o2 reg_area [of p "set rs"] that(1) by blast
      finally show ?thesis using that(2) by (simp add: s1_def)
    qed
    show "registers_at (ram s4) p = make_registers (\<lambda>r. if r \<in> set (R15 # rs) then gpr s r else ram s (p + off8 (reg_index r))) (xmms s)
           (ram s (p + off8 15)) (ram s (p + off8 17))"
    proof (rule registers_at_stored [of "set (R15 # rs)"])
      show "ram s4 (p + off8 k) = ram s (p + off8 k)" if "k < 18" "\<And>r. r \<in> set (R15 # rs) \<Longrightarrow> reg_index r \<noteq> k" for k by (rule other) (fact that)+
      show "ram s4 (p + off8 (reg_index r)) = gpr s r" if "r \<in> set (R15 # rs)" for r
      proof -
        have "ram s4 (p + off8 (reg_index r)) = ram s3 (p + off8 (reg_index r))"
          using reg_index_bounds(1) [of r] by (intro o4 not_in_xmm_area) simp
        also have "\<dots> = gpr s r"
          using that rs r2 [of r] field_inject [of "reg_index r" "reg_index R15" p] reg_index_bounds(1) [of r] reg_index_inject [of r R15]
          by (cases "r = R15") (auto simp: s3_def s1_def)
        finally show ?thesis .
      qed
      show "xmm_at (ram s4) (p + off8 18) i = xmms s i" if "i < 6" for i using x4 [of i] that unfolding six by (simp add: s3_def s2 s1_def)
    qed
  qed
qed

lemma frame_parts:
  "words_from (sp - off8 27) 27 \<subseteq> words_from (sp - off8 28) 28" "sp - off8 28 \<in> words_from (sp - off8 28) 28"
  "sp - off8 28 \<notin> words_from (sp - off8 27) 27" "sp \<notin> words_from (sp - off8 28) 28"
proof -
  have eq: "sp - off8 27 = sp - off8 28 + off8 1" by (simp add: off8_def)
  show "words_from (sp - off8 27) 27 \<subseteq> words_from (sp - off8 28) 28" unfolding eq by (rule words_from_sub) simp
  show "sp - off8 28 \<in> words_from (sp - off8 28) 28" using in_words_from [of 0 28 "sp - off8 28"] by (simp add: off8_def)
  have "off8 28 \<noteq> off8 k" if "k < 28" for k using off8_inject [of 28 k] that by simp
  then have "sp - off8 28 + off8 k \<noteq> sp" if "k < 28" for k using that by (metis diff_add_cancel add_left_imp_eq)
  then show "sp \<notin> words_from (sp - off8 28) 28" by (force simp: words_from_def)
  have "sp - off8 27 + off8 k = sp - off8 28 + off8 (Suc k)" for k by (simp add: off8_def)
  moreover have "sp - off8 28 + off8 (Suc k) \<noteq> sp - off8 28 + off8 0" if "k < 27" for k
    using field_inject [of "Suc k" 0 "sp - off8 28"] that by simp
  ultimately show "sp - off8 28 \<notin> words_from (sp - off8 27) 27" by (force simp: words_from_def off8_def)
qed

lemma saved_host_top: "length rs \<le> 15 \<Longrightarrow> saved_host rs f x sp (w(sp - off8 28 := v)) \<longleftrightarrow> saved_host rs f x sp w"
  by (rule saved_host_cong) (use frame_parts(3) in auto)

lemma enter_blocks:
  assumes p: "aligned 4 p" and sp: "gpr s RSP = sp" "aligned 4 (sp - 8)" and sep: "words_from (sp - off8 28) 28 \<inter> words_from p 30 = {}"
    and rs: "RSP \<notin> set rs" "length rs \<le> 15" "d = off8 (27 - length rs)" and g: "R15 \<notin> set g"
    and mid: "\<And>t. gpr t = (gpr s)(RSP := sp - off8 27) \<Longrightarrow>
      exec alu mid t = Inr (t\<lparr>gpr := h(R15 := p, RSP := sp - off8 28), ram := (ram t)(sp - off8 28 := p)\<rparr>)"
  obtains s1 where "exec alu ([Nop] @ (map Push rs @ SubImm RSP d # xmm_stores RSP stack_xmm [0, 1, 2, 3, 4, 5]) @ mid
        @ (xmm_loads R15 xmm_offset [0, 1, 2, 3, 4, 5] @ loads R15 (g @ [R15]))) s = Inr s1"
    and "gpr s1 = (\<lambda>r. if r \<in> set (R15 # g) then ram s (p + off8 (reg_index r)) else if r = RSP then sp - off8 28 else h r)"
    and "\<And>i. i < 6 \<Longrightarrow> xmms s1 i = xmm_at (ram s) (p + off8 18) i"
    and "saved_host rs (gpr s) (xmms s) sp (ram s1)" and "ram s1 (sp - off8 28) = p"
    and "\<And>a. a \<notin> words_from (sp - off8 28) 28 \<Longrightarrow> ram s1 a = ram s a"
proof -
  obtain s1 where s1: "exec alu (map Push rs @ SubImm RSP d # xmm_stores RSP stack_xmm [0, 1, 2, 3, 4, 5]) s = Inr s1"
    "gpr s1 = (gpr s)(RSP := sp - off8 27)" "saved_host rs (gpr s) (xmms s) sp (ram s1)"
    and o1: "\<And>a. a \<notin> words_from (sp - off8 27) 27 \<Longrightarrow> ram s1 a = ram s a"
    by (rule save_host [OF sp rs, of alu]) (rule that)
  define s2 where "s2 = s1\<lparr>gpr := h(R15 := p, RSP := sp - off8 28), ram := (ram s1)(sp - off8 28 := p)\<rparr>"
  have e2: "exec alu mid s1 = Inr s2" unfolding s2_def by (rule mid [OF s1(2)])
  have o2: "ram s2 a = ram s a" if "a \<notin> words_from (sp - off8 28) 28" for a
    using that o1 [of a] frame_parts(1,2) [of sp] by (auto simp: s2_def)
  have f2: "ram s2 (p + off8 k) = ram s (p + off8 k)" if "k < 30" for k using o2 sep in_words_from [OF that, of p] by blast
  define s3 where "s3 = s2\<lparr>gpr := (\<lambda>r. if r \<in> set (R15 # g) then ram s2 (p + off8 (reg_index r)) else gpr s2 r),
           xmms := (\<lambda>i. if i < 6 then xmm_at (ram s2) (p + off8 18) i else xmms s2 i)\<rparr>"
  have e3: "exec alu (xmm_loads R15 xmm_offset [0, 1, 2, 3, 4, 5] @ loads R15 (g @ [R15])) s2 = Inr s3"
    unfolding s3_def by (rule load_guest [OF _ p g]) (simp add: s2_def)
  have e0: "exec alu [Nop] s = Inr s" by simp
  show ?thesis
  proof (rule that [of s3])
    show "exec alu ([Nop] @ (map Push rs @ SubImm RSP d # xmm_stores RSP stack_xmm [0, 1, 2, 3, 4, 5]) @ mid
        @ (xmm_loads R15 xmm_offset [0, 1, 2, 3, 4, 5] @ loads R15 (g @ [R15]))) s = Inr s3"
      by (rule exec_seq [OF e0], rule exec_seq [OF s1(1)], rule exec_seq [OF e2], rule e3)
    show "gpr s3 = (\<lambda>r. if r \<in> set (R15 # g) then ram s (p + off8 (reg_index r)) else if r = RSP then sp - off8 28 else h r)"
    proof
      fix r show "gpr s3 r = (if r \<in> set (R15 # g) then ram s (p + off8 (reg_index r)) else if r = RSP then sp - off8 28 else h r)"
        using f2 [of "reg_index r"] reg_index_bounds(1) [of r] by (auto simp: s3_def s2_def)
    qed
    show "xmms s3 i = xmm_at (ram s) (p + off8 18) i" if "i < 6" for i
      using f2 [of "18 + 2 * i"] f2 [of "19 + 2 * i"] that by (simp add: s3_def xmm_at_field)
    have r3: "ram s3 = (ram s1)(sp - off8 28 := p)" by (simp add: s3_def s2_def)
    show "ram s3 (sp - off8 28) = p" by (simp add: r3)
    show "saved_host rs (gpr s) (xmms s) sp (ram s3)" using s1(3) rs(2) by (simp add: r3 saved_host_top)
    show "ram s3 a = ram s a" if "a \<notin> words_from (sp - off8 28) 28" for a using o2 [OF that] by (simp add: s3_def)
  qed
qed

lemma top_of_frame: "sp - off8 27 - 8 = sp - off8 28" "sp - off8 28 + 8 = sp - off8 27" "sp - off8 28 - 8 = sp - off8 29" "sp - off8 29 + 8 = sp - off8 28"
  by (simp_all add: off8_def)

section \<open>AMD\<close>

lemma svm_enter_effect:
  assumes p: "gpr s RCX = p" "aligned 4 p" and sp: "gpr s RSP = sp" "aligned 4 (sp - 8)"
    and sep: "words_from (sp - off8 28) 28 \<inter> words_from p 30 = {}"
  obtains s1 where "exec alu svm_enter s = Inr s1"
    and "gpr s1 = (\<lambda>r. if r = RAX then gpr s RDX else if r = RSP then sp - off8 28 else ram s (p + off8 (reg_index r)))"
    and "\<And>i. i < 6 \<Longrightarrow> xmms s1 i = xmm_at (ram s) (p + off8 18) i"
    and "saved_host svm_host_regs (gpr s) (xmms s) sp (ram s1)" and "ram s1 (sp - off8 28) = p"
    and "\<And>a. a \<notin> words_from (sp - off8 28) 28 \<Longrightarrow> ram s1 a = ram s a"
proof -
  let ?rs = svm_host_regs and ?g = "[RBX, RCX, RDX, RDI, RSI, RBP, R8, R9, R10, R11, R12, R13, R14]" and ?mid = "[Mov R15 RCX, Mov RAX RDX, Push RCX]"
  have rs: "RSP \<notin> set ?rs" "length ?rs \<le> 15" "0x60 = off8 (27 - length ?rs)" by (simp_all add: svm_host_regs_def off8_def)
  have g: "R15 \<notin> set ?g" by simp
  have mid: "exec alu ?mid t = Inr (t\<lparr>gpr := ((gpr s)(RAX := gpr s RDX))(R15 := p, RSP := sp - off8 28), ram := (ram t)(sp - off8 28 := p)\<rparr>)"
    if "gpr t = (gpr s)(RSP := sp - off8 27)" for t
    using frame_aligned(3) [OF sp(2), of 27] by (simp add: push_aligned that top_of_frame p set_gpr_def fun_upd_twist)
  let ?blocks = "[Nop] @ (map Push ?rs @ SubImm RSP 0x60 # xmm_stores RSP stack_xmm [0, 1, 2, 3, 4, 5]) @ ?mid
        @ (xmm_loads R15 xmm_offset [0, 1, 2, 3, 4, 5] @ loads R15 (?g @ [R15]))"
  have code: "svm_enter = ?blocks @ [Vmload RAX]" by (simp add: svm_enter_def)
  show ?thesis
  proof (rule enter_blocks [OF p(2) sp sep rs g mid])
    fix s1 assume e: "exec alu ?blocks s = Inr s1"
      and g1: "gpr s1 = (\<lambda>r. if r \<in> set (R15 # ?g) then ram s (p + off8 (reg_index r)) else if r = RSP then sp - off8 28 else ((gpr s)(RAX := gpr s RDX)) r)"
      and rest: "\<And>i. i < 6 \<Longrightarrow> xmms s1 i = xmm_at (ram s) (p + off8 18) i" "saved_host svm_host_regs (gpr s) (xmms s) sp (ram s1)"
        "ram s1 (sp - off8 28) = p" "\<And>a. a \<notin> words_from (sp - off8 28) 28 \<Longrightarrow> ram s1 a = ram s a"
    have "exec alu svm_enter s = Inr s1" unfolding code by (rule exec_seq [OF e]) simp
    moreover have "gpr s1 r = (if r = RAX then gpr s RDX else if r = RSP then sp - off8 28 else ram s (p + off8 (reg_index r)))" for r
      unfolding g1 by (cases r) simp_all
    ultimately show thesis using that [of s1] rest by blast
  qed
qed

lemma svm_leave_effect:
  assumes b: "gpr s RSP = sp - off8 28" "aligned 4 (sp - 8)" and p: "ram s (sp - off8 28) = p" "aligned 4 p"
    and sep: "words_from (sp - off8 28) 28 \<inter> words_from p 30 = {}" "sp \<notin> words_from p 30" and saved: "saved_host svm_host_regs f x sp (ram s)"
  obtains s1 where "exec alu svm_leave s = Inr s1" and "gpr s1 = f(RAX := f R8, RSP := sp + 8)" and "\<And>i. i < 6 \<Longrightarrow> xmms s1 i = x i"
    and "ip s1 = ram s sp"
    and "registers_at (ram s1) p = make_registers (\<lambda>r. if r = RAX \<or> r = RSP then ram s (p + off8 (reg_index r)) else gpr s r) (xmms s)
           (ram s (p + off8 15)) (ram s (p + off8 17))"
    and "\<And>a. a \<notin> words_from p 30 \<Longrightarrow> a \<noteq> sp - off8 28 \<Longrightarrow> ram s1 a = ram s a"
proof -
  let ?rs = svm_host_regs and ?g = "[RBX, RCX, RDX, RSI, RDI, RBP, R8, R9, R10, R11, R12, R13, R14]" and ?b = "sp - off8 28"
  have rs: "RSP \<notin> set ?rs" "length ?rs \<le> 15" "distinct ?rs" "0x60 = off8 (27 - length ?rs)" by (simp_all add: svm_host_regs_def off8_def)
  have b30: "?b \<notin> words_from p 30" using sep(1) frame_parts(2) [of sp] by blast
  have g: "R15 \<notin> set ?g" by simp
  obtain s1 where s1: "exec alu ([Nop, XchgMem R15 RSP] @ stores R15 ?g @ [Load RAX RSP 0, Store R15 (reg_offset R15) RAX]
        @ xmm_stores R15 xmm_offset [0, 1, 2, 3, 4, 5]) s = Inr s1" "gpr s1 RSP = ?b"
    and at: "registers_at (ram s1) p = make_registers (\<lambda>r. if r \<in> set (R15 # ?g) then gpr s r else ram s (p + off8 (reg_index r))) (xmms s)
           (ram s (p + off8 15)) (ram s (p + off8 17))"
    and o1: "\<And>a. a \<notin> words_from p 30 \<Longrightarrow> a \<noteq> ?b \<Longrightarrow> ram s1 a = ram s a"
    by (rule save_guest [OF b(1) frame_aligned(3) [OF b(2)] b30 p g, of alu]) (rule that)
  have up: "?b + 8 = sp - off8 27" by (simp add: off8_def)
  define s2 where "s2 = set_gpr RAX (ram s1 ?b) (set_gpr RSP (sp - off8 27) s1)"
  have e2: "exec alu [Pop RAX] s1 = Inr s2" using frame_aligned(3) [OF b(2), of 28] by (simp add: pop_aligned s1(2) s2_def up)
  have g2: "gpr s2 RSP = sp - off8 27" by (simp add: s2_def)
  have "ram s2 a = ram s a" if "a \<in> words_from (sp - off8 27) 27" for a
    using o1 [of a] that frame_parts(1,3) [of sp] sep(1) by (auto simp: s2_def)
  then have saved2: "saved_host ?rs f x sp (ram s2)" using saved saved_host_cong [of sp "ram s2" "ram s" ?rs f x] rs(2) by simp
  obtain s3 where s3: "exec alu (xmm_loads RSP stack_xmm [5, 4, 3, 2, 1, 0] @ AddImm RSP 0x60 # map Pop (rev ?rs)) s2 = Inr s3"
    "gpr s3 = (\<lambda>r. if r \<in> set ?rs then f r else if r = RSP then sp else gpr s2 r)" "ram s3 = ram s2"
    and x3: "\<And>i. i < 6 \<Longrightarrow> xmms s3 i = x i"
    by (rule restore_host [OF g2 b(2) rs saved2, of alu]) (rule that)
  define s4 where "s4 = s3\<lparr>gpr := f(RAX := f R8, RSP := sp + 8), ip := ram s3 sp\<rparr>"
  have all: "r \<in> set ?rs \<longleftrightarrow> r \<noteq> RSP" for r by (cases r) (simp_all add: svm_host_regs_def)
  have e4: "exec alu [Mov RAX R8, Vmload RAX, Ret] s3 = Inr s4"
    using frame_aligned(1) [OF b(2)] by (simp add: pop_aligned s3(2) all s4_def set_gpr_def) (auto intro!: cpu_state.fold_congs)
  have code: "svm_leave = [Vmsave RAX] @ ([Nop, XchgMem R15 RSP] @ stores R15 ?g @ [Load RAX RSP 0, Store R15 (reg_offset R15) RAX]
        @ xmm_stores R15 xmm_offset [0, 1, 2, 3, 4, 5]) @ [Pop RAX] @ (xmm_loads RSP stack_xmm [5, 4, 3, 2, 1, 0] @ AddImm RSP 0x60 # map Pop (rev ?rs))
        @ [Mov RAX R8, Vmload RAX, Ret]" by (simp add: svm_leave_def)
  have e0: "exec alu [Vmsave RAX] s = Inr s" by simp
  have r4: "ram s4 = ram s1" by (simp add: s4_def s3(3) s2_def)
  show ?thesis
  proof (rule that [of s4])
    show "exec alu svm_leave s = Inr s4" unfolding code
      by (rule exec_seq [OF e0], rule exec_seq [OF s1(1)], rule exec_seq [OF e2], rule exec_seq [OF s3(1)], rule e4)
    show "gpr s4 = f(RAX := f R8, RSP := sp + 8)" by (simp add: s4_def)
    show "xmms s4 i = x i" if "i < 6" for i using x3 that by (simp add: s4_def)
    show "ip s4 = ram s sp" using o1 [OF sep(2)] by (simp add: s4_def s3(3) s2_def off8_def)
    show "registers_at (ram s4) p = make_registers (\<lambda>r. if r = RAX \<or> r = RSP then ram s (p + off8 (reg_index r)) else gpr s r) (xmms s)
           (ram s (p + off8 15)) (ram s (p + off8 17))" unfolding r4 at
    proof (rule make_registers_eqI)
      show "(if r \<in> set (R15 # ?g) then gpr s r else ram s (p + off8 (reg_index r))) = (if r = RAX \<or> r = RSP then ram s (p + off8 (reg_index r)) else gpr s r)" for r
        by (cases r) simp_all
    qed simp_all
    show "ram s4 a = ram s a" if "a \<notin> words_from p 30" "a \<noteq> ?b" for a using o1 [OF that] by (simp add: r4)
  qed
qed

text \<open>
  C14. \<open>run_svm_guest\<close> does what the model of its caller assumes. Called with a
  16-byte aligned \<open>Registers\<close> and a stack pointer as the calling convention has it, and when the time in the guest
  leaves the host stack pointer, the 28 words of the frame, the return address and the structure as they are (the last
  three are not given to the guest), no instruction faults; VMRUN starts with RAX the address of the guest control
  block and every other guest register but RSP as in the structure; and the function returns to its caller with every host
  register (RAX apart) and XMM0 to XMM5 as they were, with the registers at
  VM exit in the structure, its \<open>rax\<close>, \<open>rsp\<close>, \<open>rip\<close> and \<open>rflags\<close> kept as \<open>run_svm_guest\<close> has it, and with no other memory changed
  but the top word of the frame.\<close>

theorem run_svm_guest_asm_correct:
  assumes "aligned 4 (gpr s RCX)" and "aligned 4 (gpr s RSP - 8)"
    and "words_from (gpr s RSP - off8 28) 28 \<inter> words_from (gpr s RCX) 30 = {}" and "gpr s RSP \<notin> words_from (gpr s RCX) 30"
    and vm: "\<And>t. gpr (vmrun t) RSP = gpr t RSP"
      "\<And>t a. a \<in> words_from (gpr s RSP - off8 28) 28 \<union> {gpr s RSP} \<union> words_from (gpr s RCX) 30 \<Longrightarrow> ram (vmrun t) a = ram t a"
  shows "\<exists>s1 s2. exec alu svm_enter s = Inr s1 \<and> run_svm_guest_asm alu vmrun s = Inr s2
    \<and> gpr s1 RAX = gpr s RDX
    \<and> (let g = registers_at (ram s) (gpr s RCX) in
        (make_registers (gpr s1) (xmms s1) 0 0)\<lparr>rax := rax g, rsp := rsp g, rflags := rflags g, rip := rip g\<rparr> = g)
    \<and> gpr s2 = (gpr s)(RAX := gpr s R8, RSP := gpr s RSP + 8) \<and> (\<forall>i<6. xmms s2 i = xmms s i) \<and> ip s2 = ram s (gpr s RSP)
    \<and> (\<forall>ex guest m. svm_registers guest = registers_at (ram s) (gpr s RCX) \<and> sx_gprs ex = make_registers (gpr (vmrun s1)) (xmms (vmrun s1)) 0 0
         \<longrightarrow> registers_at (ram s2) (gpr s RCX) = svm_registers (fst (run_svm_guest ex guest m)))
    \<and> (\<forall>a. a \<notin> words_from (gpr s RCX) 30 \<and> a \<noteq> gpr s RSP - off8 28 \<longrightarrow> ram s2 a = ram (vmrun s1) a)"
proof -
  let ?sp = "gpr s RSP" and ?p = "gpr s RCX" and ?rs = svm_host_regs
  note sep = assms(3)
  obtain s1 where s1: "exec alu svm_enter s = Inr s1"
    "gpr s1 = (\<lambda>r. if r = RAX then gpr s RDX else if r = RSP then ?sp - off8 28 else ram s (?p + off8 (reg_index r)))"
    and x1: "\<And>i. i < 6 \<Longrightarrow> xmms s1 i = xmm_at (ram s) (?p + off8 18) i"
    and saved: "saved_host ?rs (gpr s) (xmms s) ?sp (ram s1)" and top: "ram s1 (?sp - off8 28) = ?p"
    and o1: "\<And>a. a \<notin> words_from (?sp - off8 28) 28 \<Longrightarrow> ram s1 a = ram s a"
    by (rule svm_enter_effect [OF refl assms(1) refl assms(2) sep, of alu]) (rule that)
  define v where "v = vmrun s1"
  have keep: "ram v a = ram s1 a" if "a \<in> words_from (?sp - off8 28) 28 \<or> a = ?sp \<or> a \<in> words_from ?p 30" for a
    using vm(2) [of a s1] that by (auto simp: v_def)
  have pv: "gpr v RSP = ?sp - off8 28" "ram v (?sp - off8 28) = ?p" using vm(1) [of s1] keep frame_parts(2) top by (simp_all add: v_def s1(2))
  have savedv: "saved_host ?rs (gpr s) (xmms s) ?sp (ram v)"
    using saved saved_host_cong [of ?sp "ram v" "ram s1" ?rs] keep frame_parts(1) [of ?sp] by (auto simp: svm_host_regs_def)
  have fv: "ram v (?p + off8 k) = ram s (?p + off8 k)" if "k < 30" for k using keep o1 sep in_words_from [OF that, of ?p] by fastforce
  obtain s2 where s2: "exec alu svm_leave v = Inr s2" "gpr s2 = (gpr s)(RAX := gpr s R8, RSP := ?sp + 8)" "ip s2 = ram v ?sp"
    and x2: "\<And>i. i < 6 \<Longrightarrow> xmms s2 i = xmms s i"
    and at: "registers_at (ram s2) ?p = make_registers (\<lambda>r. if r = RAX \<or> r = RSP then ram v (?p + off8 (reg_index r)) else gpr v r) (xmms v)
           (ram v (?p + off8 15)) (ram v (?p + off8 17))"
    and o2: "\<And>a. a \<notin> words_from ?p 30 \<Longrightarrow> a \<noteq> ?sp - off8 28 \<Longrightarrow> ram s2 a = ram v a"
    by (rule svm_leave_effect [OF pv(1) assms(2) pv(2) assms(1) sep assms(4) savedv, of alu]) (rule that)
  have "exec alu svm_enter s = Inr s1 \<and> run_svm_guest_asm alu vmrun s = Inr s2" using s1(1) s2(1) by (simp add: run_svm_guest_asm_def v_def)
  moreover have "(make_registers (gpr s1) (xmms s1) 0 0)\<lparr>rax := rax g, rsp := rsp g, rflags := rflags g, rip := rip g\<rparr> = g"
    if "g = registers_at (ram s) ?p" for g
    using that x1 by (simp add: registers_at_def make_registers_def s1(2))
  moreover have "registers_at (ram s2) ?p = svm_registers (fst (run_svm_guest ex guest m))"
    if "svm_registers guest = registers_at (ram s) ?p" "sx_gprs ex = make_registers (gpr v) (xmms v) 0 0" for ex guest and m :: svm_machine
    using that fv unfolding at by (simp add: run_svm_guest_def Let_def registers_at_def make_registers_def)
  moreover have "ip s2 = ram s ?sp" using s2(3) keep o1 frame_parts(4) by simp
  ultimately show ?thesis using s1(2) s2(2) x2 o2 by (intro exI [of _ s1] exI [of _ s2]) (simp add: v_def Let_def)
qed

theorem run_svm_guest_asm_correct_witness:
  "\<exists>s1 s2. exec (\<lambda>_ _. 2) svm_enter sample_state = Inr s1 \<and> gpr s1 RBX = 0x1009 \<and> gpr s1 RAX = 0x18
     \<and> run_svm_guest_asm (\<lambda>_ _. 2) (\<lambda>t. t\<lparr>gpr := (\<lambda>_. 5)(RSP := gpr t RSP)\<rparr>) sample_state = Inr s2
     \<and> gpr s2 RBX = 8 \<and> gpr s2 RSP = 0x8010 \<and> ip s2 = 0x8009"
proof -
  let ?s = sample_state and ?v = "\<lambda>t :: cpu_state. t\<lparr>gpr := (\<lambda>_. 5)(RSP := gpr t RSP)\<rparr>"
  have al: "aligned 4 (gpr ?s RCX)" "aligned 4 (gpr ?s RSP - 8)" by (simp_all add: sample_state_def aligned_def)
  have sep: "words_from (gpr ?s RSP - off8 28) 28 \<inter> words_from (gpr ?s RCX) 30 = {}" "gpr ?s RSP \<notin> words_from (gpr ?s RCX) 30" by code_simp+
  have c: "gpr ?s RDX = 0x18" "gpr ?s RSP = 0x8008" "ram ?s 0x8008 = 0x8009" "gpr ?s RBX = 8" "rbx (registers_at (ram ?s) (gpr ?s RCX)) = 0x1009"
    by (simp_all add: sample_state_def off8_def registers_at_def make_registers_def)
  have rbx: "rbx (make_registers f x fl pc\<lparr>rax := a1, rsp := a2, rflags := a3, rip := a4\<rparr>) = f RBX" for f x fl pc a1 a2 a3 a4
    by (simp add: make_registers_def)
  obtain s1 s2 where r: "exec (\<lambda>_ _. 2) svm_enter ?s = Inr s1" "run_svm_guest_asm (\<lambda>_ _. 2) ?v ?s = Inr s2" "gpr s1 RAX = gpr ?s RDX"
    "gpr s2 = (gpr ?s)(RAX := gpr ?s R8, RSP := gpr ?s RSP + 8)" "ip s2 = ram ?s (gpr ?s RSP)"
    and g: "let g = registers_at (ram ?s) (gpr ?s RCX) in
        (make_registers (gpr s1) (xmms s1) 0 0)\<lparr>rax := rax g, rsp := rsp g, rflags := rflags g, rip := rip g\<rparr> = g"
    using run_svm_guest_asm_correct [OF al sep, of ?v "\<lambda>_ _. 2"] by auto
  have "gpr s1 RBX = 0x1009" using arg_cong [OF g [unfolded Let_def], of rbx] unfolding rbx c .
  then show ?thesis using r by (auto simp: c)
qed

section \<open>Intel\<close>

lemma vmx_enter_effect:
  assumes p: "gpr s RCX = p" "aligned 4 p" and sp: "gpr s RSP = sp" "aligned 4 (sp - 8)"
    and sep: "words_from (sp - off8 28) 28 \<inter> words_from p 30 = {}"
  obtains s1 where "exec alu vmx_enter s = Inr s1"
    and "gpr s1 = (\<lambda>r. if r = RSP then sp - off8 28 else ram s (p + off8 (reg_index r)))"
    and "\<And>i. i < 6 \<Longrightarrow> xmms s1 i = xmm_at (ram s) (p + off8 18) i"
    and "saved_host vmx_host_regs (gpr s) (xmms s) sp (ram s1)" and "ram s1 (sp - off8 28) = p"
    and "\<And>a. a \<notin> words_from (sp - off8 28) 28 \<Longrightarrow> ram s1 a = ram s a"
proof -
  let ?rs = vmx_host_regs and ?g = "[RAX, RBX, RCX, RDX, RDI, RSI, RBP, R8, R9, R10, R11, R12, R13, R14]" and ?mid = "[Mov R15 RCX, Push RCX]"
  have rs: "RSP \<notin> set ?rs" "length ?rs \<le> 15" "0x68 = off8 (27 - length ?rs)" by (simp_all add: vmx_host_regs_def off8_def)
  have g: "R15 \<notin> set ?g" by simp
  have mid: "exec alu ?mid t = Inr (t\<lparr>gpr := (gpr s)(R15 := p, RSP := sp - off8 28), ram := (ram t)(sp - off8 28 := p)\<rparr>)"
    if "gpr t = (gpr s)(RSP := sp - off8 27)" for t
    using frame_aligned(3) [OF sp(2), of 27] by (simp add: push_aligned that top_of_frame p set_gpr_def fun_upd_twist)
  have code: "vmx_enter = [Nop] @ (map Push ?rs @ SubImm RSP 0x68 # xmm_stores RSP stack_xmm [0, 1, 2, 3, 4, 5]) @ ?mid
        @ (xmm_loads R15 xmm_offset [0, 1, 2, 3, 4, 5] @ loads R15 (?g @ [R15]))" by (simp add: vmx_enter_def)
  show ?thesis
  proof (rule enter_blocks [OF p(2) sp sep rs g mid], fold code)
    fix s1 assume e: "exec alu vmx_enter s = Inr s1"
      and g1: "gpr s1 = (\<lambda>r. if r \<in> set (R15 # ?g) then ram s (p + off8 (reg_index r)) else if r = RSP then sp - off8 28 else gpr s r)"
      and rest: "\<And>i. i < 6 \<Longrightarrow> xmms s1 i = xmm_at (ram s) (p + off8 18) i" "saved_host ?rs (gpr s) (xmms s) sp (ram s1)"
        "ram s1 (sp - off8 28) = p" "\<And>a. a \<notin> words_from (sp - off8 28) 28 \<Longrightarrow> ram s1 a = ram s a"
    have "gpr s1 r = (if r = RSP then sp - off8 28 else ram s (p + off8 (reg_index r)))" for r unfolding g1 by (cases r) simp_all
    then show thesis using that [of s1] e rest by blast
  qed
qed

lemma vmx_Exit_effect:
  assumes b: "gpr s RSP = sp - off8 28" "aligned 4 (sp - 8)" and saved: "saved_host vmx_host_regs f x sp (ram s)"
  obtains s1 where "exec alu vmx_Exit s = Inr s1" and "gpr s1 = f(RAX := eflags s AND PUSHED_FLAGS, RSP := sp + 8)"
    and "\<And>i. i < 6 \<Longrightarrow> xmms s1 i = x i" and "ip s1 = ram s sp" and "\<And>a. a \<noteq> sp - off8 28 \<Longrightarrow> ram s1 a = ram s a"
proof -
  let ?rs = vmx_host_regs and ?fl = "eflags s AND PUSHED_FLAGS"
  have rs: "RSP \<notin> set ?rs" "length ?rs \<le> 15" "distinct ?rs" "0x68 = off8 (27 - length ?rs)" by (simp_all add: vmx_host_regs_def off8_def)
  define s1 where "s1 = s\<lparr>gpr := (gpr s)(RAX := ?fl, RSP := sp - off8 27), ram := (ram s)(sp - off8 28 := ?fl)\<rparr>"
  have e1: "exec alu [Pop RAX, Pushf, Pop RAX] s = Inr s1"
    using frame_aligned(3) [OF b(2)] by (simp add: pop_aligned push_aligned b(1) top_of_frame s1_def set_gpr_def fun_upd_twist)
  have g1: "gpr s1 RSP = sp - off8 27" by (simp add: s1_def)
  have saved1: "saved_host ?rs f x sp (ram s1)" using saved rs(2) by (simp add: s1_def saved_host_top)
  obtain s2 where s2: "exec alu (xmm_loads RSP stack_xmm [5, 4, 3, 2, 1, 0] @ AddImm RSP 0x68 # map Pop (rev ?rs)) s1 = Inr s2"
    "gpr s2 = (\<lambda>r. if r \<in> set ?rs then f r else if r = RSP then sp else gpr s1 r)" "ram s2 = ram s1" and x2: "\<And>i. i < 6 \<Longrightarrow> xmms s2 i = x i"
    by (rule restore_host [OF g1 b(2) rs saved1, of alu]) (rule that)
  have all: "r \<in> set ?rs \<longleftrightarrow> r \<noteq> RSP \<and> r \<noteq> RAX" for r by (cases r) (simp_all add: vmx_host_regs_def)
  define s3 where "s3 = s2\<lparr>gpr := f(RAX := ?fl, RSP := sp + 8), ip := ram s sp\<rparr>"
  have g2: "gpr s2 = f(RAX := ?fl, RSP := sp)" by (auto simp: s2(2) all s1_def)
  have "ram s1 sp = ram s sp" by (simp add: s1_def off8_def)
  then have "exec alu [Ret] s2 = Inr s3"
    using frame_aligned(1) [OF b(2)] by (simp add: pop_aligned g2 s2(3) s3_def set_gpr_def)
  then have "exec alu ([Pop RAX, Pushf, Pop RAX] @ (xmm_loads RSP stack_xmm [5, 4, 3, 2, 1, 0] @ AddImm RSP 0x68 # map Pop (rev ?rs)) @ [Ret]) s = Inr s3"
    by (intro exec_seq [OF e1] exec_seq [OF s2(1)])
  then have "exec alu vmx_Exit s = Inr s3" by (simp add: vmx_Exit_def)
  moreover have "ram s3 a = ram s a" if "a \<noteq> sp - off8 28" for a using that by (simp add: s3_def s2(3) s1_def)
  moreover have "gpr s3 = f(RAX := ?fl, RSP := sp + 8)" "ip s3 = ram s sp" by (simp_all add: s3_def)
  moreover have "xmms s3 i = x i" if "i < 6" for i using x2 [OF that] by (simp add: s3_def)
  ultimately show ?thesis using that by blast
qed

lemma vmx_VmExit_effect:
  assumes b: "gpr s RSP = sp - off8 28" "aligned 4 (sp - 8)" and p: "ram s (sp - off8 28) = p" "aligned 4 p"
    and sep: "words_from (sp - off8 28) 28 \<inter> words_from p 30 = {}"
  obtains s1 where "exec alu vmx_VmExit s = Inr s1" and "gpr s1 RSP = sp - off8 28" and "eflags s1 = eflags s"
    and "registers_at (ram s1) p = make_registers (\<lambda>r. if r = RSP then ram s (p + off8 (reg_index r)) else gpr s r) (xmms s)
           (ram s (p + off8 15)) (ram s (p + off8 17))"
    and "\<And>a. a \<notin> words_from p 30 \<Longrightarrow> a \<noteq> sp - off8 28 \<Longrightarrow> ram s1 a = ram s a"
proof -
  let ?g = "[RAX, RBX, RCX, RDX, RSI, RDI, RBP, R8, R9, R10, R11, R12, R13, R14]"
  have b30: "sp - off8 28 \<notin> words_from p 30" using sep frame_parts(2) [of sp] by blast
  have g: "R15 \<notin> set ?g" by simp
  have all: "(if r \<in> set (R15 # ?g) then gpr s r else ram s (p + off8 (reg_index r))) = (if r = RSP then ram s (p + off8 (reg_index r)) else gpr s r)" for r
    by (cases r) simp_all
  have code: "vmx_VmExit = [Nop, XchgMem R15 RSP] @ stores R15 ?g @ [Load RAX RSP 0, Store R15 (reg_offset R15) RAX]
        @ xmm_stores R15 xmm_offset [0, 1, 2, 3, 4, 5]" by (simp add: vmx_VmExit_def)
  show ?thesis
    by (rule save_guest [OF b(1) frame_aligned(3) [OF b(2)] b30 p g, of alu, folded code, unfolded all]) (rule that)
qed

lemma vmx_resume_failed_effect:
  assumes b: "gpr s RSP = sp - off8 28" "aligned 4 (sp - 8)" and p: "ram s (sp - off8 28) = p" "aligned 4 p" and sep: "sp - off8 29 \<notin> words_from p 30"
    and guest: "gpr s R14 = ram s (p + off8 13)" "gpr s R15 = ram s (p + off8 14)"
  obtains t where "vmx_resume_failed alu ie label s = Inr (if ie = Some 5 then Some (sp - off8 28, label) else None, t)"
    and "ie = Some 5 \<Longrightarrow> gpr t = gpr s" and "gpr t RSP = sp - off8 28" and "xmms t = xmms s" and "ram t = (ram s)(sp - off8 29 := eflags s AND PUSHED_FLAGS)"
    and "ie \<noteq> Some 5 \<Longrightarrow> eflags t AND POPPED_FLAGS = eflags s AND POPPED_FLAGS"
proof -
  let ?fl = "eflags s AND PUSHED_FLAGS"
  define v where "v = (case ie of Some n \<Rightarrow> n | None \<Rightarrow> 0x4400)"
  define s2 where "s2 = s\<lparr>gpr := (gpr s)(R15 := v, RSP := sp - off8 29), ram := (ram s)(sp - off8 29 := ?fl)\<rparr>"
  have al: "aligned 3 (sp - off8 28)" "aligned 3 (sp - off8 29)" using frame_aligned(3) [OF b(2)] by blast+
  have e1: "exec alu [Pushf, MovImm R15 0x4400] s = Inr (s2\<lparr>gpr := (gpr s2)(R15 := 0x4400)\<rparr>)"
    using al by (simp add: push_aligned b(1) top_of_frame s2_def set_gpr_def fun_upd_twist)
  have e2: "(case ie of Some n \<Rightarrow> set_gpr R15 n (s2\<lparr>gpr := (gpr s2)(R15 := 0x4400)\<rparr>) | None \<Rightarrow> s2\<lparr>gpr := (gpr s2)(R15 := 0x4400)\<rparr>) = s2"
    by (cases ie) (simp_all add: s2_def v_def set_gpr_def fun_upd_twist)
  define s3 where "s3 = s2\<lparr>eflags := alu (CmpImm R15 5) s2\<rparr>"
  have five: "gpr s2 R15 = 5 \<longleftrightarrow> ie = Some 5" by (cases ie) (simp_all add: s2_def v_def)
  have unfold: "vmx_resume_failed alu ie label s = (if ie = Some 5 then
       asm_then (exec alu [Pop R15, Nop, MovImm R15 0x6c14] s3) (\<lambda>s4.
       asm_then (exec alu [MovImm R14 label, MovImm R15 0x6c16] s4) (\<lambda>s5.
       asm_then (exec alu (Load R15 RSP 0 # loads R15 [R14, R15]) s5) (\<lambda>s6. Inr (Some (gpr s4 RSP, gpr s5 R14), s6))))
     else asm_then (exec alu [Popf] s3) (\<lambda>s4. Inr (None, s4)))"
    unfolding vmx_resume_failed_def e1 asm_then_simps Let_def e2 five by (simp add: s3_def)
  have g3: "gpr s3 = (gpr s)(R15 := v, RSP := sp - off8 29)" "ram s3 = (ram s)(sp - off8 29 := ?fl)" "xmms s3 = xmms s" by (simp_all add: s3_def s2_def)
  show ?thesis
  proof (cases "ie = Some 5")
    case True
    define t where "t = s3\<lparr>gpr := gpr s\<rparr>"
    have ne: "sp - off8 28 \<noteq> sp - off8 29" "p + off8 13 \<noteq> sp - off8 29" "p + off8 14 \<noteq> sp - off8 29"
      using off8_inject [of 28 29] not_field [OF sep, of 13] not_field [OF sep, of 14] by auto
    have gt: "(gpr s)(RSP := sp - off8 28, R14 := ram s (p + off8 13), R15 := ram s (p + off8 14)) = gpr s"
      using b(1) guest by (auto simp: fun_eq_iff)
    have "vmx_resume_failed alu ie label s = Inr (Some (sp - off8 28, label), t)"
      using True al aligned_fields(3) [OF p(2), of 13] aligned_fields(3) [OF p(2), of 14] ne p(1) gt unfolding unfold
      by (simp add: pop_aligned g3 top_of_frame load_def loads_def offsets(1) set_gpr_def fun_upd_twist t_def del: reg_offset.simps)
    then show ?thesis using that [of t] True b(1) by (simp add: t_def g3)
  next
    case False
    define t where "t = s3\<lparr>gpr := (gpr s)(R15 := v, RSP := sp - off8 28), eflags := popped ?fl (eflags s3)\<rparr>"
    have "vmx_resume_failed alu ie label s = Inr (None, t)"
      using False al unfolding unfold by (simp add: pop_aligned g3 top_of_frame set_gpr_def t_def)
    then show ?thesis using that [of t] False popped_restores [of "eflags s" "eflags s3"] by (simp add: t_def g3)
  qed
qed

lemma vmx_succeed_cong: "a AND POPPED_FLAGS = b AND POPPED_FLAGS \<Longrightarrow> vmx_succeed a m = vmx_succeed b m"
proof -
  assume eq: "a AND POPPED_FLAGS = b AND POPPED_FLAGS"
  have "POPPED_FLAGS AND FLAGS_ZF = FLAGS_ZF" "POPPED_FLAGS AND FLAGS_CF = FLAGS_CF" by (simp_all add: POPPED_FLAGS_def)
  then have "a AND FLAGS_ZF = b AND FLAGS_ZF" "a AND FLAGS_CF = b AND FLAGS_CF" using eq by (metis and.assoc)+
  then show ?thesis by (simp add: vmx_succeed_def flags_contain_def)
qed

text \<open>What follows a VM exit: \<open>.VmExit\<close> and \<open>.Exit\<close>.\<close>

lemma vmx_exit_path:
  assumes b: "gpr v RSP = sp - off8 28" "aligned 4 (sp - 8)" and p: "ram v (sp - off8 28) = p" "aligned 4 p"
    and sep: "words_from (sp - off8 28) 28 \<inter> words_from p 30 = {}" "sp \<notin> words_from p 30" and saved: "saved_host vmx_host_regs f x sp (ram v)"
  obtains s2 where "asm_then (exec alu vmx_VmExit v) (exec alu vmx_Exit) = Inr s2"
    and "gpr s2 = f(RAX := eflags v AND PUSHED_FLAGS, RSP := sp + 8)" and "\<And>i. i < 6 \<Longrightarrow> xmms s2 i = x i" and "ip s2 = ram v sp"
    and "registers_at (ram s2) p = make_registers (\<lambda>r. if r = RSP then ram v (p + off8 (reg_index r)) else gpr v r) (xmms v)
           (ram v (p + off8 15)) (ram v (p + off8 17))"
proof -
  obtain s1 where s1: "exec alu vmx_VmExit v = Inr s1" "gpr s1 RSP = sp - off8 28" "eflags s1 = eflags v"
    and at: "registers_at (ram s1) p = make_registers (\<lambda>r. if r = RSP then ram v (p + off8 (reg_index r)) else gpr v r) (xmms v)
           (ram v (p + off8 15)) (ram v (p + off8 17))"
    and o1: "\<And>a. a \<notin> words_from p 30 \<Longrightarrow> a \<noteq> sp - off8 28 \<Longrightarrow> ram s1 a = ram v a"
    by (rule vmx_VmExit_effect [OF b p sep(1), of alu]) (rule that)
  have "ram s1 a = ram v a" if "a \<in> words_from (sp - off8 27) 27" for a
    using o1 [of a] that frame_parts(1,3) [of sp] sep(1) by auto
  then have saved1: "saved_host vmx_host_regs f x sp (ram s1)"
    using saved saved_host_cong [of sp "ram s1" "ram v" vmx_host_regs f x] by (simp add: vmx_host_regs_def)
  obtain s2 where s2: "exec alu vmx_Exit s1 = Inr s2" "gpr s2 = f(RAX := eflags s1 AND PUSHED_FLAGS, RSP := sp + 8)" "ip s2 = ram s1 sp"
    and x2: "\<And>i. i < 6 \<Longrightarrow> xmms s2 i = x i" and o2: "\<And>a. a \<noteq> sp - off8 28 \<Longrightarrow> ram s2 a = ram s1 a"
    by (rule vmx_Exit_effect [OF s1(2) b(2) saved1, of alu]) (rule that)
  show ?thesis
  proof (rule that [OF _ _ x2])
    show "asm_then (exec alu vmx_VmExit v) (exec alu vmx_Exit) = Inr s2" by (simp only: s1(1) s2(1) asm_then_simps)
    show "gpr s2 = f(RAX := eflags v AND PUSHED_FLAGS, RSP := sp + 8)" by (simp only: s2(2) s1(3))
    show "ip s2 = ram v sp" using o1 [OF sep(2)] s2(3) by (simp add: off8_def)
    show "registers_at (ram s2) p = make_registers (\<lambda>r. if r = RSP then ram v (p + off8 (reg_index r)) else gpr v r) (xmms v)
           (ram v (p + off8 15)) (ram v (p + off8 17))"
      unfolding at [symmetric] by (intro registers_at_cong o2) (use sep(1) frame_parts(2) [of sp] in blast)
  qed
qed

text \<open>The event of the model of \<open>run_vmx_guest\<close> that a VM entry is.\<close>

fun entry_event :: "vmx_event \<Rightarrow> u64 + cpu_state \<Rightarrow> bool" where
  "entry_event (EntryFailure flags n) (Inl fl) \<longleftrightarrow> flags = fl"
| "entry_event (GuestExit ex) (Inr u) \<longleftrightarrow> ex_gprs ex = make_registers (gpr u) (xmms u) 0 0"
| "entry_event _ _ \<longleftrightarrow> False"

lemma pushed_popped: "(a AND PUSHED_FLAGS) AND POPPED_FLAGS = a AND POPPED_FLAGS"
  by (simp add: PUSHED_FLAGS_def POPPED_FLAGS_def and.assoc)

lemma enter_guest_exit:
  assumes "entry_event ev (Inr u)"
  shows "fst (enter_guest ev pa g m) = 2"
    and "fst (snd (enter_guest ev pa g m)) = (make_registers (gpr u) (xmms u) 0 0)\<lparr>rip := rip g, rsp := rsp g, rflags := rflags g\<rparr>"
  using assms by (cases ev; simp add: enter_guest_def Let_def)+

lemma enter_guest_failure:
  assumes "entry_event ev (Inl fl)" shows "fst (enter_guest ev pa g m) = fl" and "fst (snd (enter_guest ev pa g m)) = g"
  using assms by (cases ev; simp add: enter_guest_def)+

lemma sep_29:
  assumes "words_from (sp - off8 29) 30 \<inter> words_from p 30 = {}"
  shows "words_from (sp - off8 28) 28 \<inter> words_from p 30 = {}" and "sp \<notin> words_from p 30" and "sp - off8 29 \<notin> words_from p 30"
proof -
  have eq: "sp - off8 28 = sp - off8 29 + off8 1" "sp - off8 29 + off8 29 = sp" by (simp_all add: off8_def)
  have "words_from (sp - off8 28) 28 \<subseteq> words_from (sp - off8 29) 30" unfolding eq(1) by (rule words_from_sub) simp
  moreover have "sp \<in> words_from (sp - off8 29) 30" "sp - off8 29 \<in> words_from (sp - off8 29) 30"
    using in_words_from [of 29 30 "sp - off8 29"] in_words_from [of 0 30 "sp - off8 29"] by (simp_all add: eq(2) off8_simps(1))
  ultimately show "words_from (sp - off8 28) 28 \<inter> words_from p 30 = {}" "sp \<notin> words_from p 30" "sp - off8 29 \<notin> words_from p 30"
    using assms by blast+
qed

text \<open>
  \<open>run_vmx_guest\<close> has returned to the caller that had the state \<open>s\<close>, and the last VM entry had the
  outcome \<open>r\<close>: the host registers are back, the caller reads the outcome from RAX, and the structure has the registers, as
  \<open>enter_guest\<close> has it.
\<close>

definition vmx_returned :: "cpu_state \<Rightarrow> u64 + cpu_state \<Rightarrow> cpu_state \<Rightarrow> bool" where
  "vmx_returned s r s2 \<longleftrightarrow>
     gpr s2 = (gpr s)(RAX := gpr s2 RAX, RSP := gpr s RSP + 8) \<and> (\<forall>i<6. xmms s2 i = xmms s i) \<and> ip s2 = ram s (gpr s RSP)
     \<and> (let p = gpr s RCX; g = registers_at (ram s) p in
        \<forall>ev pa m. entry_event ev r \<longrightarrow> vmx_succeed (gpr s2 RAX) = vmx_succeed (fst (enter_guest ev pa g m))
          \<and> registers_at (ram s2) p = fst (snd (enter_guest ev pa g m)))"

text \<open>The end of \<open>run_vmx_guest\<close> after a VM exit to a state \<open>v\<close> and after a failed entry in a state \<open>v\<close>, from the state
  at the VM entry.\<close>

lemma vmx_exit_outcome:
  assumes sp: "aligned 4 (sp - 8)" and p: "aligned 4 p" and sep: "words_from (sp - off8 29) 30 \<inter> words_from p 30 = {}"
    and saved: "saved_host vmx_host_regs f x sp w" and top: "w (sp - off8 28) = p" and at: "registers_at w p = g"
    and v: "gpr v RSP = sp - off8 28" "eflags v = 2" "\<And>a. a \<in> words_from (sp - off8 28) 29 \<union> words_from p 30 \<Longrightarrow> ram v a = w a"
  obtains s2 where "asm_then (exec alu vmx_VmExit v) (exec alu vmx_Exit) = Inr s2"
    and "gpr s2 = f(RAX := 2, RSP := sp + 8)" and "\<And>i. i < 6 \<Longrightarrow> xmms s2 i = x i" and "ip s2 = w sp"
    and "registers_at (ram s2) p = (make_registers (gpr v) (xmms v) 0 0)\<lparr>rip := rip g, rsp := rsp g, rflags := rflags g\<rparr>"
proof -
  note s29 = sep_29 [OF sep]
  have "sp \<in> words_from (sp - off8 28) 29" using in_words_from [of 28 29 "sp - off8 28"] by (simp add: off8_def)
  then have vsp: "ram v sp = w sp" using v(3) by blast
  have fr: "ram v a = w a" if "a \<in> words_from (sp - off8 28) 28" for a using v(3) words_from_mono [of 28 29 "sp - off8 28"] that by auto
  have vp: "ram v (sp - off8 28) = p" using fr [OF frame_parts(2)] top by simp
  have savedv: "saved_host vmx_host_regs f x sp (ram v)"
    using saved saved_host_cong [of sp "ram v" w vmx_host_regs f x] fr frame_parts(1) [of sp] by (auto simp: vmx_host_regs_def)
  have gv: "registers_at (ram v) p = g" unfolding at [symmetric] using v(3) by (intro registers_at_cong) blast
  have two: "eflags v AND PUSHED_FLAGS = 2" by (simp add: v(2) PUSHED_FLAGS_def)
  show ?thesis
  proof (rule vmx_exit_path [OF v(1) sp vp p s29(1,2) savedv, of alu], unfold two vsp)
    fix s2 assume s2: "asm_then (exec alu vmx_VmExit v) (exec alu vmx_Exit) = Inr s2" "gpr s2 = f(RAX := 2, RSP := sp + 8)"
      "\<And>i. i < 6 \<Longrightarrow> xmms s2 i = x i" "ip s2 = w sp"
      and a2: "registers_at (ram s2) p = make_registers (\<lambda>r. if r = RSP then ram v (p + off8 (reg_index r)) else gpr v r) (xmms v)
           (ram v (p + off8 15)) (ram v (p + off8 17))"
    show thesis by (rule that [OF s2], unfold a2 gv [symmetric]) (simp_all add: registers_at_def make_registers_def)
  qed
qed

lemma vmx_failure_outcome:
  assumes sp: "aligned 4 (sp - 8)" and sep: "words_from (sp - off8 29) 30 \<inter> words_from p 30 = {}"
    and saved: "saved_host vmx_host_regs f x sp w" and at: "registers_at w p = g"
    and v: "gpr v RSP = sp - off8 28" "ram v = w(sp - off8 29 := c)"
  obtains s2 where "exec alu vmx_Exit v = Inr s2" and "gpr s2 = f(RAX := eflags v AND PUSHED_FLAGS, RSP := sp + 8)"
    and "\<And>i. i < 6 \<Longrightarrow> xmms s2 i = x i" and "ip s2 = w sp" and "registers_at (ram s2) p = g"
proof -
  note s29 = sep_29 [OF sep]
  have ne: "sp - off8 29 \<notin> words_from (sp - off8 27) 27"
  proof -
    have "sp - off8 27 + off8 k = sp - off8 29 + off8 (k + 2)" for k by (simp add: off8_def)
    moreover have "sp - off8 29 + off8 (k + 2) \<noteq> sp - off8 29 + off8 0" if "k < 27" for k using field_inject [of "k + 2" 0 "sp - off8 29"] that by simp
    ultimately show ?thesis by (force simp: words_from_def off8_def)
  qed
  have savedv: "saved_host vmx_host_regs f x sp (ram v)"
    by (rule iffD2 [OF saved_host_cong saved]) (use ne in \<open>auto simp: v(2) vmx_host_regs_def\<close>)
  have vsp: "ram v sp = w sp" by (simp add: v(2) off8_def)
  show ?thesis
  proof (rule vmx_Exit_effect [OF v(1) sp savedv, of alu], unfold vsp)
    fix s2 assume s2: "exec alu vmx_Exit v = Inr s2" "gpr s2 = f(RAX := eflags v AND PUSHED_FLAGS, RSP := sp + 8)"
      "\<And>i. i < 6 \<Longrightarrow> xmms s2 i = x i" "ip s2 = w sp" and o2: "\<And>a. a \<noteq> sp - off8 28 \<Longrightarrow> ram s2 a = ram v a"
    have "ram s2 a = w a" if "a \<in> words_from p 30" for a
    proof -
      have "a \<noteq> sp - off8 28" "a \<noteq> sp - off8 29" using that s29(1,3) frame_parts(2) [of sp] by blast+
      then show ?thesis using o2 by (simp add: v(2))
    qed
    then have "registers_at (ram s2) p = g" unfolding at [symmetric] by (rule registers_at_cong)
    with s2 show thesis by (rule that)
  qed
qed

lemma not_below: "sp - off8 29 \<notin> words_from (sp - off8 28) 29"
proof -
  have "sp - off8 28 + off8 k = sp - off8 29 + off8 (k + 1)" for k by (simp add: off8_def)
  moreover have "sp - off8 29 + off8 (k + 1) \<noteq> sp - off8 29 + off8 0" if "k < 29" for k using field_inject [of "k + 1" 0 "sp - off8 29"] that by simp
  ultimately show ?thesis by (force simp: words_from_def off8_def)
qed

lemma vmx_exited:
  assumes "aligned 4 (gpr s RCX)" and "aligned 4 (gpr s RSP - 8)" and "words_from (gpr s RSP - off8 29) 30 \<inter> words_from (gpr s RCX) 30 = {}"
    and "saved_host vmx_host_regs (gpr s) (xmms s) (gpr s RSP) w" and "w (gpr s RSP - off8 28) = gpr s RCX"
    and "registers_at w (gpr s RCX) = registers_at (ram s) (gpr s RCX)" and "w (gpr s RSP) = ram s (gpr s RSP)"
    and "gpr v RSP = gpr s RSP - off8 28" and "eflags v = 2"
    and "\<And>a. a \<in> words_from (gpr s RSP - off8 28) 29 \<union> words_from (gpr s RCX) 30 \<Longrightarrow> ram v a = w a"
  shows "\<exists>s2. asm_then (exec alu vmx_VmExit v) (exec alu vmx_Exit) = Inr s2 \<and> vmx_returned s (Inr v) s2"
proof (rule vmx_exit_outcome [OF assms(2,1,3-6,8-10), of alu])
  fix s2 let ?g = "registers_at (ram s) (gpr s RCX)"
  assume e: "asm_then (exec alu vmx_VmExit v) (exec alu vmx_Exit) = Inr s2" and s2: "gpr s2 = (gpr s)(RAX := 2, RSP := gpr s RSP + 8)" "ip s2 = w (gpr s RSP)"
    and x2: "\<And>i. i < 6 \<Longrightarrow> xmms s2 i = xmms s i"
    and a2: "registers_at (ram s2) (gpr s RCX) = (make_registers (gpr v) (xmms v) 0 0)\<lparr>rip := rip ?g, rsp := rsp ?g, rflags := rflags ?g\<rparr>"
  have rax: "gpr s2 RAX = 2" by (simp add: s2(1))
  have "vmx_succeed (gpr s2 RAX) = vmx_succeed (fst (enter_guest ev pa ?g m)) \<and> registers_at (ram s2) (gpr s RCX) = fst (snd (enter_guest ev pa ?g m))"
    if "entry_event ev (Inr v)" for ev pa m by (simp only: rax a2 enter_guest_exit [OF that] simp_thms)
  moreover have "gpr s2 = (gpr s)(RAX := gpr s2 RAX, RSP := gpr s RSP + 8)" unfolding rax by (rule s2(1))
  ultimately have "vmx_returned s (Inr v) s2" unfolding vmx_returned_def Let_def using x2 s2(2) assms(7) by simp
  with e show ?thesis by blast
qed

lemma vmx_failed:
  assumes "aligned 4 (gpr s RSP - 8)" and "words_from (gpr s RSP - off8 29) 30 \<inter> words_from (gpr s RCX) 30 = {}"
    and "saved_host vmx_host_regs (gpr s) (xmms s) (gpr s RSP) w"
    and "registers_at w (gpr s RCX) = registers_at (ram s) (gpr s RCX)" and "w (gpr s RSP) = ram s (gpr s RSP)"
    and "gpr v RSP = gpr s RSP - off8 28" and "ram v = w(gpr s RSP - off8 29 := c)" and "eflags v AND POPPED_FLAGS = fl AND POPPED_FLAGS"
  shows "\<exists>s2. exec alu vmx_Exit v = Inr s2 \<and> vmx_returned s (Inl fl) s2"
proof (rule vmx_failure_outcome [OF assms(1-4,6,7), of alu])
  fix s2 assume e: "exec alu vmx_Exit v = Inr s2" and s2: "gpr s2 = (gpr s)(RAX := eflags v AND PUSHED_FLAGS, RSP := gpr s RSP + 8)" "ip s2 = w (gpr s RSP)"
    and x2: "\<And>i. i < 6 \<Longrightarrow> xmms s2 i = xmms s i" and a2: "registers_at (ram s2) (gpr s RCX) = registers_at (ram s) (gpr s RCX)"
  have "vmx_succeed (eflags v AND PUSHED_FLAGS) = vmx_succeed fl" by (rule ext, rule vmx_succeed_cong) (simp add: pushed_popped assms(8))
  then have "vmx_returned s (Inl fl) s2" using s2 x2 by (simp add: vmx_returned_def enter_guest_failure a2 assms(5))
  with e show ?thesis by blast
qed

lemma vmx_not_resumed:
  assumes "aligned 4 (gpr s RCX)" and "aligned 4 (gpr s RSP - 8)" and "words_from (gpr s RSP - off8 29) 30 \<inter> words_from (gpr s RCX) 30 = {}"
    and state: "saved_host vmx_host_regs (gpr s) (xmms s) (gpr s RSP) (ram s1)" "ram s1 (gpr s RSP - off8 28) = gpr s RCX"
      "registers_at (ram s1) (gpr s RCX) = registers_at (ram s) (gpr s RCX)" "ram s1 (gpr s RSP) = ram s (gpr s RSP)"
    and c: "gpr s1 RSP = gpr s RSP - off8 28" "gpr s1 R14 = ram s1 (gpr s RCX + off8 13)" "gpr s1 R15 = ram s1 (gpr s RCX + off8 14)"
    and launch: "\<And>host t u. vmlaunch host t = Inr u \<Longrightarrow> gpr u RSP = fst host \<and> eflags u = 2
      \<and> (\<forall>a \<in> words_from (gpr s RSP - off8 28) 29 \<union> words_from (gpr s RCX) 30. ram u a = ram t a)"
  shows "\<exists>t s2. asm_then (vmx_resume_failed alu ie label s1) (\<lambda>(host, s2). case host of None \<Rightarrow> exec alu vmx_Exit s2
           | Some h \<Rightarrow> (case vmlaunch h s2 of Inr s3 \<Rightarrow> asm_then (exec alu vmx_VmExit s3) (exec alu vmx_Exit)
              | Inl fl2 \<Rightarrow> exec alu vmx_Exit (s2\<lparr>eflags := fl2\<rparr>))) = Inr s2 \<and> (ie = Some 5 \<longrightarrow> gpr t = gpr s1) \<and> xmms t = xmms s1
      \<and> vmx_returned s (if ie = Some 5 then vmlaunch (gpr s RSP - off8 28, label) t else Inl (eflags s1)) s2"
proof -
  let ?sp = "gpr s RSP" and ?p = "gpr s RCX"
  note s29 = sep_29 [OF assms(3)]
  obtain t where t: "vmx_resume_failed alu ie label s1 = Inr (if ie = Some 5 then Some (?sp - off8 28, label) else None, t)"
    "ie = Some 5 \<Longrightarrow> gpr t = gpr s1" "gpr t RSP = ?sp - off8 28" "xmms t = xmms s1" "ram t = (ram s1)(?sp - off8 29 := eflags s1 AND PUSHED_FLAGS)"
    "ie \<noteq> Some 5 \<Longrightarrow> eflags t AND POPPED_FLAGS = eflags s1 AND POPPED_FLAGS"
    by (rule vmx_resume_failed_effect [OF c(1) assms(2) state(2) assms(1) s29(3) c(2,3), of alu ie label]) (rule that)
  note failed = vmx_failed [OF assms(2,3) state(1,3,4)]
  show ?thesis
  proof (cases "ie = Some 5")
    case True
    have same: "ram t a = ram s1 a" if "a \<in> words_from (?sp - off8 28) 29 \<union> words_from ?p 30" for a
      using that s29(3) not_below by (auto simp: t(5))
    have "\<exists>s2. (case vmlaunch (?sp - off8 28, label) t of Inr s3 \<Rightarrow> asm_then (exec alu vmx_VmExit s3) (exec alu vmx_Exit)
        | Inl fl2 \<Rightarrow> exec alu vmx_Exit (t\<lparr>eflags := fl2\<rparr>)) = Inr s2 \<and> vmx_returned s (vmlaunch (?sp - off8 28, label) t) s2"
    proof (cases "vmlaunch (?sp - off8 28, label) t")
      case (Inr u)
      show ?thesis unfolding Inr sum.case using launch [OF Inr] same by (intro vmx_exited [OF assms(1-3) state]) auto
    next
      case (Inl fl2)
      show ?thesis unfolding Inl sum.case by (rule failed [where fl = fl2]) (simp_all add: t(3,5))
    qed
    then show ?thesis using True t(1,2,4) by auto
  next
    case False
    have "\<exists>s2. exec alu vmx_Exit t = Inr s2 \<and> vmx_returned s (Inl (eflags s1)) s2" by (rule failed [OF t(3,5) t(6) [OF False]])
    then show ?thesis using False t(1,4) by auto
  qed
qed

text \<open>
  C13. \<open>run_vmx_guest\<close> does what the model of its caller assumes, for VMRESUME, for the VMLAUNCH that follows when VMRESUME
  fails with error 5, and for failures. No instruction faults; the VM entries start
  with every guest register but RSP as in the structure; VMLAUNCH runs with the host RSP that finds the frame
  again and with the address of \<open>.VmExit\<close> in the VMCS; and the function returns to its caller with the host registers and XMM0 to XMM5 as
  they were, with RAX a value that \<open>vmx_succeed\<close> reads as the outcome of the last VM entry, and with the registers at VM exit in the structure (or the structure
  as it was, after a failure), as \<open>enter_guest\<close> has it. A VM exit loads RSP with the host RSP of the VMCS, which after a VMRESUME is the one of
  the first call, so that all calls are to be made with the same stack pointer.\<close>

theorem run_vmx_guest_asm_correct:
  assumes "aligned 4 (gpr s RCX)" and "aligned 4 (gpr s RSP - 8)" and "words_from (gpr s RSP - off8 29) 30 \<inter> words_from (gpr s RCX) 30 = {}"
    and resume: "\<And>t u. vmresume t = Inr u \<Longrightarrow> gpr u RSP = gpr s RSP - off8 28 \<and> eflags u = 2
      \<and> (\<forall>a \<in> words_from (gpr s RSP - off8 28) 29 \<union> words_from (gpr s RCX) 30. ram u a = ram t a)"
    and launch: "\<And>host t u. vmlaunch host t = Inr u \<Longrightarrow> gpr u RSP = fst host \<and> eflags u = 2
      \<and> (\<forall>a \<in> words_from (gpr s RSP - off8 28) 29 \<union> words_from (gpr s RCX) 30. ram u a = ram t a)"
  shows "\<exists>s1 t s2. exec alu vmx_enter s = Inr s1 \<and> run_vmx_guest_asm alu vmresume ie label vmlaunch s = Inr s2
    \<and> (let g = registers_at (ram s) (gpr s RCX) in
        (make_registers (gpr s1) (xmms s1) 0 0)\<lparr>rsp := rsp g, rflags := rflags g, rip := rip g\<rparr> = g)
    \<and> gpr t = gpr s1 \<and> xmms t = xmms s1
    \<and> vmx_returned s (case vmresume s1 of Inr u \<Rightarrow> Inr u
        | Inl fl \<Rightarrow> if ie = Some 5 then vmlaunch (gpr s RSP - off8 28, label) t else Inl fl) s2"
proof -
  let ?sp = "gpr s RSP" and ?p = "gpr s RCX" and ?run = "run_vmx_guest_asm alu vmresume ie label vmlaunch s"
  note s29 = sep_29 [OF assms(3)]
  obtain s1 where s1: "exec alu vmx_enter s = Inr s1" "gpr s1 = (\<lambda>r. if r = RSP then ?sp - off8 28 else ram s (?p + off8 (reg_index r)))"
    and x1: "\<And>i. i < 6 \<Longrightarrow> xmms s1 i = xmm_at (ram s) (?p + off8 18) i"
    and saved: "saved_host vmx_host_regs (gpr s) (xmms s) ?sp (ram s1)" and top: "ram s1 (?sp - off8 28) = ?p"
    and o1: "\<And>a. a \<notin> words_from (?sp - off8 28) 28 \<Longrightarrow> ram s1 a = ram s a"
    by (rule vmx_enter_effect [OF refl assms(1) refl assms(2) s29(1), of alu]) (rule that)
  have f1: "ram s1 a = ram s a" if "a \<in> words_from ?p 30" for a using o1 s29(1) that by blast
  have at1: "registers_at (ram s1) ?p = registers_at (ram s) ?p" by (rule registers_at_cong [OF f1])
  have ret: "ram s1 ?sp = ram s ?sp" by (rule o1 [OF frame_parts(4)])
  have "\<exists>t s2. ?run = Inr s2 \<and> gpr t = gpr s1 \<and> xmms t = xmms s1
      \<and> vmx_returned s (case vmresume s1 of Inr u \<Rightarrow> Inr u | Inl fl \<Rightarrow> if ie = Some 5 then vmlaunch (?sp - off8 28, label) t else Inl fl) s2"
  proof (cases "vmresume s1")
    case (Inr u)
    then have "\<exists>s2. asm_then (exec alu vmx_VmExit u) (exec alu vmx_Exit) = Inr s2 \<and> vmx_returned s (Inr u) s2"
      using resume [OF Inr] by (intro vmx_exited [OF assms(1-3) saved top at1 ret]) auto
    then show ?thesis using Inr s1(1) unfolding run_vmx_guest_asm_def by auto
  next
    case (Inl fl)
    define s1' where "s1' = s1\<lparr>eflags := fl\<rparr>"
    have c: "gpr s1' RSP = ?sp - off8 28" "gpr s1' R14 = ram s1' (?p + off8 13)" "gpr s1' R15 = ram s1' (?p + off8 14)"
      using f1 in_words_from [of 13 30 ?p] in_words_from [of 14 30 ?p] by (simp_all add: s1'_def s1(2))
    have "ram s1' = ram s1" by (simp add: s1'_def)
    note state = saved [folded this] top [folded this] at1 [folded this] ret [folded this]
    obtain t s2 where r: "asm_then (vmx_resume_failed alu ie label s1') (\<lambda>(host, s2). case host of None \<Rightarrow> exec alu vmx_Exit s2
           | Some h \<Rightarrow> (case vmlaunch h s2 of Inr s3 \<Rightarrow> asm_then (exec alu vmx_VmExit s3) (exec alu vmx_Exit)
              | Inl fl2 \<Rightarrow> exec alu vmx_Exit (s2\<lparr>eflags := fl2\<rparr>))) = Inr s2" "ie = Some 5 \<longrightarrow> gpr t = gpr s1'" "xmms t = xmms s1'"
      "vmx_returned s (if ie = Some 5 then vmlaunch (gpr s RSP - off8 28, label) t else Inl (eflags s1')) s2"
      using vmx_not_resumed [OF assms(1-3) state c, of vmlaunch alu ie label] launch by blast
    have "?run = Inr s2" unfolding run_vmx_guest_asm_def s1(1) asm_then_simps Inl sum.case s1'_def [symmetric] by (rule r(1))
    moreover have "eflags s1' = fl" "gpr s1' = gpr s1" "xmms s1' = xmms s1" by (simp_all add: s1'_def)
    ultimately show ?thesis using r(2-4) Inl by (cases "ie = Some 5") auto
  qed
  moreover have "(make_registers (gpr s1) (xmms s1) 0 0)\<lparr>rsp := rsp g, rflags := rflags g, rip := rip g\<rparr> = g"
    if "g = registers_at (ram s) ?p" for g
    using x1 by (simp add: that registers_at_def make_registers_def s1(2))
  ultimately show ?thesis using s1(1) unfolding Let_def by blast
qed

theorem run_vmx_guest_asm_correct_witness:
  "\<exists>s2. run_vmx_guest_asm (\<lambda>_ _. 2) (\<lambda>t. Inl 0x42) (Some 5) 0x500 (\<lambda>host t. Inr (t\<lparr>gpr := (\<lambda>_. 5)(RSP := fst host), eflags := 2\<rparr>)) sample_state = Inr s2
     \<and> gpr s2 RBX = 8 \<and> gpr s2 RSP = 0x8010 \<and> ip s2 = 0x8009"
proof -
  let ?s = sample_state and ?l = "\<lambda>host t. Inr (t\<lparr>gpr := (\<lambda>_. 5)(RSP := fst host), eflags := 2\<rparr>) :: u64 + cpu_state"
  have al: "aligned 4 (gpr ?s RCX)" "aligned 4 (gpr ?s RSP - 8)" by (simp_all add: sample_state_def aligned_def)
  have sep: "words_from (gpr ?s RSP - off8 29) 30 \<inter> words_from (gpr ?s RCX) 30 = {}" by code_simp
  have c: "gpr ?s RSP = 0x8008" "ram ?s 0x8008 = 0x8009" "gpr ?s RBX = 8" by (simp_all add: sample_state_def off8_def)
  obtain r s2 where "run_vmx_guest_asm (\<lambda>_ _. 2) (\<lambda>t. Inl 0x42) (Some 5) 0x500 ?l ?s = Inr s2" and ret: "vmx_returned ?s r s2"
    using run_vmx_guest_asm_correct [OF al sep, of "\<lambda>t. Inl 0x42" ?l "\<lambda>_ _. 2" "Some 5" "0x500"] by auto
  moreover have e: "gpr s2 = (gpr ?s)(RAX := gpr s2 RAX, RSP := gpr ?s RSP + 8)" and "ip s2 = ram ?s (gpr ?s RSP)" using ret by (simp_all add: vmx_returned_def)
  moreover have "gpr s2 RBX = 8" "gpr s2 RSP = 0x8010" using fun_cong [OF e, of RBX] fun_cong [OF e, of RSP] by (simp_all add: c)
  ultimately show ?thesis by (auto simp: c)
qed

end
