(* ===== verification/Assembly_Exceptions.thy ===== *)
theory Assembly_Exceptions
  imports Assembly_Properties
begin

unbundle bit_operations_syntax

text \<open>
  The exception handlers of \<open>interrupt_handlers.S\<close>, from the delivery of an exception up to the call of
  \<open>handle_host_exception\<close> (theory \<open>Interrupts\<close>), which panics, so that the code behind the call is never reached.
\<close>

section \<open>Delivery of an exception\<close>

text \<open>
  What the processor does in 64-bit mode without a change of the stack: it aligns RSP to 16 bytes and pushes SS, the
  old RSP, RFLAGS, CS, RIP and, for some exceptions, an error code. The exceptions with an error code are those of the
  Intel manual (8, 10 to 14, 17, 21) and #VC and #SX (29, 30) of AMD.
\<close>

definition pushes_error_code :: "nat \<Rightarrow> bool" where
  "pushes_error_code n \<longleftrightarrow> n \<in> {8, 10, 11, 12, 13, 14, 17, 21, 29, 30}"

fun pushes :: "u64 list \<Rightarrow> cpu_state \<Rightarrow> asm_fault + cpu_state" where
  "pushes [] s = Inr s"
| "pushes (v # vs) s = asm_then (push v s) (pushes vs)"

definition deliver_exception :: "u64 \<Rightarrow> u64 \<Rightarrow> u64 list \<Rightarrow> cpu_state \<Rightarrow> asm_fault + cpu_state" where
  "deliver_exception cs ss code s =
     pushes ([ss, gpr s RSP, eflags s, cs, ip s] @ code) (set_gpr RSP (gpr s RSP AND 0xfffffffffffffff0) s)"

definition handle_exception ::
  "(instr \<Rightarrow> cpu_state \<Rightarrow> u64) \<Rightarrow> u64 \<Rightarrow> u64 \<Rightarrow> nat \<Rightarrow> u64 list \<Rightarrow> cpu_state \<Rightarrow> asm_fault + cpu_state" where
  "handle_exception alu cs ss n code s =
     asm_then (deliver_exception cs ss code s) (exec alu (asm_interrupt_handler n @ asm_interrupt_handler_common))"

text \<open>The structure \<open>HostExceptionStack\<close> at an address.\<close>

definition exception_stack_at :: "(u64 \<Rightarrow> u64) \<Rightarrow> u64 \<Rightarrow> host_exception_stack" where
  "exception_stack_at w a =
     \<lparr>ex_r15 = w (a + off8 0), ex_r14 = w (a + off8 1), ex_r13 = w (a + off8 2), ex_r12 = w (a + off8 3), ex_r11 = w (a + off8 4),
      ex_r10 = w (a + off8 5), ex_r9 = w (a + off8 6), ex_r8 = w (a + off8 7), ex_rdi = w (a + off8 8), ex_rsi = w (a + off8 9),
      ex_rbp = w (a + off8 10), ex_rbx = w (a + off8 11), ex_rdx = w (a + off8 12), ex_rcx = w (a + off8 13), ex_rax = w (a + off8 14),
      exception_number = w (a + off8 15), error_code = w (a + off8 16), ex_rip = w (a + off8 17), ex_cs = w (a + off8 18),
      ex_rflags = w (a + off8 19), ex_rsp = w (a + off8 20), ex_ss = w (a + off8 21)\<rparr>"

section \<open>Pushes\<close>

lemma pushes_append: "pushes (xs @ ys) s = asm_then (pushes xs s) (pushes ys)"
  by (induction xs arbitrary: s) (simp_all add: asm_then_def split: sum.splits)

lemma pushes_effect:
  assumes "aligned 3 (gpr s RSP)" and "length vs < 900"
  obtains s' where "pushes vs s = Inr s'" and "gpr s' = (gpr s)(RSP := gpr s RSP - off8 (length vs))" and "xmms s' = xmms s"
    and "\<And>i. i < length vs \<Longrightarrow> ram s' (slot (gpr s RSP) i) = vs ! i"
proof -
  let ?sp = "gpr s RSP"
  have "\<exists>s'. pushes vs s = Inr s' \<and> gpr s' = (gpr s)(RSP := ?sp - off8 (length vs)) \<and> xmms s' = xmms s
      \<and> (\<forall>i < length vs. ram s' (slot ?sp i) = vs ! i)"
    using assms(2)
  proof (induction vs rule: rev_induct)
    case (snoc v vs)
    let ?n = "length vs"
    from snoc obtain s1 where s1: "pushes vs s = Inr s1" "gpr s1 = (gpr s)(RSP := ?sp - off8 ?n)" "xmms s1 = xmms s"
      "\<forall>i < ?n. ram s1 (slot ?sp i) = vs ! i" by force
    have al: "aligned 3 (gpr s1 RSP)" using assms(1) by (simp add: s1 aligned_intros)
    have sl: "gpr s1 RSP - 8 = slot ?sp ?n" by (simp add: s1 slot_def off8_simps)
    define s2 where "s2 = set_gpr RSP (slot ?sp ?n) (s1\<lparr>ram := (ram s1)(slot ?sp ?n := v)\<rparr>)"
    have "pushes (vs @ [v]) s = Inr s2" using push_aligned [OF al, of v] by (simp add: pushes_append s1(1) s2_def sl)
    moreover have "gpr s2 = (gpr s)(RSP := ?sp - off8 (length (vs @ [v])))" by (simp add: s2_def s1 slot_def)
    moreover have "ram s2 (slot ?sp i) = (vs @ [v]) ! i" if "i < length (vs @ [v])" for i
      using that s1(4) slot_inject [of i ?n ?sp] snoc.prems by (auto simp: s2_def nth_append less_Suc_eq)
    ultimately show ?case using s1 by (intro exI [of _ s2]) (simp add: s2_def)
  qed (simp add: off8_simps(1))
  then show ?thesis using that by blast
qed

lemma push_keeps: "push v s = Inr s1 \<Longrightarrow> r \<noteq> RSP \<Longrightarrow> gpr s1 r = gpr s r"
  by (auto simp: push_def store_def asm_then_def Let_def set_gpr_def split: if_splits)

lemma exec_pushes_eq: "RSP \<notin> set rs \<Longrightarrow> exec alu (map Push rs) s = pushes (map (gpr s) rs) s"
proof (induction rs arbitrary: s)
  case (Cons r rs)
  have "exec alu (map Push rs) s1 = pushes (map (gpr s) rs) s1" if "push (gpr s r) s = Inr s1" for s1
  proof -
    have "map (gpr s1) rs = map (gpr s) rs" using push_keeps [OF that] Cons.prems by (intro map_cong refl) (metis list.set_intros(2))
    moreover have "RSP \<notin> set rs" using Cons.prems by simp
    ultimately show ?thesis using Cons.IH [of s1] by metis
  qed
  then show ?case by (simp add: asm_then_def split: sum.splits)
qed simp

section \<open>Alignment\<close>

lemma align_mask: "(0xfffffffffffffff0 :: u64) = NOT (mask 4)"
  by (simp add: mask_eq_exp_minus_1)

lemma aligned_and: "aligned 4 (a AND 0xfffffffffffffff0)"
  unfolding aligned_def align_mask by (rule bit_word_eqI) (auto simp: bit_simps)

lemma and_align: "aligned 3 a \<Longrightarrow> a AND 0xfffffffffffffff0 = a - off8 (if bit a 3 then 1 else 0)"
proof -
  assume "aligned 3 a"
  then have low: "\<not> bit a i" if "i < 3" for i using that by (metis aligned_def bit_take_bit_iff bit_0_eq bot_apply bot_bool_def)
  have "take_bit 4 a = (if bit a 3 then 8 else 0)"
  proof (rule bit_word_eqI)
    fix i :: nat assume "i < LENGTH(64)"
    have "bit (8 :: u64) i \<longleftrightarrow> i = 3" using bit_exp_iff [of 3 i, where 'a = u64] by (auto simp: possible_bit_word)
    then show "bit (take_bit 4 a) i \<longleftrightarrow> bit (if bit a 3 then 8 else 0 :: u64) i"
      using low [of i] by (cases "i < 3"; cases "i = 3") (auto simp: bit_take_bit_iff)
  qed
  moreover have "a AND NOT (mask 4) = a - take_bit 4 a"
  proof -
    have "a - take_bit 4 a = a AND NOT (take_bit 4 a)"
      by (rule disjunctive_diff_eq_and_not) (rule bit_word_eqI, auto simp: bit_simps)
    also have "\<dots> = a AND NOT (mask 4)" by (rule bit_word_eqI) (auto simp: bit_simps)
    finally show ?thesis by simp
  qed
  ultimately show ?thesis unfolding align_mask by (simp add: off8_def)
qed

section \<open>The handlers\<close>

definition handler_regs :: "reg list" where
  "handler_regs = [RAX, RCX, RDX, RBX, RBP, RSI, RDI, R8, R9, R10, R11, R12, R13, R14, R15]"

text \<open>All that is pushed before the call.\<close>

definition handler_words :: "u64 \<Rightarrow> u64 \<Rightarrow> nat \<Rightarrow> u64 list \<Rightarrow> cpu_state \<Rightarrow> u64 list" where
  "handler_words cs ss n code s = [ss, gpr s RSP, eflags s, cs, ip s] @ code
     @ (if with_error_code n then [of_nat n] else [0, of_nat n]) @ map (gpr s) handler_regs"

lemma common_tail:
  assumes "aligned 3 (gpr s RSP)"
  obtains s1 where "exec alu ([Mov RCX RSP, Mov R15 RSP, AndImm RSP 0xfffffffffffffff0, SubImm RSP 0x60]
       @ xmm_stores RSP stack_xmm [0, 1, 2, 3, 4, 5] @ [SubImm RSP 0x20]) s = Inr s1"
    and "gpr s1 RCX = gpr s RSP" and "aligned 4 (gpr s1 RSP)" and "\<And>i. i < 30 \<Longrightarrow> ram s1 (gpr s RSP + off8 i) = ram s (gpr s RSP + off8 i)"
proof -
  let ?is = "[0, 1, 2, 3, 4, 5] :: nat list" and ?a = "gpr s RSP"
  define q where "q = (?a AND 0xfffffffffffffff0) - off8 12"
  have q: "aligned 4 q" unfolding q_def by (intro aligned_diff aligned_and aligned_off8) simp_all
  obtain s1 where s1: "exec alu [Mov RCX RSP, Mov R15 RSP, AndImm RSP 0xfffffffffffffff0, SubImm RSP 0x60] s = Inr s1"
    "gpr s1 = (gpr s)(RCX := ?a, R15 := ?a, RSP := q)" "ram s1 = ram s"
    by (simp add: q_def off8_def fun_upd_twist)
  have base: "i < 6 \<and> gpr s1 RSP + stack_xmm i = q + off8 (2 * i)" if "i \<in> set ?is" for i
    using that offsets(5) [of i] by (auto simp: s1(2) simp del: stack_xmm.simps)
  obtain s2 where s2: "exec alu (xmm_stores RSP stack_xmm ?is) s1 = Inr s2" "gpr s2 = gpr s1" "\<And>a. a \<notin> words_from q 12 \<Longrightarrow> ram s2 a = ram s1 a"
    by (rule exec_xmm_stores [OF q, of ?is s1 RSP stack_xmm alu]) (erule base, rule that)
  obtain s3 where s3: "exec alu [SubImm RSP 0x20] s2 = Inr s3" "gpr s3 = (gpr s2)(RSP := gpr s2 RSP - off8 4)" "ram s3 = ram s2"
    by (simp add: off8_def)
  show ?thesis
  proof (rule that [of s3])
    show "exec alu ([Mov RCX RSP, Mov R15 RSP, AndImm RSP 0xfffffffffffffff0, SubImm RSP 0x60] @ xmm_stores RSP stack_xmm ?is @ [SubImm RSP 0x20]) s = Inr s3"
      by (simp only: exec_append s1(1) s2(1) s3(1) asm_then_simps)
    show "gpr s3 RCX = ?a" by (simp add: s3 s2 s1)
    have "gpr s3 RSP = q - off8 4" by (simp add: s3 s2 s1)
    then show "aligned 4 (gpr s3 RSP)" using q by (simp add: aligned_diff aligned_off8)
    show "ram s3 (?a + off8 i) = ram s (?a + off8 i)" if "i < 30" for i
    proof -
      define k :: nat where "k = (if bit ?a 3 then 1 else 0)"
      have "q = ?a - off8 (12 + k)" unfolding q_def and_align [OF assms] k_def [symmetric] by (simp add: off8_add)
      then have a: "?a + off8 i = q + off8 (12 + k + i)" by (simp add: off8_add)
      have "q + off8 (12 + k + i) \<noteq> q + off8 j" if "j < 12" for j using field_inject [of "12 + k + i" j q] that \<open>i < 30\<close> by (simp add: k_def)
      then have "?a + off8 i \<notin> words_from q 12" unfolding a by (auto simp: words_from_def)
      then show ?thesis by (simp add: s3 s2 s1)
    qed
  qed
qed

lemma exec_push_imms: "exec alu (map PushImm vs) s = pushes vs s"
  by (induction vs arbitrary: s) (simp_all add: asm_then_def split: sum.splits)

lemma handle_exception_effect:
  assumes "length code \<le> 1" and "code = [] \<Longrightarrow> \<not> with_error_code n"
  obtains s1 where "handle_exception alu cs ss n code s = Inr s1" and "aligned 4 (gpr s1 RSP)"
    and "\<And>i. i < 22 \<Longrightarrow> ram s1 (gpr s1 RCX + off8 i) = rev (handler_words cs ss n code s) ! i"
proof -
  let ?vs = "handler_words cs ss n code s" and ?s0 = "set_gpr RSP (gpr s RSP AND 0xfffffffffffffff0) s"
  define hw where "hw = [ss, gpr s RSP, eflags s, cs, ip s] @ code"
  define stub where "stub = (if with_error_code n then [of_nat n] else [0, of_nat n] :: u64 list)"
  have vs: "?vs = (hw @ stub) @ map (gpr s) handler_regs" by (simp add: handler_words_def hw_def stub_def)
  have len: "22 \<le> length ?vs" "length ?vs < 30" using assms by (cases code; simp add: handler_words_def handler_regs_def)+
  have al: "aligned 3 (gpr ?s0 RSP)" using aligned_4_3 [OF aligned_and [of "gpr s RSP"]] by simp
  have "length ?vs < 900" "length (hw @ stub) < 900" using len(2) by (simp_all add: vs)
  obtain s1 where s1: "pushes (hw @ stub) ?s0 = Inr s1" "gpr s1 = (gpr ?s0)(RSP := gpr ?s0 RSP - off8 (length (hw @ stub)))"
    by (rule pushes_effect [OF al \<open>length (hw @ stub) < 900\<close>])
  obtain s2 where s2: "pushes ?vs ?s0 = Inr s2" "gpr s2 = (gpr ?s0)(RSP := gpr ?s0 RSP - off8 (length ?vs))"
    and w2: "\<And>i. i < length ?vs \<Longrightarrow> ram s2 (slot (gpr ?s0 RSP) i) = ?vs ! i"
    by (rule pushes_effect [OF al \<open>length ?vs < 900\<close>]) (rule that)
  have "RSP \<notin> set handler_regs" by (simp add: handler_regs_def)
  then have "map (gpr s1) handler_regs = map (gpr s) handler_regs" by (intro map_cong refl) (auto simp: s1(2))
  then have regs: "exec alu (map Push handler_regs) s1 = Inr s2"
    using exec_pushes_eq [OF \<open>RSP \<notin> set handler_regs\<close>, of alu s1] s2(1) unfolding vs pushes_append [of "hw @ stub"] s1(1) by (simp only: asm_then_simps)
  let ?tail = "[Mov RCX RSP, Mov R15 RSP, AndImm RSP 0xfffffffffffffff0, SubImm RSP 0x60] @ xmm_stores RSP stack_xmm [0, 1, 2, 3, 4, 5] @ [SubImm RSP 0x20]"
  have al2: "aligned 3 (gpr s2 RSP)" using al by (simp add: s2(2) aligned_intros)
  obtain s3 where s3: "exec alu ?tail s2 = Inr s3" "gpr s3 RCX = gpr s2 RSP" "aligned 4 (gpr s3 RSP)"
    and w3: "\<And>i. i < 30 \<Longrightarrow> ram s3 (gpr s2 RSP + off8 i) = ram s2 (gpr s2 RSP + off8 i)"
    by (rule common_tail [OF al2, of alu]) (rule that)
  have "asm_interrupt_handler n @ asm_interrupt_handler_common = map PushImm stub @ map Push handler_regs @ ?tail"
    by (simp add: asm_interrupt_handler_def stub_def asm_interrupt_handler_common_def handler_regs_def)
  moreover obtain sh where sh: "pushes hw ?s0 = Inr sh" "pushes stub sh = Inr s1"
    using s1(1) by (auto simp: pushes_append asm_then_def split: sum.splits)
  moreover have "exec alu (map PushImm stub @ map Push handler_regs @ ?tail) sh = Inr s3"
    by (rule exec_seq [OF exec_push_imms [of alu stub sh, unfolded sh(2)]], rule exec_seq [OF regs], rule s3(1))
  ultimately have run: "handle_exception alu cs ss n code s = Inr s3"
    by (simp only: handle_exception_def deliver_exception_def hw_def [symmetric] asm_then_simps)
  show ?thesis
  proof (rule that [OF run s3(3)])
    fix i :: nat assume "i < 22"
    then have i: "i < length ?vs" "i < 30" using len by simp_all
    have "gpr s2 RSP + off8 i = slot (gpr ?s0 RSP) (length ?vs - Suc i)" using frame_slot [OF i(1)] by (simp add: s2(2))
    then show "ram s3 (gpr s3 RCX + off8 i) = rev ?vs ! i" using w3 [OF i(2)] w2 [of "length ?vs - Suc i"] i(1) by (simp add: s3(2) rev_nth)
  qed
qed

text \<open>
  C26. When an exception occurs in the host, the handler of every vector reaches the call of
  \<open>handle_host_exception\<close> without a fault, with RSP aligned to 16 bytes as the calling convention has it, whatever the
  stack pointer was, and with RCX pointing to a \<open>HostExceptionStack\<close> with the registers of the interrupted code and the
  vector in their fields. For every vector but 29 and 30 the error code (0 where the processor pushes none), RIP, CS, RFLAGS, RSP and
  SS are in their fields, too. For 29 (#VC) and 30 (#SX) of AMD, which come with an error code although their handlers
  push a zero as if there were none, the six fields are one word off: the error code is in the field of RIP, RIP in that of CS, and so on,
  and SS is lost.\<close>

theorem exception_stack_correct:
  assumes "n < 256" and "code \<noteq> [] \<longleftrightarrow> pushes_error_code n" and "length code \<le> 1"
  shows "\<exists>s1. handle_exception alu cs ss n code s = Inr s1 \<and> aligned 4 (gpr s1 RSP)
    \<and> exception_stack_at (ram s1) (gpr s1 RCX) =
       (let st = \<lparr>ex_r15 = gpr s R15, ex_r14 = gpr s R14, ex_r13 = gpr s R13, ex_r12 = gpr s R12, ex_r11 = gpr s R11, ex_r10 = gpr s R10,
          ex_r9 = gpr s R9, ex_r8 = gpr s R8, ex_rdi = gpr s RDI, ex_rsi = gpr s RSI, ex_rbp = gpr s RBP, ex_rbx = gpr s RBX,
          ex_rdx = gpr s RDX, ex_rcx = gpr s RCX, ex_rax = gpr s RAX, exception_number = of_nat n,
          error_code = (if code = [] then 0 else hd code), ex_rip = ip s, ex_cs = cs, ex_rflags = eflags s, ex_rsp = gpr s RSP, ex_ss = ss\<rparr>
        in if n = 29 \<or> n = 30
           then st\<lparr>error_code := 0, ex_rip := hd code, ex_cs := ip s, ex_rflags := cs, ex_rsp := eflags s, ex_ss := gpr s RSP\<rparr>
           else st)"
proof -
  have e: "code = [] \<Longrightarrow> \<not> with_error_code n" "n \<noteq> 29 \<and> n \<noteq> 30 \<Longrightarrow> code \<noteq> [] \<longleftrightarrow> with_error_code n"
    "n = 29 \<or> n = 30 \<Longrightarrow> code \<noteq> [] \<and> \<not> with_error_code n"
    using assms(2) by (auto simp: pushes_error_code_def with_error_code_def)
  obtain s1 where s1: "handle_exception alu cs ss n code s = Inr s1" "aligned 4 (gpr s1 RSP)"
    and w: "\<And>i. i < 22 \<Longrightarrow> ram s1 (gpr s1 RCX + off8 i) = rev (handler_words cs ss n code s) ! i"
    by (rule handle_exception_effect [OF assms(3), of n alu cs ss s]) (use e in blast, rule that)
  have "rev (handler_words cs ss n code s) = map (gpr s) (rev handler_regs) @ (if n = 29 \<or> n = 30
      then [of_nat n, 0, hd code, ip s, cs, eflags s, gpr s RSP, ss]
      else [of_nat n, if code = [] then 0 else hd code, ip s, cs, eflags s, gpr s RSP, ss])"
    using e assms(3) by (cases code) (auto simp: handler_words_def rev_map)
  then show ?thesis using s1 by (intro exI [of _ s1]) (simp add: exception_stack_at_def w handler_regs_def)
qed

theorem exception_stack_correct_witness:
  "\<exists>s1. handle_exception (\<lambda>_ _. 2) 0x10 0x18 14 [4] \<lparr>gpr = (\<lambda>_. 0x8003), xmms = (\<lambda>_. \<lparr>xmm_low = 0, xmm_high = 0\<rparr>), eflags = 2, ram = (\<lambda>_. 0), ip = 0x400\<rparr> = Inr s1
     \<and> aligned 4 (gpr s1 RSP) \<and> error_code (exception_stack_at (ram s1) (gpr s1 RCX)) = 4"
  using exception_stack_correct [of 14 "[4]" "\<lambda>_ _. 2" "0x10" "0x18"
      "\<lparr>gpr = (\<lambda>_. 0x8003), xmms = (\<lambda>_. \<lparr>xmm_low = 0, xmm_high = 0\<rparr>), eflags = 2, ram = (\<lambda>_. 0), ip = 0x400\<rparr>"]
  by (auto simp: pushes_error_code_def)

text \<open>
  #VC and #SX of AMD come with an error code, but their handlers push a zero as if there were none: the fields from
  \<open>rip\<close> on are one word off.
\<close>

lemma amd_exceptions_shifted:
  assumes "n = 29 \<or> n = 30"
  shows "\<exists>s1. handle_exception alu cs ss n [c] s = Inr s1
    \<and> (let st = exception_stack_at (ram s1) (gpr s1 RCX) in error_code st = 0 \<and> ex_rip st = c \<and> ex_cs st = ip s \<and> ex_ss st = gpr s RSP)"
proof -
  have e: "\<not> with_error_code n" using assms by (auto simp: with_error_code_def)
  obtain s1 where s1: "handle_exception alu cs ss n [c] s = Inr s1"
    and w: "\<And>i. i < 22 \<Longrightarrow> ram s1 (gpr s1 RCX + off8 i) = rev (handler_words cs ss n [c] s) ! i"
    by (rule handle_exception_effect [of "[c]" n alu cs ss s]) (simp, use e in blast, rule that)
  have "rev (handler_words cs ss n [c] s) = map (gpr s) (rev handler_regs) @ [of_nat n, 0, c, ip s, cs, eflags s, gpr s RSP, ss]"
    using e by (auto simp: handler_words_def rev_map)
  then show ?thesis using s1 by (intro exI [of _ s1]) (simp add: exception_stack_at_def w handler_regs_def)
qed

end
