(* ===== verification/Spec2Isabelle.thy ===== *)
theory Spec2Isabelle
  imports Guest_Memory Vmcs_Debug Windows Vendor_Check Xtask Sipi Assembly_Guest Assembly_Exceptions
begin

text \<open>
  \<^bold>\<open>Verification of the barevisor hypervisor\<close>

  barevisor virtualizes a running system: the platform (a Windows driver or a UEFI
  application) hands it a heap and a way to run code on every processor, and the core under
  \<open>src/src/hvcore/src/hypervisor\<close> turns each processor into a guest of itself. On every
  processor \<open>virtualize_system\<close> captures the registers, switches to a new stack and enters the
  host loop, which runs the guest and handles its VM exits until the guest asks to be
  devirtualized. This library is a shallow embedding of the core, of both platforms, of the
  vendor checkers and of the build tool: every function of the Rust code is a HOL function,
  every panic a value.

  \<^bold>\<open>Theories and sources\<close> (paths relative to \<open>hvcore/src/hypervisor\<close>)

  \<^item> \<open>Prelude\<close>: machine integers, panics (\<open>'a rust\<close>), checked arithmetic, bit fields, \<open>Once\<close> cells.
  \<^item> \<open>Allocator\<close> (\<open>allocator.rs\<close>): the heap of two block pools. The locale \<open>heap_allocator\<close> states the
    contract of an allocator and proves the safety of every sequence of calls; it is
    interpreted on the model of the code. \<open>Support\<close> (\<open>support.rs\<close>, \<open>switch_stack.rs\<close>) are its clients.
  \<^item> \<open>Segment\<close> (\<open>segment.rs\<close> with its unit test, and the descriptor functions of \<open>amd/guest.rs\<close>),
    \<open>Machine\<close> (\<open>registers.rs\<close>, \<open>x86_instructions.rs\<close>): descriptors, the processor's registers and the
    wrappers of instructions.
  \<^item> \<open>Paging\<close> (\<open>paging_structures.rs\<close>), \<open>Npts\<close> (\<open>amd/npts.rs\<close>), \<open>Mtrr\<close> (\<open>intel/mtrr.rs\<close>), \<open>Epts\<close>
    (\<open>intel/epts.rs\<close>): the page tables of the host and of both vendors' second level
    translation, against the walk of the processor, and the memory types.
  \<^item> \<open>Platform_Ops\<close> (\<open>platform_ops.rs\<close>): the trait as a record, its registration, and the locale
    \<open>platform\<close>, which is the documented contract of \<open>run_on_all_processors\<close>: the callback runs on one
    processor after the other.
  \<^item> \<open>Apic_Id\<close> (\<open>apic_id.rs\<close>), \<open>Gdt_Tss\<close> (\<open>gdt_tss.rs\<close>), \<open>Interrupts\<close> (\<open>interrupt_handlers.rs\<close>),
    \<open>Host_Data\<close> (\<open>SharedHostData\<close> of \<open>mod.rs\<close>): processor numbers and the host's own tables.
  \<^item> \<open>Host\<close> (\<open>host.rs\<close>): the handlers and the host loop over the traits \<open>Extension\<close> and \<open>Guest\<close>, which
    are the record \<open>architecture\<close>. The locale \<open>host_arch\<close> states what the host relies on and proves
    that the processor can always be given back; both vendors interpret it.
  \<^item> \<open>Vmx\<close>, \<open>Vmx_Guest\<close>, \<open>Vmx_Properties\<close>, \<open>Vmcs_Debug\<close> (\<open>intel/vmx.rs\<close>, \<open>intel/guest.rs\<close>) and \<open>Svm\<close>,
    \<open>Svm_Guest\<close>, \<open>Svm_Properties\<close> (\<open>amd/svm.rs\<close>, \<open>amd/guest.rs\<close>): the two implementations, and the dump of
    the VMCS. \<open>Guest_Memory\<close>: the data that all guests share and the memory that a guest sees.
  \<^item> \<open>Assembly\<close> (\<open>capture_registers.S\<close>, \<open>restore_registers.S\<close>, both \<open>run_guest.S\<close>, \<open>interrupt_handlers.S\<close>, the
    assembly of \<open>switch_stack.rs\<close> and the methods of \<open>Registers\<close>): the routines as lists of instructions
    over registers, flags and memory. \<open>Assembly_Properties\<close>: addresses, blocks of pushes, pops and
    moves, capture and restore; \<open>Assembly_Guest\<close>: the frame and the blocks that both \<open>run_guest.S\<close> share;
    \<open>Assembly_Exceptions\<close>: from the delivery of an exception to the call of the Rust handler.
  \<^item> \<open>Sipi\<close> (\<open>amd/guest.rs\<close>): the start-up of application processors on AMD as a protocol over shared
    memory, a step relation over all interleavings, its refinement of the wait-for-SIPI automaton
    and its progress on infinite fair runs.
  \<^item> \<open>System\<close>, \<open>System_Properties\<close> (\<open>mod.rs\<close>, \<open>host::main\<close>, \<open>hypercall.rs\<close>): all processors together, over
    the registered platform. The locale \<open>hypervisor_platform\<close> extends \<open>platform\<close> with what the
    hypervisor does on it; \<open>wf_system\<close> is the invariant of the whole state.
  \<^item> \<open>Windows\<close> (\<open>windows/win_hv/src\<close>) and \<open>Uefi\<close> (\<open>uefi/uefi_hv/src\<close>): the two platforms and their entry
    points. The locales \<open>windows_kernel\<close> and \<open>uefi_firmware\<close> state what the kernel and the firmware
    promise; each is a sublocale of \<open>hypervisor_platform\<close>.
  \<^item> \<open>Logging\<close> (\<open>serial_logger.rs\<close>, \<open>panic.rs\<close>, and \<open>logger.rs\<close> and \<open>eprintln.rs\<close> of the Windows driver): the
    loggers, their registration and the panic handler; calls of the serial logger on several
    processors as interleaved sequences of single accesses to the mutex and the port.
  \<^item> \<open>Vendor_Check\<close> (\<open>check_hv_vendor\<close> of both platforms) and \<open>Xtask\<close> (\<open>uefi/xtask/src\<close>): the programs
    around the hypervisor.

  \<^bold>\<open>What is shown\<close>

  \<^item> Loading and unloading: C1, C2, C3, C29 for the system (every processor is virtualized and given
    back; the state stays well-formed; exactly when the call returns, what stops it otherwise, and that it
    does not hang; a second load is refused); C30, C31 for
    the Windows driver, C32 for the UEFI application, C33 for what the checkers print; C7, C8 that
    the unload cannot fail after any handled VM exits; C6, C28 what is restored; C15, C16 every
    field of the control structure after its initialization, with what is carried over from the
    processor and what is not; C38 when VMX can be enabled.
  \<^item> The assembly: C12 that a restore continues behind the capture with the captured registers,
    C13, C14 that the two \<open>run_guest.S\<close> save and restore both sets of registers and give what
    \<open>enter_guest\<close> and \<open>run_svm_guest\<close> give to the rest of the model; C26 the exception handlers of all
    vectors.
  \<^item> Starting processors: C4, C22, C23 the protocol on AMD (refinement of the wait-for-SIPI
    automaton, the start in every fair run, agreement with the handlers), C17, C18 its handlers,
    with writes to the APIC page against an independent decoder of x86 stores; C27 every field
    after INIT on Intel.
  \<^item> VM exits: C21; control fields: C37.
  \<^item> Address translation and memory types: C9, C10, C11, C24, C25, C36; what a guest reaches through
    them, C19 on Intel with the controls that switch EPT and MSR bitmaps on, C20 on AMD for all
    guests that share the nested tables while processors change them.
  \<^item> Memory: C5, C35. Logging: C39, C40. The build tool: C34.

  Some of them pin down behaviour that is not what the code intends (the pages next to the
  APIC page in C10, the registers that C16 shows not to be carried over, the lost registers in
  C18, the lookup of undefined overlaps in C24, the shifted fields of two vectors in C26, the lost EFER in C28); the
  lemmas \<open>fixed_mtrr_lookup\<close> (the byte order), \<open>full_gdt_rejected\<close>, \<open>init_accepts_misaligned_heap\<close>,
  \<open>mtrr_find_misses_inner_range\<close>, \<open>ept_build_spurious_panic\<close>, \<open>appended_tss_base\<close>, \<open>dbg_print_long_panics\<close>,
  \<open>amd_exceptions_shifted\<close> and \<open>transmuted_elsewhere\<close> do the same for single components.

  \<^bold>\<open>Parameters and bounds\<close>

  \<^item> What the hardware does while the guest runs is not code of the repository: \<open>run\<close> takes the VM
    exit (or the failure of the entry) as an argument, arbitrary in the theorems. The endless
    host loop is a recursion over the sequence of exits; the theorems hold for every finite
    sequence. Writes of other processors to shared data are part of the exit.
  \<^item> A busy wait is given the values that its loads observe; when they end before the wait
    does, the result is \<open>NoReturn\<close>. A result \<open>Inr\<close> therefore means that the code returns.
  \<^item> CPUID, the translation \<open>pa\<close> of the platform, the addresses of boxes and stubs, the set of known
    bits of XCR0, and whether the build checks arithmetic overflow are arguments.
  \<^item> The memory of the assembly is a function from the addresses of 8-byte words; an access that
    is not aligned is not modelled (\<open>Unaligned\<close>), and the theorems show that there is none. The arithmetic
    flags are an arbitrary function. What VMRUN, VMRESUME and VMLAUNCH leave is an argument; the
    hypotheses say that the guest does not change the frame and the structure and that the processor
    reloads the host stack pointer.
  \<^item> Fairness, in C22, means that the processor takes its next step in the code again and again;
    the other processors are arbitrary. The AMD guests of C20 read the same APIC base.
  \<^item> The hypercall instruction has the number in RAX; where the processor was when it executed it
    is the argument \<open>core_hypercall\<close>.
  \<^item> The services of the Windows kernel, of the firmware and of the operating system of the
    build tool are records of functions.

  \<^bold>\<open>Not modelled\<close>

  The faults of the instructions in the wrappers other than the VMX instructions (the comment of
  \<open>handle_rdmsr\<close> names the general protection fault of RDMSR; it would end in \<open>handle_host_exception\<close>); the
  code behind the call in \<open>asm_interrupt_handler_common\<close>, which is not reached; reserved bytes of the VMCB;
  the log messages of the host and the console messages of the UEFI application and the Windows
  driver, with the registration of their loggers in the entry points; the allocation of the boxes for the
  control structures and tables, whose addresses are arguments; VMREAD and VMWRITE of a field that the processor does not
  have; the panic handlers of the platforms apart from \<open>panic_impl\<close>; the layout of \<open>Debug\<close> output.
\<close>

end
